(* ===== verification/Waros_Prelude.thy ===== *)
theory Waros_Prelude
  imports Main "HOL-Library.Word" "HOL-Library.Char_ord" "HOL-Library.List_Lexorder"
    "HOL-Library.Sublist" "HOL-Library.Multiset"
begin

text \<open>
  The prelude of the WarOS development: the machine integer types of the Rust sources, Rust's
  \<open>Result\<close> as a sum, saturating and checked arithmetic, little-endian encodings, and the facts on
  lists that the components share.

  Conventions. A \<open>uN\<close> of the source is an \<open>N word\<close>, so that \<open>+\<close> wraps as it does in the
  kernel's release profile (no overflow checks). A \<open>usize\<close> is a \<open>nat\<close> wherever it is a
  length or an index of a vector that exists in memory; where the source saturates, the bound
  \<open>usize_max\<close> is written out. A Rust string is the list of its UTF-8 bytes, one \<open>char\<close> per
  byte. The tick counter read by \<open>interrupts::tick_count\<close> is an argument \<open>now\<close>.
\<close>

unbundle bit_operations_syntax

named_theorems waros_defs \<open>definitions of the model that proofs unfold\<close>
named_theorems waros_inv \<open>preservation of the component invariants\<close>

section \<open>Machine integers\<close>

type_synonym u8 = "8 word"
type_synonym u16 = "16 word"
type_synonym u32 = "32 word"
type_synonym u64 = "64 word"
type_synonym i32 = "32 word"
type_synonym i64 = "64 word"

abbreviation usize_max :: nat where
  "usize_max \<equiv> 2 ^ 64 - 1"

definition usize_sat_add :: "nat \<Rightarrow> nat \<Rightarrow> nat" where
  "usize_sat_add a b = min (a + b) usize_max"

definition sat_add :: "'a::len word \<Rightarrow> 'a word \<Rightarrow> 'a word" where
  "sat_add a b = (if unat a + unat b < 2 ^ LENGTH('a) then a + b else - 1)"

definition sat_sub :: "'a::len word \<Rightarrow> 'a word \<Rightarrow> 'a word" where
  "sat_sub a b = (if b \<le> a then a - b else 0)"

definition checked_add :: "'a::len word \<Rightarrow> 'a word \<Rightarrow> 'a word option" where
  "checked_add a b = (if unat a + unat b < 2 ^ LENGTH('a) then Some (a + b) else None)"

definition checked_sub :: "'a::len word \<Rightarrow> 'a word \<Rightarrow> 'a word option" where
  "checked_sub a b = (if b \<le> a then Some (a - b) else None)"

lemma unat_add_no_wrap:
  fixes a b :: "'a::len word"
  assumes "unat a + unat b < 2 ^ LENGTH('a)"
  shows "unat (a + b) = unat a + unat b"
  using assms by (simp add: unat_word_ariths)

lemma unat_sub_no_wrap:
  fixes a b :: "'a::len word"
  assumes "b \<le> a"
  shows "unat (a - b) = unat a - unat b"
  using assms by (simp add: unat_sub)

lemma checked_add_Some:
  fixes a b :: "'a::len word"
  shows "checked_add a b = Some c \<longleftrightarrow> unat c = unat a + unat b"
  by (auto simp: checked_add_def unat_add_no_wrap word_unat_eq_iff unat_word_ariths
      split: if_splits) (metis unsigned_less)

lemma checked_sub_Some:
  fixes a b :: "'a::len word"
  shows "checked_sub a b = Some c \<longleftrightarrow> b \<le> a \<and> unat c = unat a - unat b"
  by (auto simp: checked_sub_def unat_sub_no_wrap word_unat_eq_iff)

lemma unat_sat_add:
  fixes a b :: "'a::len word"
  shows "unat (sat_add a b) = min (unat a + unat b) (2 ^ LENGTH('a) - 1)"
  by (auto simp: sat_add_def unat_add_no_wrap unsigned_minus_1_eq_mask mask_eq_exp_minus_1)

lemma unat_sat_sub: "unat (sat_sub a b) = unat a - unat b"
  by (auto simp: sat_sub_def unat_sub_no_wrap word_le_nat_alt)

lemma sat_add_ge1:
  fixes a b :: "'a::len word"
  shows "unat a \<le> unat (sat_add a b)"
proof -
  have "unat a < 2 ^ LENGTH('a)" by simp
  then show ?thesis by (simp add: unat_sat_add del: unsigned_less)
qed

lemma word_or_eq_0: "a OR b = 0 \<longleftrightarrow> a = 0 \<and> b = (0 :: 'a::len word)"
  by (auto simp: bit_eq_iff bit_or_iff)

lemma word_xor_eq_0: "a XOR b = 0 \<longleftrightarrow> a = (b :: 'a::len word)"
  by (auto simp: bit_eq_iff bit_xor_iff)

section \<open>Results\<close>

text \<open>Rust's \<open>Result<T, E>\<close> is \<open>E + T\<close>; the \<open>?\<close> operator is \<open>result_bind\<close>.\<close>

abbreviation Err :: "'e \<Rightarrow> 'e + 'a" where
  "Err \<equiv> Inl"

abbreviation Ok :: "'a \<Rightarrow> 'e + 'a" where
  "Ok \<equiv> Inr"

definition result_bind :: "'e + 'a \<Rightarrow> ('a \<Rightarrow> 'e + 'b) \<Rightarrow> 'e + 'b" where
  "result_bind r f = (case r of Inl e \<Rightarrow> Inl e | Inr x \<Rightarrow> f x)"

lemma result_bind_simps [simp]:
  "result_bind (Inl e) f = Inl e"
  "result_bind (Inr x) f = f x"
  by (simp_all add: result_bind_def)

lemma result_bind_eq_Ok [simp]:
  "result_bind r f = Inr y \<longleftrightarrow> (\<exists>x. r = Inr x \<and> f x = Inr y)"
  by (cases r) auto

lemma result_bind_cong [fundef_cong]:
  "r = r' \<Longrightarrow> (\<And>x. r' = Inr x \<Longrightarrow> f x = g x) \<Longrightarrow> result_bind r f = result_bind r' g"
  by (cases r') auto

definition ok_or :: "'a option \<Rightarrow> 'e \<Rightarrow> 'e + 'a" where
  "ok_or x e = (case x of None \<Rightarrow> Inl e | Some y \<Rightarrow> Inr y)"

lemma ok_or_simps [simp]:
  "ok_or None e = Inl e"
  "ok_or (Some x) e = Inr x"
  by (simp_all add: ok_or_def)

lemma ok_or_eq_Ok [simp]: "ok_or x e = Inr y \<longleftrightarrow> x = Some y"
  by (cases x) auto

text \<open>Fallible operations on a state: \<open>return_op\<close> is \<open>Ok\<close>, \<open>bind_op\<close> is \<open>?\<close> between two statements.\<close>

type_synonym ('s, 'e, 'a) op = "'s \<Rightarrow> ('e + 'a) \<times> 's"

definition return_op :: "'a \<Rightarrow> ('s, 'e, 'a) op" where
  "return_op x s = (Ok x, s)"

definition fail_op :: "'e \<Rightarrow> ('s, 'e, 'a) op" where
  "fail_op e s = (Err e, s)"

definition bind_op :: "('s, 'e, 'a) op \<Rightarrow> ('a \<Rightarrow> ('s, 'e, 'b) op) \<Rightarrow> ('s, 'e, 'b) op" where
  "bind_op m f s = (case m s of (Inl e, s') \<Rightarrow> (Err e, s') | (Inr x, s') \<Rightarrow> f x s')"

lemma bind_op_Ok:
  "bind_op m f s = (Inr y, s') \<longleftrightarrow> (\<exists>x s1. m s = (Inr x, s1) \<and> f x s1 = (Inr y, s'))"
  by (auto simp: bind_op_def split: prod.splits sum.splits)

section \<open>Vectors searched by a key\<close>

text \<open>
  Several components keep a \<open>Vec\<close> of records and reach a record through
  \<open>iter().find(|e| e.key == k)\<close>, its mutable variant, \<open>position\<close> and \<open>retain\<close>. The first
  match wins; \<open>update_first\<close> is a mutation through \<open>iter_mut().find\<close>, \<open>remove_first\<close> is
  \<open>position\<close> followed by \<open>Vec::remove\<close>.
\<close>

primrec update_first :: "('e \<Rightarrow> bool) \<Rightarrow> ('e \<Rightarrow> 'e) \<Rightarrow> 'e list \<Rightarrow> 'e list" where
  "update_first P f [] = []"
| "update_first P f (x # xs) = (if P x then f x # xs else x # update_first P f xs)"

primrec remove_first :: "('e \<Rightarrow> bool) \<Rightarrow> 'e list \<Rightarrow> 'e list" where
  "remove_first P [] = []"
| "remove_first P (x # xs) = (if P x then xs else x # remove_first P xs)"

primrec find_index :: "('e \<Rightarrow> bool) \<Rightarrow> 'e list \<Rightarrow> nat option" where
  "find_index P [] = None"
| "find_index P (x # xs) = (if P x then Some 0 else map_option Suc (find_index P xs))"

lemma length_update_first [simp]: "length (update_first P f xs) = length xs"
  by (induction xs) auto

lemma update_first_none [simp]: "(\<forall>x \<in> set xs. \<not> P x) \<Longrightarrow> update_first P f xs = xs"
  by (induction xs) auto

lemma map_update_first_same:
  "(\<And>x. g (f x) = g x) \<Longrightarrow> map g (update_first P f xs) = map g xs"
  by (induction xs) auto

lemma set_update_first_subset: "set (update_first P f xs) \<subseteq> set xs \<union> f ` {x \<in> set xs. P x}"
  by (induction xs) auto

lemma set_remove_first_subset: "set (remove_first P xs) \<subseteq> set xs"
  by (induction xs) auto

lemma length_remove_first_le: "length (remove_first P xs) \<le> length xs"
  by (induction xs) auto

lemma remove_first_filter:
  "distinct (map key xs) \<Longrightarrow> remove_first (\<lambda>x. key x = k) xs = filter (\<lambda>x. key x \<noteq> k) xs"
proof (induction xs)
  case (Cons a xs)
  then have "key a = k \<Longrightarrow> filter (\<lambda>x. key x \<noteq> k) xs = xs"
    by (auto simp: filter_id_conv image_iff)
  with Cons show ?case by auto
qed simp

lemma update_first_map:
  "distinct (map key xs) \<Longrightarrow>
    update_first (\<lambda>x. key x = k) f xs = map (\<lambda>x. if key x = k then f x else x) xs"
proof (induction xs)
  case (Cons a xs)
  then have "key a = k \<Longrightarrow> map (\<lambda>x. if key x = k then f x else x) xs = xs"
    by (auto intro!: map_idI simp: image_iff)
  with Cons show ?case by auto
qed simp

lemma find_update_first_same:
  assumes "\<And>x. key x = k \<Longrightarrow> key (f x) = k"
  shows "find (\<lambda>x. key x = k) (update_first (\<lambda>x. key x = k) f xs)
    = map_option f (find (\<lambda>x. key x = k) xs)"
  using assms by (induction xs) auto

lemma find_update_first_other:
  assumes "j \<noteq> k" and "\<And>x. key x = k \<Longrightarrow> key (f x) = k"
  shows "find (\<lambda>x. key x = j) (update_first (\<lambda>x. key x = k) f xs) = find (\<lambda>x. key x = j) xs"
  using assms by (induction xs) auto

lemma find_filter_key_other:
  "j \<noteq> k \<Longrightarrow> find (\<lambda>x. key x = j) (filter (\<lambda>x. key x \<noteq> k) xs) = find (\<lambda>x. key x = j) xs"
  by (induction xs) auto

lemma find_filter_key_same: "find (\<lambda>x. key x = k) (filter (\<lambda>x. key x \<noteq> k) xs) = None"
  by (simp add: find_None_iff)

lemma find_key_unique:
  assumes "distinct (map key xs)" and "x \<in> set xs"
  shows "find (\<lambda>y. key y = key x) xs = Some x"
  using assms by (induction xs) auto

lemma find_key_perm:
  assumes "distinct (map key xs)" and "set xs = set ys" and "distinct (map key ys)"
  shows "find (\<lambda>y. key y = k) xs = find (\<lambda>y. key y = k) ys"
proof (cases "find (\<lambda>y. key y = k) xs")
  case None
  then show ?thesis using assms(2) by (metis find_None_iff)
next
  case (Some x)
  then have "x \<in> set xs" and "key x = k"
    by (auto simp: find_Some_iff)
  with assms have "find (\<lambda>y. key y = key x) ys = Some x"
    by (intro find_key_unique) auto
  with Some \<open>key x = k\<close> show ?thesis by simp
qed

lemma find_key_Some: "find (\<lambda>x. key x = k) xs = Some e \<Longrightarrow> e \<in> set xs \<and> key e = k"
  by (auto simp: find_Some_iff)

lemma find_key_None: "find (\<lambda>x. key x = k) xs = None \<longleftrightarrow> k \<notin> key ` set xs"
  by (auto simp: find_None_iff)

lemma find_key_map_of: "find (\<lambda>x. key x = k) xs = map_of (map (\<lambda>x. (key x, x)) xs) k"
  by (induction xs) auto

text \<open>Rust's \<open>sort_by\<close> on a key is stable, as \<open>sort_key\<close> is; it only permutes.\<close>

lemma distinct_map_sort_key [simp]: "distinct (map g (sort_key f xs)) = distinct (map g xs)"
  by (rule mset_eq_imp_distinct_iff) simp

lemma sum_list_map_sort_key [simp]:
  fixes g :: "'a \<Rightarrow> nat"
  shows "sum_list (map g (sort_key f xs)) = sum_list (map g xs)"
  by (simp flip: sum_mset_sum_list)

lemma find_key_sort_key:
  "distinct (map key xs) \<Longrightarrow>
    find (\<lambda>y. key y = k) (sort_key f xs) = find (\<lambda>y. key y = k) xs"
  by (rule find_key_perm) simp_all

lemma find_SomeD: "find P xs = Some x \<Longrightarrow> x \<in> set xs \<and> P x"
  by (induction xs) (auto split: if_splits)

lemma find_exists: "\<exists>x \<in> set xs. P x \<Longrightarrow> \<exists>y. find P xs = Some y"
  by (induction xs) auto

lemma foldl_max_ge:
  fixes a :: "'a::linorder"
  shows "a \<le> foldl max a xs \<and> (\<forall>x\<in>set xs. x \<le> foldl max a xs)"
proof (induction xs arbitrary: a)
  case (Cons x xs)
  from Cons.IH [of "max a x"] show ?case by simp
qed simp

lemma foldl_max_in: "foldl max a xs = a \<or> foldl max a xs \<in> set xs" for a :: "'a::linorder"
  by (induction xs arbitrary: a) (auto simp: max_def split: if_splits)

lemma find_append: "find P (xs @ ys) = (case find P xs of None \<Rightarrow> find P ys | Some x \<Rightarrow> Some x)"
  by (induction xs) auto

lemma find_key_insert_sorted:
  assumes "distinct (map key xs)" and "key x \<notin> key ` set xs"
  shows "find (\<lambda>y. key y = k) (sort_key f (xs @ [x]))
    = (if k = key x then Some x else find (\<lambda>y. key y = k) xs)"
proof -
  have "find (\<lambda>y. key y = k) (sort_key f (xs @ [x])) = find (\<lambda>y. key y = k) (xs @ [x])"
    using assms by (intro find_key_sort_key) auto
  moreover have "k = key x \<Longrightarrow> find (\<lambda>y. key y = k) xs = None"
    using assms(2) by (simp add: find_key_None)
  ultimately show ?thesis by (auto simp: find_append split: option.splits)
qed

section \<open>Little-endian encodings\<close>

text \<open>
  \<open>to_le_bytes\<close> and \<open>from_le_bytes\<close> of the unsigned integers, for a width of \<open>n\<close> bytes.
\<close>

primrec le_bytes_nat :: "nat \<Rightarrow> nat \<Rightarrow> u8 list" where
  "le_bytes_nat 0 x = []"
| "le_bytes_nat (Suc n) x = word_of_nat x # le_bytes_nat n (x div 256)"

primrec le_val_nat :: "u8 list \<Rightarrow> nat" where
  "le_val_nat [] = 0"
| "le_val_nat (b # bs) = unat b + 256 * le_val_nat bs"

definition to_le_bytes :: "'a::len word \<Rightarrow> u8 list" where
  "to_le_bytes w = le_bytes_nat (LENGTH('a) div 8) (unat w)"

definition from_le_bytes :: "u8 list \<Rightarrow> 'a::len word" where
  "from_le_bytes bs = word_of_nat (le_val_nat bs)"

lemma length_le_bytes_nat [simp]: "length (le_bytes_nat n x) = n"
  by (induction n arbitrary: x) auto

lemma length_to_le_bytes [simp]: "length (to_le_bytes (w :: 'a::len word)) = LENGTH('a) div 8"
  by (simp add: to_le_bytes_def)

lemma le_val_le_bytes: "le_val_nat (le_bytes_nat n x) = x mod 256 ^ n"
proof (induction n arbitrary: x)
  case 0
  then show ?case by simp
next
  case (Suc n)
  have "le_val_nat (le_bytes_nat (Suc n) x) = x mod 256 + 256 * ((x div 256) mod 256 ^ n)"
    using Suc by (simp add: unat_of_nat)
  also have "\<dots> = x mod (256 * 256 ^ n)"
    by (simp add: mod_mult2_eq)
  finally show ?case by simp
qed

lemma from_to_le_bytes:
  assumes "8 dvd LENGTH('a::len)"
  shows "from_le_bytes (to_le_bytes (w :: 'a word)) = w"
proof -
  have "(256::nat) ^ (LENGTH('a) div 8) = 2 ^ LENGTH('a)"
  proof -
    obtain k where "LENGTH('a) = 8 * k" using assms by (elim dvdE)
    then show ?thesis by (simp add: power_mult)
  qed
  then have "unat w mod 256 ^ (LENGTH('a) div 8) = unat w"
    by simp
  then show ?thesis
    by (simp add: from_le_bytes_def to_le_bytes_def le_val_le_bytes)
qed

text \<open>The \<open>n\<close> bytes at an offset, and the integer they encode.\<close>

definition bytes_at :: "u8 list \<Rightarrow> nat \<Rightarrow> nat \<Rightarrow> u8 list" where
  "bytes_at data offset n = take n (drop offset data)"

definition int_at :: "u8 list \<Rightarrow> nat \<Rightarrow> 'a::len word" where
  "int_at data offset = from_le_bytes (bytes_at data offset (LENGTH('a) div 8))"

lemma int_at_append:
  fixes w :: "'a::len word"
  assumes "8 dvd LENGTH('a)" and "length xs = offset"
  shows "int_at (xs @ to_le_bytes w @ ys) offset = w"
  using assms by (simp add: int_at_def bytes_at_def from_to_le_bytes)

lemma bytes_at_append: "length xs = offset \<Longrightarrow> length bs = n \<Longrightarrow> bytes_at (xs @ bs @ ys) offset n = bs"
  by (simp add: bytes_at_def)

end
