(* ===== verification/Rust_Str.thy ===== *)
theory Rust_Str
  imports Waros_Prelude
begin

text \<open>
  The operations of Rust's \<open>str\<close> that the kernel uses, on strings as lists of UTF-8 bytes:
  \<open>trim\<close> (Unicode white space), \<open>split\<close> on a character, \<open>starts_with\<close>, \<open>strip_prefix\<close>,
  \<open>trim_end_matches\<close>, \<open>rfind\<close>, \<open>rsplit(c).next()\<close>, the ASCII classes and the decimal
  formatting of an unsigned integer.
\<close>

section \<open>Trimming\<close>

text \<open>
  The UTF-8 encodings of the characters with the Unicode property \<open>White_Space\<close>. UTF-8 is
  self-synchronising, so on a valid string the last character is one of these exactly when the
  string ends with its encoding.
\<close>

definition ws_encodings :: "string list" where
  "ws_encodings =
    [[CHR 0x09], [CHR 0x0A], [CHR 0x0B], [CHR 0x0C], [CHR 0x0D], [CHR 0x20],
     [CHR 0xC2, CHR 0x85], [CHR 0xC2, CHR 0xA0], [CHR 0xE1, CHR 0x9A, CHR 0x80],
     [CHR 0xE2, CHR 0x80, CHR 0x80], [CHR 0xE2, CHR 0x80, CHR 0x81],
     [CHR 0xE2, CHR 0x80, CHR 0x82], [CHR 0xE2, CHR 0x80, CHR 0x83],
     [CHR 0xE2, CHR 0x80, CHR 0x84], [CHR 0xE2, CHR 0x80, CHR 0x85],
     [CHR 0xE2, CHR 0x80, CHR 0x86], [CHR 0xE2, CHR 0x80, CHR 0x87],
     [CHR 0xE2, CHR 0x80, CHR 0x88], [CHR 0xE2, CHR 0x80, CHR 0x89],
     [CHR 0xE2, CHR 0x80, CHR 0x8A], [CHR 0xE2, CHR 0x80, CHR 0xA8],
     [CHR 0xE2, CHR 0x80, CHR 0xA9], [CHR 0xE2, CHR 0x80, CHR 0xAF],
     [CHR 0xE2, CHR 0x81, CHR 0x9F], [CHR 0xE3, CHR 0x80, CHR 0x80]]"

definition ws_at :: "string list \<Rightarrow> string \<Rightarrow> nat" where
  "ws_at encs s = (case find (\<lambda>w. prefix w s) encs of None \<Rightarrow> 0 | Some w \<Rightarrow> length w)"

function trim_with :: "string list \<Rightarrow> string \<Rightarrow> string" where
  "trim_with encs s = (if ws_at encs s = 0 then s else trim_with encs (drop (ws_at encs s) s))"
  by pat_completeness auto
termination
proof (relation "measure (\<lambda>(encs, s). length s)", goal_cases)
  case (2 encs s)
  then have "s \<noteq> []"
    by (auto simp: ws_at_def find_Some_iff split: option.splits dest!: prefix_length_le)
  with 2 show ?case by simp
qed simp

declare trim_with.simps [simp del]

definition trim_start :: "string \<Rightarrow> string" where
  "trim_start s = trim_with ws_encodings s"

definition trim_end :: "string \<Rightarrow> string" where
  "trim_end s = rev (trim_with (map rev ws_encodings) (rev s))"

definition trim :: "string \<Rightarrow> string" where
  "trim s = trim_end (trim_start s)"

definition ws_bytes :: "char set" where
  "ws_bytes = set (concat ws_encodings)"

lemma ws_at_0:
  assumes "set s \<inter> set (concat encs) = {}" and "[] \<notin> set encs"
  shows "ws_at encs s = 0"
proof -
  have "find (\<lambda>w. prefix w s) encs = None"
  proof (rule ccontr)
    assume "find (\<lambda>w. prefix w s) encs \<noteq> None"
    then obtain w where w: "w \<in> set encs" "prefix w s"
      by (auto simp: find_None_iff)
    with assms(2) obtain c where "c \<in> set w" by (metis all_not_in_conv set_empty)
    with w assms(1) show False by (auto dest: set_mono_prefix)
  qed
  then show ?thesis by (simp add: ws_at_def)
qed

lemma trim_no_ws:
  assumes "set s \<inter> ws_bytes = {}"
  shows "trim s = s"
proof -
  have "trim_start s = s"
    unfolding trim_start_def
    by (subst trim_with.simps) (use assms in \<open>simp add: ws_at_0 ws_bytes_def ws_encodings_def\<close>)
  moreover have "trim_end s = s"
    unfolding trim_end_def
    by (subst trim_with.simps) (use assms in \<open>simp add: ws_at_0 ws_bytes_def ws_encodings_def\<close>)
  ultimately show ?thesis by (simp add: trim_def)
qed

section \<open>Splitting and searching\<close>

fun split_on :: "char \<Rightarrow> string \<Rightarrow> string list" where
  "split_on c [] = [[]]"
| "split_on c (x # xs) =
    (if x = c then [] # split_on c xs
     else (case split_on c xs of [] \<Rightarrow> [[x]] | p # ps \<Rightarrow> (x # p) # ps))"

fun join_with :: "char \<Rightarrow> string list \<Rightarrow> string" where
  "join_with c [] = []"
| "join_with c [p] = p"
| "join_with c (p # q # ps) = p @ c # join_with c (q # ps)"

definition strip_prefix :: "string \<Rightarrow> string \<Rightarrow> string option" where
  "strip_prefix p s = (if prefix p s then Some (drop (length p) s) else None)"

definition trim_end_matches :: "char \<Rightarrow> string \<Rightarrow> string" where
  "trim_end_matches c s = rev (dropWhile (\<lambda>x. x = c) (rev s))"

definition rfind :: "char \<Rightarrow> string \<Rightarrow> nat option" where
  "rfind c s = map_option (\<lambda>i. length s - 1 - i) (find_index (\<lambda>x. x = c) (rev s))"

definition rsplit_next :: "char \<Rightarrow> string \<Rightarrow> string" where
  "rsplit_next c s = last (split_on c s)"

lemma split_on_not_Nil [simp]: "split_on c s \<noteq> []"
  by (induction s) (auto split: list.splits)

lemma join_split: "join_with c (split_on c s) = s"
proof (induction s)
  case (Cons x s)
  then show ?case
    by (cases "split_on c s"; cases "tl (split_on c s)") auto
qed simp

lemma split_on_free: "p \<in> set (split_on c s) \<Longrightarrow> c \<notin> set p"
  by (induction s arbitrary: p) (auto split: list.splits if_splits)

lemma set_split_on: "p \<in> set (split_on c s) \<Longrightarrow> set p \<subseteq> set s"
  by (induction s arbitrary: p) (fastforce split: list.splits if_splits)+

lemma split_on_no_sep: "c \<notin> set s \<Longrightarrow> split_on c s = [s]"
  by (induction s) auto

lemma split_on_append_sep: "c \<notin> set p \<Longrightarrow> split_on c (p @ c # s) = p # split_on c s"
  by (induction p) auto

lemma split_join:
  assumes "ps \<noteq> []" and "\<And>p. p \<in> set ps \<Longrightarrow> c \<notin> set p"
  shows "split_on c (join_with c ps) = ps"
  using assms
  by (induction c ps rule: join_with.induct) (auto simp: split_on_no_sep split_on_append_sep)

section \<open>ASCII classes\<close>

definition byte_val :: "char \<Rightarrow> nat" where
  "byte_val c = of_char c"

definition is_ascii_digit :: "char \<Rightarrow> bool" where
  "is_ascii_digit c \<longleftrightarrow> 48 \<le> byte_val c \<and> byte_val c \<le> 57"

definition is_ascii_alphanumeric :: "char \<Rightarrow> bool" where
  "is_ascii_alphanumeric c \<longleftrightarrow>
    is_ascii_digit c \<or> (65 \<le> byte_val c \<and> byte_val c \<le> 90) \<or> (97 \<le> byte_val c \<and> byte_val c \<le> 122)"

definition to_ascii_lowercase :: "char \<Rightarrow> char" where
  "to_ascii_lowercase c =
    (if 65 \<le> byte_val c \<and> byte_val c \<le> 90 then char_of (byte_val c + 32) else c)"

definition eq_ignore_ascii_case :: "string \<Rightarrow> string \<Rightarrow> bool" where
  "eq_ignore_ascii_case s t \<longleftrightarrow> map to_ascii_lowercase s = map to_ascii_lowercase t"

lemma byte_val_ws: "c \<in> ws_bytes \<Longrightarrow> byte_val c < 33 \<or> 127 < byte_val c"
  by (auto simp: ws_bytes_def ws_encodings_def byte_val_def)

lemma alphanumeric_not_ws: "is_ascii_alphanumeric c \<Longrightarrow> c \<notin> ws_bytes"
  by (auto simp: is_ascii_alphanumeric_def is_ascii_digit_def dest!: byte_val_ws)

section \<open>Decimal formatting\<close>

definition digit_char :: "nat \<Rightarrow> char" where
  "digit_char d = char_of (48 + d)"

fun show_nat :: "nat \<Rightarrow> string" where
  "show_nat n = (if n < 10 then [digit_char n] else show_nat (n div 10) @ [digit_char (n mod 10)])"

declare show_nat.simps [simp del]

definition show_int :: "int \<Rightarrow> string" where
  "show_int i = (if i < 0 then CHR ''-'' # show_nat (nat (- i)) else show_nat (nat i))"

section \<open>Bytes of a string\<close>

definition as_bytes :: "string \<Rightarrow> u8 list" where
  "as_bytes s = map of_char s"

definition from_bytes :: "u8 list \<Rightarrow> string" where
  "from_bytes bs = map (\<lambda>b. char_of (unat b)) bs"

lemma length_as_bytes [simp]: "length (as_bytes s) = length s"
  by (simp add: as_bytes_def)

lemma unat_of_char [simp]: "unat (of_char c :: u8) = of_char c"
proof -
  have "(of_char c :: u8) = word_of_nat (of_char c)"
    by (simp add: of_nat_of_char)
  then show ?thesis by (simp add: unat_of_nat)
qed

lemma from_as_bytes [simp]: "from_bytes (as_bytes s) = s"
  by (simp add: from_bytes_def as_bytes_def comp_def)

lemma as_from_bytes [simp]: "as_bytes (from_bytes bs) = bs"
proof -
  have "of_char (char_of (unat b)) = b" for b :: u8
  proof -
    have "unat b < 2 ^ LENGTH(8)" by (rule unsigned_less)
    then show ?thesis by (simp add: word_unat_eq_iff)
  qed
  then show ?thesis by (simp add: from_bytes_def as_bytes_def comp_def)
qed

section \<open>UTF-8\<close>

text \<open>
  The well-formed byte sequences that \<open>str::from_utf8\<close> accepts: no overlong forms, no surrogates,
  nothing above U+10FFFF.
\<close>

definition utf8_cont :: "nat \<Rightarrow> bool" where
  "utf8_cont b \<longleftrightarrow> 128 \<le> b \<and> b \<le> 191"

definition utf8_second3 :: "nat \<Rightarrow> nat \<Rightarrow> bool" where
  "utf8_second3 a b \<longleftrightarrow> (if a = 224 then 160 \<le> b \<and> b \<le> 191
    else if a = 237 then 128 \<le> b \<and> b \<le> 159 else 224 < a \<and> a \<le> 239 \<and> utf8_cont b)"

definition utf8_second4 :: "nat \<Rightarrow> nat \<Rightarrow> bool" where
  "utf8_second4 a b \<longleftrightarrow> (if a = 240 then 144 \<le> b \<and> b \<le> 191
    else if a = 244 then 128 \<le> b \<and> b \<le> 143 else 240 < a \<and> a < 244 \<and> utf8_cont b)"

fun valid_utf8 :: "nat list \<Rightarrow> bool" where
  "valid_utf8 [] = True"
| "valid_utf8 [a] = (a < 128)"
| "valid_utf8 [a, b] = (if a < 128 then valid_utf8 [b] else 194 \<le> a \<and> a \<le> 223 \<and> utf8_cont b)"
| "valid_utf8 [a, b, c] =
    (if a < 128 then valid_utf8 [b, c]
     else if 194 \<le> a \<and> a \<le> 223 then utf8_cont b \<and> valid_utf8 [c]
     else utf8_second3 a b \<and> utf8_cont c)"
| "valid_utf8 (a # b # c # d # rest) =
    (if a < 128 then valid_utf8 (b # c # d # rest)
     else if 194 \<le> a \<and> a \<le> 223 then utf8_cont b \<and> valid_utf8 (c # d # rest)
     else if 224 \<le> a \<and> a \<le> 239 then utf8_second3 a b \<and> utf8_cont c \<and> valid_utf8 (d # rest)
     else utf8_second4 a b \<and> utf8_cont c \<and> utf8_cont d \<and> valid_utf8 rest)"

definition str_from_utf8 :: "u8 list \<Rightarrow> string option" where
  "str_from_utf8 bs = (if valid_utf8 (map unat bs) then Some (from_bytes bs) else None)"

lemma valid_utf8_ascii: "list_all (\<lambda>b. b < 128) bs \<Longrightarrow> valid_utf8 bs"
  by (induction bs rule: valid_utf8.induct) simp_all

lemma str_from_utf8_ascii:
  assumes "list_all (\<lambda>c. byte_val c < 128) s"
  shows "str_from_utf8 (as_bytes s) = Some s"
proof -
  have "valid_utf8 (map unat (as_bytes s))"
    using assms by (intro valid_utf8_ascii) (simp add: as_bytes_def list_all_iff byte_val_def)
  then show ?thesis by (simp add: str_from_utf8_def)
qed

lemma alphanumeric_ascii: "is_ascii_alphanumeric c \<Longrightarrow> byte_val c < 128"
  by (auto simp: is_ascii_alphanumeric_def is_ascii_digit_def)

section \<open>Lines, words and padding\<close>

definition strip_cr :: "string \<Rightarrow> string" where
  "strip_cr l = (if l \<noteq> [] \<and> last l = CHR 0x0D then butlast l else l)"

text \<open>\<open>str::lines\<close>: a final line without a line feed keeps its carriage return.\<close>

definition str_lines :: "string \<Rightarrow> string list" where
  "str_lines s =
    (let ps = split_on (CHR 0x0A) s in
     map strip_cr (butlast ps) @ (if last ps = [] then [] else [last ps]))"

function words_loop :: "string \<Rightarrow> string \<Rightarrow> string list" where
  "words_loop acc s =
    (if s = [] then (if acc = [] then [] else [acc])
     else if ws_at ws_encodings s > 0
     then (if acc = [] then [] else [acc]) @ words_loop [] (drop (ws_at ws_encodings s) s)
     else words_loop (acc @ [hd s]) (tl s))"
  by pat_completeness auto
termination by (relation "measure (\<lambda>(acc, s). length s)") auto

declare words_loop.simps [simp del]

definition split_whitespace :: "string \<Rightarrow> string list" where
  "split_whitespace s = words_loop [] s"

definition pad2 :: "nat \<Rightarrow> string" where
  "pad2 n = (let s = show_nat n in replicate (2 - length s) (CHR ''0'') @ s)"

end
