(* ===== verification/Audit_Log.thy ===== *)
theory Audit_Log
  imports Rust_Str
begin

text \<open>
  The audit log of WarShield (\<open>kernel/src/security/audit\<close>): the event type with its one-line
  rendering and its category, and the bounded logger. Every other component reports through
  \<open>log_event\<close>; the echo of each entry on the serial port is output only and not modelled.
\<close>

section \<open>Events\<close>

datatype audit_event =
    LoginSuccess string u16
  | LoginFailed string string
  | Logout string u16
  | FileCreated string u16
  | FileModified string u16
  | FileDeleted string u16
  | FileAccessDenied string u16 string
  | ProcessSpawned u32 string u16
  | ProcessExited u32 i32
  | ProcessExec u32 string u16 string string
  | CapabilityDenied u32 string
  | FirewallMatch u32 string string string string u32 u32 u16 u16
  | NetworkConnection u32 u16 u32 u16 string
  | TlsValidation string string string string
  | PackageVerification string string string string
  | PackageInstalled string string u16
  | QuantumRegisterAllocated u32 u8
  | SecurityPolicyChanged string u16
  | IntegrityViolationEvent string string string
  | SystemBoot string

definition show_word :: "'a::len word \<Rightarrow> string" where
  "show_word w = show_nat (unat w)"

fun display_event :: "audit_event \<Rightarrow> string" where
  "display_event (LoginSuccess username uid) =
     ''LOGIN_OK user='' @ username @ '' uid='' @ show_word uid"
| "display_event (LoginFailed username reason) =
     ''LOGIN_FAIL user='' @ username @ '' reason='' @ reason"
| "display_event (Logout username uid) =
     ''LOGOUT user='' @ username @ '' uid='' @ show_word uid"
| "display_event (FileCreated path uid) =
     ''FILE_CREATE path='' @ path @ '' uid='' @ show_word uid"
| "display_event (FileModified path uid) =
     ''FILE_MODIFY path='' @ path @ '' uid='' @ show_word uid"
| "display_event (FileDeleted path uid) =
     ''FILE_DELETE path='' @ path @ '' uid='' @ show_word uid"
| "display_event (FileAccessDenied path uid operation) =
     ''FILE_DENIED path='' @ path @ '' uid='' @ show_word uid @ '' op='' @ operation"
| "display_event (ProcessSpawned pid name uid) =
     ''PROC_SPAWN pid='' @ show_word pid @ '' name='' @ name @ '' uid='' @ show_word uid"
| "display_event (ProcessExited pid exit_code) =
     ''PROC_EXIT pid='' @ show_word pid @ '' code='' @ show_int (sint exit_code)"
| "display_event (ProcessExec pid path uid caps_before caps_after) =
     ''PROC_EXEC pid='' @ show_word pid @ '' uid='' @ show_word uid @ '' path='' @ path
     @ '' caps_before='' @ caps_before @ '' caps_after='' @ caps_after"
| "display_event (CapabilityDenied pid capability) =
     ''CAP_DENIED pid='' @ show_word pid @ '' cap='' @ capability"
| "display_event (FirewallMatch rule_id direction protocol action reason src_ip dst_ip src_port dst_port) =
     ''FW_MATCH rule='' @ show_word rule_id @ '' dir='' @ direction @ '' proto='' @ protocol
     @ '' action='' @ action @ '' reason='' @ reason @ '' src='' @ show_word src_ip
     @ '' sport='' @ show_word src_port @ '' dst='' @ show_word dst_ip
     @ '' dport='' @ show_word dst_port"
| "display_event (NetworkConnection src_ip src_port dst_ip dst_port protocol) =
     ''NET_CONN src='' @ show_word src_ip @ '' sport='' @ show_word src_port
     @ '' dst='' @ show_word dst_ip @ '' dport='' @ show_word dst_port @ '' proto='' @ protocol"
| "display_event (TlsValidation host anchor outcome detail) =
     ''TLS_VALIDATE host='' @ host @ '' anchor='' @ anchor @ '' outcome='' @ outcome
     @ '' detail='' @ detail"
| "display_event (PackageVerification name version outcome reason) =
     ''PKG_VERIFY name='' @ name @ '' ver='' @ version @ '' outcome='' @ outcome
     @ '' reason='' @ reason"
| "display_event (PackageInstalled name version uid) =
     ''PKG_INSTALL name='' @ name @ '' ver='' @ version @ '' uid='' @ show_word uid"
| "display_event (QuantumRegisterAllocated pid qubits) =
     ''QREG_ALLOC pid='' @ show_word pid @ '' qubits='' @ show_word qubits"
| "display_event (SecurityPolicyChanged change uid) =
     ''POLICY_CHANGE change='' @ change @ '' uid='' @ show_word uid"
| "display_event (IntegrityViolationEvent path expected_hash actual_hash) =
     ''INTEGRITY_FAIL path='' @ path @ '' expected='' @ expected_hash
     @ '' actual='' @ actual_hash"
| "display_event (SystemBoot kernel_version) = ''SYSTEM_BOOT version='' @ kernel_version"

fun event_category :: "audit_event \<Rightarrow> string" where
  "event_category (LoginSuccess _ _) = ''auth''"
| "event_category (LoginFailed _ _) = ''auth''"
| "event_category (Logout _ _) = ''auth''"
| "event_category (FileCreated _ _) = ''file''"
| "event_category (FileModified _ _) = ''file''"
| "event_category (FileDeleted _ _) = ''file''"
| "event_category (FileAccessDenied _ _ _) = ''file''"
| "event_category (ProcessSpawned _ _ _) = ''process''"
| "event_category (ProcessExec _ _ _ _ _) = ''process''"
| "event_category (ProcessExited _ _) = ''process''"
| "event_category (CapabilityDenied _ _) = ''capability''"
| "event_category (FirewallMatch _ _ _ _ _ _ _ _ _) = ''network''"
| "event_category (TlsValidation _ _ _ _) = ''network''"
| "event_category (NetworkConnection _ _ _ _ _) = ''network''"
| "event_category (PackageVerification _ _ _ _) = ''package''"
| "event_category (PackageInstalled _ _ _) = ''package''"
| "event_category (QuantumRegisterAllocated _ _) = ''quantum''"
| "event_category (SecurityPolicyChanged _ _) = ''security''"
| "event_category (IntegrityViolationEvent _ _ _) = ''integrity''"
| "event_category (SystemBoot _) = ''system''"

section \<open>The logger\<close>

definition MAX_ENTRIES :: nat where
  "MAX_ENTRIES = 10000"

record audit_entry =
  ae_id :: u64
  ae_timestamp :: u64
  ae_event :: audit_event

record audit_logger =
  log_entries :: "audit_entry list"
  log_next_id :: u64

definition audit_logger_new :: audit_logger where
  "audit_logger_new = \<lparr>log_entries = [], log_next_id = 1\<rparr>"

definition audit_log :: "u64 \<Rightarrow> audit_event \<Rightarrow> audit_logger \<Rightarrow> audit_logger" where
  "audit_log now event l =
    (let entry = \<lparr>ae_id = log_next_id l, ae_timestamp = now, ae_event = event\<rparr>;
         kept = (if length (log_entries l) \<ge> MAX_ENTRIES then tl (log_entries l) else log_entries l)
     in \<lparr>log_entries = kept @ [entry], log_next_id = log_next_id l + 1\<rparr>)"

definition last_n :: "nat \<Rightarrow> audit_logger \<Rightarrow> audit_entry list" where
  "last_n n l = drop (length (log_entries l) - n) (log_entries l)"

definition last_n_lines :: "nat \<Rightarrow> audit_logger \<Rightarrow> (u64 \<times> u64 \<times> string) list" where
  "last_n_lines n l =
    map (\<lambda>e. (ae_id e, ae_timestamp e, display_event (ae_event e))) (last_n n l)"

definition total_count :: "audit_logger \<Rightarrow> u64" where
  "total_count l = sat_sub (log_next_id l) 1"

definition current_count :: "audit_logger \<Rightarrow> nat" where
  "current_count l = length (log_entries l)"

fun count_categories :: "audit_entry list \<Rightarrow> (string \<rightharpoonup> nat) \<Rightarrow> (string \<rightharpoonup> nat)" where
  "count_categories [] counts = counts"
| "count_categories (e # es) counts =
    count_categories es (counts(event_category (ae_event e) \<mapsto>
      (case counts (event_category (ae_event e)) of None \<Rightarrow> 0 | Some k \<Rightarrow> k) + 1))"

definition count_by_category :: "audit_logger \<Rightarrow> (string \<rightharpoonup> nat)" where
  "count_by_category l = count_categories (log_entries l) Map.empty"

fun auth_stats_of :: "audit_entry list \<Rightarrow> nat \<times> nat \<Rightarrow> nat \<times> nat" where
  "auth_stats_of [] acc = acc"
| "auth_stats_of (e # es) (ok, fail) =
    auth_stats_of es (case ae_event e of LoginSuccess _ _ \<Rightarrow> (ok + 1, fail)
      | LoginFailed _ _ \<Rightarrow> (ok, fail + 1) | _ \<Rightarrow> (ok, fail))"

definition auth_stats :: "audit_logger \<Rightarrow> nat \<times> nat" where
  "auth_stats l = auth_stats_of (log_entries l) (0, 0)"

definition audit_init :: "u64 \<Rightarrow> string \<Rightarrow> audit_logger \<Rightarrow> audit_logger" where
  "audit_init now kernel_version = audit_log now (SystemBoot kernel_version)"

section \<open>What the log holds\<close>

text \<open>A run of the logger over timestamped events, and the entry the \<open>i\<close>-th of them becomes.\<close>

definition audit_run :: "(u64 \<times> audit_event) list \<Rightarrow> audit_logger" where
  "audit_run tes = foldl (\<lambda>l (t, e). audit_log t e l) audit_logger_new tes"

definition numbered_entry :: "nat \<Rightarrow> u64 \<times> audit_event \<Rightarrow> audit_entry" where
  "numbered_entry i te = \<lparr>ae_id = word_of_nat (Suc i), ae_timestamp = fst te, ae_event = snd te\<rparr>"

lemma audit_run_snoc: "audit_run (tes @ [(t, e)]) = audit_log t e (audit_run tes)"
  by (simp add: audit_run_def)

lemma tl_drop_snoc: "n \<le> length xs \<Longrightarrow> n > 0 \<Longrightarrow>
    tl (drop (length xs - n) xs) @ [y] = drop (Suc (length xs) - n) (xs @ [y])"
  by (simp add: Suc_diff_le tl_drop drop_Suc)

lemma audit_run_eq:
  "audit_run tes = \<lparr>log_entries = drop (length tes - MAX_ENTRIES)
      (map (\<lambda>(i, te). numbered_entry i te) (enumerate 0 tes)),
    log_next_id = word_of_nat (Suc (length tes))\<rparr>"
proof (induction tes rule: rev_induct)
  case Nil
  then show ?case by (simp add: audit_run_def audit_logger_new_def)
next
  case (snoc te tes)
  obtain t e where te: "te = (t, e)" by (cases te)
  let ?xs = "map (\<lambda>(i, te). numbered_entry i te) (enumerate 0 tes)"
  have len: "length ?xs = length tes" by simp
  have app: "map (\<lambda>(i, te). numbered_entry i te) (enumerate 0 (tes @ [te]))
      = ?xs @ [numbered_entry (length tes) te]"
    by (simp add: enumerate_append_eq)
  have entry: "\<lparr>ae_id = 1 + word_of_nat (length tes), ae_timestamp = t, ae_event = e\<rparr>
      = numbered_entry (length tes) te"
    by (simp add: numbered_entry_def te)
  show ?case
  proof (cases "MAX_ENTRIES \<le> length tes")
    case True
    moreover have "0 < MAX_ENTRIES" by (simp add: MAX_ENTRIES_def)
    ultimately have "tl (drop (length tes - MAX_ENTRIES) ?xs) @ [numbered_entry (length tes) te]
        = drop (Suc (length tes) - MAX_ENTRIES) (?xs @ [numbered_entry (length tes) te])"
      using tl_drop_snoc [of MAX_ENTRIES ?xs] len by simp
    with True snoc show ?thesis
      by (simp add: te audit_run_snoc audit_log_def Let_def app [unfolded te] entry [unfolded te])
  next
    case False
    with snoc show ?thesis
      by (simp add: te audit_run_snoc audit_log_def Let_def app [unfolded te] entry [unfolded te])
  qed
qed

lemma map_snd_numbered: "map (\<lambda>p. ae_event (case p of (i, te) \<Rightarrow> numbered_entry i te)) (enumerate n tes)
    = map snd tes"
  by (induction tes arbitrary: n) (auto simp: numbered_entry_def)

text \<open>
  C31. The audit log. After any sequence of events the log holds exactly the most recent 10,000 of
  them (all, when there are fewer), in order, each under its own timestamp and numbered
  consecutively from 1 over the whole run; asking for the last \<open>k\<close> returns the last \<open>k\<close> of those.
\<close>

theorem audit_log_keeps_latest:
  "log_entries (audit_run tes) = drop (length tes - MAX_ENTRIES)
      (map (\<lambda>(i, te). numbered_entry i te) (enumerate 0 tes))
    \<and> current_count (audit_run tes) = min (length tes) MAX_ENTRIES
    \<and> map ae_event (last_n k (audit_run tes))
      = drop (length tes - min k MAX_ENTRIES) (map snd tes)"
  by (auto simp: audit_run_eq current_count_def last_n_def min_def drop_map [symmetric]
      map_snd_numbered comp_def)

end
