(* ===== verification/Auth_Types.thy ===== *)
theory Auth_Types
  imports Rust_Str
begin

text \<open>
  User roles and file permissions (\<open>kernel/src/auth/users.rs\<close>, \<open>UserRole\<close>, and
  \<open>kernel/src/auth/permissions.rs\<close>): the owner and others read and write bits, the two access
  decisions, and the four-character mode strings.
\<close>

datatype user_role = Admin | User | Guest

fun role_as_str :: "user_role \<Rightarrow> string" where
  "role_as_str Admin = ''admin''"
| "role_as_str User = ''user''"
| "role_as_str Guest = ''guest''"

record file_permissions =
  fp_owner_uid :: u16
  fp_owner_read :: bool
  fp_owner_write :: bool
  fp_others_read :: bool
  fp_others_write :: bool

definition perm_default_for :: "u16 \<Rightarrow> file_permissions" where
  "perm_default_for uid = \<lparr>fp_owner_uid = uid, fp_owner_read = True, fp_owner_write = True,
     fp_others_read = False, fp_others_write = False\<rparr>"

definition perm_private :: "u16 \<Rightarrow> file_permissions" where
  "perm_private uid = perm_default_for uid"

definition perm_system :: file_permissions where
  "perm_system = \<lparr>fp_owner_uid = 0, fp_owner_read = True, fp_owner_write = True,
     fp_others_read = True, fp_others_write = False\<rparr>"

definition perm_shared :: "u16 \<Rightarrow> file_permissions" where
  "perm_shared uid = \<lparr>fp_owner_uid = uid, fp_owner_read = True, fp_owner_write = True,
     fp_others_read = True, fp_others_write = False\<rparr>"

definition can_read :: "file_permissions \<Rightarrow> u16 \<Rightarrow> user_role \<Rightarrow> bool" where
  "can_read p uid role =
    (if role = Admin then True
     else if uid = fp_owner_uid p then fp_owner_read p
     else fp_others_read p)"

definition can_write :: "file_permissions \<Rightarrow> u16 \<Rightarrow> user_role \<Rightarrow> bool" where
  "can_write p uid role =
    (if role = Admin then True
     else if uid = fp_owner_uid p then fp_owner_write p
     else fp_others_write p)"

definition mode_string :: "file_permissions \<Rightarrow> string" where
  "mode_string p =
    (if fp_owner_read p then ''r'' else ''-'') @ (if fp_owner_write p then ''w'' else ''-'')
    @ (if fp_others_read p then ''r'' else ''-'') @ (if fp_others_write p then ''w'' else ''-'')"

definition is_r :: "char \<Rightarrow> bool" where
  "is_r c \<longleftrightarrow> c = CHR ''r'' \<or> c = CHR ''R''"

definition is_w :: "char \<Rightarrow> bool" where
  "is_w c \<longleftrightarrow> c = CHR ''w'' \<or> c = CHR ''W''"

text \<open>The bits are assigned before the string is judged; the second component is the verdict.\<close>

definition apply_mode_string :: "string \<Rightarrow> file_permissions \<Rightarrow> file_permissions \<times> bool" where
  "apply_mode_string mode p =
    (if length mode \<noteq> 4 then (p, False)
     else (p\<lparr>fp_owner_read := is_r (mode ! 0), fp_owner_write := is_w (mode ! 1),
             fp_others_read := is_r (mode ! 2), fp_others_write := is_w (mode ! 3)\<rparr>,
       (is_r (mode ! 0) \<or> mode ! 0 = CHR ''-'') \<and> (is_w (mode ! 1) \<or> mode ! 1 = CHR ''-'')
       \<and> (is_r (mode ! 2) \<or> mode ! 2 = CHR ''-'') \<and> (is_w (mode ! 3) \<or> mode ! 3 = CHR ''-'')))"

lemma can_read_Admin [simp]: "can_read p uid Admin"
  by (simp add: can_read_def)

lemma can_write_Admin [simp]: "can_write p uid Admin"
  by (simp add: can_write_def)

lemma length_mode_string [simp]: "length (mode_string p) = 4"
  by (simp add: mode_string_def)

text \<open>A mode string applied to any permissions restores the bits it was printed from.\<close>

lemma apply_mode_string_mode_string:
  "apply_mode_string (mode_string p) q = (p\<lparr>fp_owner_uid := fp_owner_uid q\<rparr>, True)"
  by (cases p; cases q) (auto simp: apply_mode_string_def mode_string_def is_r_def is_w_def)

lemma apply_mode_string_owner [simp]:
  "fp_owner_uid (fst (apply_mode_string mode p)) = fp_owner_uid p"
  by (simp add: apply_mode_string_def)

end
