(* ===== verification/Fs_Path.thy ===== *)
theory Fs_Path
  imports Auth_Types
begin

text \<open>
  The path functions at the end of \<open>kernel/src/fs/mod.rs\<close>: \<open>canonical_path\<close>, the strict
  variant \<open>canonicalize_warexec_path\<close> of the system calls, parents, directory markers and
  relative paths. The lemmas give the grammar of canonical paths, and that normalising a canonical
  path changes nothing.
\<close>

section \<open>Errors and limits\<close>

datatype fs_error =
    FileNotFound
  | AlreadyExists
  | FilesystemFull
  | FilenameTooLong
  | FileTooLarge
  | ReadOnly
  | InvalidFilename
  | PermissionDenied

definition MAX_FILES :: nat where
  "MAX_FILES = 128"

definition MAX_FILE_SIZE :: nat where
  "MAX_FILE_SIZE = 1024 * 1024"

definition TOTAL_CAPACITY :: nat where
  "TOTAL_CAPACITY = 4 * 1024 * 1024"

definition MAX_PATH_LEN :: nat where
  "MAX_PATH_LEN = 96"

definition MAX_COMPONENT_LEN :: nat where
  "MAX_COMPONENT_LEN = 31"

fun fs_error_display :: "fs_error \<Rightarrow> string" where
  "fs_error_display FileNotFound = ''file not found''"
| "fs_error_display AlreadyExists = ''file already exists''"
| "fs_error_display FilesystemFull = ''filesystem full''"
| "fs_error_display FilenameTooLong = ''filename too long''"
| "fs_error_display FileTooLarge = ''file exceeds '' @ show_nat (MAX_FILE_SIZE div 1024) @ '' KiB limit''"
| "fs_error_display ReadOnly = ''file is read-only''"
| "fs_error_display InvalidFilename = ''invalid filename''"
| "fs_error_display PermissionDenied = ''permission denied''"

section \<open>Canonical paths\<close>

definition component_byte :: "char \<Rightarrow> bool" where
  "component_byte c \<longleftrightarrow>
    is_ascii_alphanumeric c \<or> c = CHR ''.'' \<or> c = CHR ''_'' \<or> c = CHR ''-''"

definition validate_canonical_component :: "string \<Rightarrow> fs_error + unit" where
  "validate_canonical_component component =
    (if length component > MAX_COMPONENT_LEN \<or> \<not> list_all component_byte component
     then Err InvalidFilename else Ok ())"

fun canonical_loop :: "string list \<Rightarrow> bool \<Rightarrow> string \<Rightarrow> fs_error + string" where
  "canonical_loop [] first result = Ok result"
| "canonical_loop (component # rest) first result =
    (if component = [] \<or> component = ''.'' then canonical_loop rest first result
     else if component = ''..'' then Err InvalidFilename
     else result_bind (validate_canonical_component component) (\<lambda>_.
       canonical_loop rest False (result @ (if first then [] else ''/'') @ component)))"

definition canonical_path :: "string \<Rightarrow> fs_error + string" where
  "canonical_path path =
    (let trimmed = trim path in
     if trimmed = [] then Err InvalidFilename
     else
       let normalized = (if prefix ''/'' trimmed then trimmed else ''/'' @ trimmed) in
       result_bind (canonical_loop (split_on (CHR ''/'') normalized) True ''/'') (\<lambda>result.
         if length result > MAX_PATH_LEN then Err FilenameTooLong else Ok result))"

definition canonical_directory :: "string \<Rightarrow> fs_error + string" where
  "canonical_directory path =
    result_bind (canonical_path path) (\<lambda>canonical. Ok (if canonical = [] then ''/'' else canonical))"

fun warexec_loop :: "string list \<Rightarrow> bool \<Rightarrow> string \<Rightarrow> fs_error + string" where
  "warexec_loop [] first result = Ok result"
| "warexec_loop (component # rest) first result =
    (if component = [] \<or> component = ''.'' \<or> component = ''..'' then Err InvalidFilename
     else result_bind (validate_canonical_component component) (\<lambda>_.
       warexec_loop rest False (result @ (if first then [] else ''/'') @ component)))"

definition canonicalize_warexec_path :: "string \<Rightarrow> bool \<Rightarrow> fs_error + string" where
  "canonicalize_warexec_path path allow_directory_trailing_slash =
    (let trimmed = trim path in
     if trimmed = [] \<or> \<not> prefix ''/'' trimmed then Err InvalidFilename
     else
       let has_trailing_slash = (length trimmed > 1 \<and> suffix ''/'' trimmed) in
       if has_trailing_slash \<and> \<not> allow_directory_trailing_slash then Err InvalidFilename
       else
         let normalized = (if allow_directory_trailing_slash \<and> has_trailing_slash
                           then trim_end_matches (CHR ''/'') trimmed else trimmed) in
         if length normalized > 1 \<and> sublist ''//'' normalized then Err InvalidFilename
         else if normalized = ''/'' then Ok ''/''
         else result_bind (warexec_loop (drop 1 (split_on (CHR ''/'') normalized)) True ''/'') (\<lambda>result.
           if length result > MAX_PATH_LEN then Err FilenameTooLong else Ok result))"

section \<open>Parents, markers and children\<close>

definition parent_directory :: "string \<Rightarrow> string" where
  "parent_directory path =
    (if path = ''/'' then ''/''
     else
       let trimmed = trim_end_matches (CHR ''/'') path in
       case rfind (CHR ''/'') trimmed of
         Some index \<Rightarrow> if index = 0 then ''/'' else take index trimmed
       | None \<Rightarrow> ''/'')"

definition DIRECTORY_MARKER_NAME :: string where
  "DIRECTORY_MARKER_NAME = ''.wardir''"

definition directory_marker_path :: "string \<Rightarrow> string" where
  "directory_marker_path path =
    (if path = ''/'' then ''/.wardir'' else path @ ''/'' @ DIRECTORY_MARKER_NAME)"

definition basename :: "string \<Rightarrow> string" where
  "basename path = rsplit_next (CHR ''/'') path"

definition is_directory_marker :: "string \<Rightarrow> bool" where
  "is_directory_marker path \<longleftrightarrow> basename path = DIRECTORY_MARKER_NAME"

definition relative_child_path :: "string \<Rightarrow> string \<Rightarrow> string option" where
  "relative_child_path directory path =
    (if directory = ''/'' then strip_prefix ''/'' path
     else strip_prefix (directory @ ''/'') path)"

definition default_permissions_for :: "string \<Rightarrow> u16 \<Rightarrow> file_permissions" where
  "default_permissions_for path uid =
    (if path = ''/root'' \<or> prefix ''/root/'' path \<or> prefix ''/home/'' path
     then perm_private uid else perm_shared uid)"

section \<open>The grammar of canonical paths\<close>

text \<open>
  A component that survives normalisation, the components of a path, and the canonical spelling
  of a list of components.
\<close>

definition good_component :: "string \<Rightarrow> bool" where
  "good_component c \<longleftrightarrow>
    c \<noteq> [] \<and> c \<noteq> ''.'' \<and> c \<noteq> ''..'' \<and> length c \<le> MAX_COMPONENT_LEN \<and> list_all component_byte c"

definition path_components :: "string \<Rightarrow> string list" where
  "path_components s = filter (\<lambda>c. c \<noteq> [] \<and> c \<noteq> ''.'') (split_on (CHR ''/'') s)"

definition of_components :: "string list \<Rightarrow> string" where
  "of_components cs = CHR ''/'' # join_with (CHR ''/'') cs"

lemma byte_val_CHR [simp]: "byte_val (Char b0 b1 b2 b3 b4 b5 b6 b7) =
    of_char (Char b0 b1 b2 b3 b4 b5 b6 b7)"
  by (simp add: byte_val_def)

lemma component_byte_not_slash: "component_byte c \<Longrightarrow> c \<noteq> CHR ''/''"
  by (auto simp: component_byte_def is_ascii_alphanumeric_def is_ascii_digit_def)

lemma component_byte_not_ws: "component_byte c \<Longrightarrow> c \<notin> ws_bytes"
  by (auto simp: component_byte_def dest: alphanumeric_not_ws byte_val_ws)

lemma good_component_no_slash: "good_component c \<Longrightarrow> CHR ''/'' \<notin> set c"
  by (auto simp: good_component_def list_all_iff dest: component_byte_not_slash)

lemma validate_canonical_component_Ok [simp]:
  "validate_canonical_component c = Ok u \<longleftrightarrow>
    length c \<le> MAX_COMPONENT_LEN \<and> list_all component_byte c"
  by (auto simp: validate_canonical_component_def)

lemma join_with_Cons:
  "join_with c (p # ps) = p @ (if ps = [] then [] else c # join_with c ps)"
  by (cases ps) auto

lemma join_with_snoc:
  "join_with c (ps @ [p]) = (if ps = [] then p else join_with c ps @ c # p)"
  by (induction ps) (auto simp: join_with_Cons)

lemma canonical_loop_Ok:
  "canonical_loop cs first acc = Ok r \<longleftrightarrow>
    list_all good_component (filter (\<lambda>c. c \<noteq> [] \<and> c \<noteq> ''.'') cs) \<and>
    r = acc @ (let ds = filter (\<lambda>c. c \<noteq> [] \<and> c \<noteq> ''.'') cs in
       if ds = [] then [] else (if first then [] else ''/'') @ join_with (CHR ''/'') ds)"
  by (induction cs first acc rule: canonical_loop.induct)
    (auto simp: good_component_def Let_def join_with_Cons)

lemma split_on_Cons_slash: "split_on c (c # s) = [] # split_on c s"
  by simp

lemma path_components_slash [simp]: "path_components (CHR ''/'' # s) = path_components s"
  by (simp add: path_components_def)

theorem canonical_path_Ok:
  "canonical_path p = Ok r \<longleftrightarrow>
    trim p \<noteq> [] \<and> list_all good_component (path_components (trim p)) \<and>
    r = of_components (path_components (trim p)) \<and> length r \<le> MAX_PATH_LEN"
proof -
  have "path_components (if prefix ''/'' (trim p) then trim p else ''/'' @ trim p)
      = path_components (trim p)"
    by simp
  then show ?thesis
    unfolding path_components_def
    by (auto simp: canonical_path_def canonical_loop_Ok of_components_def Let_def)
qed

lemma filter_good:
  "list_all good_component cs \<Longrightarrow> filter (\<lambda>c. c \<noteq> [] \<and> c \<noteq> ''.'') cs = cs"
  by (auto simp: filter_id_conv list_all_iff good_component_def)

lemma path_components_of_components:
  assumes "list_all good_component cs"
  shows "path_components (of_components cs) = cs"
proof (cases "cs = []")
  case True
  then show ?thesis by (simp add: path_components_def of_components_def)
next
  case False
  then have "split_on (CHR ''/'') (join_with (CHR ''/'') cs) = cs"
    using assms by (intro split_join) (auto simp: list_all_iff dest: good_component_no_slash)
  then show ?thesis
    using assms by (simp add: of_components_def path_components_def filter_good)
qed

lemma set_join_with: "set (join_with c ps) \<subseteq> insert c (\<Union>p\<in>set ps. set p)"
  by (induction c ps rule: join_with.induct) auto

lemma of_components_no_ws:
  assumes "list_all good_component cs"
  shows "set (of_components cs) \<inter> ws_bytes = {}"
proof -
  have "CHR ''/'' \<notin> ws_bytes" by (auto dest: byte_val_ws)
  moreover have "(\<Union>p\<in>set cs. set p) \<inter> ws_bytes = {}"
    using assms by (auto simp: list_all_iff good_component_def dest: component_byte_not_ws)
  ultimately show ?thesis
    using set_join_with [of "CHR ''/''" cs] unfolding of_components_def by fastforce
qed

definition is_canonical :: "string \<Rightarrow> bool" where
  "is_canonical p \<longleftrightarrow> canonical_path p = Ok p"

lemma is_canonical_of_components:
  assumes "list_all good_component cs" and "length (of_components cs) \<le> MAX_PATH_LEN"
  shows "is_canonical (of_components cs)"
proof -
  have "trim (of_components cs) = of_components cs"
    using assms(1) by (intro trim_no_ws of_components_no_ws)
  moreover have "of_components cs \<noteq> []" by (simp add: of_components_def)
  ultimately show ?thesis
    using assms by (simp add: is_canonical_def canonical_path_Ok path_components_of_components)
qed

lemma is_canonical_iff:
  "is_canonical p \<longleftrightarrow>
    (\<exists>cs. list_all good_component cs \<and> p = of_components cs \<and> length p \<le> MAX_PATH_LEN)"
  using is_canonical_of_components
  by (auto simp: is_canonical_def canonical_path_Ok)

lemma is_canonical_trim: "is_canonical p \<Longrightarrow> trim p = p"
  unfolding is_canonical_iff by (metis trim_no_ws of_components_no_ws)

lemma canonical_path_is_canonical: "canonical_path p = Ok r \<Longrightarrow> is_canonical r"
  by (auto simp: canonical_path_Ok intro: is_canonical_of_components)

lemma is_canonical_canonical_path [simp]: "is_canonical p \<Longrightarrow> canonical_path p = Ok p"
  by (simp add: is_canonical_def)

lemma is_canonical_root [simp]: "is_canonical ''/''"
  using is_canonical_of_components [of "[]"] by (simp add: of_components_def MAX_PATH_LEN_def)

section \<open>The strict variant\<close>

lemma split_on_snoc_sep: "split_on c (s @ [c]) = split_on c s @ [[]]"
proof (induction s)
  case (Cons x s)
  then show ?case by (cases "split_on c s") auto
qed simp

lemma path_components_snoc_slash: "path_components (s @ [CHR ''/'']) = path_components s"
  by (simp add: path_components_def split_on_snoc_sep)

lemma path_components_slashes [simp]:
  "path_components (s @ replicate n (CHR ''/'')) = path_components s"
proof (induction n)
  case (Suc n)
  have "s @ replicate (Suc n) (CHR ''/'') = (s @ replicate n (CHR ''/'')) @ [CHR ''/'']"
    by (simp add: replicate_append_same)
  with Suc show ?case by (simp only: path_components_snoc_slash)
qed simp

lemma trim_end_matches_decomp: "\<exists>n. s = trim_end_matches c s @ replicate n c"
proof -
  have "rev s = takeWhile (\<lambda>x. x = c) (rev s) @ dropWhile (\<lambda>x. x = c) (rev s)"
    by simp
  moreover have "takeWhile (\<lambda>x. x = c) (rev s)
      = replicate (length (takeWhile (\<lambda>x. x = c) (rev s))) c"
    by (rule replicate_eqI) (auto dest: set_takeWhileD)
  ultimately have "s = rev (dropWhile (\<lambda>x. x = c) (rev s))
      @ replicate (length (takeWhile (\<lambda>x. x = c) (rev s))) c"
    by (metis rev_append rev_replicate rev_rev_ident)
  then show ?thesis unfolding trim_end_matches_def by blast
qed

lemma path_components_trim_end: "path_components (trim_end_matches (CHR ''/'') s) = path_components s"
proof -
  obtain n where "s = trim_end_matches (CHR ''/'') s @ replicate n (CHR ''/'')"
    using trim_end_matches_decomp by blast
  then have "path_components s
      = path_components (trim_end_matches (CHR ''/'') s @ replicate n (CHR ''/''))"
    by (rule arg_cong)
  then show ?thesis by simp
qed

lemma warexec_loop_Ok:
  "warexec_loop cs first acc = Ok r \<longleftrightarrow>
    list_all good_component cs \<and>
    r = acc @ (if cs = [] then [] else (if first then [] else ''/'') @ join_with (CHR ''/'') cs)"
  by (induction cs first acc rule: warexec_loop.induct)
    (auto simp: good_component_def join_with_Cons)

lemma trim_end_matches_prefix: "trim_end_matches c s = [] \<or> hd (trim_end_matches c s) = hd s"
proof -
  obtain t n where "trim_end_matches c s = t" and "s = t @ replicate n c"
    using trim_end_matches_decomp by blast
  then show ?thesis by (simp add: hd_append)
qed

lemma guarded_walk_Ok:
  "(if g then Err e else if n = s then Ok s
    else result_bind w (\<lambda>x. if P x then Err e' else Ok x)) = Ok r \<Longrightarrow>
    n = s \<and> r = s \<or> w = Ok r \<and> \<not> P r"
  by (auto split: if_splits)

lemma drop_split_components:
  assumes "s = [] \<or> hd s = CHR ''/''"
    and "list_all good_component (drop 1 (split_on (CHR ''/'') s))"
  shows "drop 1 (split_on (CHR ''/'') s) = path_components s"
  using assms by (cases s) (auto simp: path_components_def filter_good)

text \<open>
  C25. The strict path check of the system calls is a restriction of the file system's
  normalisation: whenever \<open>canonicalize_warexec_path\<close> accepts a path, \<open>canonical_path\<close> accepts it
  too and gives the same canonical name, so a system call and the shell name the same file.
\<close>

theorem warexec_path_agrees:
  assumes "canonicalize_warexec_path path slash = Ok r"
  shows "canonical_path path = Ok r"
proof -
  let ?t = "trim path"
  define norm where "norm = (if slash \<and> length ?t > 1 \<and> suffix ''/'' ?t
    then trim_end_matches (CHR ''/'') ?t else ?t)"
  have pre: "?t \<noteq> []" "prefix ''/'' ?t"
    using assms by (rule_tac ccontr; simp add: canonicalize_warexec_path_def)+
  then have t: "?t \<noteq> []" "hd ?t = CHR ''/''"
    by (auto simp: prefix_def)
  have nts: "\<not> ((length ?t > 1 \<and> suffix ''/'' ?t) \<and> \<not> slash)"
    using assms pre by (rule_tac notI) (simp add: canonicalize_warexec_path_def)
  from t have hd: "norm = [] \<or> hd norm = CHR ''/''"
    using trim_end_matches_prefix [of "CHR ''/''" ?t] by (auto simp: norm_def)
  have comps: "path_components norm = path_components ?t"
    by (simp add: norm_def path_components_trim_end)
  have "(if length norm > 1 \<and> sublist ''//'' norm then Err InvalidFilename
      else if norm = ''/'' then Ok ''/''
      else result_bind (warexec_loop (drop 1 (split_on (CHR ''/'') norm)) True ''/'') (\<lambda>result.
        if length result > MAX_PATH_LEN then Err FilenameTooLong else Ok result)) = Ok r"
    using assms pre nts unfolding canonicalize_warexec_path_def Let_def norm_def
    by (simp only: if_False simp_thms)
  from guarded_walk_Ok [OF this] consider (root) "norm = ''/''" "r = ''/''"
    | (walk) "warexec_loop (drop 1 (split_on (CHR ''/'') norm)) True ''/'' = Ok r"
        "length r \<le> MAX_PATH_LEN"
    unfolding not_less by blast
  then show ?thesis
  proof cases
    case root
    then have "path_components ?t = []"
      using comps by (simp add: path_components_def)
    with root t show ?thesis
      by (simp add: canonical_path_Ok of_components_def MAX_PATH_LEN_def)
  next
    case walk
    then have good: "list_all good_component (drop 1 (split_on (CHR ''/'') norm))"
      by (simp add: warexec_loop_Ok)
    then have "drop 1 (split_on (CHR ''/'') norm) = path_components ?t"
      using drop_split_components [OF hd] comps by simp
    with walk good t show ?thesis
      by (auto simp: warexec_loop_Ok canonical_path_Ok of_components_def)
  qed
qed

theorem warexec_path_agrees_witness:
  "canonicalize_warexec_path ''/abi/proof.txt/'' True = Ok ''/abi/proof.txt'' \<and>
   canonical_path ''/abi/proof.txt/'' = Ok ''/abi/proof.txt''"
proof -
  have "canonicalize_warexec_path ''/abi/proof.txt/'' True = Ok ''/abi/proof.txt''"
    by code_simp
  with warexec_path_agrees [of "''/abi/proof.txt/''" True "''/abi/proof.txt''"]
  show ?thesis by blast
qed

text \<open>
  Normalisation of a path. Whatever \<open>canonical_path\<close> accepts, its result is the root followed
  by the components of the trimmed input with the empty ones and the single dots dropped, all of
  them of at most 31 bytes from the allowed alphabet and none a parent reference, of at most 96
  bytes in all, and it is a fixed point of \<open>canonical_path\<close>.
\<close>

theorem canonical_path_normal_form:
  assumes "canonical_path p = Ok r"
  shows "r = CHR ''/'' # join_with (CHR ''/'') (path_components (trim p))
    \<and> list_all good_component (path_components (trim p))
    \<and> length r \<le> MAX_PATH_LEN \<and> canonical_path r = Ok r"
  using assms canonical_path_is_canonical [OF assms]
  by (simp add: canonical_path_Ok is_canonical_def of_components_def)

theorem canonical_path_normal_form_witness:
  "canonical_path '' home//./alice/notes.txt '' = Ok ''/home/alice/notes.txt''
   \<and> canonical_path ''/home/alice/notes.txt'' = Ok ''/home/alice/notes.txt''"
proof -
  have "canonical_path '' home//./alice/notes.txt '' = Ok ''/home/alice/notes.txt''"
    by code_simp
  with canonical_path_normal_form [of "'' home//./alice/notes.txt ''" "''/home/alice/notes.txt''"]
  show ?thesis by blast
qed

end
