(* ===== verification/WarFS.thy ===== *)
theory WarFS
  imports Fs_Path
begin

text \<open>
  The in-memory file system (\<open>kernel/src/fs/mod.rs\<close>, \<open>impl WarFS\<close>): a vector of file entries
  kept sorted by canonical path, with limits on the number of files, the size of a file and the
  total size.

  An operation takes the tick count \<open>now\<close> where the source reads it, and returns its result, the
  file system after it and the requests it hands to the disk layer (\<open>disk::maybe_sync_file_entry\<close>
  and \<open>disk::maybe_delete_path\<close>) in order.
\<close>

section \<open>State\<close>

record file_entry =
  fe_name :: string
  fe_data :: "u8 list"
  fe_created_at :: u64
  fe_modified_at :: u64
  fe_readonly :: bool
  fe_owner_uid :: u16
  fe_permissions :: file_permissions

record warfs =
  fs_files :: "file_entry list"
  fs_max_files :: nat

datatype disk_request =
    SyncEntry file_entry
  | DeletePath string

type_synonym 'a fs_out = "(fs_error + 'a) \<times> warfs \<times> disk_request list"

definition warfs_new :: warfs where
  "warfs_new = \<lparr>fs_files = [], fs_max_files = MAX_FILES\<rparr>"

section \<open>Lookups\<close>

definition fs_find :: "string \<Rightarrow> warfs \<Rightarrow> file_entry option" where
  "fs_find canonical fs = find (\<lambda>e. fe_name e = canonical) (fs_files fs)"

definition fs_find_mut :: "string \<Rightarrow> (file_entry \<Rightarrow> file_entry) \<Rightarrow> warfs \<Rightarrow> warfs" where
  "fs_find_mut canonical f fs =
    fs\<lparr>fs_files := update_first (\<lambda>e. fe_name e = canonical) f (fs_files fs)\<rparr>"

definition directory_exists_canonical :: "string \<Rightarrow> warfs \<Rightarrow> bool" where
  "directory_exists_canonical path fs =
    (if path = ''/'' then True
     else list_ex (\<lambda>e. fe_name e = directory_marker_path path \<or> prefix (path @ ''/'') (fe_name e))
       (fs_files fs))"

definition used_space :: "warfs \<Rightarrow> nat" where
  "used_space fs = sum_list (map (\<lambda>e. length (fe_data e)) (fs_files fs))"

definition used_without_target :: "string \<Rightarrow> warfs \<Rightarrow> nat" where
  "used_without_target canonical fs =
    sum_list (map (\<lambda>e. length (fe_data e)) (filter (\<lambda>e. fe_name e \<noteq> canonical) (fs_files fs)))"

definition free_space :: "warfs \<Rightarrow> nat" where
  "free_space fs = TOTAL_CAPACITY - used_space fs"

definition fs_exists :: "string \<Rightarrow> warfs \<Rightarrow> bool" where
  "fs_exists name fs =
    (case canonical_path name of Inl _ \<Rightarrow> False | Inr canonical \<Rightarrow> fs_find canonical fs \<noteq> None)"

definition owned_file_count :: "u16 \<Rightarrow> warfs \<Rightarrow> nat" where
  "owned_file_count uid fs = length (filter (\<lambda>e. fe_owner_uid e = uid) (fs_files fs))"

definition stat_as :: "string \<Rightarrow> u16 \<Rightarrow> user_role \<Rightarrow> warfs \<Rightarrow> fs_error + file_entry" where
  "stat_as name current_uid current_role fs =
    result_bind (canonical_path name) (\<lambda>canonical.
    result_bind (ok_or (fs_find canonical fs) FileNotFound) (\<lambda>entry.
      if \<not> can_read (fe_permissions entry) current_uid current_role then Err PermissionDenied
      else Ok entry))"

definition stat :: "string \<Rightarrow> warfs \<Rightarrow> fs_error + file_entry" where
  "stat name fs = stat_as name 0 Admin fs"

definition read_as :: "string \<Rightarrow> u16 \<Rightarrow> user_role \<Rightarrow> warfs \<Rightarrow> fs_error + u8 list" where
  "read_as name current_uid current_role fs =
    result_bind (canonical_path name) (\<lambda>canonical.
    result_bind (ok_or (fs_find canonical fs) FileNotFound) (\<lambda>entry.
      if \<not> can_read (fe_permissions entry) current_uid current_role then Err PermissionDenied
      else Ok (fe_data entry)))"

definition fs_read :: "string \<Rightarrow> warfs \<Rightarrow> fs_error + u8 list" where
  "fs_read name fs = read_as name 0 Admin fs"

definition list_dir_as :: "string \<Rightarrow> u16 \<Rightarrow> user_role \<Rightarrow> warfs \<Rightarrow> fs_error + file_entry list" where
  "list_dir_as directory current_uid current_role fs =
    result_bind (canonical_directory directory) (\<lambda>canonical.
      Ok (sort_key fe_name (filter (\<lambda>e. parent_directory (fe_name e) = canonical
        \<and> can_read (fe_permissions e) current_uid current_role) (fs_files fs))))"

section \<open>Mutations\<close>

definition sync_request :: "string \<Rightarrow> warfs \<Rightarrow> disk_request list" where
  "sync_request canonical fs =
    (case fs_find canonical fs of None \<Rightarrow> [] | Some entry \<Rightarrow> [SyncEntry entry])"

definition push_sorted :: "file_entry \<Rightarrow> warfs \<Rightarrow> warfs" where
  "push_sorted entry fs = fs\<lparr>fs_files := sort_key fe_name (fs_files fs @ [entry])\<rparr>"

definition write_internal_owned ::
  "u64 \<Rightarrow> string \<Rightarrow> u8 list \<Rightarrow> u16 \<Rightarrow> user_role \<Rightarrow> file_permissions \<Rightarrow> bool \<Rightarrow> warfs \<Rightarrow> unit fs_out"
where
  "write_internal_owned now name data current_uid current_role permissions readonly fs =
    (if length data > MAX_FILE_SIZE then (Err FileTooLarge, fs, [])
     else case canonical_path name of
       Inl e \<Rightarrow> (Err e, fs, [])
     | Inr canonical \<Rightarrow>
       if canonical = ''/'' then (Err InvalidFilename, fs, [])
       else if usize_sat_add (used_without_target canonical fs) (length data) > TOTAL_CAPACITY
       then (Err FilesystemFull, fs, [])
       else (case fs_find canonical fs of
         Some entry \<Rightarrow>
           if fe_readonly entry then (Err ReadOnly, fs, [])
           else if \<not> can_write (fe_permissions entry) current_uid current_role
           then (Err PermissionDenied, fs, [])
           else
             let fs' = fs_find_mut canonical (\<lambda>entry. entry\<lparr>fe_data := data,
                   fe_modified_at := now, fe_readonly := readonly\<rparr>) fs
             in (Ok (), fs', sync_request canonical fs')
       | None \<Rightarrow>
           if length (fs_files fs) \<ge> fs_max_files fs then (Err FilesystemFull, fs, [])
           else
             let fs' = push_sorted \<lparr>fe_name = canonical, fe_data = data, fe_created_at = now,
                   fe_modified_at = now, fe_readonly = readonly,
                   fe_owner_uid = fp_owner_uid permissions, fe_permissions = permissions\<rparr> fs
             in (Ok (), fs', sync_request canonical fs')))"

definition write_as ::
  "u64 \<Rightarrow> string \<Rightarrow> u8 list \<Rightarrow> u16 \<Rightarrow> user_role \<Rightarrow> file_permissions \<Rightarrow> warfs \<Rightarrow> unit fs_out" where
  "write_as now name data current_uid current_role permissions fs =
    write_internal_owned now name data current_uid current_role permissions False fs"

definition write_system :: "u64 \<Rightarrow> string \<Rightarrow> u8 list \<Rightarrow> bool \<Rightarrow> warfs \<Rightarrow> unit fs_out" where
  "write_system now name data readonly fs =
    write_internal_owned now name data 0 Admin perm_system readonly fs"

definition fs_write :: "u64 \<Rightarrow> string \<Rightarrow> u8 list \<Rightarrow> warfs \<Rightarrow> unit fs_out" where
  "fs_write now name data fs = write_system now name data False fs"

definition write_readonly :: "u64 \<Rightarrow> string \<Rightarrow> u8 list \<Rightarrow> warfs \<Rightarrow> unit fs_out" where
  "write_readonly now name data fs = write_system now name data True fs"

definition fs_touch :: "u64 \<Rightarrow> string \<Rightarrow> warfs \<Rightarrow> unit fs_out" where
  "fs_touch now name fs = fs_write now name [] fs"

definition touch_as ::
  "u64 \<Rightarrow> string \<Rightarrow> u16 \<Rightarrow> user_role \<Rightarrow> file_permissions \<Rightarrow> warfs \<Rightarrow> unit fs_out" where
  "touch_as now name current_uid current_role permissions fs =
    write_as now name [] current_uid current_role permissions fs"

definition seed_system :: "u64 \<Rightarrow> string \<Rightarrow> u8 list \<Rightarrow> bool \<Rightarrow> warfs \<Rightarrow> unit fs_out" where
  "seed_system now name data readonly fs =
    (if length data > MAX_FILE_SIZE then (Err FileTooLarge, fs, [])
     else case canonical_path name of
       Inl e \<Rightarrow> (Err e, fs, [])
     | Inr canonical \<Rightarrow>
       if canonical = ''/'' then (Err InvalidFilename, fs, [])
       else if usize_sat_add (used_without_target canonical fs) (length data) > TOTAL_CAPACITY
       then (Err FilesystemFull, fs, [])
       else (case fs_find canonical fs of
         Some entry \<Rightarrow>
           let fs' = fs_find_mut canonical (\<lambda>entry. entry\<lparr>fe_data := data, fe_modified_at := now,
                 fe_readonly := readonly, fe_owner_uid := 0, fe_permissions := perm_system\<rparr>) fs
           in (Ok (), fs', sync_request canonical fs')
       | None \<Rightarrow>
           if length (fs_files fs) \<ge> fs_max_files fs then (Err FilesystemFull, fs, [])
           else
             let fs' = push_sorted \<lparr>fe_name = canonical, fe_data = data, fe_created_at = now,
                   fe_modified_at = now, fe_readonly = readonly, fe_owner_uid = 0,
                   fe_permissions = perm_system\<rparr> fs
             in (Ok (), fs', sync_request canonical fs')))"

definition delete_as :: "string \<Rightarrow> u16 \<Rightarrow> user_role \<Rightarrow> warfs \<Rightarrow> unit fs_out" where
  "delete_as name current_uid current_role fs =
    (case canonical_path name of
       Inl e \<Rightarrow> (Err e, fs, [])
     | Inr canonical \<Rightarrow>
       (case fs_find canonical fs of
         None \<Rightarrow> (Err FileNotFound, fs, [])
       | Some entry \<Rightarrow>
           if fe_readonly entry then (Err ReadOnly, fs, [])
           else if current_role \<noteq> Admin \<and> fe_owner_uid entry \<noteq> current_uid
           then (Err PermissionDenied, fs, [])
           else (Ok (), fs\<lparr>fs_files := remove_first (\<lambda>e. fe_name e = canonical) (fs_files fs)\<rparr>,
                 [DeletePath canonical])))"

definition fs_delete :: "string \<Rightarrow> warfs \<Rightarrow> unit fs_out" where
  "fs_delete name fs = delete_as name 0 Admin fs"

definition chmod_as :: "string \<Rightarrow> u16 \<Rightarrow> user_role \<Rightarrow> string \<Rightarrow> warfs \<Rightarrow> unit fs_out" where
  "chmod_as name current_uid current_role mode fs =
    (case canonical_path name of
       Inl e \<Rightarrow> (Err e, fs, [])
     | Inr canonical \<Rightarrow>
       (case fs_find canonical fs of
         None \<Rightarrow> (Err FileNotFound, fs, [])
       | Some entry \<Rightarrow>
           if fe_readonly entry then (Err ReadOnly, fs, [])
           else if current_role \<noteq> Admin \<and> fe_owner_uid entry \<noteq> current_uid
           then (Err PermissionDenied, fs, [])
           else
             let fs' = fs_find_mut canonical (\<lambda>entry. entry\<lparr>fe_permissions :=
                   fst (apply_mode_string mode (fe_permissions entry))\<rparr>) fs
             in if \<not> snd (apply_mode_string mode (fe_permissions entry))
                then (Err InvalidFilename, fs', [])
                else (Ok (), fs', sync_request canonical fs')))"

definition load_file_from_disk ::
  "string \<Rightarrow> u8 list \<Rightarrow> u16 \<Rightarrow> file_permissions \<Rightarrow> bool \<Rightarrow> u64 \<Rightarrow> u64 \<Rightarrow> warfs \<Rightarrow> (fs_error + unit) \<times> warfs"
where
  "load_file_from_disk name data owner_uid permissions readonly created_at modified_at fs =
    (if length data > MAX_FILE_SIZE then (Err FileTooLarge, fs)
     else case canonical_path name of
       Inl e \<Rightarrow> (Err e, fs)
     | Inr canonical \<Rightarrow>
       if canonical = ''/'' then (Err InvalidFilename, fs)
       else if usize_sat_add (used_without_target canonical fs) (length data) > TOTAL_CAPACITY
       then (Err FilesystemFull, fs)
       else
         let permissions = permissions\<lparr>fp_owner_uid := owner_uid\<rparr> in
         (case fs_find canonical fs of
           Some entry \<Rightarrow>
             (Ok (), fs_find_mut canonical (\<lambda>entry. entry\<lparr>fe_data := data,
                 fe_created_at := created_at, fe_modified_at := modified_at,
                 fe_readonly := readonly, fe_owner_uid := owner_uid,
                 fe_permissions := permissions\<rparr>) fs)
         | None \<Rightarrow>
             if length (fs_files fs) \<ge> fs_max_files fs then (Err FilesystemFull, fs)
             else (Ok (), push_sorted \<lparr>fe_name = canonical, fe_data = data,
                 fe_created_at = created_at, fe_modified_at = modified_at,
                 fe_readonly = readonly, fe_owner_uid = owner_uid,
                 fe_permissions = permissions\<rparr> fs)))"

definition create_new_as ::
  "u64 \<Rightarrow> string \<Rightarrow> u8 list \<Rightarrow> u16 \<Rightarrow> file_permissions \<Rightarrow> bool \<Rightarrow> warfs \<Rightarrow> unit fs_out" where
  "create_new_as now name data owner_uid permissions readonly fs =
    (if length data > MAX_FILE_SIZE then (Err FileTooLarge, fs, [])
     else case canonical_path name of
       Inl e \<Rightarrow> (Err e, fs, [])
     | Inr canonical \<Rightarrow>
       if canonical = ''/'' then (Err InvalidFilename, fs, [])
       else if fs_find canonical fs \<noteq> None then (Err AlreadyExists, fs, [])
       else if \<not> directory_exists_canonical (parent_directory canonical) fs
       then (Err FileNotFound, fs, [])
       else if length (fs_files fs) \<ge> fs_max_files fs then (Err FilesystemFull, fs, [])
       else if usize_sat_add (used_space fs) (length data) > TOTAL_CAPACITY
       then (Err FilesystemFull, fs, [])
       else
         let fs' = push_sorted \<lparr>fe_name = canonical, fe_data = data, fe_created_at = now,
               fe_modified_at = now, fe_readonly = readonly, fe_owner_uid = owner_uid,
               fe_permissions = permissions\<rparr> fs
         in (Ok (), fs', sync_request canonical fs'))"

section \<open>What each operation does\<close>

text \<open>
  Each mutation either fails and leaves the file system as it was, or updates one entry in place,
  or inserts one new entry, or removes one. The outcome lemmas give the guards of each outcome.
\<close>

lemma over_capacity [simp]:
  "TOTAL_CAPACITY < usize_sat_add a b \<longleftrightarrow> TOTAL_CAPACITY < a + b"
  by (auto simp: usize_sat_add_def TOTAL_CAPACITY_def)

definition insertable :: "string \<Rightarrow> u8 list \<Rightarrow> warfs \<Rightarrow> bool" where
  "insertable c data fs \<longleftrightarrow> is_canonical c \<and> c \<noteq> ''/'' \<and> fs_find c fs = None
    \<and> length (fs_files fs) < fs_max_files fs \<and> length data \<le> MAX_FILE_SIZE
    \<and> used_without_target c fs + length data \<le> TOTAL_CAPACITY"

definition replaceable :: "string \<Rightarrow> u8 list \<Rightarrow> warfs \<Rightarrow> bool" where
  "replaceable c data fs \<longleftrightarrow> length data \<le> MAX_FILE_SIZE
    \<and> used_without_target c fs + length data \<le> TOTAL_CAPACITY"

lemma used_without_absent: "fs_find c fs = None \<Longrightarrow> used_without_target c fs = used_space fs"
proof -
  assume "fs_find c fs = None"
  then have "filter (\<lambda>e. fe_name e \<noteq> c) (fs_files fs) = fs_files fs"
    by (auto simp: fs_find_def find_key_None filter_id_conv)
  then show ?thesis by (simp add: used_without_target_def used_space_def)
qed

lemma write_internal_owned_outcome:
  "(\<exists>e. write_internal_owned now name data u r p ro fs = (Err e, fs, []))
   \<or> (\<exists>c entry. canonical_path name = Ok c
        \<and> fs_find c fs = Some entry
        \<and> \<not> fe_readonly entry
        \<and> can_write (fe_permissions entry) u r
        \<and> replaceable c data fs
        \<and> write_internal_owned now name data u r p ro fs =
          (let fs' = fs_find_mut c (\<lambda>e. e\<lparr>fe_data := data, fe_modified_at := now, fe_readonly := ro\<rparr>) fs
           in (Ok (), fs', sync_request c fs')))
   \<or> (\<exists>c. canonical_path name = Ok c
        \<and> insertable c data fs
        \<and> write_internal_owned now name data u r p ro fs =
          (let fs' = push_sorted \<lparr>fe_name = c, fe_data = data, fe_created_at = now,
             fe_modified_at = now, fe_readonly = ro, fe_owner_uid = fp_owner_uid p, fe_permissions = p\<rparr> fs
           in (Ok (), fs', sync_request c fs')))"
  by (auto simp: write_internal_owned_def insertable_def replaceable_def Let_def not_less not_le
      dest: canonical_path_is_canonical split: sum.splits option.splits if_splits)

lemma seed_system_outcome:
  "(\<exists>e. seed_system now name data ro fs = (Err e, fs, []))
   \<or> (\<exists>c entry. canonical_path name = Ok c
        \<and> fs_find c fs = Some entry
        \<and> replaceable c data fs
        \<and> seed_system now name data ro fs =
          (let fs' = fs_find_mut c (\<lambda>e. e\<lparr>fe_data := data, fe_modified_at := now, fe_readonly := ro,
             fe_owner_uid := 0, fe_permissions := perm_system\<rparr>) fs
           in (Ok (), fs', sync_request c fs')))
   \<or> (\<exists>c. canonical_path name = Ok c
        \<and> insertable c data fs
        \<and> seed_system now name data ro fs =
          (let fs' = push_sorted \<lparr>fe_name = c, fe_data = data, fe_created_at = now,
             fe_modified_at = now, fe_readonly = ro, fe_owner_uid = 0, fe_permissions = perm_system\<rparr> fs
           in (Ok (), fs', sync_request c fs')))"
  by (auto simp: seed_system_def insertable_def replaceable_def Let_def not_less not_le
      dest: canonical_path_is_canonical split: sum.splits option.splits if_splits)

lemma delete_as_outcome:
  "(\<exists>e. delete_as name u r fs = (Err e, fs, []))
   \<or> (\<exists>c entry. canonical_path name = Ok c
        \<and> fs_find c fs = Some entry
        \<and> \<not> fe_readonly entry
        \<and> (r = Admin \<or> fe_owner_uid entry = u)
        \<and> delete_as name u r fs =
          (Ok (), fs\<lparr>fs_files := remove_first (\<lambda>e. fe_name e = c) (fs_files fs)\<rparr>, [DeletePath c]))"
  by (auto simp: delete_as_def split: sum.splits option.splits if_splits)

lemma chmod_as_outcome:
  "(\<exists>e. chmod_as name u r mode fs = (Err e, fs, []))
   \<or> (\<exists>c entry. canonical_path name = Ok c
        \<and> fs_find c fs = Some entry
        \<and> \<not> fe_readonly entry
        \<and> (r = Admin \<or> fe_owner_uid entry = u)
        \<and> fst (snd (chmod_as name u r mode fs)) =
          fs_find_mut c (\<lambda>e. e\<lparr>fe_permissions := fst (apply_mode_string mode (fe_permissions e))\<rparr>) fs)"
  by (auto simp: chmod_as_def Let_def split: sum.splits option.splits if_splits)

lemma load_file_from_disk_outcome:
  "(\<exists>e. load_file_from_disk name data own p ro ct mt fs = (Err e, fs))
   \<or> (\<exists>c entry. canonical_path name = Ok c
        \<and> fs_find c fs = Some entry
        \<and> replaceable c data fs
        \<and> load_file_from_disk name data own p ro ct mt fs =
          (Ok (), fs_find_mut c (\<lambda>e. e\<lparr>fe_data := data, fe_created_at := ct,
             fe_modified_at := mt, fe_readonly := ro,
             fe_owner_uid := own, fe_permissions := p\<lparr>fp_owner_uid := own\<rparr>\<rparr>) fs))
   \<or> (\<exists>c. canonical_path name = Ok c
        \<and> insertable c data fs
        \<and> load_file_from_disk name data own p ro ct mt fs =
          (Ok (), push_sorted \<lparr>fe_name = c, fe_data = data, fe_created_at = ct,
             fe_modified_at = mt, fe_readonly = ro, fe_owner_uid = own, fe_permissions = p\<lparr>fp_owner_uid := own\<rparr>\<rparr> fs))"
  by (auto simp: load_file_from_disk_def insertable_def replaceable_def Let_def not_less not_le
      dest: canonical_path_is_canonical split: sum.splits option.splits if_splits)

lemma create_new_as_outcome:
  "(\<exists>e. create_new_as now name data own p ro fs = (Err e, fs, []))
   \<or> (\<exists>c. canonical_path name = Ok c
        \<and> insertable c data fs
        \<and> directory_exists_canonical (parent_directory c) fs
        \<and> create_new_as now name data own p ro fs =
          (let fs' = push_sorted \<lparr>fe_name = c, fe_data = data, fe_created_at = now,
             fe_modified_at = now, fe_readonly = ro, fe_owner_uid = own, fe_permissions = p\<rparr> fs
           in (Ok (), fs', sync_request c fs')))"
  by (auto simp: create_new_as_def insertable_def used_without_absent Let_def not_less not_le
      dest: canonical_path_is_canonical split: sum.splits option.splits if_splits)

end
