(* ===== verification/WarFS_Props.thy ===== *)
theory WarFS_Props
  imports WarFS
begin

text \<open>
  Correctness of the file system: the well-formedness invariant and its preservation by every
  mutation, the refinement of the sorted vector to a partial map from canonical paths to entries,
  protection of entries from users who may not write them, and the file store interface that the
  clients of the file system rely on.
\<close>

section \<open>Lookups after an update, an insertion and a removal\<close>

definition distinct_names :: "warfs \<Rightarrow> bool" where
  "distinct_names fs \<longleftrightarrow> distinct (map fe_name (fs_files fs))"

lemma fs_find_name: "fs_find c fs = Some e \<Longrightarrow> e \<in> set (fs_files fs) \<and> fe_name e = c"
  unfolding fs_find_def by (rule find_key_Some)

lemma fs_find_fs_find_mut:
  assumes "\<And>e. fe_name (f e) = fe_name e"
  shows "fs_find p (fs_find_mut c f fs) = (if p = c then map_option f (fs_find c fs) else fs_find p fs)"
  using assms
  by (auto simp: fs_find_def fs_find_mut_def find_update_first_same find_update_first_other)

lemma fs_find_push_sorted:
  assumes "distinct_names fs" and "fs_find (fe_name e) fs = None"
  shows "fs_find p (push_sorted e fs) = (if p = fe_name e then Some e else fs_find p fs)"
  using assms
  by (simp add: fs_find_def push_sorted_def distinct_names_def find_key_insert_sorted find_key_None)

lemma fs_find_remove:
  assumes "distinct_names fs"
  shows "fs_find p (fs\<lparr>fs_files := remove_first (\<lambda>e. fe_name e = c) (fs_files fs)\<rparr>)
    = (if p = c then None else fs_find p fs)"
  using assms
  by (simp add: fs_find_def distinct_names_def remove_first_filter find_filter_key_other
      find_filter_key_same)

section \<open>The invariant\<close>

definition entry_ok :: "file_entry \<Rightarrow> bool" where
  "entry_ok e \<longleftrightarrow> is_canonical (fe_name e) \<and> fe_name e \<noteq> ''/'' \<and> length (fe_data e) \<le> MAX_FILE_SIZE"

definition fs_wf :: "warfs \<Rightarrow> bool" where
  "fs_wf fs \<longleftrightarrow> fs_max_files fs = MAX_FILES \<and> length (fs_files fs) \<le> MAX_FILES
    \<and> distinct_names fs \<and> sorted (map fe_name (fs_files fs))
    \<and> used_space fs \<le> TOTAL_CAPACITY \<and> list_all entry_ok (fs_files fs)"

lemma fs_wf_distinct [intro]: "fs_wf fs \<Longrightarrow> distinct_names fs"
  by (simp add: fs_wf_def)

lemma fs_wf_new [waros_inv]: "fs_wf warfs_new"
  by (simp add: fs_wf_def warfs_new_def distinct_names_def used_space_def)

lemma sum_update_first:
  assumes "distinct (map key xs)" and "find (\<lambda>x. key x = k) xs = Some y"
  shows "sum_list (map g (update_first (\<lambda>x. key x = k) f xs))
    = (g (f y) :: nat) + sum_list (map g (filter (\<lambda>x. key x \<noteq> k) xs))"
  using assms
proof (induction xs)
  case (Cons a xs)
  show ?case
  proof (cases "key a = k")
    case True
    with Cons.prems have "filter (\<lambda>x. key x \<noteq> k) xs = xs"
      by (auto simp: filter_id_conv image_iff)
    with True Cons.prems show ?thesis by simp
  next
    case False
    with Cons show ?thesis by simp
  qed
qed simp

lemma used_space_fs_find_mut:
  assumes "distinct_names fs" and "fs_find c fs = Some e"
  shows "used_space (fs_find_mut c f fs) = length (fe_data (f e)) + used_without_target c fs"
  using assms
  by (simp add: used_space_def fs_find_mut_def used_without_target_def distinct_names_def fs_find_def
      sum_update_first)

lemma used_space_split:
  assumes "distinct_names fs" and "fs_find c fs = Some e"
  shows "used_space fs = length (fe_data e) + used_without_target c fs"
proof -
  have "update_first P (\<lambda>x. x) xs = xs" for P and xs :: "file_entry list"
    by (induction xs) auto
  then show ?thesis
    using used_space_fs_find_mut [OF assms, where f = "\<lambda>x. x"] by (simp add: fs_find_mut_def)
qed

lemma fs_wf_fs_find_mut:
  assumes "fs_wf fs" and "fs_find c fs = Some e" and "\<And>x. fe_name (f x) = fe_name x"
    and "replaceable c (fe_data (f e)) fs"
    and "\<And>x. fe_data (f x) = fe_data x \<or> fe_data (f x) = fe_data (f e)"
  shows "fs_wf (fs_find_mut c f fs)"
proof -
  have names: "map fe_name (fs_files (fs_find_mut c f fs)) = map fe_name (fs_files fs)"
    using assms(3) by (simp add: fs_find_mut_def map_update_first_same)
  have "entry_ok (f x)" if "entry_ok x" for x
    using that assms(3) [of x] assms(4) assms(5) [of x]
    by (auto simp: entry_ok_def replaceable_def)
  then have "list_all entry_ok (fs_files (fs_find_mut c f fs))"
    using assms(1) set_update_first_subset [of "\<lambda>e. fe_name e = c" f "fs_files fs"]
    by (auto simp: fs_wf_def list_all_iff fs_find_mut_def)
  moreover have "used_space (fs_find_mut c f fs) \<le> TOTAL_CAPACITY"
    using assms by (simp add: used_space_fs_find_mut fs_wf_distinct replaceable_def add.commute)
  ultimately show ?thesis
    using assms(1) names by (simp add: fs_wf_def distinct_names_def) (simp add: fs_find_mut_def)
qed

lemma fs_wf_push_sorted:
  assumes "fs_wf fs" and "insertable (fe_name e) (fe_data e) fs"
  shows "fs_wf (push_sorted e fs)"
  using assms
  by (auto simp: fs_wf_def push_sorted_def distinct_names_def insertable_def used_space_def
      fs_find_def find_key_None entry_ok_def list_all_iff
      used_without_absent [unfolded used_space_def fs_find_def])

lemma fs_wf_remove:
  assumes "fs_wf fs" and "fs_find c fs = Some e"
  shows "fs_wf (fs\<lparr>fs_files := remove_first (\<lambda>e. fe_name e = c) (fs_files fs)\<rparr>)"
proof -
  have "sum_list (map (\<lambda>e. length (fe_data e)) (filter (\<lambda>e. fe_name e \<noteq> c) (fs_files fs)))
      \<le> used_space fs"
    using used_space_split [OF fs_wf_distinct [OF assms(1)] assms(2)]
    by (simp add: used_without_target_def)
  then show ?thesis
    using assms(1)
    by (auto simp: fs_wf_def distinct_names_def remove_first_filter used_space_def list_all_iff
        distinct_map_filter intro: sorted_filter le_trans [OF length_filter_le])
qed

section \<open>Preservation\<close>

lemma write_internal_owned_wf [waros_inv]:
  "fs_wf fs \<Longrightarrow> fs_wf (fst (snd (write_internal_owned now name data u r p ro fs)))"
  using write_internal_owned_outcome [of now name data u r p ro fs]
  by (elim disjE exE conjE)
    (auto simp: Let_def intro!: fs_wf_fs_find_mut fs_wf_push_sorted)

lemma seed_system_wf [waros_inv]:
  "fs_wf fs \<Longrightarrow> fs_wf (fst (snd (seed_system now name data ro fs)))"
  using seed_system_outcome [of now name data ro fs]
  by (elim disjE exE conjE)
    (auto simp: Let_def intro!: fs_wf_fs_find_mut fs_wf_push_sorted)

lemma delete_as_wf [waros_inv]: "fs_wf fs \<Longrightarrow> fs_wf (fst (snd (delete_as name u r fs)))"
  using delete_as_outcome [of name u r fs]
  by (elim disjE exE conjE) (simp_all add: fs_wf_remove)

lemma replaceable_same:
  assumes "fs_wf fs" and "fs_find c fs = Some e"
  shows "replaceable c (fe_data e) fs"
  using assms fs_find_name [OF assms(2)] used_space_split [OF fs_wf_distinct [OF assms(1)] assms(2)]
  by (auto simp: replaceable_def fs_wf_def list_all_iff entry_ok_def)

lemma chmod_as_wf [waros_inv]: "fs_wf fs \<Longrightarrow> fs_wf (fst (snd (chmod_as name u r mode fs)))"
  using chmod_as_outcome [of name u r mode fs]
  by (elim disjE exE conjE)
    (auto intro!: fs_wf_fs_find_mut simp: replaceable_same)

lemma load_file_from_disk_wf [waros_inv]:
  "fs_wf fs \<Longrightarrow> fs_wf (snd (load_file_from_disk name data own p ro ct mt fs))"
  using load_file_from_disk_outcome [of name data own p ro ct mt fs]
  by (elim disjE exE conjE)
    (auto simp: Let_def intro!: fs_wf_fs_find_mut fs_wf_push_sorted)

lemma create_new_as_wf [waros_inv]:
  "fs_wf fs \<Longrightarrow> fs_wf (fst (snd (create_new_as now name data own p ro fs)))"
  using create_new_as_outcome [of now name data own p ro fs]
  by (elim disjE exE conjE) (auto simp: Let_def intro!: fs_wf_push_sorted)

section \<open>Runs of the file system\<close>

text \<open>
  One mutation by any caller, whatever its arguments; \<open>write\<close>, \<open>write_readonly\<close>, \<open>touch\<close>, their
  \<open>_as\<close> and \<open>_system\<close> variants are instances of \<open>write_internal_owned\<close>.
\<close>

inductive fs_step :: "warfs \<Rightarrow> warfs \<Rightarrow> bool" where
  step_write: "fs_step fs (fst (snd (write_internal_owned now name data u r p ro fs)))"
| step_seed: "fs_step fs (fst (snd (seed_system now name data ro fs)))"
| step_delete: "fs_step fs (fst (snd (delete_as name u r fs)))"
| step_chmod: "fs_step fs (fst (snd (chmod_as name u r mode fs)))"
| step_load: "fs_step fs (snd (load_file_from_disk name data own p ro ct mt fs))"
| step_create: "fs_step fs (fst (snd (create_new_as now name data own p ro fs)))"

inductive_cases fs_stepE: "fs_step fs fs'"

lemma fs_step_wf: "fs_step fs fs' \<Longrightarrow> fs_wf fs \<Longrightarrow> fs_wf fs'"
  by (induction rule: fs_step.induct) (simp_all add: waros_inv)

text \<open>
  C2. In every state the file system can reach from boot by any sequence of mutations, the paths
  are canonical, distinct, sorted and none is the root, there are at most 128 files, none larger
  than 1 MiB, and together they take at most 4 MiB.
\<close>

theorem fs_reachable_wf:
  assumes "fs_step\<^sup>*\<^sup>* warfs_new fs"
  shows "fs_wf fs"
  using assms by induction (auto intro: fs_wf_new fs_step_wf)

theorem fs_reachable_wf_witness:
  "fs_wf (fst (snd (fs_write 7 ''/etc/motd'' [1, 2] warfs_new)))"
proof -
  have "fs_step warfs_new (fst (snd (fs_write 7 ''/etc/motd'' [1, 2] warfs_new)))"
    unfolding fs_write_def write_system_def by (rule step_write)
  then show ?thesis by (intro fs_reachable_wf r_into_rtranclp)
qed

section \<open>Protection\<close>

text \<open>
  The operations a user performs under its own identity: writes and touches, deletions, mode
  changes and exclusive creation. \<open>seed_system\<close> and \<open>load_file_from_disk\<close> are the kernel's own.
\<close>

inductive user_step :: "u16 \<Rightarrow> user_role \<Rightarrow> warfs \<Rightarrow> warfs \<Rightarrow> bool" for uid role where
  user_write: "user_step uid role fs (fst (snd (write_as now name data uid role p fs)))"
| user_touch: "user_step uid role fs (fst (snd (touch_as now name uid role p fs)))"
| user_delete: "user_step uid role fs (fst (snd (delete_as name uid role fs)))"
| user_chmod: "user_step uid role fs (fst (snd (chmod_as name uid role mode fs)))"
| user_create: "user_step uid role fs (fst (snd (create_new_as now name data uid p ro fs)))"

text \<open>
  An entry is out of a user's reach when it is read-only, or when the user is no administrator,
  does not own it and may not write it.
\<close>

definition protected_from :: "u16 \<Rightarrow> user_role \<Rightarrow> file_entry \<Rightarrow> bool" where
  "protected_from uid role e \<longleftrightarrow> fe_readonly e \<or>
    (role \<noteq> Admin \<and> fe_owner_uid e \<noteq> uid \<and> \<not> can_write (fe_permissions e) uid role)"

lemma write_internal_owned_protected:
  assumes "fs_wf fs" and "fs_find q fs = Some e" and "protected_from uid role e"
  shows "fs_find q (fst (snd (write_internal_owned now name data uid role p ro fs))) = Some e"
  using write_internal_owned_outcome [of now name data uid role p ro fs] assms
  by (elim disjE exE conjE)
    (auto simp: Let_def fs_find_fs_find_mut fs_find_push_sorted fs_wf_distinct insertable_def
      protected_from_def)

lemma delete_as_protected:
  assumes "fs_wf fs" and "fs_find q fs = Some e" and "protected_from uid role e"
  shows "fs_find q (fst (snd (delete_as name uid role fs))) = Some e"
  using delete_as_outcome [of name uid role fs] assms
  by (elim disjE exE conjE) (auto simp: fs_find_remove fs_wf_distinct protected_from_def)

lemma chmod_as_protected:
  assumes "fs_wf fs" and "fs_find q fs = Some e" and "protected_from uid role e"
  shows "fs_find q (fst (snd (chmod_as name uid role mode fs))) = Some e"
  using chmod_as_outcome [of name uid role mode fs] assms
  by (elim disjE exE conjE) (auto simp: fs_find_fs_find_mut protected_from_def)

lemma create_new_as_keeps:
  assumes "fs_wf fs" and "fs_find q fs = Some e"
  shows "fs_find q (fst (snd (create_new_as now name data own p ro fs))) = Some e"
  using create_new_as_outcome [of now name data own p ro fs] assms
  by (elim disjE exE conjE)
    (auto simp: Let_def fs_find_push_sorted fs_wf_distinct insertable_def)

lemma user_step_wf: "user_step uid role fs fs' \<Longrightarrow> fs_wf fs \<Longrightarrow> fs_wf fs'"
  by (induction rule: user_step.induct) (simp_all add: waros_inv write_as_def touch_as_def)

lemma user_step_protected:
  assumes "user_step uid role fs fs'" and "fs_wf fs" and "fs_find q fs = Some e"
    and "protected_from uid role e"
  shows "fs_find q fs' = Some e"
  using assms
  by (induction rule: user_step.induct)
    (simp_all add: write_as_def touch_as_def write_internal_owned_protected delete_as_protected
      chmod_as_protected create_new_as_keeps)

text \<open>
  C1. Protection of files. An entry that is read-only, or that a user without the administrator
  role neither owns nor may write, is the same entry (data, times, owner and permissions) after any
  sequence of operations that user performs.
\<close>

theorem user_steps_protected:
  assumes "(user_step uid role)\<^sup>*\<^sup>* fs fs'" and "fs_wf fs" and "fs_find q fs = Some e"
    and "protected_from uid role e"
  shows "fs_find q fs' = Some e"
proof -
  from assms have "fs_wf fs' \<and> fs_find q fs' = Some e"
    by induction (auto intro: user_step_wf user_step_protected)
  then show ?thesis ..
qed

definition sample_fs :: warfs where
  "sample_fs = \<lparr>fs_files = [\<lparr>fe_name = ''/etc/motd'', fe_data = [1, 2], fe_created_at = 1,
     fe_modified_at = 1, fe_readonly = False, fe_owner_uid = 0, fe_permissions = perm_system\<rparr>],
   fs_max_files = MAX_FILES\<rparr>"

lemma sample_fs_wf: "fs_wf sample_fs"
proof -
  have "canonical_path ''/etc/motd'' = Ok ''/etc/motd''" by code_simp
  then show ?thesis
    by (simp add: sample_fs_def fs_wf_def distinct_names_def used_space_def entry_ok_def
        is_canonical_def MAX_FILES_def TOTAL_CAPACITY_def MAX_FILE_SIZE_def)
qed

theorem user_steps_protected_witness:
  "fs_find ''/etc/motd'' (fst (snd (write_as 9 ''/etc/motd'' [] 5 User (perm_private 5) sample_fs)))
    = fs_find ''/etc/motd'' sample_fs"
proof -
  let ?e = "hd (fs_files sample_fs)"
  have "user_step 5 User sample_fs
      (fst (snd (write_as 9 ''/etc/motd'' [] 5 User (perm_private 5) sample_fs)))"
    by (rule user_write)
  moreover have "fs_find ''/etc/motd'' sample_fs = Some ?e"
    by (simp add: fs_find_def sample_fs_def)
  moreover have "protected_from 5 User ?e"
    by (simp add: protected_from_def sample_fs_def can_write_def perm_system_def)
  ultimately show ?thesis
    using user_steps_protected [OF r_into_rtranclp sample_fs_wf, of 5 User _ "''/etc/motd''" ?e]
    by simp
qed

section \<open>Refinement to a map\<close>

text \<open>
  The abstract file system is a partial map from canonical paths to entries. \<open>map_write\<close> and
  \<open>map_delete\<close> say what a write and a deletion of a canonical path do to it, with the limits
  stated on the domain of the map.
\<close>

type_synonym file_map = "string \<rightharpoonup> file_entry"

definition fs_abs :: "warfs \<Rightarrow> file_map" where
  "fs_abs fs = (\<lambda>p. fs_find p fs)"

definition map_size_without :: "string \<Rightarrow> file_map \<Rightarrow> nat" where
  "map_size_without c m = (\<Sum>q \<in> dom m - {c}. length (fe_data (the (m q))))"

definition map_write ::
  "u64 \<Rightarrow> string \<Rightarrow> u8 list \<Rightarrow> u16 \<Rightarrow> user_role \<Rightarrow> file_permissions \<Rightarrow> bool \<Rightarrow> file_map \<Rightarrow>
    (fs_error + unit) \<times> file_map" where
  "map_write now c data u r p ro m =
    (if map_size_without c m + length data > TOTAL_CAPACITY then (Err FilesystemFull, m)
     else case m c of
       Some e \<Rightarrow>
         if fe_readonly e then (Err ReadOnly, m)
         else if \<not> can_write (fe_permissions e) u r then (Err PermissionDenied, m)
         else (Ok (), m(c \<mapsto> e\<lparr>fe_data := data, fe_modified_at := now, fe_readonly := ro\<rparr>))
     | None \<Rightarrow>
         if card (dom m) \<ge> MAX_FILES then (Err FilesystemFull, m)
         else (Ok (), m(c \<mapsto> \<lparr>fe_name = c, fe_data = data, fe_created_at = now,
                fe_modified_at = now, fe_readonly = ro, fe_owner_uid = fp_owner_uid p,
                fe_permissions = p\<rparr>)))"

definition map_delete :: "string \<Rightarrow> u16 \<Rightarrow> user_role \<Rightarrow> file_map \<Rightarrow> (fs_error + unit) \<times> file_map" where
  "map_delete c u r m =
    (case m c of
       None \<Rightarrow> (Err FileNotFound, m)
     | Some e \<Rightarrow>
         if fe_readonly e then (Err ReadOnly, m)
         else if r \<noteq> Admin \<and> fe_owner_uid e \<noteq> u then (Err PermissionDenied, m)
         else (Ok (), m(c := None)))"

definition map_read :: "string \<Rightarrow> u16 \<Rightarrow> user_role \<Rightarrow> file_map \<Rightarrow> fs_error + u8 list" where
  "map_read c u r m =
    (case m c of
       None \<Rightarrow> Err FileNotFound
     | Some e \<Rightarrow> if can_read (fe_permissions e) u r then Ok (fe_data e) else Err PermissionDenied)"

lemma dom_fs_abs: "dom (fs_abs fs) = fe_name ` set (fs_files fs)"
proof -
  have "p \<in> dom (fs_abs fs) \<longleftrightarrow> fs_find p fs \<noteq> None" for p
    by (simp add: fs_abs_def dom_def)
  then show ?thesis by (auto simp: fs_find_def find_key_None)
qed

lemma card_dom_fs_abs: "distinct_names fs \<Longrightarrow> card (dom (fs_abs fs)) = length (fs_files fs)"
  by (simp add: dom_fs_abs distinct_names_def card_image distinct_map distinct_card)

lemma map_size_without_fs_abs:
  assumes "distinct_names fs"
  shows "map_size_without c (fs_abs fs) = used_without_target c fs"
proof -
  let ?xs = "filter (\<lambda>e. fe_name e \<noteq> c) (fs_files fs)"
  have d: "distinct (map fe_name ?xs)" and inj: "inj_on fe_name (set ?xs)"
    using assms by (auto simp: distinct_names_def distinct_map_filter distinct_map inj_on_def)
  have the: "the (fs_abs fs (fe_name e)) = e" if "e \<in> set ?xs" for e
    using that assms find_key_unique [of fe_name "fs_files fs" e]
    by (simp add: fs_abs_def fs_find_def distinct_names_def)
  have "dom (fs_abs fs) - {c} = fe_name ` set ?xs"
    by (auto simp: dom_fs_abs)
  then have "map_size_without c (fs_abs fs) = (\<Sum>e \<in> set ?xs. length (fe_data e))"
    using inj the by (simp add: map_size_without_def sum.reindex)
  also have "\<dots> = used_without_target c fs"
    using d by (simp add: used_without_target_def sum_list_distinct_conv_sum_set distinct_map)
  finally show ?thesis .
qed

lemma fs_abs_fs_find_mut:
  assumes "fs_find c fs = Some e" and "\<And>x. fe_name (f x) = fe_name x"
  shows "fs_abs (fs_find_mut c f fs) = (fs_abs fs)(c \<mapsto> f e)"
  using assms by (auto simp: fs_abs_def fs_find_fs_find_mut)

lemma fs_abs_push_sorted:
  assumes "distinct_names fs" and "fs_find (fe_name e) fs = None"
  shows "fs_abs (push_sorted e fs) = (fs_abs fs)(fe_name e \<mapsto> e)"
  using assms by (auto simp: fs_abs_def fs_find_push_sorted)

lemma fs_abs_remove:
  assumes "distinct_names fs"
  shows "fs_abs (fs\<lparr>fs_files := remove_first (\<lambda>e. fe_name e = c) (fs_files fs)\<rparr>)
    = (fs_abs fs)(c := None)"
  using assms by (auto simp: fs_abs_def fs_find_remove)

lemma write_refines_map:
  assumes wf: "fs_wf fs" and c: "is_canonical c" "c \<noteq> ''/''" and len: "length data \<le> MAX_FILE_SIZE"
  shows "map_prod id (fs_abs \<circ> fst) (write_internal_owned now c data u r p ro fs)
    = map_write now c data u r p ro (fs_abs fs)"
proof -
  have d: "distinct_names fs" using wf by auto
  have max: "fs_max_files fs = MAX_FILES" using wf by (simp add: fs_wf_def)
  have look: "fs_abs fs c = fs_find c fs" by (simp add: fs_abs_def)
  show ?thesis
  proof (cases "fs_find c fs")
    case None
    with d max c len look show ?thesis
      by (simp add: write_internal_owned_def map_write_def Let_def map_size_without_fs_abs
          card_dom_fs_abs fs_abs_push_sorted not_less)
  next
    case (Some e)
    with d c len look show ?thesis
      by (simp add: write_internal_owned_def map_write_def Let_def map_size_without_fs_abs
          fs_abs_fs_find_mut [OF Some] not_less)
  qed
qed

lemma delete_refines_map:
  assumes "fs_wf fs" and "is_canonical c"
  shows "map_prod id (fs_abs \<circ> fst) (delete_as c u r fs) = map_delete c u r (fs_abs fs)"
  using assms
  by (simp add: delete_as_def map_delete_def fs_abs_remove fs_wf_distinct
      fs_abs_def [THEN fun_cong, of fs c] split: option.splits)

lemma read_refines_map:
  assumes "is_canonical c"
  shows "read_as c u r fs = map_read c u r (fs_abs fs)"
  using assms by (simp add: read_as_def map_read_def fs_abs_def split: option.splits)

text \<open>
  C5. Refinement. On a well-formed file system, writing, deleting and reading a canonical path
  other than the root do to the partial map of the entries, and return, exactly what the abstract
  operations say; the sorted vector, its scans and its stable sort are not observable.
\<close>

theorem fs_refines_map:
  assumes "fs_wf fs" and "is_canonical c" and "c \<noteq> ''/''" and "length data \<le> MAX_FILE_SIZE"
  shows "map_prod id (fs_abs \<circ> fst) (write_internal_owned now c data u r p ro fs)
      = map_write now c data u r p ro (fs_abs fs)
    \<and> map_prod id (fs_abs \<circ> fst) (delete_as c u r fs) = map_delete c u r (fs_abs fs)
    \<and> read_as c u r fs = map_read c u r (fs_abs fs)"
  using assms write_refines_map delete_refines_map read_refines_map by simp

theorem fs_refines_map_witness:
  "map_prod id (fs_abs \<circ> fst) (delete_as ''/etc/motd'' 0 Admin sample_fs)
    = map_delete ''/etc/motd'' 0 Admin (fs_abs sample_fs)
   \<and> map_delete ''/etc/motd'' 0 Admin (fs_abs sample_fs) = (Ok (), Map.empty)"
proof -
  have "is_canonical ''/etc/motd''" unfolding is_canonical_def by code_simp
  then have "map_prod id (fs_abs \<circ> fst) (delete_as ''/etc/motd'' 0 Admin sample_fs)
      = map_delete ''/etc/motd'' 0 Admin (fs_abs sample_fs)"
    using fs_refines_map [OF sample_fs_wf, of "''/etc/motd''" "[]" 0 0 Admin perm_system False]
    by simp
  then show ?thesis
    by (auto simp: map_delete_def fs_abs_def fs_find_def sample_fs_def fun_eq_iff)
qed

section \<open>The file store interface\<close>

text \<open>
  What the clients of the file system rely on: a write that succeeds is what the next read of the
  same file returns, whatever spelling of the path is used; it leaves every other file alone; a
  failed write changes nothing.
\<close>

locale file_store =
  fixes inv :: "'s \<Rightarrow> bool"
    and norm :: "string \<Rightarrow> 'e + string"
    and rd :: "string \<Rightarrow> 's \<Rightarrow> 'e + 'd"
    and wr :: "'i \<Rightarrow> string \<Rightarrow> 'd \<Rightarrow> 's \<Rightarrow> ('e + unit) \<times> 's"
  assumes wr_inv: "inv s \<Longrightarrow> inv (snd (wr i p d s))"
    and rd_wr_same: "inv s \<Longrightarrow> fst (wr i p d s) = Inr () \<Longrightarrow> norm q = norm p \<Longrightarrow>
      rd q (snd (wr i p d s)) = Inr d"
    and rd_wr_other: "inv s \<Longrightarrow> norm q \<noteq> norm p \<Longrightarrow> rd q (snd (wr i p d s)) = rd q s"
    and wr_error: "fst (wr i p d s) = Inl e \<Longrightarrow> snd (wr i p d s) = s"
begin

lemma wr_all_inv: "inv s \<Longrightarrow> inv (foldl (\<lambda>s (j, q, d). snd (wr j q d s)) s ws)"
  by (induction ws arbitrary: s) (auto simp: wr_inv)

lemma rd_wr_all_other:
  assumes "inv s" and "\<forall>(j, q, d) \<in> set ws. norm q \<noteq> norm p"
  shows "rd p (foldl (\<lambda>s (j, q, d). snd (wr j q d s)) s ws) = rd p s"
  using assms
proof (induction ws arbitrary: s)
  case (Cons w ws)
  obtain j q d where w: "w = (j, q, d)" by (cases w)
  with Cons.prems have "rd p (snd (wr j q d s)) = rd p s"
    by (intro rd_wr_other) auto
  moreover have "inv (snd (wr j q d s))" using Cons.prems by (intro wr_inv)
  ultimately show ?case using Cons w by simp
qed simp

lemma rd_after_wr_all:
  assumes "inv s" and "fst (wr i p d s) = Inr ()" and "norm q = norm p"
    and "\<forall>(j, q', d') \<in> set ws. norm q' \<noteq> norm p"
  shows "rd q (foldl (\<lambda>s (j, q', d'). snd (wr j q' d' s)) (snd (wr i p d s)) ws) = Inr d"
  using assms rd_wr_all_other [OF wr_inv [OF assms(1)], of ws q] rd_wr_same [OF assms(1,2,3)]
  by simp

text \<open>A value saved through an encoder is loaded back by its decoder, later writes elsewhere or not.\<close>

lemma save_load:
  assumes "inv s" and "fst (wr i p (enc x) s) = Inr ()" and "dec (enc x) = Inr x"
    and "\<forall>(j, q, d) \<in> set ws. norm q \<noteq> norm p"
  shows "(case rd p (foldl (\<lambda>s (j, q, d). snd (wr j q d s)) (snd (wr i p (enc x) s)) ws) of
      Inl _ \<Rightarrow> None | Inr d \<Rightarrow> (case dec d of Inl _ \<Rightarrow> None | Inr y \<Rightarrow> Some y)) = Some x"
  using assms rd_after_wr_all [OF assms(1,2) refl assms(4)] by simp

end

text \<open>The kernel's own writes, without the disk requests they hand on.\<close>

definition store_write :: "u64 \<times> bool \<Rightarrow> string \<Rightarrow> u8 list \<Rightarrow> warfs \<Rightarrow> (fs_error + unit) \<times> warfs" where
  "store_write i name data fs =
    (let out = write_system (fst i) name data (snd i) fs in (fst out, fst (snd out)))"

lemma write_internal_owned_find:
  assumes "fs_wf fs" and "fst (write_internal_owned now name data u r p ro fs) = Ok ()"
    and "canonical_path name = Ok c"
  shows "\<exists>e. fs_find c (fst (snd (write_internal_owned now name data u r p ro fs))) = Some e
    \<and> fe_data e = data \<and> fe_name e = c \<and> fe_readonly e = ro
    \<and> (fs_find c fs = None \<longrightarrow> fe_permissions e = p)
    \<and> (\<forall>e0. fs_find c fs = Some e0 \<longrightarrow> fe_permissions e = fe_permissions e0)"
  using write_internal_owned_outcome [of now name data u r p ro fs] assms
  by (elim disjE exE conjE)
    (auto simp: Let_def fs_find_fs_find_mut fs_find_push_sorted fs_wf_distinct insertable_def
      dest: fs_find_name)

lemma write_internal_owned_frame:
  assumes "fs_wf fs" and "canonical_path name \<noteq> Ok q"
  shows "fs_find q (fst (snd (write_internal_owned now name data u r p ro fs))) = fs_find q fs"
  using write_internal_owned_outcome [of now name data u r p ro fs] assms
  by (elim disjE exE conjE)
    (auto simp: Let_def fs_find_fs_find_mut fs_find_push_sorted fs_wf_distinct insertable_def)

lemma write_internal_owned_error:
  "fst (write_internal_owned now name data u r p ro fs) = Err e \<Longrightarrow>
    write_internal_owned now name data u r p ro fs = (Err e, fs, [])"
  using write_internal_owned_outcome [of now name data u r p ro fs]
  by (elim disjE exE conjE) (auto simp: Let_def)

lemma write_internal_owned_Ok_path:
  "fst (write_internal_owned now name data u r p ro fs) = Ok () \<Longrightarrow> \<exists>c. canonical_path name = Ok c"
  using write_internal_owned_outcome [of now name data u r p ro fs] by auto

interpretation warfs_store: file_store fs_wf canonical_path fs_read store_write
proof
  fix fs :: warfs and i p q and d :: "u8 list" and e
  show "fs_wf fs \<Longrightarrow> fs_wf (snd (store_write i p d fs))"
    by (simp add: store_write_def write_system_def Let_def waros_inv)
  show "fs_wf fs \<Longrightarrow> fst (store_write i p d fs) = Inr () \<Longrightarrow> canonical_path q = canonical_path p \<Longrightarrow>
      fs_read q (snd (store_write i p d fs)) = Inr d"
    using write_internal_owned_find [of fs "fst i" p d 0 Admin perm_system "snd i"]
      write_internal_owned_Ok_path [of "fst i" p d 0 Admin perm_system "snd i" fs]
    by (auto simp: store_write_def write_system_def Let_def fs_read_def read_as_def)
  show "fs_wf fs \<Longrightarrow> canonical_path q \<noteq> canonical_path p \<Longrightarrow>
      fs_read q (snd (store_write i p d fs)) = fs_read q fs"
    using write_internal_owned_frame [of fs p _ "fst i" d 0 Admin perm_system "snd i"]
    by (cases "canonical_path q")
      (simp_all add: store_write_def write_system_def Let_def fs_read_def read_as_def)
  show "fst (store_write i p d fs) = Inl e \<Longrightarrow> snd (store_write i p d fs) = fs"
    using write_internal_owned_error [of "fst i" p d 0 Admin perm_system "snd i" fs e]
    by (simp add: store_write_def write_system_def Let_def)
qed

text \<open>
  Round trip. A write by the kernel that succeeds is what the next read of the file returns,
  under any spelling of the path with the same canonical form and after any number of further
  writes to other files.
\<close>

theorem write_read_roundtrip:
  assumes "fs_wf fs" and "fst (store_write i p d fs) = Ok ()" and "canonical_path q = canonical_path p"
    and "\<forall>(j, q', d') \<in> set ws. canonical_path q' \<noteq> canonical_path p"
  shows "fs_read q (foldl (\<lambda>s (j, q', d'). snd (store_write j q' d' s)) (snd (store_write i p d fs)) ws)
    = Ok d"
  using assms by (rule warfs_store.rd_after_wr_all)

theorem write_read_roundtrip_witness:
  "fs_read ''/etc//motd'' (snd (store_write (4, False) ''/tmp/x'' [9]
     (snd (store_write (3, False) ''etc/motd'' [7, 8] sample_fs)))) = Ok [7, 8]"
proof -
  have "canonical_path ''etc/motd'' = Ok ''/etc/motd''" by code_simp
  then have "fst (store_write (3, False) ''etc/motd'' [7, 8] sample_fs) = Ok ()"
    by (simp add: store_write_def write_system_def write_internal_owned_def Let_def sample_fs_def
        fs_find_def used_without_target_def TOTAL_CAPACITY_def MAX_FILE_SIZE_def usize_sat_add_def)
  moreover have "canonical_path ''/etc//motd'' = canonical_path ''etc/motd''" by code_simp
  moreover have "canonical_path ''/tmp/x'' \<noteq> canonical_path ''etc/motd''" by code_simp
  ultimately show ?thesis
    using write_read_roundtrip [OF sample_fs_wf, of "(3, False)" "''etc/motd''" "[7, 8]"
        "''/etc//motd''" "[((4, False), ''/tmp/x'', [9])]"] by simp
qed

lemma chmod_as_error:
  assumes "chmod_as name u r mode fs = (Err e, fs', qs)"
  shows "qs = [] \<and> (fs' = fs \<or> (\<exists>c f. canonical_path name = Ok c \<and> e = InvalidFilename \<and>
    fs' = fs_find_mut c (\<lambda>entry. entry\<lparr>fe_permissions := f entry\<rparr>) fs))"
  using assms by (auto simp: chmod_as_def Let_def split: sum.splits option.splits if_splits)

text \<open>
  C26. Failure atomicity. A write, a seeding, a deletion, an exclusive creation or a load from disk
  that reports an error leaves the file system exactly as it was and asks nothing of the disk. A mode
  change that reports an error asks nothing of the disk either; in memory it leaves every other file as
  it was and of the named file everything but the permissions, and these change only when the error is
  the one for a malformed mode.
\<close>

theorem fs_error_unchanged:
  "(fst (write_internal_owned now name data u r p ro fs) = Err e \<longrightarrow>
      snd (write_internal_owned now name data u r p ro fs) = (fs, []))
   \<and> (fst (seed_system now name data ro fs) = Err e \<longrightarrow>
      snd (seed_system now name data ro fs) = (fs, []))
   \<and> (fst (delete_as name u r fs) = Err e \<longrightarrow> snd (delete_as name u r fs) = (fs, []))
   \<and> (fst (create_new_as now name data own p ro fs) = Err e \<longrightarrow>
      snd (create_new_as now name data own p ro fs) = (fs, []))
   \<and> (fst (load_file_from_disk name data own p ro ct mt fs) = Err e \<longrightarrow>
      snd (load_file_from_disk name data own p ro ct mt fs) = fs)
   \<and> (fst (chmod_as name u r mode fs) = Err e \<longrightarrow>
      snd (snd (chmod_as name u r mode fs)) = []
      \<and> (e \<noteq> InvalidFilename \<longrightarrow> fst (snd (chmod_as name u r mode fs)) = fs)
      \<and> (\<forall>path. canonical_path name \<noteq> Ok path \<longrightarrow>
          fs_find path (fst (snd (chmod_as name u r mode fs))) = fs_find path fs)
      \<and> (\<forall>path. \<exists>q. fs_find path (fst (snd (chmod_as name u r mode fs)))
          = map_option (\<lambda>entry. entry\<lparr>fe_permissions := q\<rparr>) (fs_find path fs)))"
proof (intro conjI impI)
  show "snd (write_internal_owned now name data u r p ro fs) = (fs, [])"
    if "fst (write_internal_owned now name data u r p ro fs) = Err e"
    using write_internal_owned_error [OF that] by simp
  show "snd (seed_system now name data ro fs) = (fs, [])"
    if "fst (seed_system now name data ro fs) = Err e"
    using that seed_system_outcome [of now name data ro fs] by (auto simp: Let_def)
  show "snd (delete_as name u r fs) = (fs, [])" if "fst (delete_as name u r fs) = Err e"
    using that delete_as_outcome [of name u r fs] by auto
  show "snd (create_new_as now name data own p ro fs) = (fs, [])"
    if "fst (create_new_as now name data own p ro fs) = Err e"
    using that create_new_as_outcome [of now name data own p ro fs] by (auto simp: Let_def)
  show "snd (load_file_from_disk name data own p ro ct mt fs) = fs"
    if "fst (load_file_from_disk name data own p ro ct mt fs) = Err e"
    using that load_file_from_disk_outcome [of name data own p ro ct mt fs] by auto
  obtain x fs' qs where c: "chmod_as name u r mode fs = (x, fs', qs)" by (cases "chmod_as name u r mode fs")
  have same: "\<exists>f. fs_find path fs = map_option (\<lambda>entry. entry\<lparr>fe_permissions := f entry\<rparr>) (fs_find path fs)" for path
    by (cases "fs_find path fs") (auto intro!: exI [of _ fe_permissions])
  assume "fst (chmod_as name u r mode fs) = Err e"
  with chmod_as_error [of name u r mode fs e fs' qs] c
  have qs: "qs = []" and fs': "fs' = fs \<or> (\<exists>k f. canonical_path name = Ok k \<and> e = InvalidFilename \<and>
      fs' = fs_find_mut k (\<lambda>entry. entry\<lparr>fe_permissions := f entry\<rparr>) fs)" by auto
  show "snd (snd (chmod_as name u r mode fs)) = []" by (simp add: c qs)
  show "fst (snd (chmod_as name u r mode fs)) = fs" if "e \<noteq> InvalidFilename" using fs' that by (auto simp: c)
  show "\<forall>path. canonical_path name \<noteq> Ok path \<longrightarrow>
      fs_find path (fst (snd (chmod_as name u r mode fs))) = fs_find path fs"
    using fs' by (auto simp: c fs_find_fs_find_mut)
  show "\<forall>path. \<exists>q. fs_find path (fst (snd (chmod_as name u r mode fs)))
      = map_option (\<lambda>entry. entry\<lparr>fe_permissions := q\<rparr>) (fs_find path fs)"
  proof
    fix path
    have "\<exists>f. fs_find path fs' = map_option (\<lambda>entry. entry\<lparr>fe_permissions := f entry\<rparr>) (fs_find path fs)"
      using fs' same [of path] by (auto simp: fs_find_fs_find_mut)
    then show "\<exists>q. fs_find path (fst (snd (chmod_as name u r mode fs)))
        = map_option (\<lambda>entry. entry\<lparr>fe_permissions := q\<rparr>) (fs_find path fs)"
      by (cases "fs_find path fs") (auto simp: c)
  qed
qed

theorem fs_error_unchanged_witness:
  "fst (delete_as ''/etc/motd'' 5 User sample_fs) = Err PermissionDenied
   \<and> snd (delete_as ''/etc/motd'' 5 User sample_fs) = (sample_fs, [])"
proof -
  have "fst (delete_as ''/etc/motd'' 5 User sample_fs) = Err PermissionDenied" by code_simp
  with fs_error_unchanged [where name = "''/etc/motd''" and u = 5 and r = User and fs = sample_fs
      and e = PermissionDenied]
  show ?thesis by blast
qed

text \<open>
  C27. A rejected mode change is applied: \<open>apply_mode_string\<close> assigns the four bits before it judges the
  string. Whoever may change the mode of a file and gives four characters of which some are not allowed
  gets \<open>InvalidFilename\<close>, and yet the file has the four bits of the string in memory, without a request
  to the disk.
\<close>

theorem chmod_rejected_still_applied:
  assumes "canonical_path name = Ok c" and "fs_find c fs = Some entry" and "\<not> fe_readonly entry"
    and "r = Admin \<or> fe_owner_uid entry = u" and "length mode = 4"
    and "mode ! 0 \<notin> set ''rR-'' \<or> mode ! 1 \<notin> set ''wW-'' \<or> mode ! 2 \<notin> set ''rR-'' \<or> mode ! 3 \<notin> set ''wW-''"
  shows "fst (chmod_as name u r mode fs) = Err InvalidFilename
    \<and> snd (snd (chmod_as name u r mode fs)) = []
    \<and> fs_find c (fst (snd (chmod_as name u r mode fs))) = Some (entry\<lparr>fe_permissions :=
        \<lparr>fp_owner_uid = fp_owner_uid (fe_permissions entry),
         fp_owner_read = (mode ! 0 \<in> set ''rR''), fp_owner_write = (mode ! 1 \<in> set ''wW''),
         fp_others_read = (mode ! 2 \<in> set ''rR''), fp_others_write = (mode ! 3 \<in> set ''wW'')\<rparr>\<rparr>)"
proof -
  have "\<not> snd (apply_mode_string mode p)" for p
    using assms(5,6) by (auto simp: apply_mode_string_def is_r_def is_w_def)
  moreover have "fst (apply_mode_string mode p) = \<lparr>fp_owner_uid = fp_owner_uid p,
      fp_owner_read = (mode ! 0 \<in> set ''rR''), fp_owner_write = (mode ! 1 \<in> set ''wW''),
      fp_others_read = (mode ! 2 \<in> set ''rR''), fp_others_write = (mode ! 3 \<in> set ''wW'')\<rparr>" for p
    using assms(5) by (simp add: apply_mode_string_def is_r_def is_w_def)
  ultimately show ?thesis
    using assms(1-4) by (auto simp: chmod_as_def Let_def fs_find_fs_find_mut)
qed

theorem chmod_rejected_still_applied_witness:
  "fst (chmod_as ''/etc/motd'' 0 Admin ''xxxx'' sample_fs) = Err InvalidFilename
   \<and> map_option (\<lambda>e. mode_string (fe_permissions e)) (fs_find ''/etc/motd'' sample_fs) = Some ''rwr-''
   \<and> map_option (\<lambda>e. mode_string (fe_permissions e))
       (fs_find ''/etc/motd'' (fst (snd (chmod_as ''/etc/motd'' 0 Admin ''xxxx'' sample_fs)))) = Some ''----''"
proof -
  have "canonical_path ''/etc/motd'' = Ok ''/etc/motd''" by code_simp
  moreover obtain e where "fs_find ''/etc/motd'' sample_fs = Some e" "\<not> fe_readonly e"
    "mode_string (fe_permissions e) = ''rwr-''"
    by (simp add: sample_fs_def fs_find_def mode_string_def perm_system_def)
  ultimately show ?thesis
    using chmod_rejected_still_applied [of "''/etc/motd''" "''/etc/motd''" sample_fs e Admin 0 "''xxxx''"]
    by (simp add: mode_string_def)
qed

end
