(* ===== verification/User_Db.thy ===== *)
theory User_Db
  imports WarFS_Props
begin

text \<open>
  Accounts (\<open>kernel/src/auth/users.rs\<close>, \<open>passwords.rs\<close>, \<open>mod.rs\<close>): password hashing with key
  stretching, the user database with its operations, its binary image, and its save to and load
  from the file system at \<open>/etc/users.db\<close>.

  SHA3-256 comes from the crate \<open>sha3\<close>: it is the argument \<open>sha3\<close> of the definitions, and what is
  assumed of it is that a digest has 32 bytes. The salt's inputs (the tick counter, the global
  counter \<open>SALT_COUNTER\<close> and the hardware entropy) are the record \<open>salt_inputs\<close>.
\<close>

section \<open>Passwords\<close>

type_synonym digest = "u8 list \<Rightarrow> u8 list"

definition KDF_ITERATIONS :: nat where
  "KDF_ITERATIONS = 10000"

primrec kdf_rounds :: "digest \<Rightarrow> u8 list \<Rightarrow> nat \<Rightarrow> u8 list \<Rightarrow> u8 list" where
  "kdf_rounds sha3 salt 0 state = state"
| "kdf_rounds sha3 salt (Suc n) state =
    sha3 (kdf_rounds sha3 salt n state @ salt @ to_le_bytes (word_of_nat (Suc n) :: u32))"

definition hash_password :: "digest \<Rightarrow> string \<Rightarrow> u8 list \<Rightarrow> u8 list" where
  "hash_password sha3 password salt =
    kdf_rounds sha3 salt (KDF_ITERATIONS - 1) (sha3 (salt @ as_bytes password))"

record salt_inputs =
  si_ticks :: u64
  si_counter :: u64
  si_rdrand :: "u8 list"

definition generate_salt :: "digest \<Rightarrow> salt_inputs \<Rightarrow> u16 \<Rightarrow> u8 list" where
  "generate_salt sha3 src uid =
    take 16 (sha3 (to_le_bytes (si_ticks src) @ to_le_bytes (si_counter src) @ to_le_bytes uid
      @ to_le_bytes (si_ticks src XOR si_counter src) @ si_rdrand src))"

fun diff_bits :: "u8 \<Rightarrow> u8 list \<Rightarrow> u8 list \<Rightarrow> u8" where
  "diff_bits diff (l # ls) (r # rs) = diff_bits (diff OR (l XOR r)) ls rs"
| "diff_bits diff _ _ = diff"

definition constant_time_eq :: "u8 list \<Rightarrow> u8 list \<Rightarrow> bool" where
  "constant_time_eq left right \<longleftrightarrow> diff_bits 0 left right = 0"

lemma diff_bits_0:
  "length ls = length rs \<Longrightarrow> diff_bits d ls rs = 0 \<longleftrightarrow> d = 0 \<and> ls = rs"
  by (induction d ls rs rule: diff_bits.induct) (auto simp: word_or_eq_0 word_xor_eq_0)

text \<open>The accumulated difference of two digests is zero exactly when they are equal.\<close>

lemma constant_time_eq_iff: "length l = length r \<Longrightarrow> constant_time_eq l r \<longleftrightarrow> l = r"
  by (simp add: constant_time_eq_def diff_bits_0)

text \<open>What is assumed of the digest: its length.\<close>

definition digest32 :: "digest \<Rightarrow> bool" where
  "digest32 sha3 \<longleftrightarrow> (\<forall>m. length (sha3 m) = 32)"

lemma length_kdf_rounds:
  "digest32 sha3 \<Longrightarrow> length s = 32 \<Longrightarrow> length (kdf_rounds sha3 salt n s) = 32"
  by (cases n) (simp_all add: digest32_def)

lemma length_hash_password: "digest32 sha3 \<Longrightarrow> length (hash_password sha3 pw salt) = 32"
  by (simp add: hash_password_def length_kdf_rounds) (simp add: digest32_def length_kdf_rounds)

lemma length_generate_salt: "digest32 sha3 \<Longrightarrow> length (generate_salt sha3 src uid) = 16"
  by (simp add: generate_salt_def digest32_def)

section \<open>Accounts\<close>

definition MAX_USERS :: nat where
  "MAX_USERS = 32"

record user_account =
  ua_uid :: u16
  ua_username :: string
  ua_password_hash :: "u8 list"
  ua_salt :: "u8 list"
  ua_role :: user_role
  ua_home_dir :: string
  ua_active :: bool
  ua_created_at :: u64
  ua_last_login :: u64

record user_db =
  db_users :: "user_account list"
  db_next_uid :: u16

datatype auth_error =
    InvalidUsername
  | InvalidPassword
  | UserExists
  | UserNotFound
  | WrongPassword
  | AccountDisabled
  | TooManyUsers
  | CannotDeleteRoot
  | AuthPermissionDenied
  | NotLoggedIn
  | SerializationError

fun auth_error_display :: "auth_error \<Rightarrow> string" where
  "auth_error_display InvalidUsername = ''invalid username''"
| "auth_error_display InvalidPassword = ''invalid password''"
| "auth_error_display UserExists = ''user already exists''"
| "auth_error_display UserNotFound = ''user not found''"
| "auth_error_display WrongPassword = ''incorrect password''"
| "auth_error_display AccountDisabled = ''account disabled''"
| "auth_error_display TooManyUsers = ''user database is full''"
| "auth_error_display CannotDeleteRoot = ''cannot delete root''"
| "auth_error_display AuthPermissionDenied = ''permission denied''"
| "auth_error_display NotLoggedIn = ''not logged in''"
| "auth_error_display SerializationError = ''user database is corrupted''"

definition is_valid_username :: "string \<Rightarrow> bool" where
  "is_valid_username username \<longleftrightarrow> username \<noteq> [] \<and> length username \<le> 32
    \<and> list_all (\<lambda>c. is_ascii_alphanumeric c \<or> c = CHR ''_'') username"

definition find_by_name :: "string \<Rightarrow> user_db \<Rightarrow> user_account option" where
  "find_by_name username db = find (\<lambda>u. ua_username u = username) (db_users db)"

definition find_by_uid :: "u16 \<Rightarrow> user_db \<Rightarrow> user_account option" where
  "find_by_uid uid db = find (\<lambda>u. ua_uid u = uid) (db_users db)"

definition create_user ::
  "digest \<Rightarrow> salt_inputs \<Rightarrow> u64 \<Rightarrow> string \<Rightarrow> string \<Rightarrow> user_role \<Rightarrow> user_db \<Rightarrow> (auth_error + u16) \<times> user_db"
where
  "create_user sha3 src now username password role db =
    (if \<not> is_valid_username username then (Err InvalidUsername, db)
     else if length password < 4 then (Err InvalidPassword, db)
     else if find_by_name username db \<noteq> None then (Err UserExists, db)
     else if length (db_users db) \<ge> MAX_USERS then (Err TooManyUsers, db)
     else
       let uid = db_next_uid db;
           salt = generate_salt sha3 src uid;
           account = \<lparr>ua_uid = uid, ua_username = username,
             ua_password_hash = hash_password sha3 password salt, ua_salt = salt, ua_role = role,
             ua_home_dir = (if uid = 0 then ''/root'' else ''/home/'' @ username),
             ua_active = True, ua_created_at = now, ua_last_login = 0\<rparr>
       in (Ok uid, \<lparr>db_users = sort_key ua_uid (db_users db @ [account]),
                    db_next_uid = sat_add uid 1\<rparr>))"

definition with_default_root :: "digest \<Rightarrow> salt_inputs \<Rightarrow> u64 \<Rightarrow> user_db" where
  "with_default_root sha3 src now =
    snd (create_user sha3 src now ''root'' ''waros'' Admin \<lparr>db_users = [], db_next_uid = 0\<rparr>)"

definition authenticate :: "digest \<Rightarrow> string \<Rightarrow> string \<Rightarrow> user_db \<Rightarrow> auth_error + user_account" where
  "authenticate sha3 username password db =
    result_bind (ok_or (find_by_name username db) UserNotFound) (\<lambda>user.
      if \<not> ua_active user then Err AccountDisabled
      else if \<not> constant_time_eq (hash_password sha3 password (ua_salt user)) (ua_password_hash user)
      then Err WrongPassword
      else Ok user)"

definition change_password ::
  "digest \<Rightarrow> salt_inputs \<Rightarrow> u16 \<Rightarrow> string \<Rightarrow> user_db \<Rightarrow> (auth_error + unit) \<times> user_db" where
  "change_password sha3 src uid new_password db =
    (if length new_password < 4 then (Err InvalidPassword, db)
     else if find_by_uid uid db = None then (Err UserNotFound, db)
     else
       let salt = generate_salt sha3 src uid in
       (Ok (), db\<lparr>db_users := update_first (\<lambda>u. ua_uid u = uid)
          (\<lambda>u. u\<lparr>ua_salt := salt, ua_password_hash := hash_password sha3 new_password salt\<rparr>)
          (db_users db)\<rparr>))"

definition delete_user :: "u16 \<Rightarrow> user_db \<Rightarrow> (auth_error + unit) \<times> user_db" where
  "delete_user uid db =
    (if uid = 0 then (Err CannotDeleteRoot, db)
     else if find_by_uid uid db = None then (Err UserNotFound, db)
     else (Ok (), db\<lparr>db_users := remove_first (\<lambda>u. ua_uid u = uid) (db_users db)\<rparr>))"

definition restore_user_for_rollback :: "user_account \<Rightarrow> user_db \<Rightarrow> user_db" where
  "restore_user_for_rollback user db =
    (if find_by_uid (ua_uid user) db = None
     then \<lparr>db_users = sort_key ua_uid (db_users db @ [user]),
           db_next_uid = max (db_next_uid db) (sat_add (ua_uid user) 1)\<rparr>
     else db)"

definition record_login :: "u64 \<Rightarrow> u16 \<Rightarrow> user_db \<Rightarrow> (auth_error + u64) \<times> user_db" where
  "record_login now uid db =
    (case find_by_uid uid db of
       None \<Rightarrow> (Err UserNotFound, db)
     | Some user \<Rightarrow> (Ok (ua_last_login user),
         db\<lparr>db_users := update_first (\<lambda>u. ua_uid u = uid) (\<lambda>u. u\<lparr>ua_last_login := now\<rparr>) (db_users db)\<rparr>))"

definition username_for_uid :: "u16 \<Rightarrow> user_db \<Rightarrow> string" where
  "username_for_uid uid db =
    (case find_by_uid uid db of
       Some user \<Rightarrow> ua_username user
     | None \<Rightarrow> ''uid'' @ show_nat (unat uid))"

section \<open>The binary image\<close>

fun role_byte :: "user_role \<Rightarrow> u8" where
  "role_byte Admin = 0"
| "role_byte User = 1"
| "role_byte Guest = 2"

definition serialize_user :: "user_account \<Rightarrow> u8 list" where
  "serialize_user user =
    to_le_bytes (ua_uid user) @ [word_of_nat (length (ua_username user))]
    @ as_bytes (ua_username user) @ ua_password_hash user @ ua_salt user @ [role_byte (ua_role user)]
    @ [word_of_nat (length (ua_home_dir user))] @ as_bytes (ua_home_dir user)
    @ [if ua_active user then 1 else 0] @ to_le_bytes (ua_created_at user)
    @ to_le_bytes (ua_last_login user)"

definition serialize :: "user_db \<Rightarrow> u8 list" where
  "serialize db =
    to_le_bytes (word_of_nat (length (db_users db)) :: u16) @ to_le_bytes (db_next_uid db)
    @ concat (map serialize_user (db_users db))"

text \<open>A reader takes the data and the cursor, and returns what it read and the cursor after it.\<close>

definition read_bytes :: "u8 list \<Rightarrow> nat \<Rightarrow> nat \<Rightarrow> auth_error + u8 list \<times> nat" where
  "read_bytes data cursor len =
    (let end = usize_sat_add cursor len in
     if cursor \<le> end \<and> end \<le> length data then Ok (take (end - cursor) (drop cursor data), end)
     else Err SerializationError)"

definition read_u8 :: "u8 list \<Rightarrow> nat \<Rightarrow> auth_error + u8 \<times> nat" where
  "read_u8 data cursor =
    (if cursor < length data then Ok (data ! cursor, cursor + 1) else Err SerializationError)"

definition read_u16 :: "u8 list \<Rightarrow> nat \<Rightarrow> auth_error + u16 \<times> nat" where
  "read_u16 data cursor =
    result_bind (read_bytes data cursor 2) (\<lambda>(bytes, cursor). Ok (from_le_bytes bytes, cursor))"

definition read_u64 :: "u8 list \<Rightarrow> nat \<Rightarrow> auth_error + u64 \<times> nat" where
  "read_u64 data cursor =
    result_bind (read_bytes data cursor 8) (\<lambda>(bytes, cursor). Ok (from_le_bytes bytes, cursor))"

definition read_string :: "u8 list \<Rightarrow> nat \<Rightarrow> nat \<Rightarrow> auth_error + string \<times> nat" where
  "read_string data cursor len =
    result_bind (read_bytes data cursor len) (\<lambda>(bytes, cursor).
      case str_from_utf8 bytes of None \<Rightarrow> Err SerializationError | Some s \<Rightarrow> Ok (s, cursor))"

definition role_of_byte :: "u8 \<Rightarrow> auth_error + user_role" where
  "role_of_byte b =
    (if b = 0 then Ok Admin else if b = 1 then Ok User else if b = 2 then Ok Guest
     else Err SerializationError)"

definition read_user :: "u8 list \<Rightarrow> nat \<Rightarrow> auth_error + user_account \<times> nat" where
  "read_user data cursor =
    result_bind (read_u16 data cursor) (\<lambda>(uid, cursor).
    result_bind (read_u8 data cursor) (\<lambda>(username_len, cursor).
    result_bind (read_string data cursor (unat username_len)) (\<lambda>(username, cursor).
    result_bind (read_bytes data cursor 32) (\<lambda>(password_hash, cursor).
    result_bind (read_bytes data cursor 16) (\<lambda>(salt, cursor).
    result_bind (read_u8 data cursor) (\<lambda>(role_byte, cursor).
    result_bind (role_of_byte role_byte) (\<lambda>role.
    result_bind (read_u8 data cursor) (\<lambda>(home_len, cursor).
    result_bind (read_string data cursor (unat home_len)) (\<lambda>(home_dir, cursor).
    result_bind (read_u8 data cursor) (\<lambda>(active, cursor).
    result_bind (read_u64 data cursor) (\<lambda>(created_at, cursor).
    result_bind (read_u64 data cursor) (\<lambda>(last_login, cursor).
      Ok (\<lparr>ua_uid = uid, ua_username = username, ua_password_hash = password_hash,
            ua_salt = salt, ua_role = role, ua_home_dir = home_dir, ua_active = (active \<noteq> 0),
            ua_created_at = created_at, ua_last_login = last_login\<rparr>, cursor)))))))))))))"

primrec read_users ::
  "nat \<Rightarrow> u8 list \<Rightarrow> nat \<Rightarrow> user_account list \<Rightarrow> auth_error + user_account list" where
  "read_users 0 data cursor users = Ok users"
| "read_users (Suc n) data cursor users =
    result_bind (read_user data cursor) (\<lambda>(user, cursor). read_users n data cursor (users @ [user]))"

definition deserialize :: "u8 list \<Rightarrow> auth_error + user_db" where
  "deserialize data =
    result_bind (read_u16 data 0) (\<lambda>(user_count, cursor).
    result_bind (read_u16 data cursor) (\<lambda>(next_uid, cursor).
    result_bind (read_users (unat user_count) data cursor []) (\<lambda>users.
      Ok \<lparr>db_users = users, db_next_uid = next_uid\<rparr>)))"

definition USERS_DB_PATH :: string where
  "USERS_DB_PATH = ''/etc/users.db''"

definition try_save_to_fs :: "u64 \<Rightarrow> user_db \<Rightarrow> warfs \<Rightarrow> unit fs_out" where
  "try_save_to_fs now db fs = write_system now USERS_DB_PATH (serialize db) False fs"

definition load_from_fs :: "warfs \<Rightarrow> user_db option" where
  "load_from_fs fs =
    (case fs_read USERS_DB_PATH fs of
       Inl _ \<Rightarrow> None
     | Inr data \<Rightarrow> (case deserialize data of Inl _ \<Rightarrow> None | Inr db \<Rightarrow> Some db))"

text \<open>
  \<open>auth::init\<close>: the database from the file system, or the default one with its root account, which
  is then saved. The result carries the first-boot flag and the number of users.
\<close>

definition auth_init ::
  "digest \<Rightarrow> salt_inputs \<Rightarrow> u64 \<Rightarrow> warfs \<Rightarrow>
    (auth_error + user_db \<times> bool \<times> nat) \<times> warfs \<times> disk_request list" where
  "auth_init sha3 src now fs =
    (case load_from_fs fs of
       Some db \<Rightarrow> (Ok (db, False, length (db_users db)), fs, [])
     | None \<Rightarrow>
         let db = with_default_root sha3 src now; out = try_save_to_fs now db fs in
         (case fst out of
           Inl _ \<Rightarrow> (Err SerializationError, snd out)
         | Inr _ \<Rightarrow> (Ok (db, True, length (db_users db)), snd out)))"

section \<open>Round trip of the image\<close>

definition text_ok :: "string \<Rightarrow> bool" where
  "text_ok s \<longleftrightarrow> length s < 256 \<and> valid_utf8 (map unat (as_bytes s))"

definition account_ok :: "user_account \<Rightarrow> bool" where
  "account_ok u \<longleftrightarrow> text_ok (ua_username u) \<and> text_ok (ua_home_dir u)
    \<and> length (ua_password_hash u) = 32 \<and> length (ua_salt u) = 16"

text \<open>
  A reader parses a chunk when, wherever the chunk stands in the data, reading at its start yields
  the encoded item and leaves the cursor after the chunk. Chunks compose.
\<close>

definition parses :: "(u8 list \<Rightarrow> nat \<Rightarrow> auth_error + 'a \<times> nat) \<Rightarrow> u8 list \<Rightarrow> 'a \<Rightarrow> bool" where
  "parses rd bs x \<longleftrightarrow> (\<forall>pre post. length (pre @ bs @ post) \<le> usize_max \<longrightarrow>
    rd (pre @ bs @ post) (length pre) = Ok (x, length pre + length bs))"

lemma parsesI:
  assumes "\<And>pre post. length (pre @ bs @ post) \<le> usize_max \<Longrightarrow>
    rd (pre @ bs @ post) (length pre) = Ok (x, length pre + length bs)"
  shows "parses rd bs x"
  using assms by (simp add: parses_def)

lemma parses_bind:
  assumes "parses r bs x" and "parses (f x) bs' y"
  shows "parses (\<lambda>d c. result_bind (r d c) (\<lambda>(v, c). f v d c)) (bs @ bs') y"
proof (rule parsesI)
  fix pre post :: "u8 list"
  assume len: "length (pre @ (bs @ bs') @ post) \<le> usize_max"
  have "r (pre @ (bs @ bs') @ post) (length pre) = Ok (x, length pre + length bs)"
    using assms(1) len unfolding parses_def append_assoc by blast
  moreover have "f x ((pre @ bs) @ bs' @ post) (length (pre @ bs))
      = Ok (y, length (pre @ bs) + length bs')"
    using assms(2) len unfolding parses_def by (metis append_assoc)
  ultimately show "result_bind (r (pre @ (bs @ bs') @ post) (length pre))
      (\<lambda>(v, c). f v (pre @ (bs @ bs') @ post) c) = Ok (y, length pre + length (bs @ bs'))"
    by simp
qed

lemma parses_return: "parses (\<lambda>d c. Ok (x, c)) [] x"
  by (simp add: parses_def)

lemma parses_bytes: "length bs = n \<Longrightarrow> parses (\<lambda>d c. read_bytes d c n) bs bs"
  by (rule parsesI) (simp add: read_bytes_def usize_sat_add_def Let_def)

lemma parses_u8: "parses read_u8 [b] b"
  by (rule parsesI) (simp add: read_u8_def)

lemma parses_u16: "parses read_u16 (to_le_bytes w) w"
  using parses_bytes [of "to_le_bytes w" 2]
  by (simp add: parses_def read_u16_def from_to_le_bytes)

lemma parses_u64: "parses read_u64 (to_le_bytes w) w"
  using parses_bytes [of "to_le_bytes w" 8]
  by (simp add: parses_def read_u64_def from_to_le_bytes)

lemma parses_u64_map:
  "parses (\<lambda>d c. result_bind (read_u64 d c) (\<lambda>(w, c). Ok (g w, c))) (to_le_bytes w) (g w)"
  using parses_u64 [of w] by (simp add: parses_def)

lemma parses_string:
  assumes "text_ok s"
  shows "parses (\<lambda>d c. read_string d c (unat (word_of_nat (length s) :: u8))) (as_bytes s) s"
proof -
  have "unat (word_of_nat (length s) :: u8) = length s"
    using assms by (simp add: text_ok_def unat_of_nat)
  then show ?thesis
    using parses_bytes [of "as_bytes s" "length s"] assms
    by (simp add: parses_def read_string_def str_from_utf8_def text_ok_def)
qed

lemma role_of_role_byte [simp]: "role_of_byte (role_byte r) = Ok r"
  by (cases r) (simp_all add: role_of_byte_def)

lemma parses_user:
  assumes "account_ok u"
  shows "parses read_user (serialize_user u) u"
proof -
  have ok: "text_ok (ua_username u)" "text_ok (ua_home_dir u)" "length (ua_password_hash u) = 32"
    "length (ua_salt u) = 16"
    using assms by (simp_all add: account_ok_def)
  show ?thesis
    unfolding read_user_def serialize_user_def
    apply (rule parses_bind [OF parses_u16])
    apply (rule parses_bind [OF parses_u8])
    apply (rule parses_bind [OF parses_string [OF ok(1)]])
    apply (rule parses_bind [OF parses_bytes [OF ok(3)]])
    apply (rule parses_bind [OF parses_bytes [OF ok(4)]])
    apply (rule parses_bind [OF parses_u8])
    apply (simp only: role_of_role_byte result_bind_simps)
    apply (rule parses_bind [OF parses_u8])
    apply (rule parses_bind [OF parses_string [OF ok(2)]])
    apply (rule parses_bind [OF parses_u8])
    apply (rule parses_bind [OF parses_u64])
    using parses_u64_map [of "\<lambda>l. u\<lparr>ua_last_login := l\<rparr>" "ua_last_login u"] 
    by (cases u; cases "ua_active u") simp_all
qed

lemma read_users_append:
  assumes "list_all account_ok us"
    and "length (pre @ concat (map serialize_user us) @ post) \<le> usize_max"
  shows "read_users (length us) (pre @ concat (map serialize_user us) @ post) (length pre) acc
    = Ok (acc @ us)"
  using assms
proof (induction us arbitrary: pre acc)
  case (Cons u us)
  let ?data = "pre @ concat (map serialize_user (u # us)) @ post"
  have "read_user ?data (length pre) = Ok (u, length (pre @ serialize_user u))"
    using parses_user [of u] Cons.prems unfolding parses_def by simp
  moreover have "read_users (length us) ?data (length (pre @ serialize_user u)) (acc @ [u])
      = Ok ((acc @ [u]) @ us)"
    using Cons.IH [of "pre @ serialize_user u"] Cons.prems by simp
  ultimately show ?case by simp
qed simp

lemma length_serialize_user:
  "account_ok u \<Longrightarrow> length (serialize_user u) \<le> 580"
  by (auto simp: serialize_user_def account_ok_def text_ok_def)

definition image_ok :: "user_db \<Rightarrow> bool" where
  "image_ok db \<longleftrightarrow> length (db_users db) \<le> MAX_USERS \<and> list_all account_ok (db_users db)"

lemma length_serialize: "image_ok db \<Longrightarrow> length (serialize db) \<le> 4 + 580 * MAX_USERS"
proof -
  assume ok: "image_ok db"
  have "length (concat (map serialize_user us)) \<le> 580 * length us" if "list_all account_ok us" for us
    using that
  proof (induction us)
    case (Cons u us)
    then show ?case using length_serialize_user [of u] by simp
  qed simp
  then have "length (concat (map serialize_user (db_users db))) \<le> 580 * length (db_users db)"
    using ok by (simp add: image_ok_def)
  also have "\<dots> \<le> 580 * MAX_USERS" using ok by (simp add: image_ok_def)
  finally show ?thesis by (simp add: serialize_def)
qed

lemma deserialize_serialize:
  assumes "image_ok db"
  shows "deserialize (serialize db) = Ok db"
proof -
  let ?n = "word_of_nat (length (db_users db)) :: u16"
  have len: "length (serialize db) \<le> usize_max"
    using length_serialize [OF assms] by (simp add: MAX_USERS_def)
  have n: "unat ?n = length (db_users db)"
    using assms by (simp add: image_ok_def MAX_USERS_def unat_of_nat)
  have "parses (\<lambda>d c. result_bind (read_u16 d c) (\<lambda>(w, c). Ok ((v, w), c)))
      (to_le_bytes (db_next_uid db)) (v, db_next_uid db)" for v :: u16
    using parses_u16 [of "db_next_uid db"] by (simp add: parses_def)
  then have "parses (\<lambda>d c. result_bind (read_u16 d c) (\<lambda>(v, c). result_bind (read_u16 d c)
      (\<lambda>(w, c). Ok ((v, w), c)))) (to_le_bytes ?n @ to_le_bytes (db_next_uid db)) (?n, db_next_uid db)"
    by (rule parses_bind [OF parses_u16])
  then have "result_bind (read_u16 (serialize db) 0) (\<lambda>(v, c). result_bind (read_u16 (serialize db) c)
      (\<lambda>(w, c). Ok ((v, w), c))) = Ok ((?n, db_next_uid db), 4)"
    using len unfolding parses_def serialize_def
    by (elim allE [of _ "[]"] allE [of _ "concat (map serialize_user (db_users db))"]) simp
  moreover have "read_users (unat ?n) (serialize db) 4 [] = Ok (db_users db)"
    using read_users_append [of "db_users db" "to_le_bytes ?n @ to_le_bytes (db_next_uid db)" "[]" "[]"]
      assms len n by (simp add: serialize_def image_ok_def)
  ultimately show ?thesis
    by (auto simp: deserialize_def)
qed

section \<open>The invariant of the database\<close>

lemma find_filter: "find P xs = (case filter P xs of [] \<Rightarrow> None | x # _ \<Rightarrow> Some x)"
  by (induction xs) auto

lemma find_sort_key_self: "find (\<lambda>x. f x = k) (sort_key f xs) = find (\<lambda>x. f x = k) xs"
  by (simp add: find_filter sort_key_stable)

definition names_ok :: "user_db \<Rightarrow> bool" where
  "names_ok db \<longleftrightarrow> distinct (map ua_username (db_users db))
    \<and> list_all (\<lambda>u. is_valid_username (ua_username u)) (db_users db)"

definition root_ok :: "user_db \<Rightarrow> bool" where
  "root_ok db \<longleftrightarrow> (\<exists>r. find_by_uid 0 db = Some r \<and> ua_username r = ''root'' \<and> ua_role r = Admin)
    \<and> db_next_uid db \<noteq> 0"

definition uids_ok :: "user_db \<Rightarrow> bool" where
  "uids_ok db \<longleftrightarrow> db_next_uid db = - 1 \<or>
    (distinct (map ua_uid (db_users db)) \<and> (\<forall>u \<in> set (db_users db). ua_uid u < db_next_uid db))"

definition users_wf :: "user_db \<Rightarrow> bool" where
  "users_wf db \<longleftrightarrow> image_ok db \<and> names_ok db \<and> sorted (map ua_uid (db_users db))
    \<and> root_ok db \<and> uids_ok db"

lemma text_ok_ascii:
  "length s < 256 \<Longrightarrow> list_all (\<lambda>c. byte_val c < 128) s \<Longrightarrow> text_ok s"
  by (auto simp: text_ok_def as_bytes_def list_all_iff byte_val_def intro!: valid_utf8_ascii)

lemma valid_username_text:
  assumes "is_valid_username n"
  shows "text_ok n" and "text_ok (''/home/'' @ n)"
proof -
  have "list_all (\<lambda>c. byte_val c < 128) n" "length n \<le> 32"
    using assms by (auto simp: is_valid_username_def list_all_iff dest: alphanumeric_ascii)
  then show "text_ok n" "text_ok (''/home/'' @ n)"
    by (auto intro!: text_ok_ascii)
qed

definition new_account ::
  "digest \<Rightarrow> salt_inputs \<Rightarrow> u64 \<Rightarrow> string \<Rightarrow> string \<Rightarrow> user_role \<Rightarrow> u16 \<Rightarrow> user_account" where
  "new_account sha3 src now username password role uid =
    (let salt = generate_salt sha3 src uid in
     \<lparr>ua_uid = uid, ua_username = username, ua_password_hash = hash_password sha3 password salt,
      ua_salt = salt, ua_role = role,
      ua_home_dir = (if uid = 0 then ''/root'' else ''/home/'' @ username),
      ua_active = True, ua_created_at = now, ua_last_login = 0\<rparr>)"

lemma create_user_outcome:
  "(\<exists>e. create_user sha3 src now n pw role db = (Err e, db))
   \<or> (is_valid_username n \<and> length pw \<ge> 4 \<and> find_by_name n db = None
      \<and> length (db_users db) < MAX_USERS
      \<and> create_user sha3 src now n pw role db = (Ok (db_next_uid db),
          \<lparr>db_users = sort_key ua_uid (db_users db @ [new_account sha3 src now n pw role (db_next_uid db)]),
           db_next_uid = sat_add (db_next_uid db) 1\<rparr>))"
  by (auto simp: create_user_def new_account_def Let_def)

lemma new_account_ok:
  assumes "digest32 sha3" and "is_valid_username n"
  shows "account_ok (new_account sha3 src now n pw role uid)"
proof -
  have "text_ok ''/root''" by (rule text_ok_ascii) simp_all
  then show ?thesis
    using assms valid_username_text [OF assms(2)]
    by (simp add: account_ok_def new_account_def Let_def length_hash_password length_generate_salt)
qed

lemma unat_u16_max: "unat (- 1 :: u16) = 65535"
  by (simp add: unsigned_minus_1_eq_mask mask_eq_exp_minus_1)

lemma u16_room:
  fixes w :: u16
  assumes "w \<noteq> - 1"
  shows "unat w + 1 < 65536"
proof -
  have "unat w < 2 ^ LENGTH(16)" by (rule unsigned_less)
  moreover have "unat w \<noteq> 65535" using assms unat_u16_max by (metis word_unat_eq_iff)
  ultimately show ?thesis by simp
qed

lemma sat_add_u16_1:
  fixes w :: u16
  shows "sat_add w 1 = (if w = - 1 then - 1 else w + 1)"
  using u16_room [of w] by (auto simp: sat_add_def unat_u16_max)

lemma sat_add_u16_1_not_0: "sat_add (w :: u16) 1 \<noteq> 0"
proof -
  have "unat (sat_add w 1) \<noteq> 0" by (simp add: unat_sat_add)
  then show ?thesis by auto
qed

lemma less_u16_plus_1:
  fixes v w :: u16
  assumes "w \<noteq> - 1" and "v \<le> w"
  shows "v < w + 1"
proof -
  have "unat (w + 1) = unat w + 1"
    using u16_room [OF assms(1)] unat_add_no_wrap [of w 1] by simp
  with assms(2) show ?thesis by (simp add: word_less_nat_alt word_le_nat_alt)
qed

lemma uids_ok_create:
  assumes "uids_ok db" and "ua_uid a = db_next_uid db"
  shows "uids_ok \<lparr>db_users = sort_key ua_uid (db_users db @ [a]), db_next_uid = sat_add (db_next_uid db) 1\<rparr>"
proof (cases "db_next_uid db = - 1")
  case True
  then show ?thesis by (simp add: uids_ok_def sat_add_u16_1)
next
  case False
  then have d: "distinct (map ua_uid (db_users db))"
    and lt: "\<forall>u \<in> set (db_users db). ua_uid u < db_next_uid db"
    using assms(1) by (auto simp: uids_ok_def)
  from lt assms(2) have "ua_uid a \<notin> ua_uid ` set (db_users db)" by auto
  moreover have "\<forall>u \<in> set (db_users db @ [a]). ua_uid u < db_next_uid db + 1"
    using False lt assms(2) by (auto intro!: less_u16_plus_1)
  ultimately show ?thesis
    using False d by (simp add: uids_ok_def sat_add_u16_1)
qed

lemma create_user_wf [waros_inv]:
  assumes "digest32 sha3" and "users_wf db"
  shows "users_wf (snd (create_user sha3 src now n pw role db))"
  using create_user_outcome [of sha3 src now n pw role db]
proof (elim disjE exE conjE)
  let ?a = "new_account sha3 src now n pw role (db_next_uid db)"
  let ?db = "\<lparr>db_users = sort_key ua_uid (db_users db @ [?a]), db_next_uid = sat_add (db_next_uid db) 1\<rparr>"
  assume valid: "is_valid_username n" and fresh: "find_by_name n db = None"
    and room: "length (db_users db) < MAX_USERS"
    and eq: "create_user sha3 src now n pw role db = (Ok (db_next_uid db), ?db)"
  have a: "ua_uid ?a = db_next_uid db" "ua_username ?a = n"
    by (simp_all add: new_account_def Let_def)
  have "image_ok ?db"
    using assms valid room new_account_ok [OF assms(1) valid]
    by (simp add: users_wf_def image_ok_def list_all_iff)
  moreover have "names_ok ?db"
    using assms valid fresh a
    by (auto simp: users_wf_def names_ok_def list_all_iff find_by_name_def find_key_None)
  moreover have "root_ok ?db"
    using assms a
    by (auto simp: users_wf_def root_ok_def find_by_uid_def find_sort_key_self find_append
        sat_add_u16_1_not_0 split: option.splits)
  moreover have "uids_ok ?db" using assms a by (auto simp: users_wf_def intro: uids_ok_create)
  ultimately show ?thesis using eq by (simp add: users_wf_def)
qed (use assms in simp)

lemma map_all_transfer:
  "map g xs = map g ys \<Longrightarrow> list_all (\<lambda>x. P (g x)) xs = list_all (\<lambda>x. P (g x)) ys"
  by (metis (no_types, lifting) list.pred_map comp_def list_all_cong)

lemma users_wf_update:
  assumes "users_wf db"
    and "\<And>u. ua_uid (f u) = ua_uid u \<and> ua_username (f u) = ua_username u \<and> ua_role (f u) = ua_role u"
    and "\<And>u. account_ok u \<Longrightarrow> account_ok (f u)"
  shows "users_wf (db\<lparr>db_users := update_first (\<lambda>u. ua_uid u = uid) f (db_users db)\<rparr>)"
proof -
  let ?us = "update_first (\<lambda>u. ua_uid u = uid) f (db_users db)"
  have maps: "map ua_uid ?us = map ua_uid (db_users db)"
      "map ua_username ?us = map ua_username (db_users db)"
    using assms(2) by (simp_all add: map_update_first_same)
  have sub: "set ?us \<subseteq> set (db_users db) \<union> f ` set (db_users db)"
    using set_update_first_subset [of "\<lambda>u. ua_uid u = uid" f "db_users db"] by auto
  have "find (\<lambda>u. ua_uid u = 0) ?us
      = (if uid = 0 then map_option f (find (\<lambda>u. ua_uid u = 0) (db_users db))
         else find (\<lambda>u. ua_uid u = 0) (db_users db))"
    using assms(2) by (auto simp: find_update_first_same find_update_first_other)
  then have "root_ok (db\<lparr>db_users := ?us\<rparr>)"
    using assms by (auto simp: users_wf_def root_ok_def find_by_uid_def)
  moreover have "image_ok (db\<lparr>db_users := ?us\<rparr>)"
  proof -
    have "account_ok u" if "u \<in> set ?us" for u
      using that sub assms(1,3) by (auto simp: users_wf_def image_ok_def list_all_iff dest: subsetD)
    then show ?thesis using assms(1) by (simp add: users_wf_def image_ok_def list_all_iff)
  qed
  moreover have "names_ok (db\<lparr>db_users := ?us\<rparr>)"
    using assms(1) maps(2) map_all_transfer [OF maps(2), of is_valid_username]
    by (simp add: users_wf_def names_ok_def)
  moreover have "uids_ok (db\<lparr>db_users := ?us\<rparr>)"
    using assms(1) maps(1) map_all_transfer [OF maps(1), of "\<lambda>i. i < db_next_uid db"]
    by (simp add: users_wf_def uids_ok_def list_all_iff)
  ultimately show ?thesis using assms(1) maps by (simp add: users_wf_def)
qed

lemma change_password_wf [waros_inv]:
  assumes "digest32 sha3" and "users_wf db"
  shows "users_wf (snd (change_password sha3 src uid pw db))"
proof -
  let ?salt = "generate_salt sha3 src uid"
  have "users_wf (db\<lparr>db_users := update_first (\<lambda>u. ua_uid u = uid)
      (\<lambda>u. u\<lparr>ua_salt := ?salt, ua_password_hash := hash_password sha3 pw ?salt\<rparr>) (db_users db)\<rparr>)"
    using assms
    by (intro users_wf_update) (simp_all add: account_ok_def length_hash_password length_generate_salt)
  with assms show ?thesis by (simp add: change_password_def Let_def)
qed

lemma record_login_wf [waros_inv]:
  assumes "users_wf db"
  shows "users_wf (snd (record_login now uid db))"
proof -
  have "users_wf (db\<lparr>db_users := update_first (\<lambda>u. ua_uid u = uid)
      (\<lambda>u. u\<lparr>ua_last_login := now\<rparr>) (db_users db)\<rparr>)"
    using assms by (intro users_wf_update) (simp_all add: account_ok_def)
  with assms show ?thesis by (simp add: record_login_def split: option.splits)
qed

lemma map_remove_first_distinct:
  "distinct (map f xs) \<Longrightarrow> distinct (map f (remove_first P xs))"
  using set_remove_first_subset [of P] by (induction xs) auto

lemma sorted_map_remove_first: "sorted (map f xs) \<Longrightarrow> sorted (map f (remove_first P xs))"
  using set_remove_first_subset [of P] by (induction xs) auto

lemma find_remove_first_other:
  "(\<And>x. P x \<Longrightarrow> \<not> Q x) \<Longrightarrow> find P (remove_first Q xs) = find P xs"
  by (induction xs) auto

lemma delete_user_wf [waros_inv]:
  assumes "users_wf db"
  shows "users_wf (snd (delete_user uid db))"
proof (cases "uid = 0 \<or> find_by_uid uid db = None")
  case True
  with assms show ?thesis by (auto simp: delete_user_def)
next
  case False
  let ?us = "remove_first (\<lambda>u. ua_uid u = uid) (db_users db)"
  have "set ?us \<subseteq> set (db_users db)" by (rule set_remove_first_subset)
  moreover have "length ?us \<le> length (db_users db)" by (rule length_remove_first_le)
  moreover have "find (\<lambda>u. ua_uid u = 0) ?us = find (\<lambda>u. ua_uid u = 0) (db_users db)"
    using False by (intro find_remove_first_other) auto
  ultimately have "users_wf (db\<lparr>db_users := ?us\<rparr>)"
    using assms
    by (auto simp: users_wf_def image_ok_def names_ok_def root_ok_def uids_ok_def list_all_iff
        find_by_uid_def map_remove_first_distinct sorted_map_remove_first)
  with False show ?thesis by (auto simp: delete_user_def)
qed

text \<open>A deletion that is taken back: the account the shell looked up by name, with the list as before.\<close>

lemma mset_remove_first:
  "find P xs = Some x \<Longrightarrow> mset xs = add_mset x (mset (remove_first P xs))"
  by (induction xs) (auto split: if_splits)

lemma restored_users:
  assumes "find_by_name n db = Some u" and "delete_user (ua_uid u) db = (Ok (), db')"
    and "find_by_uid (ua_uid u) db' = None"
  shows "mset (db_users db) = add_mset u (mset (db_users db'))" and "db_next_uid db' = db_next_uid db"
    and "ua_uid u \<noteq> 0"
proof -
  have db': "db' = db\<lparr>db_users := remove_first (\<lambda>v. ua_uid v = ua_uid u) (db_users db)\<rparr>"
    and "ua_uid u \<noteq> 0" and "find_by_uid (ua_uid u) db \<noteq> None"
    using assms(2) by (auto simp: delete_user_def split: if_splits)
  then obtain v where "find (\<lambda>v. ua_uid v = ua_uid u) (db_users db) = Some v" by (auto simp: find_by_uid_def)
  then have m: "mset (db_users db) = add_mset v (mset (db_users db'))" by (simp add: db' mset_remove_first)
  have "u \<in> set (db_users db)" using assms(1) by (auto simp: find_by_name_def find_Some_iff)
  moreover have "u \<notin> set (db_users db')" using assms(3) by (auto simp: find_by_uid_def find_None_iff)
  ultimately have "u = v" using m by (metis insertE set_mset_add_mset_insert set_mset_mset)
  with m show "mset (db_users db) = add_mset u (mset (db_users db'))" by simp
qed (use assms(2) in \<open>auto simp: delete_user_def split: if_splits\<close>)

lemma uids_ok_next:
  assumes "uids_ok db" and "u \<in> set (db_users db)"
  shows "max (db_next_uid db) (sat_add (ua_uid u) 1) = db_next_uid db"
proof (cases "db_next_uid db = - 1")
  case True
  then show ?thesis by (simp add: max_absorb1)
next
  case False
  then have "ua_uid u < db_next_uid db" using assms by (simp add: uids_ok_def)
  then have "sat_add (ua_uid u) 1 \<le> db_next_uid db"
    by (auto simp: sat_add_u16_1 intro: inc_le)
  then show ?thesis by (rule max_absorb1)
qed

lemma restore_user_wf:
  assumes "users_wf db" and "find_by_name n db = Some u" and "delete_user (ua_uid u) db = (Ok (), db')"
  shows "users_wf (restore_user_for_rollback u db')"
proof (cases "find_by_uid (ua_uid u) db' = None")
  case False
  then show ?thesis
    using delete_user_wf [OF assms(1), of "ua_uid u"] assms(3) by (auto simp: restore_user_for_rollback_def)
next
  case True
  note r = restored_users [OF assms(2,3) True]
  let ?us = "sort_key ua_uid (db_users db' @ [u])"
  have m: "mset ?us = mset (db_users db)" using r(1) by simp
  have set: "set ?us = set (db_users db)" and len: "length ?us = length (db_users db)"
    using m by (metis set_mset_mset, metis size_mset)
  have maps: "distinct (map ua_uid ?us) = distinct (map ua_uid (db_users db))"
    "distinct (map ua_username ?us) = distinct (map ua_username (db_users db))"
    by (rule mset_eq_imp_distinct_iff, simp only: mset_map m)+
  have "u \<in> set (db_users db)" using assms(2) by (auto simp: find_by_name_def find_Some_iff)
  then have eq: "restore_user_for_rollback u db' = \<lparr>db_users = ?us, db_next_uid = db_next_uid db\<rparr>"
    using True r(2) uids_ok_next [of db u] assms(1) by (simp add: restore_user_for_rollback_def users_wf_def)
  have "root_ok db'"
    using delete_user_wf [OF assms(1), of "ua_uid u"] assms(3) by (simp add: users_wf_def)
  then have "root_ok \<lparr>db_users = ?us, db_next_uid = db_next_uid db\<rparr>"
    using r(2,3) by (auto simp: root_ok_def find_by_uid_def find_sort_key_self find_append split: option.splits)
  then show ?thesis
    using assms(1) set len maps unfolding eq users_wf_def image_ok_def names_ok_def uids_ok_def list_all_iff
    by simp
qed

lemma with_default_root_wf [waros_inv]:
  assumes "digest32 sha3"
  shows "users_wf (with_default_root sha3 src now)"
proof -
  have "is_valid_username ''root''" by code_simp
  then have "with_default_root sha3 src now
      = \<lparr>db_users = [new_account sha3 src now ''root'' ''waros'' Admin 0], db_next_uid = 1\<rparr>"
    by (simp add: with_default_root_def create_user_def find_by_name_def MAX_USERS_def new_account_def
        Let_def sat_add_def)
  moreover have "account_ok (new_account sha3 src now ''root'' ''waros'' Admin 0)"
    using assms \<open>is_valid_username ''root''\<close> by (rule new_account_ok)
  ultimately show ?thesis
    using \<open>is_valid_username ''root''\<close>
    by (simp add: users_wf_def image_ok_def names_ok_def root_ok_def uids_ok_def find_by_uid_def
        new_account_def Let_def MAX_USERS_def)
qed

inductive user_db_step :: "digest \<Rightarrow> user_db \<Rightarrow> user_db \<Rightarrow> bool" for sha3 where
  db_create: "user_db_step sha3 db (snd (create_user sha3 src now n pw role db))"
| db_password: "user_db_step sha3 db (snd (change_password sha3 src uid pw db))"
| db_delete: "user_db_step sha3 db (snd (delete_user uid db))"
| db_login: "user_db_step sha3 db (snd (record_login now uid db))"
| db_undelete: "find_by_name n db = Some u \<Longrightarrow> delete_user (ua_uid u) db = (Ok (), db') \<Longrightarrow>
    user_db_step sha3 db (restore_user_for_rollback u db')"

lemma user_db_step_wf: "user_db_step sha3 db db' \<Longrightarrow> digest32 sha3 \<Longrightarrow> users_wf db \<Longrightarrow> users_wf db'"
  by (induction rule: user_db_step.induct) (simp_all add: waros_inv restore_user_wf)

text \<open>
  C22. Starting from the default database, after any sequence of account creations, password
  changes, deletions, deletions taken back because the database could not be saved, and logins
  there are at most 32 accounts, their names are distinct and valid,
  they are sorted by user id, the administrator \<open>root\<close> with id 0 is still there, and until the
  16-bit counter is exhausted no two accounts share an id and no id is handed out again.
\<close>

theorem user_db_reachable_wf:
  assumes "digest32 sha3" and "(user_db_step sha3)\<^sup>*\<^sup>* (with_default_root sha3 src now) db"
  shows "users_wf db"
  using assms(2,1) by induction (auto intro: with_default_root_wf user_db_step_wf)

definition zero_digest :: digest where
  "zero_digest m = replicate 32 0"

lemma zero_digest32: "digest32 zero_digest"
  by (simp add: digest32_def zero_digest_def)

definition sample_salt :: salt_inputs where
  "sample_salt = \<lparr>si_ticks = 5, si_counter = 1, si_rdrand = replicate 16 7\<rparr>"

theorem user_db_reachable_wf_witness:
  "digest32 zero_digest \<and> users_wf (snd (delete_user 0 (with_default_root zero_digest sample_salt 0)))"
proof -
  have "user_db_step zero_digest (with_default_root zero_digest sample_salt 0)
      (snd (delete_user 0 (with_default_root zero_digest sample_salt 0)))"
    by (rule db_delete)
  from user_db_reachable_wf [OF zero_digest32 r_into_rtranclp [where r = "user_db_step zero_digest", OF this]]
  show ?thesis using zero_digest32 by blast
qed

section \<open>Saving, loading and authenticating\<close>

text \<open>
  C16. The user database survives a reboot: once its save to the file system has succeeded, loading
  it gives back the same database (accounts in order, every field, and the id counter), whatever
  the kernel has written to other files since.
\<close>

theorem users_save_load:
  assumes "image_ok db" and "fs_wf fs" and "fst (try_save_to_fs now db fs) = Ok ()"
    and "\<forall>(i, q, d) \<in> set ws. canonical_path q \<noteq> canonical_path USERS_DB_PATH"
  shows "load_from_fs (foldl (\<lambda>s (i, q, d). snd (store_write i q d s))
    (fst (snd (try_save_to_fs now db fs))) ws) = Some db"
  using warfs_store.save_load [where dec = deserialize and enc = serialize and x = db
      and i = "(now, False)" and p = USERS_DB_PATH, OF assms(2) _ _ assms(4)]
    assms(3) deserialize_serialize [OF assms(1)]
  by (simp add: store_write_def try_save_to_fs_def load_from_fs_def Let_def)

lemma USERS_DB_PATH_canonical: "canonical_path USERS_DB_PATH = Ok USERS_DB_PATH"
  unfolding USERS_DB_PATH_def by code_simp

lemma try_save_to_fs_empty:
  assumes "image_ok db"
  shows "fst (try_save_to_fs now db warfs_new) = Ok ()"
proof -
  have "length (serialize db) \<le> 4 + 580 * 32"
    using length_serialize [OF assms] by (simp add: MAX_USERS_def)
  moreover have "USERS_DB_PATH \<noteq> ''/''" by (simp add: USERS_DB_PATH_def)
  ultimately show ?thesis
    using USERS_DB_PATH_canonical
    by (simp add: try_save_to_fs_def write_system_def write_internal_owned_def fs_find_def
        warfs_new_def used_without_target_def MAX_FILE_SIZE_def TOTAL_CAPACITY_def MAX_FILES_def
        usize_sat_add_def Let_def)
qed

theorem users_save_load_witness:
  "load_from_fs (fst (snd (try_save_to_fs 3 (with_default_root zero_digest sample_salt 0) warfs_new)))
    = Some (with_default_root zero_digest sample_salt 0)"
proof -
  have ok: "image_ok (with_default_root zero_digest sample_salt 0)"
    using with_default_root_wf [OF zero_digest32] by (simp add: users_wf_def)
  from users_save_load [OF ok fs_wf_new try_save_to_fs_empty [OF ok], of "[]"]
  show ?thesis by simp
qed

lemma authenticate_Ok_iff:
  assumes "digest32 sha3" and "list_all account_ok (db_users db)"
  shows "authenticate sha3 n pw db = Ok u \<longleftrightarrow> find_by_name n db = Some u \<and> ua_active u
    \<and> hash_password sha3 pw (ua_salt u) = ua_password_hash u"
proof -
  have "length (ua_password_hash u) = 32" if "find_by_name n db = Some u" for u
    using find_key_Some [OF that [unfolded find_by_name_def]] assms(2)
    by (auto simp: list_all_iff account_ok_def)
  then show ?thesis
    using assms(1)
    by (cases "find_by_name n db")
      (auto simp: authenticate_def constant_time_eq_iff length_hash_password split: if_splits)
qed

text \<open>
  C21. Login. After an account has been created, authenticating under its name with the password it
  was created with returns that account with its id and role; a password whose stretched hash
  differs is refused as wrong; and no other account's lookup is affected.
\<close>

theorem created_user_authenticates:
  assumes "digest32 sha3" and "users_wf db"
    and "create_user sha3 src now n pw role db = (Ok uid, db')"
  shows "(\<exists>u. authenticate sha3 n pw db' = Ok u \<and> ua_uid u = uid \<and> ua_role u = role
      \<and> (\<forall>pw'. hash_password sha3 pw' (ua_salt u) \<noteq> hash_password sha3 pw (ua_salt u) \<longrightarrow>
            authenticate sha3 n pw' db' = Err WrongPassword))
    \<and> (\<forall>m. m \<noteq> n \<longrightarrow> find_by_name m db' = find_by_name m db)"
proof -
  let ?a = "new_account sha3 src now n pw role (db_next_uid db)"
  have fresh: "find_by_name n db = None" and valid: "is_valid_username n" and uid: "uid = db_next_uid db"
    and db': "db_users db' = sort_key ua_uid (db_users db @ [?a])"
    using create_user_outcome [of sha3 src now n pw role db] assms(3) by auto
  have a: "ua_username ?a = n" "ua_uid ?a = uid" "ua_role ?a = role" "ua_active ?a"
      "ua_password_hash ?a = hash_password sha3 pw (ua_salt ?a)"
    using uid by (simp_all add: new_account_def Let_def)
  have look: "find_by_name m db' = (if m = n then Some ?a else find_by_name m db)" for m
    using assms(2) fresh a(1) unfolding find_by_name_def db'
    by (subst find_key_insert_sorted) (auto simp: users_wf_def names_ok_def find_key_None)
  have ok: "list_all account_ok (db_users db')"
    using create_user_wf [OF assms(1,2), of src now n pw role] assms(3)
    by (simp add: users_wf_def image_ok_def)
  have "authenticate sha3 n pw db' = Ok ?a"
    using look [of n] a authenticate_Ok_iff [OF assms(1) ok] by simp
  moreover have "authenticate sha3 n pw' db' = Err WrongPassword"
    if "hash_password sha3 pw' (ua_salt ?a) \<noteq> hash_password sha3 pw (ua_salt ?a)" for pw'
    using that look [of n] a assms(1)
    by (simp add: authenticate_def constant_time_eq_iff length_hash_password)
  ultimately show ?thesis using a look by auto
qed

theorem created_user_authenticates_witness:
  "\<exists>db'. create_user zero_digest sample_salt 4 ''alice'' ''secret'' User
      (with_default_root zero_digest sample_salt 0) = (Ok 1, db')
    \<and> (\<exists>u. authenticate zero_digest ''alice'' ''secret'' db' = Ok u \<and> ua_uid u = 1 \<and> ua_role u = User)"
proof -
  let ?db = "with_default_root zero_digest sample_salt 0"
  have root: "is_valid_username ''root''" and alice: "is_valid_username ''alice''"
    by code_simp+
  have "fst (create_user zero_digest sample_salt 4 ''alice'' ''secret'' User ?db) = Ok 1"
    using root alice
    by (simp add: create_user_def with_default_root_def find_by_name_def MAX_USERS_def Let_def
        sat_add_def)
  then obtain db' where
    "create_user zero_digest sample_salt 4 ''alice'' ''secret'' User ?db = (Ok 1, db')"
    by (metis prod.collapse)
  with created_user_authenticates [OF zero_digest32 with_default_root_wf [OF zero_digest32] this]
  show ?thesis by auto
qed

text \<open>
  C30. The id counter saturates at 65535 and account creation does not look whether the id is taken,
  so once the counter is exhausted two accounts created one after the other get the same id and
  with it each other's files.
\<close>

theorem uid_shared_at_counter_limit:
  assumes "db_next_uid db = - 1" and "create_user sha3 src now n pw role db = (Ok uid, db')"
    and "create_user sha3 src' now' n' pw' role' db' = (Ok uid', db'')"
  shows "n \<noteq> n' \<and> uid = uid'"
proof -
  let ?a = "new_account sha3 src now n pw role (db_next_uid db)"
  have uid: "uid = - 1" and us: "db_users db' = sort_key ua_uid (db_users db @ [?a])"
    and full: "db_next_uid db' = - 1"
    using create_user_outcome [of sha3 src now n pw role db] assms(1,2)
    by (auto simp: sat_add_u16_1)
  have uid': "uid' = - 1" and "find_by_name n' db' = None"
    using create_user_outcome [of sha3 src' now' n' pw' role' db'] assms(3) full by auto
  then have "n' \<noteq> ua_username ?a"
    by (auto simp: find_by_name_def us find_key_None)
  with uid uid' show ?thesis by (simp add: new_account_def Let_def)
qed

theorem uid_shared_at_counter_limit_witness:
  "\<exists>db' db''. create_user zero_digest sample_salt 1 ''alice'' ''secret'' User
        \<lparr>db_users = [], db_next_uid = - 1\<rparr> = (Ok (- 1), db')
     \<and> create_user zero_digest sample_salt 2 ''bob'' ''hunter2'' Guest db' = (Ok (- 1), db'')"
proof -
  let ?db = "\<lparr>db_users = [], db_next_uid = - 1\<rparr>"
  have valid: "is_valid_username ''alice''" "is_valid_username ''bob''" by code_simp+
  obtain db' where c1: "create_user zero_digest sample_salt 1 ''alice'' ''secret'' User ?db = (Ok (- 1), db')"
    and db': "db' = \<lparr>db_users = [new_account zero_digest sample_salt 1 ''alice'' ''secret'' User (- 1)],
      db_next_uid = - 1\<rparr>"
    using valid by (simp add: create_user_def find_by_name_def MAX_USERS_def Let_def new_account_def
        sat_add_u16_1)
  obtain uid db'' where c2: "create_user zero_digest sample_salt 2 ''bob'' ''hunter2'' Guest db' = (Ok uid, db'')"
    using valid unfolding db'
    by (simp add: create_user_def find_by_name_def MAX_USERS_def Let_def new_account_def)
  have "- 1 = uid"
    using uid_shared_at_counter_limit [OF _ c1 c2] by simp
  with c1 c2 show ?thesis by blast
qed

end
