(* ===== verification/Session.thy ===== *)
theory Session
  imports User_Db Audit_Log
begin

text \<open>
  The login session (\<open>kernel/src/auth/session.rs\<close>) and the owner of a protected path
  (\<open>permissions.rs\<close>, \<open>protected_path_owner\<close>). \<open>CURRENT_SESSION\<close> is a \<open>session option\<close>; the user
  database behind \<open>USER_DB\<close> is an argument.
\<close>

record session =
  se_user :: user_account
  se_cwd :: string
  se_started_at :: u64

definition session_new :: "u64 \<Rightarrow> user_account \<Rightarrow> session" where
  "session_new now user = \<lparr>se_user = user, se_cwd = ua_home_dir user, se_started_at = now\<rparr>"

definition session_is_admin :: "session \<Rightarrow> bool" where
  "session_is_admin s \<longleftrightarrow> ua_role (se_user s) = Admin"

definition prompt_path :: "session \<Rightarrow> string" where
  "prompt_path s =
    (if se_cwd s = ua_home_dir (se_user s) then ''~''
     else if prefix (ua_home_dir (se_user s)) (se_cwd s)
     then ''~'' @ drop (length (ua_home_dir (se_user s))) (se_cwd s)
     else se_cwd s)"

definition session_is_recovery :: "session \<Rightarrow> bool" where
  "session_is_recovery s \<longleftrightarrow> ua_username (se_user s) = ''recovery''"

definition session_start :: "u64 \<Rightarrow> user_account \<Rightarrow> session option" where
  "session_start now user = Some (session_new now user)"

definition session_start_recovery :: "u64 \<Rightarrow> session option" where
  "session_start_recovery now = Some
    \<lparr>se_user = \<lparr>ua_uid = 0, ua_username = ''recovery'', ua_password_hash = replicate 32 0,
       ua_salt = replicate 16 0, ua_role = Admin, ua_home_dir = ''/recovery'', ua_active = True,
       ua_created_at = now, ua_last_login = now\<rparr>,
     se_cwd = ''/recovery'', se_started_at = now\<rparr>"

definition session_logout :: "session option" where
  "session_logout = None"

definition current_user :: "session option \<Rightarrow> user_account option" where
  "current_user cs = map_option se_user cs"

definition is_logged_in :: "session option \<Rightarrow> bool" where
  "is_logged_in cs \<longleftrightarrow> cs \<noteq> None"

definition current_is_admin :: "session option \<Rightarrow> bool" where
  "current_is_admin cs = (case cs of None \<Rightarrow> False | Some s \<Rightarrow> session_is_admin s)"

definition current_uid :: "session option \<Rightarrow> u16" where
  "current_uid cs = (case cs of None \<Rightarrow> 0 | Some s \<Rightarrow> ua_uid (se_user s))"

definition current_username :: "session option \<Rightarrow> string" where
  "current_username cs = (case cs of None \<Rightarrow> ''unknown'' | Some s \<Rightarrow> ua_username (se_user s))"

definition current_role :: "session option \<Rightarrow> user_role" where
  "current_role cs = (case cs of None \<Rightarrow> Admin | Some s \<Rightarrow> ua_role (se_user s))"

definition current_home :: "session option \<Rightarrow> string" where
  "current_home cs = (case cs of None \<Rightarrow> ''/'' | Some s \<Rightarrow> ua_home_dir (se_user s))"

definition current_prompt_path :: "session option \<Rightarrow> string" where
  "current_prompt_path cs = (case cs of None \<Rightarrow> ''/'' | Some s \<Rightarrow> prompt_path s)"

definition current_cwd :: "session option \<Rightarrow> string" where
  "current_cwd cs = (case cs of None \<Rightarrow> ''/'' | Some s \<Rightarrow> se_cwd s)"

definition is_recovery_session :: "session option \<Rightarrow> bool" where
  "is_recovery_session cs = (case cs of None \<Rightarrow> False | Some s \<Rightarrow> session_is_recovery s)"

definition set_cwd :: "string \<Rightarrow> session option \<Rightarrow> session option" where
  "set_cwd path cs = map_option (\<lambda>s. s\<lparr>se_cwd := path\<rparr>) cs"

definition resolve_path :: "string \<Rightarrow> session option \<Rightarrow> string" where
  "resolve_path input cs =
    (let trimmed = trim input in
     if trimmed = [] then current_home cs
     else case cs of
       None \<Rightarrow> trimmed
     | Some s \<Rightarrow>
         if trimmed = ''~'' then ua_home_dir (se_user s)
         else if trimmed = ''.'' then se_cwd s
         else (case strip_prefix ''~/'' trimmed of
           Some rest \<Rightarrow> ua_home_dir (se_user s) @ ''/'' @ rest
         | None \<Rightarrow>
             (case strip_prefix ''./'' trimmed of
               Some rest \<Rightarrow> se_cwd s @ ''/'' @ rest
             | None \<Rightarrow>
                 if prefix ''/'' trimmed then trimmed
                 else se_cwd s @ ''/'' @ trimmed)))"

definition protected_path_owner :: "string \<Rightarrow> user_db \<Rightarrow> (u16 \<times> string) option" where
  "protected_path_owner path db =
    (if path = ''/root'' \<or> prefix ''/root/'' path then Some (0, ''root'')
     else case strip_prefix ''/home/'' path of
       None \<Rightarrow> None
     | Some remainder \<Rightarrow>
         map_option (\<lambda>user. (ua_uid user, ua_username user))
           (find_by_name (hd (split_on (CHR ''/'') remainder)) db))"

definition can_access_path :: "string \<Rightarrow> session option \<Rightarrow> user_db \<Rightarrow> bool" where
  "can_access_path path cs db =
    (case current_user cs of
       None \<Rightarrow> True
     | Some user \<Rightarrow>
         if ua_role user = Admin then True
         else (case protected_path_owner (trim path) db of
           None \<Rightarrow> True
         | Some (owner_uid, _) \<Rightarrow> owner_uid = ua_uid user))"

lemma resolve_path_absolute:
  assumes "is_canonical p"
  shows "resolve_path p cs = p"
proof -
  obtain cs' where p: "p = of_components cs'"
    using assms by (auto simp: is_canonical_iff)
  moreover have "trim p = p" using assms by (rule is_canonical_trim)
  ultimately show ?thesis
    by (simp add: resolve_path_def p of_components_def strip_prefix_def Let_def split: option.splits)
qed

lemma can_access_path_canonical:
  assumes "is_canonical p" and "current_user cs = Some user" and "ua_role user \<noteq> Admin"
    and "protected_path_owner p db = Some (owner, n)" and "owner \<noteq> ua_uid user"
  shows "\<not> can_access_path p cs db"
  using assms is_canonical_trim [OF assms(1)] by (simp add: can_access_path_def)

end
