(* ===== verification/Fs_Current.thy ===== *)
theory Fs_Current
  imports Session
begin

text \<open>
  The file operations of the logged-in user (\<open>kernel/src/fs/mod.rs\<close>, the \<open>_current\<close> functions):
  resolve the path against the session, check the protected directories, call the file system
  under the session's identity and report to the audit log.

  The globals they use are the record \<open>os_state\<close>; \<open>os_requests\<close> is the sequence of requests the
  file system has handed to the disk layer so far. The tick counter \<open>now\<close> is read once per
  operation.
\<close>

record os_state =
  os_fs :: warfs
  os_users :: user_db
  os_session :: "session option"
  os_audit :: audit_logger
  os_requests :: "disk_request list"

type_synonym 'a os_out = "(fs_error + 'a) \<times> os_state"

definition put_fs :: "'a fs_out \<Rightarrow> os_state \<Rightarrow> os_state" where
  "put_fs out st = st\<lparr>os_fs := fst (snd out), os_requests := os_requests st @ snd (snd out)\<rparr>"

definition log_event :: "u64 \<Rightarrow> audit_event \<Rightarrow> os_state \<Rightarrow> os_state" where
  "log_event now event st = st\<lparr>os_audit := audit_log now event (os_audit st)\<rparr>"

section \<open>Directories\<close>

definition directory_exists :: "string \<Rightarrow> os_state \<Rightarrow> bool" where
  "directory_exists path st =
    (let resolved = resolve_path path (os_session st) in
     if resolved = ''/'' then True
     else list_ex (\<lambda>e. fe_name e = directory_marker_path resolved \<or> prefix (resolved @ ''/'') (fe_name e))
       (fs_files (os_fs st)))"

definition change_directory :: "string \<Rightarrow> os_state \<Rightarrow> string os_out" where
  "change_directory path st =
    (let resolved = resolve_path path (os_session st) in
     if \<not> can_access_path resolved (os_session st) (os_users st) then (Err PermissionDenied, st)
     else if \<not> directory_exists resolved st then (Err FileNotFound, st)
     else (Ok resolved, st\<lparr>os_session := set_cwd resolved (os_session st)\<rparr>))"

definition mkdir_current :: "u64 \<Rightarrow> string \<Rightarrow> os_state \<Rightarrow> string os_out" where
  "mkdir_current now path st =
    (let resolved = resolve_path path (os_session st) in
     if \<not> can_access_path resolved (os_session st) (os_users st) then (Err PermissionDenied, st)
     else if \<not> directory_exists (parent_directory resolved) st then (Err FileNotFound, st)
     else
       let uid = current_uid (os_session st); role = current_role (os_session st);
           out = write_as now (directory_marker_path resolved) [] uid role
             (default_permissions_for resolved uid) (os_fs st)
       in (result_bind (fst out) (\<lambda>_. Ok resolved), put_fs out st))"

definition rmdir_current :: "string \<Rightarrow> os_state \<Rightarrow> string os_out" where
  "rmdir_current path st =
    (let resolved = resolve_path path (os_session st) in
     if \<not> can_access_path resolved (os_session st) (os_users st) then (Err PermissionDenied, st)
     else
       let marker = directory_marker_path resolved in
       if list_ex (\<lambda>e. prefix (resolved @ ''/'') (fe_name e) \<and> fe_name e \<noteq> marker) (fs_files (os_fs st))
       then (Err ReadOnly, st)
       else
         let out = delete_as marker (current_uid (os_session st)) (current_role (os_session st)) (os_fs st)
         in (result_bind (fst out) (\<lambda>_. Ok resolved), put_fs out st))"

section \<open>Files\<close>

definition write_current :: "u64 \<Rightarrow> string \<Rightarrow> u8 list \<Rightarrow> os_state \<Rightarrow> string os_out" where
  "write_current now name data st =
    (let resolved = resolve_path name (os_session st) in
     if \<not> can_access_path resolved (os_session st) (os_users st) then (Err PermissionDenied, st)
     else
       let uid = current_uid (os_session st); role = current_role (os_session st);
           existed = (fs_find resolved (os_fs st) \<noteq> None);
           out = write_as now resolved data uid role (default_permissions_for resolved uid) (os_fs st)
       in case fst out of
            Inl e \<Rightarrow> (Err e, put_fs out st)
          | Inr _ \<Rightarrow> (Ok resolved, log_event now
              (if existed then FileModified resolved uid else FileCreated resolved uid) (put_fs out st)))"

definition validate_create_new_current :: "string \<Rightarrow> os_state \<Rightarrow> fs_error + string" where
  "validate_create_new_current name st =
    (let resolved = resolve_path name (os_session st) in
     if \<not> can_access_path resolved (os_session st) (os_users st) then Err PermissionDenied
     else result_bind (canonical_path resolved) (\<lambda>canonical.
       if canonical = ''/'' then Err InvalidFilename
       else if fs_find canonical (os_fs st) \<noteq> None then Err AlreadyExists
       else if \<not> directory_exists (parent_directory canonical) st then Err FileNotFound
       else Ok canonical))"

definition create_new_current :: "u64 \<Rightarrow> string \<Rightarrow> u8 list \<Rightarrow> os_state \<Rightarrow> string os_out" where
  "create_new_current now name data st =
    (case validate_create_new_current name st of
       Inl e \<Rightarrow> (Err e, st)
     | Inr resolved \<Rightarrow>
         let uid = current_uid (os_session st);
             out = create_new_as now resolved data uid (default_permissions_for resolved uid) False (os_fs st)
         in (case fst out of
               Inl e \<Rightarrow> (Err e, put_fs out st)
             | Inr _ \<Rightarrow> (Ok resolved, log_event now (FileCreated resolved uid) (put_fs out st))))"

definition touch_current :: "u64 \<Rightarrow> string \<Rightarrow> os_state \<Rightarrow> string os_out" where
  "touch_current now name st =
    (let resolved = resolve_path name (os_session st) in
     if \<not> can_access_path resolved (os_session st) (os_users st) then (Err PermissionDenied, st)
     else
       let uid = current_uid (os_session st); role = current_role (os_session st);
           out = touch_as now resolved uid role (default_permissions_for resolved uid) (os_fs st)
       in (result_bind (fst out) (\<lambda>_. Ok resolved), put_fs out st))"

definition read_current :: "string \<Rightarrow> os_state \<Rightarrow> fs_error + string \<times> u8 list" where
  "read_current name st =
    (let resolved = resolve_path name (os_session st) in
     if \<not> can_access_path resolved (os_session st) (os_users st) then Err PermissionDenied
     else result_bind (read_as resolved (current_uid (os_session st)) (current_role (os_session st)) (os_fs st))
       (\<lambda>data. Ok (resolved, data)))"

definition delete_current :: "u64 \<Rightarrow> string \<Rightarrow> os_state \<Rightarrow> string os_out" where
  "delete_current now name st =
    (let resolved = resolve_path name (os_session st) in
     if \<not> can_access_path resolved (os_session st) (os_users st) then (Err PermissionDenied, st)
     else
       let uid = current_uid (os_session st);
           out = delete_as resolved uid (current_role (os_session st)) (os_fs st)
       in case fst out of
            Inl e \<Rightarrow> (Err e, put_fs out st)
          | Inr _ \<Rightarrow> (Ok resolved, log_event now (FileDeleted resolved uid) (put_fs out st)))"

definition stat_current :: "string \<Rightarrow> os_state \<Rightarrow> fs_error + file_entry" where
  "stat_current name st =
    (let resolved = resolve_path name (os_session st) in
     if \<not> can_access_path resolved (os_session st) (os_users st) then Err PermissionDenied
     else stat_as resolved (current_uid (os_session st)) (current_role (os_session st)) (os_fs st))"

definition chmod_current :: "string \<Rightarrow> string \<Rightarrow> os_state \<Rightarrow> string os_out" where
  "chmod_current name mode st =
    (let resolved = resolve_path name (os_session st) in
     if \<not> can_access_path resolved (os_session st) (os_users st) then (Err PermissionDenied, st)
     else
       let out = chmod_as resolved (current_uid (os_session st)) (current_role (os_session st)) mode (os_fs st)
       in (result_bind (fst out) (\<lambda>_. Ok resolved), put_fs out st))"

definition copy_current :: "u64 \<Rightarrow> string \<Rightarrow> string \<Rightarrow> os_state \<Rightarrow> string os_out" where
  "copy_current now source destination st =
    (case read_current source st of
       Inl e \<Rightarrow> (Err e, st)
     | Inr (_, data) \<Rightarrow> write_current now destination data st)"

definition move_current :: "u64 \<Rightarrow> string \<Rightarrow> string \<Rightarrow> os_state \<Rightarrow> string os_out" where
  "move_current now source destination st =
    (case read_current source st of
       Inl e \<Rightarrow> (Err e, st)
     | Inr (_, data) \<Rightarrow>
         (case write_current now destination data st of
            (Inl e, st') \<Rightarrow> (Err e, st')
          | (Inr path, st') \<Rightarrow>
              (case delete_current now source st' of
                 (Inl e, st'') \<Rightarrow> (Err e, st'')
               | (Inr _, st'') \<Rightarrow> (Ok path, st''))))"

section \<open>Listings and text\<close>

record dir_entry_view =
  dv_path :: string
  dv_name :: string
  dv_is_dir :: bool
  dv_size :: nat
  dv_modified_at :: u64
  dv_readonly :: bool
  dv_owner_uid :: u16
  dv_permissions :: file_permissions

definition list_current :: "string option \<Rightarrow> os_state \<Rightarrow> fs_error + string \<times> file_entry list" where
  "list_current path st =
    (let directory = (case path of Some p \<Rightarrow> resolve_path p (os_session st)
                      | None \<Rightarrow> current_home (os_session st)) in
     if \<not> can_access_path directory (os_session st) (os_users st) then Err PermissionDenied
     else result_bind (list_dir_as directory (current_uid (os_session st)) (current_role (os_session st)) (os_fs st))
       (\<lambda>entries. Ok (directory, entries)))"

fun list_loop ::
  "string \<Rightarrow> u16 \<Rightarrow> user_role \<Rightarrow> file_entry list \<Rightarrow> string list \<Rightarrow> dir_entry_view list \<Rightarrow> dir_entry_view list"
where
  "list_loop directory uid role [] seen entries = entries"
| "list_loop directory uid role (entry # rest) seen entries =
    (if \<not> can_read (fe_permissions entry) uid role then list_loop directory uid role rest seen entries
     else case relative_child_path directory (fe_name entry) of
       None \<Rightarrow> list_loop directory uid role rest seen entries
     | Some relative \<Rightarrow>
         if relative = [] then list_loop directory uid role rest seen entries
         else
           let components = split_on (CHR ''/'') relative; first_component = hd components in
           if first_component = DIRECTORY_MARKER_NAME then list_loop directory uid role rest seen entries
           else if tl components \<noteq> [] then
             if first_component \<in> set seen then list_loop directory uid role rest seen entries
             else list_loop directory uid role rest (seen @ [first_component]) (entries @
               [\<lparr>dv_path = (if directory = ''/'' then ''/'' @ first_component
                           else directory @ ''/'' @ first_component),
                 dv_name = first_component, dv_is_dir = True, dv_size = 0,
                 dv_modified_at = fe_modified_at entry, dv_readonly = False,
                 dv_owner_uid = fe_owner_uid entry, dv_permissions = fe_permissions entry\<rparr>])
           else list_loop directory uid role rest seen (entries @
             [\<lparr>dv_path = fe_name entry, dv_name = first_component, dv_is_dir = False,
               dv_size = length (fe_data entry), dv_modified_at = fe_modified_at entry,
               dv_readonly = fe_readonly entry, dv_owner_uid = fe_owner_uid entry,
               dv_permissions = fe_permissions entry\<rparr>]))"

definition list_entries_current ::
  "string option \<Rightarrow> os_state \<Rightarrow> fs_error + string \<times> dir_entry_view list" where
  "list_entries_current path st =
    (let directory = (case path of Some p \<Rightarrow> resolve_path p (os_session st)
                      | None \<Rightarrow> current_cwd (os_session st)) in
     if \<not> can_access_path directory (os_session st) (os_users st) then Err PermissionDenied
     else if \<not> directory_exists directory st then Err FileNotFound
     else Ok (directory, sort_key dv_name (list_loop directory (current_uid (os_session st))
       (current_role (os_session st)) (fs_files (os_fs st)) [] [])))"

definition find_current :: "string \<Rightarrow> os_state \<Rightarrow> fs_error + string list" where
  "find_current pattern st =
    (let query = trim pattern in
     if query = [] then Err InvalidFilename
     else Ok (map fe_name (filter (\<lambda>e. sublist query (fe_name e) \<or> sublist query (basename (fe_name e)))
       (filter (\<lambda>e. \<not> is_directory_marker (fe_name e)) (fs_files (os_fs st))))))"

definition read_text :: "string \<Rightarrow> os_state \<Rightarrow> fs_error + string" where
  "read_text path st =
    result_bind (read_current path st) (\<lambda>(_, data). ok_or (str_from_utf8 data) InvalidFilename)"

definition grep_current :: "string \<Rightarrow> string \<Rightarrow> os_state \<Rightarrow> fs_error + (nat \<times> string) list" where
  "grep_current pattern path st =
    result_bind (read_text path st) (\<lambda>text.
      Ok (map (\<lambda>(i, line). (i + 1, line))
        (filter (\<lambda>(i, line). sublist pattern line) (enumerate 0 (str_lines text)))))"

definition head_current :: "string \<Rightarrow> nat \<Rightarrow> os_state \<Rightarrow> fs_error + string list" where
  "head_current path n st = result_bind (read_text path st) (\<lambda>text. Ok (take n (str_lines text)))"

definition tail_current :: "string \<Rightarrow> nat \<Rightarrow> os_state \<Rightarrow> fs_error + string list" where
  "tail_current path n st =
    result_bind (read_text path st) (\<lambda>text.
      let collected = str_lines text; keep = min n (length collected) in
      Ok (drop (length collected - keep) collected))"

definition wc_current :: "string \<Rightarrow> os_state \<Rightarrow> fs_error + nat \<times> nat \<times> nat" where
  "wc_current path st =
    result_bind (read_current path st) (\<lambda>(_, data).
    result_bind (ok_or (str_from_utf8 data) InvalidFilename) (\<lambda>text.
      Ok (length (str_lines text), length (split_whitespace text), length data)))"

fun diff_lines :: "string list \<Rightarrow> string list \<Rightarrow> string list" where
  "diff_lines (l # ls) (r # rs) =
    (if l = r then [] else [''- '' @ l, ''+ '' @ r]) @ diff_lines ls rs"
| "diff_lines (l # ls) [] = (''- '' @ l) # diff_lines ls []"
| "diff_lines [] (r # rs) = (''+ '' @ r) # diff_lines [] rs"
| "diff_lines [] [] = []"

definition diff_current :: "string \<Rightarrow> string \<Rightarrow> os_state \<Rightarrow> fs_error + string list" where
  "diff_current left right st =
    result_bind (read_current left st) (\<lambda>(_, left_data).
    result_bind (read_current right st) (\<lambda>(_, right_data).
    result_bind (ok_or (str_from_utf8 left_data) InvalidFilename) (\<lambda>left_text.
    result_bind (ok_or (str_from_utf8 right_data) InvalidFilename) (\<lambda>right_text.
      Ok (diff_lines (str_lines left_text) (str_lines right_text))))))"

definition sort_current :: "string \<Rightarrow> os_state \<Rightarrow> fs_error + string list" where
  "sort_current path st = result_bind (read_text path st) (\<lambda>text. Ok (sort (str_lines text)))"

definition display_path :: "string \<Rightarrow> os_state \<Rightarrow> string" where
  "display_path path st =
    (let home = current_home (os_session st) in
     if home \<noteq> ''/'' \<and> path = home then ''~''
     else if home \<noteq> ''/'' \<and> prefix (home @ ''/'') path then ''~'' @ drop (length home) path
     else path)"

definition format_timestamp :: "u64 \<Rightarrow> string" where
  "format_timestamp ticks =
    (let seconds = unat ticks div max 100 1; hours = seconds div 3600;
         minutes = (seconds mod 3600) div 60; seconds = seconds mod 60
     in ''boot+'' @ pad2 hours @ '':'' @ pad2 minutes @ '':'' @ pad2 seconds)"

section \<open>Protected directories\<close>


text \<open>A small system with the accounts \<open>alice\<close> (logged in) and \<open>bob\<close>.\<close>

definition sample_account :: "u16 \<Rightarrow> string \<Rightarrow> user_role \<Rightarrow> user_account" where
  "sample_account uid n role = \<lparr>ua_uid = uid, ua_username = n, ua_password_hash = replicate 32 0,
     ua_salt = replicate 16 0, ua_role = role, ua_home_dir = ''/home/'' @ n, ua_active = True,
     ua_created_at = 0, ua_last_login = 0\<rparr>"

definition sample_os :: os_state where
  "sample_os = \<lparr>os_fs = sample_fs,
     os_users = \<lparr>db_users = [sample_account 1 ''alice'' User, sample_account 2 ''bob'' User],
       db_next_uid = 3\<rparr>,
     os_session = session_start 0 (sample_account 1 ''alice'' User),
     os_audit = audit_logger_new, os_requests = []\<rparr>"

lemma sample_os_user: "current_user (os_session sample_os) = Some (sample_account 1 ''alice'' User)"
  by (simp add: sample_os_def current_user_def session_start_def session_new_def)


text \<open>The same home path spelled with a dot component: the check sees no account, the file system
  the same name.\<close>

lemma dotted_home_path:
  assumes "is_canonical (''/home/'' @ q)"
  shows "canonical_path (''/home/./'' @ q) = Ok (''/home/'' @ q)"
    and "trim (''/home/./'' @ q) = ''/home/./'' @ q"
    and "resolve_path (''/home/./'' @ q) cs = ''/home/./'' @ q"
proof -
  obtain cs' where cs': "list_all good_component cs'" "''/home/'' @ q = of_components cs'"
    using assms by (auto simp: is_canonical_iff)
  have "set (''/home/'' @ q) \<inter> ws_bytes = {}" using of_components_no_ws [OF cs'(1)] cs'(2) by simp
  moreover have "CHR ''.'' \<notin> ws_bytes" "CHR ''/'' \<notin> ws_bytes" by (auto dest: byte_val_ws)
  ultimately have "set (''/home/./'' @ q) \<inter> ws_bytes = {}" by auto
  then show t: "trim (''/home/./'' @ q) = ''/home/./'' @ q" by (rule trim_no_ws)
  have "path_components (''/home/./'' @ q) = path_components (''/home/'' @ q)"
    by (simp add: path_components_def)
  moreover have "''/home/./'' @ q \<noteq> []" by simp
  ultimately show "canonical_path (''/home/./'' @ q) = Ok (''/home/'' @ q)"
    using assms unfolding is_canonical_def canonical_path_Ok t is_canonical_trim [OF assms] by presburger
  show "resolve_path (''/home/./'' @ q) cs = ''/home/./'' @ q"
    by (simp add: resolve_path_def t [simplified] strip_prefix_def Let_def split: option.splits)
qed

lemma dotted_home_unprotected:
  assumes "list_all (\<lambda>u. is_valid_username (ua_username u)) (db_users db)"
  shows "protected_path_owner (''/home/./'' @ q) db = None"
proof -
  have "find_by_name ''.'' db = None"
    using assms by (auto simp: find_by_name_def find_None_iff list_all_iff is_valid_username_def
        is_ascii_alphanumeric_def is_ascii_digit_def)
  then show ?thesis by (simp add: protected_path_owner_def strip_prefix_def)
qed

text \<open>
  C20. The check looks at the path before it is normalised, while the file system normalises it.
  Whenever every account has a valid user name, a user who is not an administrator creates a file
  at any free path under another account's home directory by spelling it with a dot component
  (\<open>/home/./bob/x\<close> for \<open>/home/bob/x\<close>): the plain spelling is refused, the dotted one succeeds, and
  the new file at the plain path belongs to the intruder.
\<close>

theorem protected_path_bypass:
  assumes "current_user (os_session st) = Some user" and "ua_role user \<noteq> Admin"
    and "protected_path_owner (''/home/'' @ q) (os_users st) = Some (owner, n)"
    and "owner \<noteq> ua_uid user"
    and "list_all (\<lambda>u. is_valid_username (ua_username u)) (db_users (os_users st))"
    and "fs_wf (os_fs st)" and "insertable (''/home/'' @ q) data (os_fs st)"
  shows "write_current now (''/home/'' @ q) data st = (Err PermissionDenied, st)
    \<and> fst (write_current now (''/home/./'' @ q) data st) = Ok (''/home/./'' @ q)
    \<and> fs_find (''/home/'' @ q) (os_fs (snd (write_current now (''/home/./'' @ q) data st)))
        = Some \<lparr>fe_name = ''/home/'' @ q, fe_data = data, fe_created_at = now, fe_modified_at = now,
            fe_readonly = False, fe_owner_uid = ua_uid user,
            fe_permissions = perm_private (ua_uid user)\<rparr>"
proof -
  let ?d = "''/home/./'' @ q" and ?p = "perm_private (ua_uid user)"
  have canon: "is_canonical (''/home/'' @ q)" using assms(7) by (simp add: insertable_def)
  have uid: "current_uid (os_session st) = ua_uid user"
    and role: "current_role (os_session st) = ua_role user"
    using assms(1) by (auto simp: current_user_def current_uid_def current_role_def)
  have perm: "default_permissions_for ?d (ua_uid user) = ?p" "fp_owner_uid ?p = ua_uid user"
    by (simp_all add: default_permissions_for_def perm_private_def perm_default_for_def)
  have acc: "can_access_path ?d (os_session st) (os_users st)"
    unfolding can_access_path_def dotted_home_path(2) [OF canon]
      dotted_home_unprotected [OF assms(5)] by (simp split: option.splits)
  let ?e = "\<lparr>fe_name = ''/home/'' @ q, fe_data = data, fe_created_at = now, fe_modified_at = now,
      fe_readonly = False, fe_owner_uid = ua_uid user, fe_permissions = ?p\<rparr>"
  have out: "write_as now ?d data (ua_uid user) (ua_role user) ?p (os_fs st)
      = (Ok (), push_sorted ?e (os_fs st), sync_request (''/home/'' @ q) (push_sorted ?e (os_fs st)))"
    using assms(7) unfolding write_as_def write_internal_owned_def dotted_home_path(1) [OF canon]
    by (simp add: insertable_def Let_def perm)
  have "fs_find (''/home/'' @ q) (push_sorted ?e (os_fs st)) = Some ?e"
    using fs_find_push_sorted [OF fs_wf_distinct [OF assms(6)]] assms(7) by (simp add: insertable_def)
  then have "fst (write_current now ?d data st) = Ok ?d
      \<and> fs_find (''/home/'' @ q) (os_fs (snd (write_current now ?d data st))) = Some ?e"
    unfolding write_current_def Let_def dotted_home_path(3) [OF canon] uid role perm out
    using acc by (simp add: put_fs_def log_event_def)
  moreover have "write_current now (''/home/'' @ q) data st = (Err PermissionDenied, st)"
    using can_access_path_canonical [OF canon assms(1,2,3,4)] resolve_path_absolute [OF canon]
    by (simp add: write_current_def)
  ultimately show ?thesis by blast
qed

theorem protected_path_bypass_witness:
  "insertable ''/home/bob/x'' [] (os_fs sample_os)
   \<and> protected_path_owner ''/home/bob/x'' (os_users sample_os) = Some (2, ''bob'')
   \<and> map_option fe_owner_uid
       (fs_find ''/home/bob/x'' (os_fs (snd (write_current 5 ''/home/./bob/x'' [] sample_os)))) = Some 1"
proof -
  have canon: "is_canonical ''/home/bob/x''" unfolding is_canonical_def by code_simp
  have own: "protected_path_owner ''/home/bob/x'' (os_users sample_os) = Some (2, ''bob'')"
    by code_simp
  have names: "list_all (\<lambda>u. is_valid_username (ua_username u)) (db_users (os_users sample_os))"
    by code_simp
  have fs: "os_fs sample_os = sample_fs" by (simp add: sample_os_def)
  have "fs_find ''/home/bob/x'' sample_fs = None" by code_simp
  then have room: "insertable ''/home/bob/x'' [] (os_fs sample_os)"
    unfolding fs using canon by (simp add: insertable_def used_without_target_def TOTAL_CAPACITY_def)
      (simp add: sample_fs_def MAX_FILES_def)
  show ?thesis
    using protected_path_bypass [OF sample_os_user, of "''bob/x''" 2 "''bob''" "[]" 5] own names room
      sample_fs_wf fs by (simp add: sample_account_def)
qed

section \<open>Writing, copying and moving\<close>

abbreviation resolved :: "string \<Rightarrow> os_state \<Rightarrow> string" where
  "resolved name st \<equiv> resolve_path name (os_session st)"

lemma put_fs_simps [simp]:
  "os_fs (put_fs out st) = fst (snd out)"
  "os_requests (put_fs out st) = os_requests st @ snd (snd out)"
  "os_session (put_fs out st) = os_session st"
  "os_users (put_fs out st) = os_users st"
  "os_audit (put_fs out st) = os_audit st"
  by (simp_all add: put_fs_def)

lemma log_event_simps [simp]:
  "os_fs (log_event now e st) = os_fs st"
  "os_requests (log_event now e st) = os_requests st"
  "os_session (log_event now e st) = os_session st"
  "os_users (log_event now e st) = os_users st"
  "os_audit (log_event now e st) = audit_log now e (os_audit st)"
  by (simp_all add: log_event_def)

lemma write_current_OkE:
  assumes "write_current now name data st = (Ok r, st')"
  obtains c uid role p where "r = resolved name st" "canonical_path r = Ok c"
    "uid = current_uid (os_session st)" "role = current_role (os_session st)"
    "p = default_permissions_for r uid" "fst (write_as now r data uid role p (os_fs st)) = Ok ()"
    "st' = log_event now (if fs_find r (os_fs st) \<noteq> None then FileModified r uid else FileCreated r uid)
      (put_fs (write_as now r data uid role p (os_fs st)) st)"
proof -
  from assms have ok: "fst (write_as now (resolved name st) data (current_uid (os_session st))
      (current_role (os_session st)) (default_permissions_for (resolved name st)
        (current_uid (os_session st))) (os_fs st)) = Ok ()" and r: "r = resolved name st"
    by (auto simp: write_current_def Let_def split: sum.splits if_splits)
  obtain c where "canonical_path (resolved name st) = Ok c"
    using write_internal_owned_Ok_path ok unfolding write_as_def by blast
  with ok r assms show thesis
    by (intro that) (auto simp: write_current_def Let_def split: sum.splits if_splits)
qed

lemma write_current_find:
  assumes "fs_wf (os_fs st)" and "write_current now name data st = (Ok r, st')"
  shows "fs_wf (os_fs st') \<and> os_session st' = os_session st \<and>
    (\<exists>c e. canonical_path (resolved name st) = Ok c \<and> fs_find c (os_fs st') = Some e \<and> fe_data e = data
      \<and> os_requests st' = os_requests st @ [SyncEntry e])"
  using assms(2)
proof (rule write_current_OkE)
  fix c uid role p
  let ?w = "write_as now r data uid role p (os_fs st)"
  assume r: "r = resolved name st" and c: "canonical_path r = Ok c" and ok: "fst ?w = Ok ()"
    and st': "st' = log_event now (if fs_find r (os_fs st) \<noteq> None then FileModified r uid
        else FileCreated r uid) (put_fs ?w st)"
  obtain e where e: "fs_find c (fst (snd ?w)) = Some e" "fe_data e = data"
    using write_internal_owned_find [OF assms(1) ok [unfolded write_as_def] c]
    unfolding write_as_def by blast
  have "snd (snd ?w) = sync_request c (fst (snd ?w))"
    using write_internal_owned_outcome [of now r data uid role p False "os_fs st"] ok c
    by (auto simp: write_as_def Let_def)
  with e have "snd (snd ?w) = [SyncEntry e]" by (simp add: sync_request_def)
  with e r c st' assms(1) show ?thesis
    by (auto simp: write_as_def waros_inv)
qed

lemma write_current_frame:
  assumes "fs_wf (os_fs st)" and "write_current now name data st = (Ok r, st')"
    and "canonical_path q \<noteq> canonical_path (resolved name st)"
  shows "fs_read q (os_fs st') = fs_read q (os_fs st)"
  using assms(2)
proof (rule write_current_OkE)
  fix c uid role p
  assume "r = resolved name st" and "canonical_path r = Ok c"
    and st': "st' = log_event now (if fs_find r (os_fs st) \<noteq> None then FileModified r uid
        else FileCreated r uid) (put_fs (write_as now r data uid role p (os_fs st)) st)"
  then show ?thesis
    using assms(3) write_internal_owned_frame [OF assms(1), of r _ now data uid role p False]
    by (cases "canonical_path q") (auto simp: fs_read_def read_as_def write_as_def)
qed

lemma read_current_Ok:
  "read_current name st = Ok (r, data) \<Longrightarrow> r = resolved name st \<and> fs_read r (os_fs st) = Ok data"
  by (auto simp: read_current_def fs_read_def read_as_def Let_def split: if_splits)

text \<open>
  Reporting. A successful write by the current user stores the data, hands exactly the stored
  entry to the disk layer, and appends exactly one event to the audit log: a modification when the
  file was there under the resolved name, a creation otherwise.
\<close>

theorem write_current_reported:
  assumes "fs_wf (os_fs st)" and "write_current now name data st = (Ok r, st')"
  shows "(\<exists>c e. canonical_path r = Ok c \<and> fs_find c (os_fs st') = Some e \<and> fe_data e = data
      \<and> os_requests st' = os_requests st @ [SyncEntry e])
    \<and> os_audit st' = audit_log now
        (if fs_find r (os_fs st) \<noteq> None then FileModified r (current_uid (os_session st))
         else FileCreated r (current_uid (os_session st))) (os_audit st)"
proof
  have r: "r = resolved name st" using assms(2) by (rule write_current_OkE)
  with write_current_find [OF assms]
  show "\<exists>c e. canonical_path r = Ok c \<and> fs_find c (os_fs st') = Some e \<and> fe_data e = data
      \<and> os_requests st' = os_requests st @ [SyncEntry e]"
    by blast
  show "os_audit st' = audit_log now
      (if fs_find r (os_fs st) \<noteq> None then FileModified r (current_uid (os_session st))
       else FileCreated r (current_uid (os_session st))) (os_audit st)"
    using assms(2) by (rule write_current_OkE) simp
qed

text \<open>
  Copying. When a copy succeeds, the destination holds the bytes the source held before, and
  every file other than the destination, the source among them, reads as before.
\<close>

theorem copy_current_copies:
  assumes "fs_wf (os_fs st)" and "copy_current now source destination st = (Ok r, st')"
  shows "fs_read (resolved destination st) (os_fs st') = fs_read (resolved source st) (os_fs st)
    \<and> (\<forall>q. canonical_path q \<noteq> canonical_path (resolved destination st) \<longrightarrow>
          fs_read q (os_fs st') = fs_read q (os_fs st))"
proof -
  from assms(2) obtain a data where rd: "read_current source st = Ok (a, data)"
    and wr: "write_current now destination data st = (Ok r, st')"
    by (auto simp: copy_current_def split: sum.splits)
  from write_current_find [OF assms(1) wr]
  have "fs_read (resolved destination st) (os_fs st') = Ok data"
    by (auto simp: fs_read_def read_as_def)
  with read_current_Ok [OF rd] write_current_frame [OF assms(1) wr] show ?thesis by auto
qed

lemma delete_current_Ok:
  assumes "fs_wf (os_fs st)" and "delete_current now name st = (Ok r, st')"
  shows "\<exists>c. canonical_path (resolved name st) = Ok c
    \<and> (\<forall>q. fs_find q (os_fs st') = (if q = c then None else fs_find q (os_fs st)))"
proof -
  let ?d = "delete_as (resolved name st) (current_uid (os_session st)) (current_role (os_session st)) (os_fs st)"
  from assms(2) have "fst ?d = Ok ()" and "os_fs st' = fst (snd ?d)"
    by (auto simp: delete_current_def Let_def split: sum.splits if_splits)
  with delete_as_outcome [of "resolved name st" "current_uid (os_session st)"
      "current_role (os_session st)" "os_fs st"]
  show ?thesis
    using fs_find_remove [OF fs_wf_distinct [OF assms(1)]] by auto
qed

text \<open>
  C28. Moving. When a move reports success and source and destination are different files, the
  destination holds the source's bytes and the source is gone. When they are the same file, the
  write onto itself is followed by the deletion of the source: the file is lost.
\<close>

theorem move_current_moves_or_loses:
  assumes "fs_wf (os_fs st)" and "move_current now source destination st = (Ok r, st')"
  shows "fs_read (resolved source st) (os_fs st') = Err FileNotFound
    \<and> (canonical_path (resolved source st) \<noteq> canonical_path (resolved destination st) \<longrightarrow>
        fs_read (resolved destination st) (os_fs st') = fs_read (resolved source st) (os_fs st))"
proof -
  from assms(2) obtain a data st1 b where rd: "read_current source st = Ok (a, data)"
    and wr: "write_current now destination data st = (Ok r, st1)"
    and del: "delete_current now source st1 = (Ok b, st')"
    by (auto simp: move_current_def split: sum.splits prod.splits)
  have wf1: "fs_wf (os_fs st1)" and same: "os_session st1 = os_session st"
    using write_current_find [OF assms(1) wr] by auto
  obtain c where c: "canonical_path (resolved source st) = Ok c"
    and after: "\<And>q. fs_find q (os_fs st') = (if q = c then None else fs_find q (os_fs st1))"
    using delete_current_Ok [OF wf1 del] same by auto
  have "fs_read (resolved destination st) (os_fs st') = Ok data"
    if "canonical_path (resolved source st) \<noteq> canonical_path (resolved destination st)"
  proof -
    obtain d e where "canonical_path (resolved destination st) = Ok d"
      and "fs_find d (os_fs st1) = Some e" and "fe_data e = data"
      using write_current_find [OF assms(1) wr] by blast
    with that c after show ?thesis by (simp add: fs_read_def read_as_def)
  qed
  moreover have "fs_read (resolved source st) (os_fs st') = Err FileNotFound"
    using c after by (simp add: fs_read_def read_as_def)
  ultimately show ?thesis using read_current_Ok [OF rd] by auto
qed

text \<open>The same system with nobody logged in, where the kernel acts as administrator.\<close>

definition sample_kernel_os :: os_state where
  "sample_kernel_os = sample_os\<lparr>os_session := None\<rparr>"

lemma sample_kernel_wf: "fs_wf (os_fs sample_kernel_os)"
  by (simp add: sample_kernel_os_def sample_os_def sample_fs_wf)

lemma sample_kernel_write:
  assumes "is_canonical c" and "c \<noteq> ''/''" and "length data \<le> 100"
  shows "\<exists>st'. write_current now c data sample_kernel_os = (Ok c, st')"
proof -
  have "used_without_target c sample_fs \<le> 2"
    by (simp add: used_without_target_def sample_fs_def)
  then have "fst (write_as now c data 0 Admin p sample_fs) = Ok ()" for p
    using assms
    by (simp add: write_as_def write_internal_owned_def usize_sat_add_def TOTAL_CAPACITY_def
        MAX_FILE_SIZE_def Let_def fs_find_def split: option.splits)
      (auto simp: sample_fs_def MAX_FILES_def split: if_splits)
  then show ?thesis
    using resolve_path_absolute [OF assms(1)]
    by (simp add: write_current_def sample_kernel_os_def sample_os_def can_access_path_def
        current_user_def current_uid_def current_role_def Let_def)
qed

lemma motd_canonical: "is_canonical ''/etc/motd''" and copy_canonical: "is_canonical ''/tmp/copy''"
  unfolding is_canonical_def by code_simp+

lemma sample_kernel_read:
  "read_current ''/etc/motd'' sample_kernel_os = Ok (''/etc/motd'', [1, 2])"
  using motd_canonical resolve_path_absolute [OF motd_canonical, of None]
  by (simp add: read_current_def sample_kernel_os_def sample_os_def can_access_path_def current_user_def
      current_uid_def current_role_def read_as_def fs_find_def sample_fs_def Let_def)

theorem write_current_reported_witness:
  "\<exists>st'. write_current 9 ''/etc/motd'' [4] sample_kernel_os = (Ok ''/etc/motd'', st')
    \<and> os_audit st' = audit_log 9 (FileModified ''/etc/motd'' 0) audit_logger_new"
proof -
  obtain st' where w: "write_current 9 ''/etc/motd'' [4] sample_kernel_os = (Ok ''/etc/motd'', st')"
    using sample_kernel_write [OF motd_canonical, of "[4]" 9] by auto
  with write_current_reported [OF sample_kernel_wf w] show ?thesis
    by (auto simp: sample_kernel_os_def sample_os_def current_uid_def fs_find_def sample_fs_def)
qed

theorem copy_current_copies_witness:
  "\<exists>st'. copy_current 9 ''/etc/motd'' ''/tmp/copy'' sample_kernel_os = (Ok ''/tmp/copy'', st')
    \<and> fs_read ''/tmp/copy'' (os_fs st') = fs_read ''/etc/motd'' (os_fs sample_kernel_os)"
proof -
  obtain st' where w: "copy_current 9 ''/etc/motd'' ''/tmp/copy'' sample_kernel_os = (Ok ''/tmp/copy'', st')"
    using sample_kernel_write [OF copy_canonical, of "[1, 2]" 9] sample_kernel_read
    by (auto simp: copy_current_def)
  with copy_current_copies [OF sample_kernel_wf w] show ?thesis
    by (auto simp: resolve_path_absolute [OF motd_canonical] resolve_path_absolute [OF copy_canonical])
qed

theorem move_current_moves_or_loses_witness:
  "\<exists>st'. move_current 9 ''/etc/motd'' ''/etc/motd'' sample_kernel_os = (Ok ''/etc/motd'', st')
    \<and> fs_read ''/etc/motd'' (os_fs sample_kernel_os) = Ok [1, 2]
    \<and> fs_read ''/etc/motd'' (os_fs st') = Err FileNotFound"
proof -
  obtain st1 where w: "write_current 9 ''/etc/motd'' [1, 2] sample_kernel_os = (Ok ''/etc/motd'', st1)"
    using sample_kernel_write [OF motd_canonical, of "[1, 2]" 9] by auto
  from w have st1: "os_session st1 = None"
    using write_current_find [OF sample_kernel_wf w] by (simp add: sample_kernel_os_def)
  have "os_fs st1 = fs_find_mut ''/etc/motd'' (\<lambda>e. e\<lparr>fe_data := [1, 2], fe_modified_at := 9,
      fe_readonly := False\<rparr>) sample_fs"
    using w motd_canonical resolve_path_absolute [OF motd_canonical, of None]
      write_internal_owned_outcome [of 9 "''/etc/motd''" "[1, 2]" 0 Admin
        "default_permissions_for ''/etc/motd'' 0" False sample_fs]
    by (auto simp: write_current_def write_as_def sample_kernel_os_def sample_os_def current_uid_def
        current_role_def Let_def insertable_def fs_find_def sample_fs_def split: if_splits sum.splits)
  then have "\<exists>b st'. delete_current 9 ''/etc/motd'' st1 = (Ok b, st')"
    using st1 motd_canonical resolve_path_absolute [OF motd_canonical, of None]
    by (simp add: delete_current_def delete_as_def can_access_path_def current_user_def current_role_def
        fs_find_def fs_find_mut_def sample_fs_def Let_def)
  then obtain st' where m: "move_current 9 ''/etc/motd'' ''/etc/motd'' sample_kernel_os
      = (Ok ''/etc/motd'', st')"
    using w sample_kernel_read by (auto simp: move_current_def)
  from move_current_moves_or_loses [OF sample_kernel_wf m] m read_current_Ok [OF sample_kernel_read]
  show ?thesis by (auto simp: resolve_path_absolute [OF motd_canonical])
qed

end
