(* ===== verification/Firewall.thy ===== *)
theory Firewall
  imports Audit_Log
begin

text \<open>
  WarGuard, the packet filter (\<open>kernel/src/security/firewall\<close>): rules with first-match semantics,
  the tracker of outbound connections that lets their responses in, and the statistics.

  A packet is the record of the six arguments of \<open>process_packet\<close>. Processing returns the action,
  the filter after it and the audit events it logs. The global is a \<open>warguard option\<close>, \<open>None\<close> before
  \<open>init\<close>.
\<close>

section \<open>Rules\<close>

datatype direction = Inbound | Outbound

datatype protocol = Tcp | Udp | Icmp | AnyProtocol

datatype action = Allow | Deny

record firewall_rule =
  fr_id :: u32
  fr_direction :: direction
  fr_protocol :: protocol
  fr_port :: "u16 option"
  fr_action :: action
  fr_description :: string
  fr_hit_count :: u64

definition rule_matches :: "firewall_rule \<Rightarrow> direction \<Rightarrow> protocol \<Rightarrow> u16 \<Rightarrow> bool" where
  "rule_matches rule direction protocol port =
    (if fr_direction rule \<noteq> direction then False
     else if fr_protocol rule \<noteq> AnyProtocol \<and> fr_protocol rule \<noteq> protocol then False
     else case fr_port rule of
       Some rule_port \<Rightarrow> rule_port = port
     | None \<Rightarrow> True)"

fun direction_str :: "direction \<Rightarrow> string" where
  "direction_str Inbound = ''IN''"
| "direction_str Outbound = ''OUT''"

fun protocol_str :: "protocol \<Rightarrow> string" where
  "protocol_str Tcp = ''TCP''"
| "protocol_str Udp = ''UDP''"
| "protocol_str Icmp = ''ICMP''"
| "protocol_str AnyProtocol = ''ANY''"

fun action_str :: "action \<Rightarrow> string" where
  "action_str Allow = ''ALLOW''"
| "action_str Deny = ''DENY''"

definition default_rules :: "firewall_rule list" where
  "default_rules =
    [\<lparr>fr_id = 1, fr_direction = Outbound, fr_protocol = Tcp, fr_port = Some 443, fr_action = Allow,
      fr_description = ''HTTPS outbound'', fr_hit_count = 0\<rparr>,
     \<lparr>fr_id = 2, fr_direction = Outbound, fr_protocol = Tcp, fr_port = Some 80, fr_action = Allow,
      fr_description = ''HTTP outbound'', fr_hit_count = 0\<rparr>,
     \<lparr>fr_id = 3, fr_direction = Outbound, fr_protocol = Udp, fr_port = Some 53, fr_action = Allow,
      fr_description = ''DNS outbound'', fr_hit_count = 0\<rparr>,
     \<lparr>fr_id = 4, fr_direction = Outbound, fr_protocol = Icmp, fr_port = None, fr_action = Allow,
      fr_description = ''ICMP outbound (ping)'', fr_hit_count = 0\<rparr>,
     \<lparr>fr_id = 5, fr_direction = Outbound, fr_protocol = AnyProtocol, fr_port = None, fr_action = Allow,
      fr_description = ''Allow all outbound'', fr_hit_count = 0\<rparr>,
     \<lparr>fr_id = 6, fr_direction = Inbound, fr_protocol = AnyProtocol, fr_port = None, fr_action = Deny,
      fr_description = ''Deny all inbound'', fr_hit_count = 0\<rparr>]"

section \<open>Connection tracking\<close>

record tracked_connection =
  tc_src_ip :: u32
  tc_dst_ip :: u32
  tc_src_port :: u16
  tc_dst_port :: u16
  tc_protocol :: u8
  tc_established_at :: u64
  tc_last_seen :: u64
  tc_packets :: u64

definition CONNECTION_TIMEOUT_TICKS :: u64 where
  "CONNECTION_TIMEOUT_TICKS = 30000"

definition MAX_CONNECTIONS :: nat where
  "MAX_CONNECTIONS = 1024"

type_synonym tracker = "tracked_connection list"

definition tracker_new :: tracker where
  "tracker_new = []"

definition same_flow :: "u32 \<Rightarrow> u32 \<Rightarrow> u16 \<Rightarrow> u16 \<Rightarrow> u8 \<Rightarrow> tracked_connection \<Rightarrow> bool" where
  "same_flow src_ip dst_ip src_port dst_port protocol conn \<longleftrightarrow>
    tc_src_ip conn = src_ip \<and> tc_dst_ip conn = dst_ip \<and> tc_src_port conn = src_port
    \<and> tc_dst_port conn = dst_port \<and> tc_protocol conn = protocol"

definition tracker_expire :: "u64 \<Rightarrow> tracker \<Rightarrow> tracker" where
  "tracker_expire now conns =
    filter (\<lambda>conn. sat_sub now (tc_last_seen conn) < CONNECTION_TIMEOUT_TICKS) conns"

definition track_outbound :: "u64 \<Rightarrow> u32 \<Rightarrow> u32 \<Rightarrow> u16 \<Rightarrow> u16 \<Rightarrow> u8 \<Rightarrow> tracker \<Rightarrow> tracker" where
  "track_outbound now src_ip dst_ip src_port dst_port protocol conns =
    (if list_ex (same_flow src_ip dst_ip src_port dst_port protocol) conns
     then update_first (same_flow src_ip dst_ip src_port dst_port protocol)
       (\<lambda>conn. conn\<lparr>tc_last_seen := now, tc_packets := tc_packets conn + 1\<rparr>) conns
     else
       let live = tracker_expire now conns;
           room = (if length live \<ge> MAX_CONNECTIONS then tl live else live)
       in room @ [\<lparr>tc_src_ip = src_ip, tc_dst_ip = dst_ip, tc_src_port = src_port,
            tc_dst_port = dst_port, tc_protocol = protocol, tc_established_at = now,
            tc_last_seen = now, tc_packets = 1\<rparr>])"

definition is_established_response ::
  "u64 \<Rightarrow> u32 \<Rightarrow> u32 \<Rightarrow> u16 \<Rightarrow> u16 \<Rightarrow> u8 \<Rightarrow> tracker \<Rightarrow> bool" where
  "is_established_response now src_ip dst_ip src_port dst_port protocol conns =
    list_ex (\<lambda>conn. tc_dst_ip conn = src_ip \<and> tc_src_ip conn = dst_ip \<and> tc_dst_port conn = src_port
      \<and> tc_src_port conn = dst_port \<and> tc_protocol conn = protocol
      \<and> sat_sub now (tc_last_seen conn) < CONNECTION_TIMEOUT_TICKS) conns"

definition active_count :: "tracker \<Rightarrow> nat" where
  "active_count conns = length conns"

section \<open>The filter\<close>

record firewall_stats =
  st_allowed :: u64
  st_denied :: u64
  st_inbound_allowed :: u64
  st_inbound_denied :: u64
  st_outbound_allowed :: u64
  st_outbound_denied :: u64
  st_tcp_allowed :: u64
  st_tcp_denied :: u64
  st_udp_allowed :: u64
  st_udp_denied :: u64
  st_icmp_allowed :: u64
  st_icmp_denied :: u64
  st_stateful_allows :: u64

record warguard =
  wg_rules :: "firewall_rule list"
  wg_tracker :: tracker
  wg_enabled :: bool
  wg_default_inbound :: action
  wg_default_outbound :: action
  wg_stats :: firewall_stats
  wg_next_rule_id :: u32

record packet =
  pk_direction :: direction
  pk_protocol :: protocol
  pk_src_ip :: u32
  pk_dst_ip :: u32
  pk_src_port :: u16
  pk_dst_port :: u16

definition stats_zero :: firewall_stats where
  "stats_zero = \<lparr>st_allowed = 0, st_denied = 0, st_inbound_allowed = 0, st_inbound_denied = 0,
     st_outbound_allowed = 0, st_outbound_denied = 0, st_tcp_allowed = 0, st_tcp_denied = 0,
     st_udp_allowed = 0, st_udp_denied = 0, st_icmp_allowed = 0, st_icmp_denied = 0,
     st_stateful_allows = 0\<rparr>"

definition warguard_new :: warguard where
  "warguard_new =
    (let rules = default_rules; next_id = Max (set (map fr_id rules)) + 1 in
     \<lparr>wg_rules = rules, wg_tracker = tracker_new, wg_enabled = True, wg_default_inbound = Deny,
      wg_default_outbound = Allow, wg_stats = stats_zero, wg_next_rule_id = next_id\<rparr>)"

definition count_decision :: "direction \<Rightarrow> protocol \<Rightarrow> action \<Rightarrow> bool \<Rightarrow> firewall_stats \<Rightarrow> firewall_stats" where
  "count_decision direction protocol action stateful s =
    (case action of
       Allow \<Rightarrow>
         let s = s\<lparr>st_allowed := st_allowed s + 1\<rparr>;
             s = (case direction of
                Inbound \<Rightarrow> s\<lparr>st_inbound_allowed := st_inbound_allowed s + 1\<rparr>
              | Outbound \<Rightarrow> s\<lparr>st_outbound_allowed := st_outbound_allowed s + 1\<rparr>);
             s = (case protocol of
                Tcp \<Rightarrow> s\<lparr>st_tcp_allowed := st_tcp_allowed s + 1\<rparr>
              | Udp \<Rightarrow> s\<lparr>st_udp_allowed := st_udp_allowed s + 1\<rparr>
              | Icmp \<Rightarrow> s\<lparr>st_icmp_allowed := st_icmp_allowed s + 1\<rparr>
              | AnyProtocol \<Rightarrow> s)
         in if stateful then s\<lparr>st_stateful_allows := st_stateful_allows s + 1\<rparr> else s
     | Deny \<Rightarrow>
         let s = s\<lparr>st_denied := st_denied s + 1\<rparr>;
             s = (case direction of
                Inbound \<Rightarrow> s\<lparr>st_inbound_denied := st_inbound_denied s + 1\<rparr>
              | Outbound \<Rightarrow> s\<lparr>st_outbound_denied := st_outbound_denied s + 1\<rparr>)
         in (case protocol of
                Tcp \<Rightarrow> s\<lparr>st_tcp_denied := st_tcp_denied s + 1\<rparr>
              | Udp \<Rightarrow> s\<lparr>st_udp_denied := st_udp_denied s + 1\<rparr>
              | Icmp \<Rightarrow> s\<lparr>st_icmp_denied := st_icmp_denied s + 1\<rparr>
              | AnyProtocol \<Rightarrow> s))"

definition record_decision :: "direction \<Rightarrow> protocol \<Rightarrow> action \<Rightarrow> bool \<Rightarrow> warguard \<Rightarrow> warguard" where
  "record_decision direction protocol action stateful g =
    g\<lparr>wg_stats := count_decision direction protocol action stateful (wg_stats g)\<rparr>"

fun protocol_number :: "protocol \<Rightarrow> u8" where
  "protocol_number Tcp = 6"
| "protocol_number Udp = 17"
| "protocol_number Icmp = 1"
| "protocol_number AnyProtocol = 0"

definition log_firewall_decision :: "u32 \<Rightarrow> packet \<Rightarrow> action \<Rightarrow> string \<Rightarrow> audit_event" where
  "log_firewall_decision rule_id p action reason =
    FirewallMatch rule_id (direction_str (pk_direction p)) (protocol_str (pk_protocol p))
      (action_str action) reason (pk_src_ip p) (pk_dst_ip p) (pk_src_port p) (pk_dst_port p)"

definition rule_hits :: "packet \<Rightarrow> firewall_rule \<Rightarrow> bool" where
  "rule_hits p rule = rule_matches rule (pk_direction p) (pk_protocol p) (pk_dst_port p)"

definition process_packet :: "u64 \<Rightarrow> packet \<Rightarrow> warguard \<Rightarrow> action \<times> warguard \<times> audit_event list" where
  "process_packet now p g =
    (let proto_num = protocol_number (pk_protocol p) in
     if \<not> wg_enabled g then (Allow, g, [])
     else if pk_direction p = Inbound \<and>
       is_established_response now (pk_src_ip p) (pk_dst_ip p) (pk_src_port p) (pk_dst_port p) proto_num (wg_tracker g)
     then (Allow, record_decision (pk_direction p) (pk_protocol p) Allow True g,
           [log_firewall_decision 0 p Allow ''stateful-response''])
     else case find (rule_hits p) (wg_rules g) of
       Some rule \<Rightarrow>
         let g1 = g\<lparr>wg_rules := update_first (rule_hits p)
               (\<lambda>r. r\<lparr>fr_hit_count := fr_hit_count r + 1\<rparr>) (wg_rules g)\<rparr>;
             logged = [log_firewall_decision (fr_id rule) p (fr_action rule) (fr_description rule)];
             g2 = record_decision (pk_direction p) (pk_protocol p) (fr_action rule) False g1
         in (case fr_action rule of
               Allow \<Rightarrow>
                 (Allow, (if pk_direction p = Outbound
                    then g2\<lparr>wg_tracker := track_outbound now (pk_src_ip p) (pk_dst_ip p)
                      (pk_src_port p) (pk_dst_port p) proto_num (wg_tracker g2)\<rparr>
                    else g2), logged)
             | Deny \<Rightarrow> (Deny, g2, logged))
     | None \<Rightarrow>
         let default = (case pk_direction p of Inbound \<Rightarrow> wg_default_inbound g
                        | Outbound \<Rightarrow> wg_default_outbound g)
         in (default, record_decision (pk_direction p) (pk_protocol p) default False g,
             [log_firewall_decision 0 p default ''default-policy'']))"

definition add_rule ::
  "direction \<Rightarrow> protocol \<Rightarrow> u16 option \<Rightarrow> action \<Rightarrow> string \<Rightarrow> warguard \<Rightarrow> u32 \<times> warguard" where
  "add_rule direction protocol port action description g =
    (let rule_id = wg_next_rule_id g; n = length (wg_rules g);
         pos = (if n > 1 then n - 1 else n);
         rule = \<lparr>fr_id = rule_id, fr_direction = direction, fr_protocol = protocol, fr_port = port,
           fr_action = action, fr_description = description, fr_hit_count = 0\<rparr>
     in (rule_id, g\<lparr>wg_next_rule_id := rule_id + 1,
           wg_rules := take pos (wg_rules g) @ rule # drop pos (wg_rules g)\<rparr>))"

definition remove_rule :: "u32 \<Rightarrow> warguard \<Rightarrow> bool \<times> warguard" where
  "remove_rule rule_id g =
    (let rules = filter (\<lambda>r. fr_id r \<noteq> rule_id) (wg_rules g)
     in (length rules < length (wg_rules g), g\<lparr>wg_rules := rules\<rparr>))"

section \<open>The global filter\<close>

definition firewall_init :: "warguard option" where
  "firewall_init = Some warguard_new"

definition firewall_is_enabled :: "warguard option \<Rightarrow> bool" where
  "firewall_is_enabled w = (case w of None \<Rightarrow> False | Some g \<Rightarrow> wg_enabled g)"

definition firewall_set_enabled :: "bool \<Rightarrow> warguard option \<Rightarrow> warguard option" where
  "firewall_set_enabled enabled w = map_option (\<lambda>g. g\<lparr>wg_enabled := enabled\<rparr>) w"

definition firewall_process_packet ::
  "u64 \<Rightarrow> packet \<Rightarrow> warguard option \<Rightarrow> action \<times> warguard option \<times> audit_event list" where
  "firewall_process_packet now p w =
    (case w of
       None \<Rightarrow> (Allow, None, [])
     | Some g \<Rightarrow> (case process_packet now p g of (a, g', es) \<Rightarrow> (a, Some g', es)))"

definition firewall_add_rule ::
  "direction \<Rightarrow> protocol \<Rightarrow> u16 option \<Rightarrow> action \<Rightarrow> string \<Rightarrow> warguard option \<Rightarrow> u32 \<times> warguard option" where
  "firewall_add_rule direction protocol port action description w =
    (case w of
       None \<Rightarrow> (0, None)
     | Some g \<Rightarrow> (case add_rule direction protocol port action description g of (i, g') \<Rightarrow> (i, Some g')))"

definition firewall_remove_rule :: "u32 \<Rightarrow> warguard option \<Rightarrow> bool \<times> warguard option" where
  "firewall_remove_rule rule_id w =
    (case w of
       None \<Rightarrow> (False, None)
     | Some g \<Rightarrow> (case remove_rule rule_id g of (b, g') \<Rightarrow> (b, Some g')))"

definition firewall_rule_count :: "warguard option \<Rightarrow> nat" where
  "firewall_rule_count w = (case w of None \<Rightarrow> 0 | Some g \<Rightarrow> length (wg_rules g))"

definition firewall_active_connections :: "warguard option \<Rightarrow> nat" where
  "firewall_active_connections w = (case w of None \<Rightarrow> 0 | Some g \<Rightarrow> active_count (wg_tracker g))"

definition firewall_stats_pair :: "warguard option \<Rightarrow> u64 \<times> u64" where
  "firewall_stats_pair w =
    (case w of None \<Rightarrow> (0, 0) | Some g \<Rightarrow> (st_allowed (wg_stats g), st_denied (wg_stats g)))"

section \<open>The tracker\<close>

type_synonym flow = "u32 \<times> u32 \<times> u16 \<times> u16 \<times> u8"

definition flow_of :: "tracked_connection \<Rightarrow> flow" where
  "flow_of c = (tc_src_ip c, tc_dst_ip c, tc_src_port c, tc_dst_port c, tc_protocol c)"

definition tracker_ok :: "tracker \<Rightarrow> bool" where
  "tracker_ok conns \<longleftrightarrow> length conns \<le> MAX_CONNECTIONS \<and> distinct (map flow_of conns)"

lemma same_flow_iff: "same_flow a b c d e conn \<longleftrightarrow> flow_of conn = (a, b, c, d, e)"
  by (auto simp: same_flow_def flow_of_def)

lemma tracker_expire_ok:
  assumes "tracker_ok conns"
  shows "tracker_ok (tracker_expire now conns)"
  using assms
  by (auto simp: tracker_ok_def tracker_expire_def distinct_map_filter
      intro: le_trans [OF length_filter_le])

lemma set_tl_subset: "set (tl xs) \<subseteq> set xs"
  by (cases xs) auto

lemma track_outbound_ok [waros_inv]:
  assumes "tracker_ok conns"
  shows "tracker_ok (track_outbound now a b c d e conns)"
proof (cases "list_ex (same_flow a b c d e) conns")
  case True
  have "map flow_of (update_first (same_flow a b c d e)
      (\<lambda>conn. conn\<lparr>tc_last_seen := now, tc_packets := tc_packets conn + 1\<rparr>) conns) = map flow_of conns"
    by (rule map_update_first_same) (simp add: flow_of_def)
  with True assms show ?thesis by (simp add: track_outbound_def tracker_ok_def)
next
  case False
  let ?live = "tracker_expire now conns"
  let ?room = "if length ?live \<ge> MAX_CONNECTIONS then tl ?live else ?live"
  have live: "tracker_ok ?live" using assms by (rule tracker_expire_ok)
  have sub: "set ?room \<subseteq> set conns"
    using set_tl_subset [of ?live] by (auto simp: tracker_expire_def split: if_splits)
  have "(a, b, c, d, e) \<notin> flow_of ` set ?room"
  proof -
    have "\<forall>x \<in> set conns. flow_of x \<noteq> (a, b, c, d, e)"
      using False by (simp add: list_ex_iff same_flow_iff)
    with sub show ?thesis by force
  qed
  moreover have "distinct (map flow_of ?room)"
    using live by (auto simp: tracker_ok_def map_tl distinct_tl)
  moreover have "length ?room < MAX_CONNECTIONS"
    using live by (auto simp: tracker_ok_def MAX_CONNECTIONS_def)
  ultimately show ?thesis
    using False by (simp add: track_outbound_def tracker_ok_def Let_def flow_of_def)
qed

text \<open>What a tracked connection records after an outbound packet: an old one, or this packet.\<close>

lemma set_track_outbound:
  assumes "x \<in> set (track_outbound now a b c d e conns)"
  shows "x \<in> set conns \<or> (flow_of x = (a, b, c, d, e) \<and> tc_last_seen x = now)"
proof (cases "list_ex (same_flow a b c d e) conns")
  case True
  with assms show ?thesis
    using set_update_first_subset [of "same_flow a b c d e"
        "\<lambda>conn. conn\<lparr>tc_last_seen := now, tc_packets := tc_packets conn + 1\<rparr>" conns]
    by (auto simp: track_outbound_def same_flow_iff flow_of_def)
next
  case False
  with assms show ?thesis
    using set_tl_subset [of "tracker_expire now conns"]
    by (auto simp: track_outbound_def Let_def flow_of_def tracker_expire_def split: if_splits)
qed

lemma track_outbound_records:
  "\<exists>x \<in> set (track_outbound now a b c d e conns). flow_of x = (a, b, c, d, e) \<and> tc_last_seen x = now"
proof (cases "list_ex (same_flow a b c d e) conns")
  case True
  have "\<exists>x \<in> set (update_first (same_flow a b c d e)
      (\<lambda>conn. conn\<lparr>tc_last_seen := now, tc_packets := tc_packets conn + 1\<rparr>) cs).
      flow_of x = (a, b, c, d, e) \<and> tc_last_seen x = now"
    if "list_ex (same_flow a b c d e) cs" for cs
    using that by (induction cs) (auto simp: same_flow_iff flow_of_def)
  with True show ?thesis by (simp add: track_outbound_def)
next
  case False
  then show ?thesis by (simp add: track_outbound_def Let_def flow_of_def)
qed

section \<open>Runs of the filter\<close>

definition packet_flow :: "packet \<Rightarrow> flow" where
  "packet_flow p =
    (pk_src_ip p, pk_dst_ip p, pk_src_port p, pk_dst_port p, protocol_number (pk_protocol p))"

definition response_flow :: "packet \<Rightarrow> flow" where
  "response_flow p =
    (pk_dst_ip p, pk_src_ip p, pk_dst_port p, pk_src_port p, protocol_number (pk_protocol p))"

definition firewall_run :: "warguard \<Rightarrow> (u64 \<times> packet) list \<Rightarrow> warguard" where
  "firewall_run g tps = foldl (\<lambda>g (now, p). fst (snd (process_packet now p g))) g tps"

lemma firewall_run_snoc:
  "firewall_run g (tps @ [(now, p)]) = fst (snd (process_packet now p (firewall_run g tps)))"
  by (simp add: firewall_run_def)

lemma is_established_response_iff:
  "is_established_response now (pk_src_ip p) (pk_dst_ip p) (pk_src_port p) (pk_dst_port p)
      (protocol_number (pk_protocol p)) conns \<longleftrightarrow>
    (\<exists>c \<in> set conns. flow_of c = response_flow p \<and> sat_sub now (tc_last_seen c) < CONNECTION_TIMEOUT_TICKS)"
  by (auto simp: is_established_response_def list_ex_iff flow_of_def response_flow_def)

definition rule_shape :: "firewall_rule \<Rightarrow> firewall_rule" where
  "rule_shape r = r\<lparr>fr_hit_count := 0\<rparr>"

lemma rule_hits_shape [simp]: "rule_hits p (rule_shape r) = rule_hits p r"
  by (simp add: rule_hits_def rule_matches_def rule_shape_def)

lemma find_rule_shape:
  "map_option rule_shape (find (rule_hits p) rules) = find (rule_hits p) (map rule_shape rules)"
  by (induction rules) auto

lemma process_packet_rules:
  "map rule_shape (wg_rules (fst (snd (process_packet now p g)))) = map rule_shape (wg_rules g)"
proof -
  have "map rule_shape (update_first (rule_hits p) (\<lambda>r. r\<lparr>fr_hit_count := fr_hit_count r + 1\<rparr>) rules)
      = map rule_shape rules" for rules
    by (rule map_update_first_same) (simp add: rule_shape_def)
  then show ?thesis
    by (simp add: process_packet_def record_decision_def Let_def split: option.splits action.splits)
qed

lemma process_packet_tracker:
  "wg_tracker (fst (snd (process_packet now p g))) = wg_tracker g \<or>
    (pk_direction p = Outbound \<and> fst (process_packet now p g) = Allow \<and>
      wg_tracker (fst (snd (process_packet now p g))) = track_outbound now (pk_src_ip p) (pk_dst_ip p)
        (pk_src_port p) (pk_dst_port p) (protocol_number (pk_protocol p)) (wg_tracker g))"
  by (auto simp: process_packet_def record_decision_def Let_def split: option.splits action.splits)

lemma process_packet_frame [simp]:
  "wg_enabled (fst (snd (process_packet now p g))) = wg_enabled g"
  "wg_default_inbound (fst (snd (process_packet now p g))) = wg_default_inbound g"
  "wg_default_outbound (fst (snd (process_packet now p g))) = wg_default_outbound g"
  by (simp_all add: process_packet_def record_decision_def Let_def split: option.splits action.splits)

definition tracked_from :: "(u64 \<times> packet) list \<Rightarrow> tracker \<Rightarrow> bool" where
  "tracked_from hist conns \<longleftrightarrow>
    (\<forall>c \<in> set conns. \<exists>(t, q) \<in> set hist. pk_direction q = Outbound \<and> flow_of c = packet_flow q
      \<and> tc_last_seen c = t)"

lemma tracked_from_step:
  assumes "tracked_from hist (wg_tracker g)"
  shows "tracked_from (hist @ [(now, p)]) (wg_tracker (fst (snd (process_packet now p g))))"
proof -
  have old: "tracked_from (hist @ [(now, p)]) (wg_tracker g)"
    using assms by (fastforce simp: tracked_from_def)
  from process_packet_tracker [of now p g] show ?thesis
  proof (elim disjE conjE)
    assume "pk_direction p = Outbound"
      and upd: "wg_tracker (fst (snd (process_packet now p g))) = track_outbound now (pk_src_ip p)
        (pk_dst_ip p) (pk_src_port p) (pk_dst_port p) (protocol_number (pk_protocol p)) (wg_tracker g)"
    moreover have "flow_of x = packet_flow p \<and> tc_last_seen x = now"
      if "x \<in> set (wg_tracker (fst (snd (process_packet now p g))))" and "x \<notin> set (wg_tracker g)" for x
      using set_track_outbound that unfolding upd packet_flow_def by blast
    ultimately show ?thesis
      using old unfolding tracked_from_def by fastforce
  qed (use old in simp)
qed

lemma firewall_run_inv:
  "tracked_from hist (wg_tracker (firewall_run warguard_new hist))
   \<and> tracker_ok (wg_tracker (firewall_run warguard_new hist))
   \<and> map rule_shape (wg_rules (firewall_run warguard_new hist)) = default_rules
   \<and> wg_enabled (firewall_run warguard_new hist)"
proof (induction hist rule: rev_induct)
  case Nil
  show ?case
    by (simp add: firewall_run_def warguard_new_def tracker_new_def tracked_from_def tracker_ok_def
        Let_def default_rules_def rule_shape_def)
next
  case (snoc tp hist)
  obtain now p where tp: "tp = (now, p)" by (cases tp)
  let ?g = "firewall_run warguard_new hist"
  have "tracker_ok (wg_tracker (fst (snd (process_packet now p ?g))))"
    using process_packet_tracker [of now p ?g] snoc by (auto simp: track_outbound_ok)
  then show ?case
    using snoc tracked_from_step [of hist ?g now p]
    by (simp add: tp firewall_run_snoc process_packet_rules)
qed

lemma default_rules_inbound:
  "pk_direction p = Inbound \<Longrightarrow> \<exists>r. find (rule_hits p) default_rules = Some r \<and> fr_action r = Deny"
  by (simp add: default_rules_def rule_hits_def rule_matches_def)

lemma default_rules_outbound:
  "pk_direction p = Outbound \<Longrightarrow> \<exists>r. find (rule_hits p) (take 5 default_rules) = Some r \<and> fr_action r = Allow"
  by (simp add: default_rules_def rule_hits_def rule_matches_def)

lemma find_rule_by_shape:
  assumes "find (rule_hits p) (map rule_shape rules) = Some r"
  shows "\<exists>r'. find (rule_hits p) rules = Some r' \<and> fr_action r' = fr_action r"
  using assms find_rule_shape [of p rules] by (auto simp: rule_shape_def)

text \<open>
  C11. No unsolicited traffic. With the default rules, over any sequence of packets, an inbound
  packet is let through only if it answers an outbound packet that passed earlier: same addresses
  and ports mirrored, same protocol, and sent less than 30000 ticks before.
\<close>

theorem inbound_only_as_response:
  assumes "pk_direction p = Inbound"
    and "fst (process_packet now p (firewall_run warguard_new hist)) = Allow"
  shows "\<exists>(t, q) \<in> set hist. pk_direction q = Outbound \<and> packet_flow q = response_flow p
    \<and> sat_sub now t < CONNECTION_TIMEOUT_TICKS"
proof -
  let ?g = "firewall_run warguard_new hist"
  have inv: "tracked_from hist (wg_tracker ?g)" "map rule_shape (wg_rules ?g) = default_rules"
    "wg_enabled ?g"
    using firewall_run_inv [of hist] by simp_all
  obtain r where "find (rule_hits p) (wg_rules ?g) = Some r" "fr_action r = Deny"
    using default_rules_inbound [OF assms(1)] find_rule_by_shape [of p "wg_rules ?g"] inv(2) by auto
  then have "is_established_response now (pk_src_ip p) (pk_dst_ip p) (pk_src_port p) (pk_dst_port p)
      (protocol_number (pk_protocol p)) (wg_tracker ?g)"
    using assms inv(3) by (simp add: process_packet_def Let_def split: if_splits)
  then obtain c where "c \<in> set (wg_tracker ?g)" "flow_of c = response_flow p"
    "sat_sub now (tc_last_seen c) < CONNECTION_TIMEOUT_TICKS"
    unfolding is_established_response_iff by blast
  with inv(1) show ?thesis unfolding tracked_from_def by fastforce
qed

text \<open>
  Responses come back. With the default rules every outbound packet passes, and the answer to
  it passes too when it arrives next within the timeout; the tracker never holds more than 1024
  connections and never the same one twice.
\<close>

theorem outbound_and_response_pass:
  assumes "pk_direction q = Outbound" and "pk_direction p = Inbound"
    and "packet_flow q = response_flow p" and "sat_sub now t < CONNECTION_TIMEOUT_TICKS"
  shows "fst (process_packet t q (firewall_run warguard_new hist)) = Allow
    \<and> fst (process_packet now p (firewall_run warguard_new (hist @ [(t, q)]))) = Allow
    \<and> tracker_ok (wg_tracker (firewall_run warguard_new hist))"
proof -
  let ?g = "firewall_run warguard_new hist"
  have inv: "map rule_shape (wg_rules ?g) = default_rules" "wg_enabled ?g" "tracker_ok (wg_tracker ?g)"
    using firewall_run_inv [of hist] by simp_all
  have "\<exists>r. find (rule_hits q) default_rules = Some r \<and> fr_action r = Allow"
    using assms(1) by (simp add: default_rules_def rule_hits_def rule_matches_def)
  then obtain r where r: "find (rule_hits q) (wg_rules ?g) = Some r" "fr_action r = Allow"
    using find_rule_by_shape [of q "wg_rules ?g"] inv(1) by auto
  have "wg_tracker (firewall_run warguard_new (hist @ [(t, q)])) = track_outbound t (pk_src_ip q)
      (pk_dst_ip q) (pk_src_port q) (pk_dst_port q) (protocol_number (pk_protocol q)) (wg_tracker ?g)"
    using r assms(1) inv(2)
    by (simp add: firewall_run_snoc process_packet_def record_decision_def Let_def)
  then obtain c where "c \<in> set (wg_tracker (firewall_run warguard_new (hist @ [(t, q)])))"
    "flow_of c = response_flow p" "tc_last_seen c = t"
    using track_outbound_records assms(3) unfolding packet_flow_def by metis
  then have "is_established_response now (pk_src_ip p) (pk_dst_ip p) (pk_src_port p) (pk_dst_port p)
      (protocol_number (pk_protocol p)) (wg_tracker (firewall_run warguard_new (hist @ [(t, q)])))"
    unfolding is_established_response_iff using assms(4) by blast
  moreover have "wg_enabled (firewall_run warguard_new (hist @ [(t, q)]))"
    using inv(2) by (simp add: firewall_run_snoc)
  ultimately show ?thesis
    using r assms(1,2) inv(2,3) by (simp add: process_packet_def Let_def)
qed

text \<open>A request to a web server and its answer.\<close>

definition sample_request :: packet where
  "sample_request = \<lparr>pk_direction = Outbound, pk_protocol = Tcp, pk_src_ip = 10, pk_dst_ip = 20,
     pk_src_port = 4000, pk_dst_port = 443\<rparr>"

definition sample_answer :: packet where
  "sample_answer = \<lparr>pk_direction = Inbound, pk_protocol = Tcp, pk_src_ip = 20, pk_dst_ip = 10,
     pk_src_port = 443, pk_dst_port = 4000\<rparr>"

lemma sample_flow: "packet_flow sample_request = response_flow sample_answer"
  by (simp add: packet_flow_def response_flow_def sample_request_def sample_answer_def)

lemma sample_in_time: "sat_sub (250 :: u64) 100 < CONNECTION_TIMEOUT_TICKS"
  by (simp add: sat_sub_def CONNECTION_TIMEOUT_TICKS_def)

theorem outbound_and_response_pass_witness:
  "fst (process_packet 250 sample_answer (firewall_run warguard_new [(100, sample_request)])) = Allow"
  using outbound_and_response_pass [OF _ _ sample_flow sample_in_time, of "[]"]
  by (simp add: sample_request_def sample_answer_def)

theorem inbound_only_as_response_witness:
  "fst (process_packet 250 sample_answer (firewall_run warguard_new [(100, sample_request)])) = Allow
   \<and> (\<exists>(t, q) \<in> set [(100, sample_request)]. packet_flow q = response_flow sample_answer)"
proof -
  have "fst (process_packet 250 sample_answer (firewall_run warguard_new [(100, sample_request)])) = Allow"
    by (simp add: firewall_run_def process_packet_def warguard_new_def default_rules_def rule_hits_def
        rule_matches_def sample_request_def sample_answer_def tracker_new_def is_established_response_def
        record_decision_def track_outbound_def tracker_expire_def MAX_CONNECTIONS_def
        CONNECTION_TIMEOUT_TICKS_def sat_sub_def)
  with inbound_only_as_response [of sample_answer 250 "[(100, sample_request)]"]
  show ?thesis by (auto simp: sample_answer_def)
qed

section \<open>Adding rules\<close>

definition add_rules ::
  "(direction \<times> protocol \<times> u16 option \<times> action \<times> string) list \<Rightarrow> warguard \<Rightarrow> warguard" where
  "add_rules rs g = foldl (\<lambda>g (d, pr, po, a, desc). snd (add_rule d pr po a desc g)) g rs"

lemma add_rule_take:
  assumes "n < length (wg_rules g)" and "n > 0"
  shows "take n (wg_rules (snd (add_rule d pr po a desc g))) = take n (wg_rules g)
    \<and> length (wg_rules (snd (add_rule d pr po a desc g))) = Suc (length (wg_rules g))
    \<and> wg_enabled (snd (add_rule d pr po a desc g)) = wg_enabled g"
  using assms by (auto simp: add_rule_def Let_def take_append)

lemma add_rules_take:
  assumes "n < length (wg_rules g)" and "n > 0"
  shows "take n (wg_rules (add_rules rs g)) = take n (wg_rules g)
    \<and> wg_enabled (add_rules rs g) = wg_enabled g"
proof -
  have "take n (wg_rules (add_rules rs g)) = take n (wg_rules g) \<and> n < length (wg_rules (add_rules rs g))
      \<and> wg_enabled (add_rules rs g) = wg_enabled g"
    using assms
  proof (induction rs rule: rev_induct)
    case (snoc r rs)
    obtain d pr po a desc where r: "r = (d, pr, po, a, desc)" by (cases r) auto
    have "add_rules (rs @ [r]) g = snd (add_rule d pr po a desc (add_rules rs g))"
      by (simp add: add_rules_def r)
    then show ?case using snoc add_rule_take [of n "add_rules rs g" d pr po a desc] by simp
  qed (simp add: add_rules_def)
  then show ?thesis by simp
qed

lemma find_take: "find P (take n xs) = Some x \<Longrightarrow> find P xs = Some x"
proof -
  assume "find P (take n xs) = Some x"
  then have "find P (take n xs @ drop n xs) = Some x" by (simp only: find_append) simp
  then show ?thesis by simp
qed

text \<open>
  C29. Rules cannot be added against outbound traffic. \<open>add_rule\<close> inserts before the last rule, the
  inbound catch-all, and so after the default rule that allows everything outbound: whatever rules
  are added to the default ones, outbound denials among them, every outbound packet still passes.
\<close>

theorem added_rules_never_block_outbound:
  assumes "pk_direction p = Outbound"
  shows "fst (process_packet now p (add_rules rs warguard_new)) = Allow"
proof -
  let ?g = "add_rules rs warguard_new"
  have new: "wg_rules warguard_new = default_rules" "wg_enabled warguard_new"
    by (simp_all add: warguard_new_def Let_def)
  have "take 5 (wg_rules ?g) = take 5 default_rules \<and> wg_enabled ?g"
    using add_rules_take [of 5 warguard_new rs] new by (simp add: default_rules_def)
  moreover obtain r where "find (rule_hits p) (take 5 default_rules) = Some r" "fr_action r = Allow"
    using default_rules_outbound [OF assms] by blast
  ultimately have "find (rule_hits p) (wg_rules ?g) = Some r" "fr_action r = Allow" "wg_enabled ?g"
    by (auto intro: find_take [of _ 5])
  then show ?thesis using assms by (simp add: process_packet_def Let_def)
qed

theorem added_rules_never_block_outbound_witness:
  "fst (process_packet 1 sample_request
     (add_rules [(Outbound, Tcp, Some 443, Deny, ''no https'')] warguard_new)) = Allow"
  using added_rules_never_block_outbound [of sample_request] by (simp add: sample_request_def)

section \<open>Statistics\<close>

definition stats_ok :: "firewall_stats \<Rightarrow> bool" where
  "stats_ok s \<longleftrightarrow> st_allowed s = st_inbound_allowed s + st_outbound_allowed s
    \<and> st_denied s = st_inbound_denied s + st_outbound_denied s"

lemma count_decision_ok:
  "stats_ok s \<Longrightarrow> stats_ok (count_decision d pr a sf s)
    \<and> st_allowed (count_decision d pr a sf s) + st_denied (count_decision d pr a sf s)
        = st_allowed s + st_denied s + 1"
  by (cases d; cases pr; cases a) (simp_all add: stats_ok_def count_decision_def Let_def)

lemma process_packet_stats:
  assumes "wg_enabled g"
  shows "\<exists>d pr sf. wg_stats (fst (snd (process_packet now p g)))
    = count_decision d pr (fst (process_packet now p g)) sf (wg_stats g)"
  using assms
  by (auto simp: process_packet_def record_decision_def Let_def split: option.splits action.splits)

text \<open>
  The statistics add up (modulo \<open>2 ^ 64\<close>, the width of the counters): after any sequence of
  packets the totals allowed and denied are the sums of their inbound and outbound parts, and
  together they count every packet.
\<close>

theorem firewall_stats_consistent:
  "stats_ok (wg_stats (firewall_run warguard_new tps))
   \<and> st_allowed (wg_stats (firewall_run warguard_new tps)) + st_denied (wg_stats (firewall_run warguard_new tps))
      = word_of_nat (length tps)"
proof (induction tps rule: rev_induct)
  case Nil
  show ?case by (simp add: firewall_run_def warguard_new_def stats_ok_def stats_zero_def Let_def)
next
  case (snoc tp tps)
  obtain now p where tp: "tp = (now, p)" by (cases tp)
  let ?g = "firewall_run warguard_new tps"
  have "wg_enabled ?g" using firewall_run_inv [of tps] by simp
  from process_packet_stats [OF this, of now p] obtain d pr sf where
    "wg_stats (fst (snd (process_packet now p ?g)))
      = count_decision d pr (fst (process_packet now p ?g)) sf (wg_stats ?g)"
    by blast
  with snoc count_decision_ok show ?case by (simp add: tp firewall_run_snoc add.commute)
qed

end
