(* ===== verification/Handle_Table.thy ===== *)
theory Handle_Table
  imports Waros_Prelude
begin

text \<open>
  The interface of the kernel's handle tables: an insertion returns a fresh handle, a lookup after
  it finds what was inserted under that handle and what was there before under any other, and a
  release frees one handle and touches no other. The descriptor table of a process and the process
  table provide it; \<open>room\<close> says when an insertion has a handle left to give.
\<close>

locale handle_table =
  fixes tinv :: "'t \<Rightarrow> bool"
    and room :: "'t \<Rightarrow> bool"
    and look :: "'h \<Rightarrow> 't \<Rightarrow> 'w option"
    and lab :: "'h \<Rightarrow> 'v \<Rightarrow> 'w"
    and ins :: "'v \<Rightarrow> 't \<Rightarrow> ('h \<times> 't) option"
    and rel :: "'h \<Rightarrow> 't \<Rightarrow> 't"
  assumes ins_inv: "tinv t \<Longrightarrow> room t \<Longrightarrow> ins v t = Some (h, t') \<Longrightarrow> tinv t'"
    and ins_fresh: "tinv t \<Longrightarrow> room t \<Longrightarrow> ins v t = Some (h, t') \<Longrightarrow> look h t = None"
    and look_ins: "tinv t \<Longrightarrow> room t \<Longrightarrow> ins v t = Some (h, t') \<Longrightarrow>
      look k t' = (if k = h then Some (lab h v) else look k t)"
    and rel_inv: "tinv t \<Longrightarrow> tinv (rel h t)"
    and look_rel: "tinv t \<Longrightarrow> look k (rel h t) = (if k = h then None else look k t)"
begin

text \<open>The handles of successive insertions, as long as each has room and succeeds.\<close>

inductive inserted :: "'t \<Rightarrow> ('h \<times> 'v) list \<Rightarrow> 't \<Rightarrow> bool" where
  inserted_Nil: "inserted t [] t"
| inserted_Cons: "room t \<Longrightarrow> ins v t = Some (h, t') \<Longrightarrow> inserted t' hvs t'' \<Longrightarrow>
    inserted t ((h, v) # hvs) t''"

lemma inserted_keeps:
  assumes "inserted t hvs t'" and "tinv t" and "look k t = Some w"
  shows "look k t' = Some w \<and> k \<notin> fst ` set hvs"
  using assms
proof (induction rule: inserted.induct)
  case (inserted_Cons t v h t' hvs t'')
  have "k \<noteq> h" using inserted_Cons ins_fresh [of t v h t'] by auto
  moreover have "look k t' = Some w"
    using inserted_Cons look_ins [of t v h t'] \<open>k \<noteq> h\<close> by simp
  ultimately show ?case using inserted_Cons ins_inv [of t v h t'] by auto
qed simp

lemma inserted_distinct:
  assumes "inserted t hvs t'" and "tinv t"
  shows "tinv t' \<and> distinct (map fst hvs) \<and> (\<forall>(h, v) \<in> set hvs. look h t' = Some (lab h v))"
  using assms
proof (induction rule: inserted.induct)
  case (inserted_Cons t v h t' hvs t'')
  have inv: "tinv t'" using inserted_Cons ins_inv by blast
  have "look h t' = Some (lab h v)" using inserted_Cons look_ins by simp
  from inserted_keeps [OF inserted_Cons.hyps(3) inv this] inserted_Cons inv
  show ?case by auto
qed simp

lemma release_then_reuse:
  assumes "tinv t" and "room (rel h t)" and "ins v (rel h t) = Some (k, t')" and "j \<noteq> h" and "j \<noteq> k"
  shows "look j t' = look j t"
  using assms look_ins [OF rel_inv [OF assms(1)] assms(2,3), of j] look_rel [of t j h] by simp

end

end
