(* ===== verification/Fd_Table.thy ===== *)
theory Fd_Table
  imports Handle_Table Rust_Str
begin

text \<open>
  The file descriptor table of a process (\<open>kernel/src/exec/fd_table.rs\<close>): a vector of slots, the
  descriptor being the index of its slot.
\<close>

datatype file_handle_access = HandleReadOnly | HandleCreateWrite

record file_handle =
  fh_path :: string
  fh_offset :: nat
  fh_access :: file_handle_access
  fh_staged_data :: "u8 list"

record directory_entry_handle =
  de_name :: string
  de_is_dir :: bool

record directory_handle =
  dh_path :: string
  dh_entries :: "directory_entry_handle list"
  dh_cursor :: nat

datatype descriptor_target =
    Stdin
  | Stdout
  | Stderr
  | File file_handle
  | Directory directory_handle
  | Socket u32
  | Pipe u32

record file_descriptor =
  fd_fd :: u32
  fd_target :: descriptor_target

record fd_table =
  ft_entries :: "file_descriptor option list"

definition new_with_stdio :: fd_table where
  "new_with_stdio = \<lparr>ft_entries =
    [Some \<lparr>fd_fd = 0, fd_target = Stdin\<rparr>, Some \<lparr>fd_fd = 1, fd_target = Stdout\<rparr>,
     Some \<lparr>fd_fd = 2, fd_target = Stderr\<rparr>]\<rparr>"

definition fd_insert :: "descriptor_target \<Rightarrow> fd_table \<Rightarrow> u32 \<times> fd_table" where
  "fd_insert target t =
    (case find_index (\<lambda>slot. slot = None) (ft_entries t) of
       Some index \<Rightarrow>
         let fd = word_of_nat index
         in (fd, \<lparr>ft_entries = (ft_entries t)[index := Some \<lparr>fd_fd = fd, fd_target = target\<rparr>]\<rparr>)
     | None \<Rightarrow>
         let fd = word_of_nat (length (ft_entries t))
         in (fd, \<lparr>ft_entries = ft_entries t @ [Some \<lparr>fd_fd = fd, fd_target = target\<rparr>]\<rparr>))"

definition fd_get :: "u32 \<Rightarrow> fd_table \<Rightarrow> file_descriptor option" where
  "fd_get fd t = (if unat fd < length (ft_entries t) then ft_entries t ! unat fd else None)"

definition fd_get_mut :: "u32 \<Rightarrow> (file_descriptor \<Rightarrow> file_descriptor) \<Rightarrow> fd_table \<Rightarrow> fd_table" where
  "fd_get_mut fd f t =
    (if unat fd < length (ft_entries t)
     then \<lparr>ft_entries = (ft_entries t)[unat fd := map_option f (ft_entries t ! unat fd)]\<rparr>
     else t)"

definition fd_close :: "u32 \<Rightarrow> fd_table \<Rightarrow> bool \<times> fd_table" where
  "fd_close fd t =
    (if unat fd < length (ft_entries t) then
       if ft_entries t ! unat fd \<noteq> None
       then (True, \<lparr>ft_entries = (ft_entries t)[unat fd := None]\<rparr>)
       else (False, t)
     else (False, t))"

definition close_all :: "fd_table \<Rightarrow> (u32 \<times> descriptor_target) list \<times> fd_table" where
  "close_all t =
    (concat (map (\<lambda>(index, slot).
        case slot of None \<Rightarrow> [] | Some d \<Rightarrow> [(word_of_nat index, fd_target d)])
       (enumerate 0 (ft_entries t))),
     \<lparr>ft_entries = map (\<lambda>_. None) (ft_entries t)\<rparr>)"

section \<open>The invariant and the contract\<close>

definition fd_wf :: "fd_table \<Rightarrow> bool" where
  "fd_wf t \<longleftrightarrow> length (ft_entries t) \<le> 2 ^ 32 \<and>
    (\<forall>i < length (ft_entries t). case ft_entries t ! i of
       None \<Rightarrow> True | Some d \<Rightarrow> fd_fd d = word_of_nat i)"

definition fd_room :: "fd_table \<Rightarrow> bool" where
  "fd_room t \<longleftrightarrow> length (ft_entries t) < 2 ^ 32"

lemma find_index_Some:
  "find_index P xs = Some i \<longleftrightarrow> i < length xs \<and> P (xs ! i) \<and> (\<forall>j < i. \<not> P (xs ! j))"
proof (induction xs arbitrary: i)
  case (Cons x xs)
  show ?case
    by (cases i) (auto simp: Cons.IH less_Suc_eq_0_disj nth_Cons split: nat.splits)
qed simp

lemma find_index_None: "find_index P xs = None \<longleftrightarrow> (\<forall>x \<in> set xs. \<not> P x)"
  by (induction xs) auto

lemma unat_word_of_nat_32: "i < 2 ^ 32 \<Longrightarrow> unat (word_of_nat i :: u32) = i"
  by (simp add: unat_of_nat)

text \<open>The slot an insertion takes: the lowest free one, or a new one at the end.\<close>

lemma fd_insert_slot:
  assumes "fd_room t"
  shows "\<exists>i. i \<le> length (ft_entries t) \<and> fst (fd_insert target t) = word_of_nat i
    \<and> unat (fst (fd_insert target t)) = i
    \<and> (i < length (ft_entries t) \<longrightarrow> ft_entries t ! i = None)
    \<and> (\<forall>j < i. ft_entries t ! j \<noteq> None)
    \<and> ft_entries (snd (fd_insert target t)) =
        (if i < length (ft_entries t)
         then (ft_entries t)[i := Some \<lparr>fd_fd = word_of_nat i, fd_target = target\<rparr>]
         else ft_entries t @ [Some \<lparr>fd_fd = word_of_nat i, fd_target = target\<rparr>])"
proof (cases "find_index (\<lambda>slot. slot = None) (ft_entries t)")
  case None
  then have "\<forall>j < length (ft_entries t). ft_entries t ! j \<noteq> None"
    by (simp add: find_index_None)
  with None assms show ?thesis
    by (intro exI [of _ "length (ft_entries t)"])
      (simp add: fd_insert_def Let_def fd_room_def unat_word_of_nat_32)
next
  case (Some i)
  then have "i < length (ft_entries t)" "ft_entries t ! i = None" "\<forall>j < i. ft_entries t ! j \<noteq> None"
    by (simp_all add: find_index_Some)
  with Some assms show ?thesis
    by (intro exI [of _ i]) (simp add: fd_insert_def Let_def fd_room_def unat_word_of_nat_32)
qed

lemma fd_get_insert:
  assumes "fd_room t"
  shows "fd_get k (snd (fd_insert target t)) =
    (if k = fst (fd_insert target t)
     then Some \<lparr>fd_fd = fst (fd_insert target t), fd_target = target\<rparr> else fd_get k t)"
proof -
  obtain i where i: "i \<le> length (ft_entries t)" "fst (fd_insert target t) = word_of_nat i"
    "unat (fst (fd_insert target t)) = i"
    "ft_entries (snd (fd_insert target t)) =
        (if i < length (ft_entries t)
         then (ft_entries t)[i := Some \<lparr>fd_fd = word_of_nat i, fd_target = target\<rparr>]
         else ft_entries t @ [Some \<lparr>fd_fd = word_of_nat i, fd_target = target\<rparr>])"
    using fd_insert_slot [OF assms, of target] by blast
  have "k = fst (fd_insert target t) \<longleftrightarrow> unat k = i"
    using i(3) by (auto simp: word_unat_eq_iff)
  with i show ?thesis
    by (auto simp: fd_get_def nth_list_update nth_append)
qed

lemma fd_wf_insert [waros_inv]:
  assumes "fd_wf t" and "fd_room t"
  shows "fd_wf (snd (fd_insert target t))"
proof -
  obtain i where i: "i \<le> length (ft_entries t)"
    "ft_entries (snd (fd_insert target t)) =
        (if i < length (ft_entries t)
         then (ft_entries t)[i := Some \<lparr>fd_fd = word_of_nat i, fd_target = target\<rparr>]
         else ft_entries t @ [Some \<lparr>fd_fd = word_of_nat i, fd_target = target\<rparr>])"
    using fd_insert_slot [OF assms(2), of target] by blast
  with assms show ?thesis
    by (auto simp: fd_wf_def fd_room_def nth_list_update nth_append less_Suc_eq split: option.splits)
qed

lemma fd_get_close:
  "fd_get k (snd (fd_close fd t)) = (if k = fd then None else fd_get k t)"
  by (auto simp: fd_get_def fd_close_def nth_list_update word_unat_eq_iff)

lemma fd_wf_close [waros_inv]: "fd_wf t \<Longrightarrow> fd_wf (snd (fd_close fd t))"
  by (auto simp: fd_wf_def fd_close_def nth_list_update split: option.splits)

interpretation fds: handle_table fd_wf fd_room fd_get "\<lambda>fd target. \<lparr>fd_fd = fd, fd_target = target\<rparr>"
  "\<lambda>target t. Some (fd_insert target t)" "\<lambda>fd t. snd (fd_close fd t)"
proof
  fix t t' :: fd_table and target h k
  assume t: "fd_wf t" "fd_room t" "Some (fd_insert target t) = Some (h, t')"
  then have ht: "h = fst (fd_insert target t)" "t' = snd (fd_insert target t)" by auto
  show "fd_wf t'" using t ht by (simp add: fd_wf_insert)
  show "fd_get h t = None"
    using fd_insert_slot [OF t(2), of target] ht by (auto simp: fd_get_def)
  show "fd_get k t' = (if k = h then Some \<lparr>fd_fd = h, fd_target = target\<rparr> else fd_get k t)"
    using fd_get_insert [OF t(2)] ht by simp
qed (simp_all add: fd_wf_close fd_get_close)

text \<open>
  Descriptors. Opening returns the lowest descriptor that is not in use; a lookup then finds
  the new target under it and what was there before under every other descriptor. Closing an open
  descriptor succeeds and frees that one alone; closing it again fails and changes nothing.
\<close>

theorem fd_open_close:
  assumes "fd_wf t" and "fd_room t" and "fd_insert target t = (fd, t')"
  shows "fd_wf t' \<and> fd_get fd t = None \<and> (\<forall>k. k < fd \<longrightarrow> fd_get k t \<noteq> None)
    \<and> (\<forall>k. fd_get k t' = (if k = fd then Some \<lparr>fd_fd = fd, fd_target = target\<rparr> else fd_get k t))
    \<and> fst (fd_close fd t') \<and> (\<forall>k. fd_get k (snd (fd_close fd t')) = fd_get k t)
    \<and> fd_close fd (snd (fd_close fd t')) = (False, snd (fd_close fd t'))"
proof -
  have "Some (fd_insert target t) = Some (fd, t')" using assms(3) by simp
  note laws = fds.ins_inv [OF assms(1,2) this] fds.ins_fresh [OF assms(1,2) this]
    fds.look_ins [OF assms(1,2) this]
  have lowest: "fd_get k t \<noteq> None" if "k < fd" for k
  proof -
    obtain i where "i \<le> length (ft_entries t)" "unat fd = i" "\<forall>j < i. ft_entries t ! j \<noteq> None"
      using fd_insert_slot [OF assms(2), of target] assms(3) by auto
    with that show ?thesis by (auto simp: fd_get_def word_less_nat_alt)
  qed
  have "fd_get fd t' \<noteq> None" using laws(3) by simp
  then have closed: "fst (fd_close fd t')" by (auto simp: fd_get_def fd_close_def split: if_splits)
  have "fd_close fd s = (False, s)" if "fd_get fd s = None" for s
    using that by (auto simp: fd_get_def fd_close_def split: if_splits)
  with laws lowest closed show ?thesis by (auto simp: fd_get_close)
qed

theorem fd_open_close_witness:
  "fd_insert (Socket 9) (snd (fd_close 1 new_with_stdio)) = (1, \<lparr>ft_entries =
     [Some \<lparr>fd_fd = 0, fd_target = Stdin\<rparr>, Some \<lparr>fd_fd = 1, fd_target = Socket 9\<rparr>,
      Some \<lparr>fd_fd = 2, fd_target = Stderr\<rparr>]\<rparr>)
   \<and> fd_get 1 (snd (fd_close 1 new_with_stdio)) = None"
proof -
  let ?t = "snd (fd_close 1 new_with_stdio)"
  have ins: "fd_insert (Socket 9) ?t = (1, \<lparr>ft_entries =
     [Some \<lparr>fd_fd = 0, fd_target = Stdin\<rparr>, Some \<lparr>fd_fd = 1, fd_target = Socket 9\<rparr>,
      Some \<lparr>fd_fd = 2, fd_target = Stderr\<rparr>]\<rparr>)"
    by (simp add: fd_insert_def fd_close_def new_with_stdio_def)
  have "fd_wf ?t" "fd_room ?t"
    by (auto simp: fd_wf_def fd_room_def fd_close_def new_with_stdio_def less_Suc_eq)
  from fd_open_close [OF this ins] ins show ?thesis by blast
qed

end
