(* ===== verification/Address_Space.thy ===== *)
theory Address_Space
  imports Waros_Prelude
begin

text \<open>
  The user address space that WarExec tracks for a process (\<open>kernel/src/exec/address_space.rs\<close>,
  with \<open>MemorySegment\<close> and \<open>SegmentFlags\<close> of \<open>process.rs\<close>) and the check every system call makes of
  a user pointer.
\<close>

type_synonym segment_flags = u8

definition SEG_READ :: segment_flags where
  "SEG_READ = 0x01"

definition SEG_WRITE :: segment_flags where
  "SEG_WRITE = 0x02"

definition SEG_EXECUTE :: segment_flags where
  "SEG_EXECUTE = 0x04"

record memory_segment =
  ms_vaddr :: u64
  ms_size :: u64
  ms_flags :: segment_flags

record address_space =
  as_segments :: "memory_segment list"
  as_brk :: u64
  as_initial_brk :: u64
  as_heap_limit :: u64
  as_stack_top :: u64
  as_stack_bottom :: u64
  as_mmap_top :: u64
  as_page_table_phys :: u64

definition USER_CODE_BASE :: u64 where
  "USER_CODE_BASE = 0x400000"

definition USER_HEAP_BASE :: u64 where
  "USER_HEAP_BASE = 0x10000000"

definition USER_STACK_TOP :: u64 where
  "USER_STACK_TOP = 0x7FFFF000"

definition USER_STACK_SIZE :: u64 where
  "USER_STACK_SIZE = 0x200000"

definition USER_MMAP_TOP :: u64 where
  "USER_MMAP_TOP = 0x60000000"

definition address_space_new :: "u64 \<Rightarrow> address_space" where
  "address_space_new page_table_phys =
    \<lparr>as_segments = [], as_brk = USER_HEAP_BASE, as_initial_brk = USER_HEAP_BASE,
     as_heap_limit = USER_MMAP_TOP, as_stack_top = USER_STACK_TOP,
     as_stack_bottom = USER_STACK_TOP - USER_STACK_SIZE, as_mmap_top = USER_MMAP_TOP,
     as_page_table_phys = page_table_phys\<rparr>"

definition register_segment :: "u64 \<Rightarrow> u64 \<Rightarrow> segment_flags \<Rightarrow> address_space \<Rightarrow> address_space" where
  "register_segment vaddr seg_size flags a =
    a\<lparr>as_segments := as_segments a @ [\<lparr>ms_vaddr = vaddr, ms_size = seg_size, ms_flags = flags\<rparr>]\<rparr>"

definition segment_ends :: "address_space \<Rightarrow> u64 list" where
  "segment_ends a = map (\<lambda>s. ms_vaddr s + ms_size s) (as_segments a)"

definition finalize_heap_layout :: "address_space \<Rightarrow> address_space" where
  "finalize_heap_layout a =
    (let heap_base = (if segment_ends a = [] then USER_HEAP_BASE
                      else foldl max (hd (segment_ends a)) (tl (segment_ends a)));
         aligned = (heap_base + 0xFFF) AND NOT 0xFFF;
         start = max aligned USER_HEAP_BASE
     in a\<lparr>as_initial_brk := start, as_brk := start,
          as_heap_limit := min (as_mmap_top a) (as_stack_bottom a)\<rparr>)"

definition range_within_region :: "u64 \<Rightarrow> u64 \<Rightarrow> u64 \<Rightarrow> u64 \<Rightarrow> bool" where
  "range_within_region start end region_start region_end \<longleftrightarrow>
    region_end > region_start \<and> start \<ge> region_start \<and> end \<le> region_end"

definition contains_user_range :: "address_space \<Rightarrow> u64 \<Rightarrow> nat \<Rightarrow> bool" where
  "contains_user_range a start len =
    (if len = 0 then True
     else if len > 2 ^ 64 - 1 then False
     else case checked_add start (word_of_nat len) of
       None \<Rightarrow> False
     | Some end \<Rightarrow>
         if start = 0 \<or> end \<le> start then False
         else range_within_region start end (as_stack_bottom a) (as_stack_top a)
           \<or> range_within_region start end (as_initial_brk a) (as_brk a)
           \<or> list_ex (\<lambda>s. case checked_add (ms_vaddr s) (ms_size s) of
               None \<Rightarrow> False
             | Some segment_end \<Rightarrow> range_within_region start end (ms_vaddr s) segment_end)
             (as_segments a))"

section \<open>Soundness of the pointer check\<close>

text \<open>The bytes a process may name: its stack, its heap, and the loaded segments.\<close>

definition user_byte :: "address_space \<Rightarrow> nat \<Rightarrow> bool" where
  "user_byte a n \<longleftrightarrow> 0 < n \<and> (
    (unat (as_stack_bottom a) \<le> n \<and> n < unat (as_stack_top a))
    \<or> (unat (as_initial_brk a) \<le> n \<and> n < unat (as_brk a))
    \<or> (\<exists>s \<in> set (as_segments a). unat (ms_vaddr s) \<le> n \<and> n < unat (ms_vaddr s) + unat (ms_size s)
        \<and> unat (ms_vaddr s) + unat (ms_size s) < 2 ^ 64))"

lemma range_within_region_bytes:
  assumes "range_within_region start end lo hi" and "unat start \<le> n" and "n < unat end"
  shows "unat lo \<le> n \<and> n < unat hi"
  using assms by (auto simp: range_within_region_def word_le_nat_alt)

text \<open>
  C17. A range of user memory that passes the check does not wrap around the address space, and
  every byte of it is a byte of the process's stack, of its heap, or of one of its loaded segments,
  never address zero.
\<close>

theorem contains_user_range_sound:
  assumes "contains_user_range a start len" and "i < len"
  shows "unat start + len < 2 ^ 64 \<and> user_byte a (unat start + i)"
proof -
  from assms have "len \<le> 2 ^ 64 - 1" and "len \<noteq> 0"
    by (auto simp: contains_user_range_def split: if_splits)
  then have len: "unat (word_of_nat len :: u64) = len" by (simp add: unat_of_nat)
  from assms obtain e where e: "checked_add start (word_of_nat len) = Some e" "start \<noteq> 0"
    and reg: "range_within_region start e (as_stack_bottom a) (as_stack_top a)
      \<or> range_within_region start e (as_initial_brk a) (as_brk a)
      \<or> (\<exists>s \<in> set (as_segments a). \<exists>t. checked_add (ms_vaddr s) (ms_size s) = Some t
           \<and> range_within_region start e (ms_vaddr s) t)"
    by (auto simp: contains_user_range_def list_ex_iff split: if_splits option.splits)
  from e(1) have stop: "unat e = unat start + len" by (simp add: checked_add_Some len)
  moreover have "unat e < 2 ^ LENGTH(64)" by (rule unsigned_less)
  ultimately have bound: "unat start + len < 2 ^ 64" by simp
  have pos: "0 < unat start + i" using e(2) by (simp add: unat_gt_0)
  have inside: "unat lo \<le> unat start + i \<and> unat start + i < unat hi"
    if "range_within_region start e lo hi" for lo hi
    using range_within_region_bytes [OF that] stop assms(2) by simp
  have seg: "unat (ms_vaddr s) \<le> unat start + i \<and> unat start + i < unat (ms_vaddr s) + unat (ms_size s)
      \<and> unat (ms_vaddr s) + unat (ms_size s) < 2 ^ 64"
    if "checked_add (ms_vaddr s) (ms_size s) = Some t" "range_within_region start e (ms_vaddr s) t" for t and s :: memory_segment
  proof -
    have t: "unat t = unat (ms_vaddr s) + unat (ms_size s)" using that(1) by (simp add: checked_add_Some)
    moreover have "unat t < 2 ^ LENGTH(64)" by (rule unsigned_less)
    ultimately show ?thesis using inside [OF that(2)] by simp
  qed
  from reg have "user_byte a (unat start + i)"
    unfolding user_byte_def using pos inside seg by blast
  with bound show ?thesis by blast
qed

theorem contains_user_range_sound_witness:
  "contains_user_range (address_space_new 0) 0x7FFFE000 16
   \<and> user_byte (address_space_new 0) (unat (0x7FFFE000 :: u64) + 15)"
proof -
  have "contains_user_range (address_space_new 0) 0x7FFFE000 16"
    by (simp add: contains_user_range_def address_space_new_def checked_add_def range_within_region_def
        USER_STACK_TOP_def USER_STACK_SIZE_def)
  with contains_user_range_sound [of "address_space_new 0" "0x7FFFE000" 16 15] show ?thesis by simp
qed

section \<open>The heap window\<close>

lemma align_up_and:
  fixes w :: u64
  assumes "unat w + 0xFFF < 2 ^ 64"
  shows "w \<le> (w + 0xFFF) AND NOT 0xFFF"
proof -
  have "unat (w + 0xFFF) = unat w + 0xFFF"
    using assms unat_add_no_wrap [of w "0xFFF"] by simp
  moreover have "(w + 0xFFF) AND NOT 0xFFF = (w + 0xFFF) - ((w + 0xFFF) AND 0xFFF)"
  proof -
    have "x AND NOT m = x - (x AND m)" for x m :: u64
    proof -
      have "(x AND NOT m) + (x AND m) = (x AND NOT m) OR (x AND m)"
        by (rule disjunctive_add) (simp add: bit_simps)
      also have "\<dots> = x" by (auto simp: bit_eq_iff bit_simps)
      finally show ?thesis by (simp add: algebra_simps)
    qed
    then show ?thesis by blast
  qed
  moreover have "unat ((w + 0xFFF) AND 0xFFF) \<le> 0xFFF"
  proof -
    have "(w + 0xFFF) AND 0xFFF \<le> (0xFFF :: u64)" by (rule word_and_le1)
    then show ?thesis by (simp add: word_le_nat_alt)
  qed
  moreover have "(w + 0xFFF) AND 0xFFF \<le> w + 0xFFF" by (rule word_and_le2)
  ultimately have "unat ((w + 0xFFF) AND NOT 0xFFF) \<ge> unat w"
    by (simp add: unat_sub_no_wrap)
  then show ?thesis by (simp add: word_le_nat_alt)
qed

text \<open>
  The heap of a loaded program starts at or above the default heap base and, as long as the
  segments do not wrap around the address space, at or above the end of every segment; it starts
  empty, and its limit is below both the mapping area and the stack.
\<close>

theorem heap_above_segments:
  assumes "\<forall>s \<in> set (as_segments a). unat (ms_vaddr s) + unat (ms_size s) + 0xFFF < 2 ^ 64"
  shows "USER_HEAP_BASE \<le> as_initial_brk (finalize_heap_layout a)
    \<and> (\<forall>s \<in> set (as_segments a). ms_vaddr s + ms_size s \<le> as_initial_brk (finalize_heap_layout a))
    \<and> as_brk (finalize_heap_layout a) = as_initial_brk (finalize_heap_layout a)
    \<and> as_heap_limit (finalize_heap_layout a) \<le> as_mmap_top a
    \<and> as_heap_limit (finalize_heap_layout a) \<le> as_stack_bottom a"
proof -
  have seg: "ms_vaddr s + ms_size s \<le> as_initial_brk (finalize_heap_layout a)"
    if s: "s \<in> set (as_segments a)" for s
  proof -
    let ?ends = "segment_ends a"
    let ?top = "foldl max (hd ?ends) (tl ?ends)"
    have ne: "?ends \<noteq> []" and mem: "ms_vaddr s + ms_size s \<in> set ?ends"
      using s by (auto simp: segment_ends_def)
    have le: "x \<le> ?top" if "x \<in> set ?ends" for x
      using that foldl_max_ge [of "hd ?ends" "tl ?ends"] ne by (cases ?ends) auto
    have "?top \<in> set ?ends"
      using foldl_max_in [of "hd ?ends" "tl ?ends"] ne by (cases ?ends) auto
    then obtain t where "t \<in> set (as_segments a)" and t: "?top = ms_vaddr t + ms_size t"
      by (auto simp: segment_ends_def)
    with assms have "unat ?top + 0xFFF < 2 ^ 64"
      by (auto simp: unat_add_no_wrap)
    then have "?top \<le> (?top + 0xFFF) AND NOT 0xFFF" by (rule align_up_and)
    with le [OF mem] ne show ?thesis
      by (auto simp: finalize_heap_layout_def Let_def intro: order_trans max.coboundedI1)
  qed
  then show ?thesis
    by (auto simp: finalize_heap_layout_def Let_def)
qed

theorem heap_above_segments_witness:
  "as_initial_brk (finalize_heap_layout (register_segment 0x20000000 0x1234 SEG_READ (address_space_new 0)))
    \<ge> 0x20001234"
  using heap_above_segments [of "register_segment 0x20000000 0x1234 SEG_READ (address_space_new 0)"]
  by (simp add: register_segment_def address_space_new_def)

end
