(* ===== verification/Process_Table.thy ===== *)
theory Process_Table
  imports Fd_Table Address_Space
begin

text \<open>
  Processes and the process table (\<open>kernel/src/exec/process.rs\<close>, \<open>kernel/src/exec/mod.rs\<close>). The
  table is a vector searched by process id; it provides the handle table interface.
\<close>

section \<open>Processes\<close>

datatype process_image_kind = KernelShell | ShellCommand | ShellScript | Elf

datatype process_state = Ready | Running | Blocked | Stopped | Zombie

datatype block_reason =
    IoWait u32
  | Sleep u64
  | WaitChild u32
  | QuantumJob string
  | NetworkRecv
  | PipeRead
  | InputWait

datatype priority = RealTime | System | Quantum | Interactive | Normal | Batch | Idle

primrec priority_index :: "priority \<Rightarrow> nat" where
  "priority_index RealTime = 0"
| "priority_index System = 1"
| "priority_index Quantum = 2"
| "priority_index Interactive = 3"
| "priority_index Normal = 4"
| "priority_index Batch = 5"
| "priority_index Idle = 6"

text \<open>The derived order of the source: by discriminant, so the most urgent priority is the least.\<close>

instantiation priority :: linorder
begin

definition less_eq_priority :: "priority \<Rightarrow> priority \<Rightarrow> bool" where
  "less_eq_priority a b \<longleftrightarrow> priority_index a \<le> priority_index b"

definition less_priority :: "priority \<Rightarrow> priority \<Rightarrow> bool" where
  "less_priority a b \<longleftrightarrow> priority_index a < priority_index b"

instance
proof
  fix a b :: priority
  show "a \<le> b \<Longrightarrow> b \<le> a \<Longrightarrow> a = b"
    by (cases a; cases b) (simp_all add: less_eq_priority_def)
qed (auto simp: less_eq_priority_def less_priority_def)

end

lemma priority_index_less: "priority_index p < 7"
  by (cases p) simp_all

record cpu_context =
  cx_rax :: u64
  cx_rbx :: u64
  cx_rcx :: u64
  cx_rdx :: u64
  cx_rsi :: u64
  cx_rdi :: u64
  cx_rbp :: u64
  cx_rsp :: u64
  cx_r8 :: u64
  cx_r9 :: u64
  cx_r10 :: u64
  cx_r11 :: u64
  cx_r12 :: u64
  cx_r13 :: u64
  cx_r14 :: u64
  cx_r15 :: u64
  cx_rip :: u64
  cx_rflags :: u64
  cx_cs :: u64
  cx_ss :: u64
  cx_cr3 :: u64
  cx_fpu_state :: "u8 list"
  cx_fpu_valid :: bool

definition cpu_context_new :: cpu_context where
  "cpu_context_new =
    \<lparr>cx_rax = 0, cx_rbx = 0, cx_rcx = 0, cx_rdx = 0, cx_rsi = 0, cx_rdi = 0, cx_rbp = 0,
     cx_rsp = 0, cx_r8 = 0, cx_r9 = 0, cx_r10 = 0, cx_r11 = 0, cx_r12 = 0, cx_r13 = 0,
     cx_r14 = 0, cx_r15 = 0, cx_rip = 0, cx_rflags = 0x202, cx_cs = 0x23, cx_ss = 0x1B,
     cx_cr3 = 0, cx_fpu_state = replicate 512 0, cx_fpu_valid = False\<rparr>"

definition cpu_context_for_user :: "u64 \<Rightarrow> u64 \<Rightarrow> u64 \<Rightarrow> cpu_context" where
  "cpu_context_for_user entry_point stack_top page_table =
    cpu_context_new\<lparr>cx_rip := entry_point, cx_rsp := stack_top, cx_cr3 := page_table\<rparr>"

type_synonym capabilities = u64

record process =
  pr_pid :: u32
  pr_parent_pid :: u32
  pr_name :: string
  pr_uid :: u16
  pr_state :: process_state
  pr_context :: cpu_context
  pr_exit_code :: "i32 option"
  pr_page_table_phys :: u64
  pr_address_space :: address_space
  pr_kernel_stack :: "u8 list"
  pr_kernel_stack_top :: u64
  pr_fd_table :: fd_table
  pr_cwd :: string
  pr_env :: "(string \<times> string) list"
  pr_quantum_registers :: "u32 list"
  pr_crypto_keys :: "u32 list"
  pr_priority :: priority
  pr_cpu_ticks :: u64
  pr_time_slice :: u64
  pr_created_at :: u64
  pr_blocked_on :: "block_reason option"
  pr_syscall_count :: u64
  pr_page_fault_count :: u64
  pr_memory_pages :: nat
  pr_task_id :: "u64 option"
  pr_image_kind :: process_image_kind
  pr_image_path :: string
  pr_effective_capabilities :: capabilities

section \<open>The table\<close>

datatype exec_error =
    TooSmall
  | NotElf
  | Not64Bit
  | NotLittleEndian
  | WrongArchitecture
  | NotExecutable
  | InvalidProgramHeader
  | SegmentOverflow
  | NoLoadableSegments
  | MemoryAllocationFailed
  | PageTableError
  | ExecFileNotFound
  | ExecPermissionDenied
  | ProcessTableFull
  | InvalidSyscall
  | ProcessNotFound
  | LoadFailed

record process_table =
  pt_processes :: "process list"
  pt_next_pid :: u32
  pt_shell_pid :: "u32 option"

definition process_table_new :: process_table where
  "process_table_new = \<lparr>pt_processes = [], pt_next_pid = 1, pt_shell_pid = None\<rparr>"

definition create_process :: "process \<Rightarrow> process_table \<Rightarrow> (exec_error + u32) \<times> process_table" where
  "create_process process t =
    (if length (pt_processes t) \<ge> 256 then (Err ProcessTableFull, t)
     else
       let pid = pt_next_pid t
       in (Ok pid, t\<lparr>pt_next_pid := sat_add pid 1,
            pt_processes := pt_processes t @ [process\<lparr>pr_pid := pid\<rparr>]\<rparr>))"

definition pt_get :: "u32 \<Rightarrow> process_table \<Rightarrow> process option" where
  "pt_get pid t = find (\<lambda>p. pr_pid p = pid) (pt_processes t)"

definition pt_get_mut :: "u32 \<Rightarrow> (process \<Rightarrow> process) \<Rightarrow> process_table \<Rightarrow> process_table" where
  "pt_get_mut pid f t = t\<lparr>pt_processes := update_first (\<lambda>p. pr_pid p = pid) f (pt_processes t)\<rparr>"

definition pt_remove :: "u32 \<Rightarrow> process_table \<Rightarrow> process_table" where
  "pt_remove pid t = t\<lparr>pt_processes := filter (\<lambda>p. pr_pid p \<noteq> pid) (pt_processes t)\<rparr>"

definition list_active :: "process_table \<Rightarrow> process list" where
  "list_active t = filter (\<lambda>p. pr_state p \<noteq> Zombie) (pt_processes t)"

definition find_zombie_child :: "u32 \<Rightarrow> i32 \<Rightarrow> process_table \<Rightarrow> (u32 \<times> i32) option" where
  "find_zombie_child parent_pid target_pid t =
    map_option (\<lambda>p. (pr_pid p, case pr_exit_code p of None \<Rightarrow> 0 | Some c \<Rightarrow> c))
      (find (\<lambda>p. pr_parent_pid p = parent_pid \<and> pr_state p = Zombie
        \<and> (target_pid = - 1 \<or> pr_pid p = target_pid)) (pt_processes t))"

section \<open>The contract\<close>

definition pt_wf :: "process_table \<Rightarrow> bool" where
  "pt_wf t \<longleftrightarrow> length (pt_processes t) \<le> 256 \<and> distinct (map pr_pid (pt_processes t))
    \<and> list_all (\<lambda>p. 0 < pr_pid p \<and> pr_pid p < pt_next_pid t) (pt_processes t) \<and> 0 < pt_next_pid t"

definition pt_room :: "process_table \<Rightarrow> bool" where
  "pt_room t \<longleftrightarrow> pt_next_pid t \<noteq> - 1"

lemma pt_wf_new [waros_inv]: "pt_wf process_table_new"
  by (simp add: pt_wf_def process_table_new_def)

lemma u32_succ:
  fixes w :: u32
  assumes "w \<noteq> - 1"
  shows "sat_add w 1 = w + 1" and "w < w + 1" and "v < w \<Longrightarrow> v < w + 1"
proof -
  have "unat (- 1 :: u32) = 2 ^ 32 - 1" by (simp add: unsigned_minus_1_eq_mask mask_eq_exp_minus_1)
  then have "unat w \<noteq> 2 ^ 32 - 1" using assms by (metis word_unat_eq_iff)
  moreover have "unat w < 2 ^ LENGTH(32)" by (rule unsigned_less)
  ultimately have lt: "unat w + 1 < 2 ^ 32" by simp
  then show "sat_add w 1 = w + 1" by (simp add: sat_add_def)
  have "unat (w + 1) = unat w + 1" using lt unat_add_no_wrap [of w 1] by simp
  then show "w < w + 1" and "v < w \<Longrightarrow> v < w + 1" by (simp_all add: word_less_nat_alt)
qed

lemma create_process_wf [waros_inv]:
  assumes "pt_wf t" and "pt_room t"
  shows "pt_wf (snd (create_process p t))"
proof (cases "length (pt_processes t) \<ge> 256")
  case False
  have "pt_next_pid t \<notin> pr_pid ` set (pt_processes t)"
    using assms by (auto simp: pt_wf_def list_all_iff)
  with False assms u32_succ [of "pt_next_pid t"] show ?thesis
    by (auto simp: pt_wf_def pt_room_def create_process_def Let_def list_all_iff intro: order.strict_trans)
qed (use assms in \<open>simp add: create_process_def\<close>)

lemma pt_get_create:
  assumes "pt_wf t" and "create_process p t = (Ok pid, t')"
  shows "pid = pt_next_pid t \<and> pt_get pid t = None \<and>
    pt_get k t' = (if k = pid then Some (p\<lparr>pr_pid := pid\<rparr>) else pt_get k t)"
proof -
  from assms(2) have pid: "pid = pt_next_pid t"
    and ps: "pt_processes t' = pt_processes t @ [p\<lparr>pr_pid := pid\<rparr>]"
    by (auto simp: create_process_def Let_def split: if_splits)
  have none: "pt_get pid t = None"
    using assms(1) pid unfolding pt_get_def find_key_None by (auto simp: pt_wf_def list_all_iff)
  then show ?thesis using pid ps by (auto simp: pt_get_def find_append split: option.splits)
qed

lemma pt_get_remove: "pt_get k (pt_remove pid t) = (if k = pid then None else pt_get k t)"
  by (simp add: pt_get_def pt_remove_def find_filter_key_other find_filter_key_same)

lemma pt_remove_wf [waros_inv]: "pt_wf t \<Longrightarrow> pt_wf (pt_remove pid t)"
  by (auto simp: pt_wf_def pt_remove_def list_all_iff distinct_map_filter
      intro: le_trans [OF length_filter_le])

lemma pt_get_mut_wf [waros_inv]:
  assumes "pt_wf t" and "\<And>p. pr_pid (f p) = pr_pid p"
  shows "pt_wf (pt_get_mut pid f t)"
proof -
  let ?ps = "update_first (\<lambda>p. pr_pid p = pid) f (pt_processes t)"
  have maps: "map pr_pid ?ps = map pr_pid (pt_processes t)"
    using assms(2) by (simp add: map_update_first_same)
  then have "set (map pr_pid ?ps) = set (map pr_pid (pt_processes t))" by simp
  then have "pr_pid ` set ?ps = pr_pid ` set (pt_processes t)" by simp
  moreover have "0 < q \<and> q < pt_next_pid t" if "q \<in> pr_pid ` set (pt_processes t)" for q
    using that assms(1) by (auto simp: pt_wf_def list_all_iff)
  ultimately have "\<forall>p \<in> set ?ps. 0 < pr_pid p \<and> pr_pid p < pt_next_pid t" by blast
  with assms(1) maps show ?thesis by (simp add: pt_wf_def pt_get_mut_def list_all_iff)
qed

lemma pt_get_get_mut:
  assumes "\<And>p. pr_pid (f p) = pr_pid p"
  shows "pt_get k (pt_get_mut pid f t) = (if k = pid then map_option f (pt_get pid t) else pt_get k t)"
  using assms
  by (auto simp: pt_get_def pt_get_mut_def find_update_first_same find_update_first_other)

interpretation procs: handle_table pt_wf pt_room pt_get "\<lambda>pid p. p\<lparr>pr_pid := pid\<rparr>"
  "\<lambda>p t. case create_process p t of (Inr pid, t') \<Rightarrow> Some (pid, t') | _ \<Rightarrow> None" pt_remove
proof
  fix t t' :: process_table and p h k
  assume t: "pt_wf t" "pt_room t"
    "(case create_process p t of (Inr pid, t') \<Rightarrow> Some (pid, t') | _ \<Rightarrow> None) = Some (h, t')"
  then have c: "create_process p t = (Ok h, t')" by (auto split: prod.splits sum.splits)
  show "pt_wf t'" using create_process_wf [OF t(1,2), of p] c by simp
  show "pt_get h t = None" using pt_get_create [OF t(1) c] by blast
  show "pt_get k t' = (if k = h then Some (p\<lparr>pr_pid := h\<rparr>) else pt_get k t)"
    using pt_get_create [OF t(1) c] by simp
qed (simp_all add: waros_inv pt_get_remove)

section \<open>Life of a process id\<close>

text \<open>
  Process ids. Until the 32-bit counter is exhausted, a created process gets an id that no
  process of the table has, ids stay positive and distinct, at most 256 processes exist, the new
  process is found under its id with every other entry untouched, and a full table refuses without
  a change.
\<close>

theorem create_process_fresh:
  assumes "pt_wf t" and "pt_room t"
  shows "pt_wf (snd (create_process p t))
    \<and> (\<forall>pid. fst (create_process p t) = Ok pid \<longrightarrow> pt_get pid t = None \<and>
        (\<forall>k. pt_get k (snd (create_process p t)) = (if k = pid then Some (p\<lparr>pr_pid := pid\<rparr>) else pt_get k t)))
    \<and> (\<forall>e. fst (create_process p t) = Err e \<longrightarrow>
        length (pt_processes t) = 256 \<and> snd (create_process p t) = t)"
proof (intro conjI allI impI)
  show "pt_wf (snd (create_process p t))" using assms by (rule create_process_wf)
  fix pid
  assume "fst (create_process p t) = Ok pid"
  then have c: "create_process p t = (Ok pid, snd (create_process p t))" by (metis prod.collapse)
  show "pt_get pid t = None" using pt_get_create [OF assms(1) c] by blast
  show "pt_get k (snd (create_process p t)) = (if k = pid then Some (p\<lparr>pr_pid := pid\<rparr>) else pt_get k t)" for k
    using pt_get_create [OF assms(1) c] by blast
next
  fix e
  assume "fst (create_process p t) = Err e"
  then show "length (pt_processes t) = 256" and "snd (create_process p t) = t"
    using assms(1) by (auto simp: create_process_def pt_wf_def Let_def split: if_splits)
qed

text \<open>A process with nothing loaded, for concrete examples.\<close>

definition sample_process :: process where
  "sample_process =
    \<lparr>pr_pid = 0, pr_parent_pid = 0, pr_name = ''sample'', pr_uid = 1, pr_state = Ready,
     pr_context = cpu_context_new, pr_exit_code = None, pr_page_table_phys = 0,
     pr_address_space = address_space_new 0, pr_kernel_stack = [], pr_kernel_stack_top = 0x9000,
     pr_fd_table = new_with_stdio, pr_cwd = ''/'', pr_env = [], pr_quantum_registers = [],
     pr_crypto_keys = [], pr_priority = Normal, pr_cpu_ticks = 0, pr_time_slice = 10,
     pr_created_at = 0, pr_blocked_on = None, pr_syscall_count = 0, pr_page_fault_count = 0,
     pr_memory_pages = 0, pr_task_id = None, pr_image_kind = Elf, pr_image_path = ''/bin/sample'',
     pr_effective_capabilities = 0\<rparr>"

definition sample_table :: process_table where
  "sample_table = snd (create_process sample_process (snd (create_process sample_process process_table_new)))"

lemma sample_table_eq:
  "sample_table = \<lparr>pt_processes = [sample_process\<lparr>pr_pid := 1\<rparr>, sample_process\<lparr>pr_pid := 2\<rparr>],
     pt_next_pid = 3, pt_shell_pid = None\<rparr>"
  by (simp add: sample_table_def create_process_def process_table_new_def Let_def sat_add_def)

lemma sample_table_wf: "pt_wf sample_table" "pt_room sample_table"
  by (simp_all add: sample_table_eq pt_wf_def pt_room_def)

theorem create_process_fresh_witness:
  "fst (create_process sample_process sample_table) = Ok 3 \<and> pt_get 3 sample_table = None
   \<and> pt_wf (snd (create_process sample_process sample_table))"
proof -
  have "fst (create_process sample_process sample_table) = Ok 3"
    by (simp add: create_process_def sample_table_eq Let_def)
  with create_process_fresh [OF sample_table_wf, of sample_process] show ?thesis by blast
qed

end
