(* ===== verification/Scheduler.thy ===== *)
theory Scheduler
  imports Process_Table
begin

text \<open>
  The process scheduler (\<open>kernel/src/exec/scheduler.rs\<close>, \<open>context.rs\<close>): seven run queues, one per
  priority, the time slices, and the timer tick.

  The tick runs in interrupt context and takes the process table with \<open>try_lock\<close>; \<open>tick_locks\<close> says
  which of its three attempts succeed. \<open>sv_kernel_stack\<close> is the stack top that \<open>activate_process\<close>
  installs in the task state segment and for system calls; \<open>boot\<close> is the kernel's own.
\<close>

definition DEFAULT_TIME_SLICE :: u64 where
  "DEFAULT_TIME_SLICE = 10"

definition QUANTUM_TIME_SLICE :: u64 where
  "QUANTUM_TIME_SLICE = 50"

text \<open>
  A queue created with \<open>VecDeque::with_capacity(256)\<close> holds at least that many; the capacity the
  allocator gave is \<open>sc_capacity\<close>.
\<close>

record scheduler =
  sc_run_queues :: "u32 list list"
  sc_current_pid :: "u32 option"
  sc_idle_pid :: u32
  sc_context_switch_count :: u64
  sc_enabled :: bool
  sc_capacity :: nat

record sched_view =
  sv_sched :: scheduler
  sv_procs :: process_table
  sv_kernel_stack :: u64

record tick_locks =
  tl_account :: bool
  tl_activate :: bool
  tl_select :: bool

definition scheduler_new :: "nat \<Rightarrow> scheduler" where
  "scheduler_new capacity =
    \<lparr>sc_run_queues = replicate 7 [], sc_current_pid = None, sc_idle_pid = 0,
     sc_context_switch_count = 0, sc_enabled = False, sc_capacity = capacity\<rparr>"

definition scheduler_enable :: "scheduler \<Rightarrow> scheduler" where
  "scheduler_enable s = s\<lparr>sc_enabled := True\<rparr>"

definition scheduler_disable :: "scheduler \<Rightarrow> scheduler" where
  "scheduler_disable s = s\<lparr>sc_enabled := False\<rparr>"

primrec time_slice_for :: "priority \<Rightarrow> u64" where
  "time_slice_for RealTime = 100"
| "time_slice_for System = 50"
| "time_slice_for Quantum = QUANTUM_TIME_SLICE"
| "time_slice_for Interactive = 20"
| "time_slice_for Normal = DEFAULT_TIME_SLICE"
| "time_slice_for Batch = 5"
| "time_slice_for Idle = 1"

definition sched_enqueue :: "u32 \<Rightarrow> priority \<Rightarrow> scheduler \<Rightarrow> scheduler" where
  "sched_enqueue pid priority s =
    (let queue_index = priority_index priority in
     if queue_index \<ge> length (sc_run_queues s) then s
     else
       let queue = sc_run_queues s ! queue_index in
       if pid \<in> set queue then s
       else if length queue < sc_capacity s
       then s\<lparr>sc_run_queues := (sc_run_queues s)[queue_index := queue @ [pid]]\<rparr>
       else s)"

definition sched_dequeue :: "u32 \<Rightarrow> scheduler \<Rightarrow> scheduler" where
  "sched_dequeue pid s =
    s\<lparr>sc_run_queues := map (filter (\<lambda>candidate. candidate \<noteq> pid)) (sc_run_queues s),
      sc_current_pid := (if sc_current_pid s = Some pid then None else sc_current_pid s)\<rparr>"

definition activate_process :: "u64 \<Rightarrow> bool \<Rightarrow> u32 option \<Rightarrow> sched_view \<Rightarrow> sched_view" where
  "activate_process boot locked pid v =
    (case pid of
       None \<Rightarrow> v\<lparr>sv_kernel_stack := boot\<rparr>
     | Some pid \<Rightarrow>
         if locked then
           (case pt_get pid (sv_procs v) of
              Some process \<Rightarrow> v\<lparr>sv_kernel_stack := pr_kernel_stack_top process\<rparr>
            | None \<Rightarrow> v)
         else v)"

definition set_current_pid :: "u64 \<Rightarrow> bool \<Rightarrow> u32 option \<Rightarrow> sched_view \<Rightarrow> sched_view" where
  "set_current_pid boot locked pid v =
    (if sc_current_pid (sv_sched v) \<noteq> pid
     then activate_process boot locked pid
       (v\<lparr>sv_sched := (sv_sched v)\<lparr>sc_context_switch_count := sat_add (sc_context_switch_count (sv_sched v)) 1,
          sc_current_pid := pid\<rparr>\<rparr>)
     else v)"

text \<open>The first queue with an entry gives up its front; the others stay as they are.\<close>

fun pop_queues :: "u32 list list \<Rightarrow> (u32 \<times> u32 list list) option" where
  "pop_queues [] = None"
| "pop_queues ((pid # queue) # queues) = Some (pid, queue # queues)"
| "pop_queues ([] # queues) =
    (case pop_queues queues of None \<Rightarrow> None | Some (pid, queues') \<Rightarrow> Some (pid, [] # queues'))"

definition select_next :: "u64 \<Rightarrow> tick_locks \<Rightarrow> sched_view \<Rightarrow> sched_view" where
  "select_next boot locks v =
    (case pop_queues (sc_run_queues (sv_sched v)) of
       Some (pid, queues) \<Rightarrow>
         let v1 = set_current_pid boot (tl_activate locks) (Some pid)
               (v\<lparr>sv_sched := (sv_sched v)\<lparr>sc_run_queues := queues\<rparr>\<rparr>)
         in (if tl_select locks
             then v1\<lparr>sv_procs := pt_get_mut pid (\<lambda>p. p\<lparr>pr_state := Running\<rparr>) (sv_procs v1)\<rparr>
             else v1)
     | None \<Rightarrow>
         if sc_current_pid (sv_sched v) = None \<and> sc_idle_pid (sv_sched v) \<noteq> 0
         then set_current_pid boot (tl_activate locks) (Some (sc_idle_pid (sv_sched v))) v
         else v)"

definition account_tick :: "u32 \<Rightarrow> sched_view \<Rightarrow> sched_view" where
  "account_tick pid v =
    (case pt_get pid (sv_procs v) of
       None \<Rightarrow> v
     | Some process \<Rightarrow>
         let slice = sat_sub (pr_time_slice process) 1;
             procs = pt_get_mut pid (\<lambda>p. p\<lparr>pr_cpu_ticks := sat_add (pr_cpu_ticks p) 1,
               pr_time_slice := slice\<rparr>) (sv_procs v)
         in if slice = 0
            then v\<lparr>sv_procs := pt_get_mut pid (\<lambda>p. p\<lparr>pr_state := Ready,
                     pr_time_slice := time_slice_for (pr_priority p)\<rparr>) procs,
                   sv_sched := sched_enqueue pid (pr_priority process) (sv_sched v)\<rparr>
            else v\<lparr>sv_procs := procs\<rparr>)"

definition timer_tick :: "u64 \<Rightarrow> tick_locks \<Rightarrow> sched_view \<Rightarrow> sched_view" where
  "timer_tick boot locks v =
    (if \<not> sc_enabled (sv_sched v) then v
     else
       let v1 = (case sc_current_pid (sv_sched v) of
             None \<Rightarrow> v
           | Some pid \<Rightarrow> if tl_account locks then account_tick pid v else v)
       in select_next boot locks v1)"

section \<open>Queue discipline\<close>

definition queues_wf :: "scheduler \<Rightarrow> bool" where
  "queues_wf s \<longleftrightarrow> length (sc_run_queues s) = 7
    \<and> list_all (\<lambda>q. distinct q \<and> length q \<le> sc_capacity s) (sc_run_queues s)"

lemma queues_wf_new [waros_inv]: "queues_wf (scheduler_new capacity)"
  by (simp add: queues_wf_def scheduler_new_def list_all_iff)

lemma sched_enqueue_wf [waros_inv]: "queues_wf s \<Longrightarrow> queues_wf (sched_enqueue pid p s)"
  by (auto simp: queues_wf_def sched_enqueue_def Let_def list_all_length nth_list_update)

lemma sched_dequeue_wf [waros_inv]: "queues_wf s \<Longrightarrow> queues_wf (sched_dequeue pid s)"
  by (auto simp: queues_wf_def sched_dequeue_def list_all_iff intro: le_trans [OF length_filter_le])

lemma pop_queues_Some:
  assumes "pop_queues qs = Some (pid, qs')"
  shows "\<exists>i < length qs. (\<forall>j < i. qs ! j = []) \<and> qs ! i = pid # tl (qs ! i) \<and> qs' = qs[i := tl (qs ! i)]"
  using assms
proof (induction qs arbitrary: pid qs' rule: pop_queues.induct)
  case (2 p q qs)
  then show ?case by (intro exI [of _ 0]) simp
next
  case (3 qs)
  then obtain ps where "pop_queues qs = Some (pid, ps)" and qs': "qs' = [] # ps"
    by (auto split: option.splits)
  then obtain i where "i < length qs" "\<forall>j < i. qs ! j = []" "qs ! i = pid # tl (qs ! i)"
    "ps = qs[i := tl (qs ! i)]"
    using 3 by blast
  with qs' show ?case
    by (intro exI [of _ "Suc i"]) (auto simp: nth_Cons split: nat.splits)
qed simp

lemma pop_queues_None: "pop_queues qs = None \<longleftrightarrow> (\<forall>q \<in> set qs. q = [])"
  by (induction qs rule: pop_queues.induct) (auto split: option.splits)

lemma pop_queues_wf:
  assumes "list_all (\<lambda>q. distinct q \<and> length q \<le> n) qs" and "pop_queues qs = Some (pid, qs')"
  shows "length qs' = length qs \<and> list_all (\<lambda>q. distinct q \<and> length q \<le> n) qs'"
proof -
  obtain i where i: "i < length qs" "qs' = qs[i := tl (qs ! i)]"
    using pop_queues_Some [OF assms(2)] by blast
  have "distinct (qs ! i) \<and> length (qs ! i) \<le> n" using assms(1) i(1) by (simp add: list_all_length)
  then have "distinct (tl (qs ! i)) \<and> length (tl (qs ! i)) \<le> n" by (auto simp: distinct_tl)
  with assms(1) i show ?thesis by (auto simp: list_all_length nth_list_update)
qed

lemma activate_process_frame [simp]:
  "sv_sched (activate_process boot locked pid v) = sv_sched v"
  "sv_procs (activate_process boot locked pid v) = sv_procs v"
  by (simp_all add: activate_process_def split: option.splits)

lemma set_current_pid_frame [simp]:
  "sc_run_queues (sv_sched (set_current_pid boot locked pid v)) = sc_run_queues (sv_sched v)"
  "sc_current_pid (sv_sched (set_current_pid boot locked pid v)) = pid"
  "sc_capacity (sv_sched (set_current_pid boot locked pid v)) = sc_capacity (sv_sched v)"
  "sv_procs (set_current_pid boot locked pid v) = sv_procs v"
  by (simp_all add: set_current_pid_def)

lemma select_next_wf [waros_inv]:
  assumes "queues_wf (sv_sched v)"
  shows "queues_wf (sv_sched (select_next boot locks v))"
  using assms pop_queues_wf [of "sc_capacity (sv_sched v)" "sc_run_queues (sv_sched v)"]
  by (auto simp: select_next_def queues_wf_def Let_def split: option.splits prod.splits)

lemma account_tick_wf [waros_inv]:
  "queues_wf (sv_sched v) \<Longrightarrow> queues_wf (sv_sched (account_tick pid v))"
  by (auto simp: account_tick_def Let_def waros_inv split: option.splits)

text \<open>
  The queues a tick chooses from: the running process goes to the end of the queue of its priority when
  the tick uses up its slice, unless it waits there already or the queue is full.
\<close>

definition requeued :: "tick_locks \<Rightarrow> sched_view \<Rightarrow> u32 list list" where
  "requeued locks v =
    (let qs = sc_run_queues (sv_sched v) in
     case sc_current_pid (sv_sched v) of
       None \<Rightarrow> qs
     | Some pid \<Rightarrow>
         (case pt_get pid (sv_procs v) of
            None \<Rightarrow> qs
          | Some p \<Rightarrow>
              let i = priority_index (pr_priority p) in
              if tl_account locks \<and> pr_time_slice p \<le> 1 \<and> pid \<notin> set (qs ! i) \<and> length (qs ! i) < sc_capacity (sv_sched v)
              then qs[i := qs ! i @ [pid]] else qs))"

definition accounted :: "tick_locks \<Rightarrow> sched_view \<Rightarrow> sched_view" where
  "accounted locks v = (case sc_current_pid (sv_sched v) of
     None \<Rightarrow> v | Some pid \<Rightarrow> if tl_account locks then account_tick pid v else v)"

lemma slice_used_up: "sat_sub x 1 = 0 \<longleftrightarrow> x \<le> (1 :: u64)"
proof -
  have "sat_sub x 1 = 0 \<longleftrightarrow> unat (sat_sub x 1) = 0" by (rule unsigned_eq_0_iff [symmetric])
  then show ?thesis by (simp add: unat_sat_sub word_le_nat_alt)
qed

lemma accounted_frame:
  assumes "length (sc_run_queues (sv_sched v)) = 7"
  shows "sc_run_queues (sv_sched (accounted locks v)) = requeued locks v"
    and "sc_current_pid (sv_sched (accounted locks v)) = sc_current_pid (sv_sched v)"
    and "sc_idle_pid (sv_sched (accounted locks v)) = sc_idle_pid (sv_sched v)"
  using assms
  by (auto simp: accounted_def requeued_def account_tick_def sched_enqueue_def slice_used_up Let_def
      priority_index_less not_le [THEN iffD2, OF priority_index_less] split: option.splits)

text \<open>
  C24. The run queues. A timer tick keeps the seven queues within their capacity and free of
  duplicates, whichever of its locks it gets, and does nothing when the scheduler is off. The process
  a tick makes current is the front of the first non-empty queue, after the running process was put
  back if its slice ended; that process leaves its queue and the other queues stay. When all queues
  are empty the running process stays, and the idle process runs when there was none.
\<close>

theorem timer_tick_queues:
  fixes boot locks v
  assumes "queues_wf (sv_sched v)"
  defines "v' \<equiv> timer_tick boot locks v"
  shows "queues_wf (sv_sched v')
    \<and> (\<not> sc_enabled (sv_sched v) \<longrightarrow> v' = v)
    \<and> (sc_enabled (sv_sched v) \<and> (\<forall>q \<in> set (requeued locks v). q = []) \<longrightarrow>
        sc_run_queues (sv_sched v') = requeued locks v
        \<and> sc_current_pid (sv_sched v') =
          (if sc_current_pid (sv_sched v) = None \<and> sc_idle_pid (sv_sched v) \<noteq> 0
           then Some (sc_idle_pid (sv_sched v)) else sc_current_pid (sv_sched v)))
    \<and> (sc_enabled (sv_sched v) \<and> (\<exists>q \<in> set (requeued locks v). q \<noteq> []) \<longrightarrow>
        (\<exists>i < 7. \<exists>pid. requeued locks v ! i = pid # sc_run_queues (sv_sched v') ! i
          \<and> sc_current_pid (sv_sched v') = Some pid
          \<and> (\<forall>j < i. requeued locks v ! j = [])
          \<and> (\<forall>j < 7. j \<noteq> i \<longrightarrow> sc_run_queues (sv_sched v') ! j = requeued locks v ! j)))"
proof (intro conjI impI)
  show "queues_wf (sv_sched v')"
    using assms(1) by (auto simp: v'_def timer_tick_def Let_def waros_inv split: option.splits)
  show "v' = v" if "\<not> sc_enabled (sv_sched v)" using that by (simp add: v'_def timer_tick_def)
  have len: "length (sc_run_queues (sv_sched v)) = 7" using assms(1) by (simp add: queues_wf_def)
  note fr = accounted_frame [OF len, of locks]
  have len': "length (requeued locks v) = 7" using len by (auto simp: requeued_def Let_def split: option.splits)
  have tick: "v' = select_next boot locks (accounted locks v)" if "sc_enabled (sv_sched v)"
    using that by (simp add: v'_def timer_tick_def accounted_def Let_def)
  {
    assume en: "sc_enabled (sv_sched v) \<and> (\<forall>q \<in> set (requeued locks v). q = [])"
    then have "pop_queues (sc_run_queues (sv_sched (accounted locks v))) = None" by (simp add: fr pop_queues_None)
    then show "sc_run_queues (sv_sched v') = requeued locks v" "sc_current_pid (sv_sched v') =
        (if sc_current_pid (sv_sched v) = None \<and> sc_idle_pid (sv_sched v) \<noteq> 0
         then Some (sc_idle_pid (sv_sched v)) else sc_current_pid (sv_sched v))"
      using en by (simp_all add: tick select_next_def fr)
  }
  assume en: "sc_enabled (sv_sched v) \<and> (\<exists>q \<in> set (requeued locks v). q \<noteq> [])"
  then obtain pid qs where pop: "pop_queues (requeued locks v) = Some (pid, qs)"
    using pop_queues_None [of "requeued locks v"] by (cases "pop_queues (requeued locks v)") auto
  then have "sc_run_queues (sv_sched v') = qs" "sc_current_pid (sv_sched v') = Some pid"
    using en by (simp_all add: tick select_next_def fr Let_def)
  with pop_queues_Some [OF pop] len'
  show "\<exists>i < 7. \<exists>pid. requeued locks v ! i = pid # sc_run_queues (sv_sched v') ! i
      \<and> sc_current_pid (sv_sched v') = Some pid \<and> (\<forall>j < i. requeued locks v ! j = [])
      \<and> (\<forall>j < 7. j \<noteq> i \<longrightarrow> sc_run_queues (sv_sched v') ! j = requeued locks v ! j)"
    by (metis nth_list_update_eq nth_list_update_neq)
qed

section \<open>Preemption\<close>

definition is_queued :: "u32 \<Rightarrow> scheduler \<Rightarrow> bool" where
  "is_queued pid s \<longleftrightarrow> (\<exists>q \<in> set (sc_run_queues s). pid \<in> set q)"

text \<open>
  C23. Preemption loses the running process. A tick puts the running process back into its queue
  only when its time slice runs out, but takes the next process from the queues on every tick. A
  process that still has slice left is therefore replaced by any waiting process and is afterwards
  neither current nor in a run queue: nothing will schedule it again.
\<close>

theorem timer_tick_drops_running:
  assumes "sc_enabled (sv_sched v)" and "sc_current_pid (sv_sched v) = Some pid"
    and "pt_get pid (sv_procs v) = Some p" and "pr_time_slice p > 1"
    and "\<not> is_queued pid (sv_sched v)"
    and "pop_queues (sc_run_queues (sv_sched v)) = Some (nxt, qs)"
  shows "sc_current_pid (sv_sched (timer_tick boot locks v)) = Some nxt \<and> nxt \<noteq> pid
    \<and> \<not> is_queued pid (sv_sched (timer_tick boot locks v))"
proof -
  have slice: "sat_sub (pr_time_slice p) 1 \<noteq> 0"
    using assms(4) unat_sat_sub [of "pr_time_slice p" 1]
    by (auto simp: word_less_nat_alt)
  let ?v1 = "if tl_account locks then account_tick pid v else v"
  have same: "sv_sched ?v1 = sv_sched v"
    using assms(3) slice by (simp add: account_tick_def Let_def)
  have tick: "timer_tick boot locks v = select_next boot locks ?v1"
    using assms(1,2) by (simp add: timer_tick_def)
  obtain i where i: "i < length (sc_run_queues (sv_sched v))"
    "sc_run_queues (sv_sched v) ! i = nxt # tl (sc_run_queues (sv_sched v) ! i)"
    "qs = (sc_run_queues (sv_sched v))[i := tl (sc_run_queues (sv_sched v) ! i)]"
    using pop_queues_Some [OF assms(6)] by blast
  have "nxt \<in> set (sc_run_queues (sv_sched v) ! i)" by (subst i(2)) simp
  moreover have "sc_run_queues (sv_sched v) ! i \<in> set (sc_run_queues (sv_sched v))" using i(1) by simp
  ultimately have "nxt \<noteq> pid" using assms(5) by (auto simp: is_queued_def)
  have "pid \<notin> set q" if "q \<in> set qs" for q
  proof -
    have "q \<in> set (sc_run_queues (sv_sched v)) \<or> q = tl (sc_run_queues (sv_sched v) ! i)"
      using that set_update_subset_insert [of "sc_run_queues (sv_sched v)" i] unfolding i(3) by blast
    then obtain q' where "q' \<in> set (sc_run_queues (sv_sched v))" "set q \<subseteq> set q'"
      using i(1) by (metis (no_types, lifting) i(2) nth_mem order_refl set_subset_Cons)
    then show ?thesis using assms(5) by (auto simp: is_queued_def)
  qed
  moreover have "sc_run_queues (sv_sched (timer_tick boot locks v)) = qs"
    "sc_current_pid (sv_sched (timer_tick boot locks v)) = Some nxt"
    using assms(6) same unfolding tick by (simp_all add: select_next_def Let_def)
  ultimately show ?thesis using \<open>nxt \<noteq> pid\<close> by (simp add: is_queued_def)
qed

text \<open>Process 1 runs with slice left, process 2 waits.\<close>

definition sample_view :: sched_view where
  "sample_view = \<lparr>sv_sched = (scheduler_enable (sched_enqueue 2 Normal (scheduler_new 256)))\<lparr>sc_current_pid := Some 1\<rparr>,
     sv_procs = sample_table, sv_kernel_stack = 0\<rparr>"

definition all_locks :: tick_locks where
  "all_locks = \<lparr>tl_account = True, tl_activate = True, tl_select = True\<rparr>"

lemma sample_view_queues: "sc_run_queues (sv_sched sample_view) = [[], [], [], [], [2], [], []]"
  by (simp add: sample_view_def scheduler_enable_def sched_enqueue_def scheduler_new_def Let_def
      numeral_eq_Suc)

theorem timer_tick_queues_witness:
  "queues_wf (sv_sched sample_view) \<and> sc_current_pid (sv_sched (timer_tick 0 all_locks sample_view)) = Some 2"
proof -
  have wf: "queues_wf (sv_sched sample_view)"
    using queues_wf_new [of 256] sched_enqueue_wf [of "scheduler_new 256" 2 Normal]
    by (simp add: sample_view_def scheduler_enable_def queues_wf_def)
  have "sc_current_pid (sv_sched sample_view) = Some 1" "sc_enabled (sv_sched sample_view)"
    "pt_get 1 (sv_procs sample_view) = Some (sample_process\<lparr>pr_pid := 1\<rparr>)"
    by (simp_all add: sample_view_def scheduler_enable_def pt_get_def sample_table_eq)
  moreover from this have q: "requeued all_locks sample_view = [[], [], [], [], [2], [], []]"
    by (simp add: requeued_def sample_view_queues sample_process_def word_le_nat_alt Let_def)
  ultimately obtain i pid where i: "i < 7" "requeued all_locks sample_view ! i
        = pid # sc_run_queues (sv_sched (timer_tick 0 all_locks sample_view)) ! i"
      "sc_current_pid (sv_sched (timer_tick 0 all_locks sample_view)) = Some pid"
    using timer_tick_queues [OF wf, of 0 all_locks] by auto
  then have "i = 4" using q by (auto simp: numeral_eq_Suc less_Suc_eq)
  with i q have "pid = 2" by simp
  with i(3) wf show ?thesis by simp
qed

theorem timer_tick_drops_running_witness:
  "sc_current_pid (sv_sched sample_view) = Some 1
   \<and> sc_current_pid (sv_sched (timer_tick 0 all_locks sample_view)) = Some 2
   \<and> \<not> is_queued 1 (sv_sched (timer_tick 0 all_locks sample_view))"
proof -
  have cur: "sc_current_pid (sv_sched sample_view) = Some 1" "sc_enabled (sv_sched sample_view)"
    by (simp_all add: sample_view_def scheduler_enable_def)
  have "pt_get 1 (sv_procs sample_view) = Some (sample_process\<lparr>pr_pid := 1\<rparr>)"
    by (simp add: sample_view_def pt_get_def sample_table_eq)
  moreover have "pr_time_slice (sample_process\<lparr>pr_pid := 1\<rparr>) > 1"
    by (simp add: sample_process_def)
  moreover have "\<not> is_queued 1 (sv_sched sample_view)"
    by (simp add: is_queued_def sample_view_queues)
  moreover have "pop_queues (sc_run_queues (sv_sched sample_view)) = Some (2, replicate 7 [])"
    by (simp add: sample_view_queues numeral_eq_Suc)
  ultimately show ?thesis using timer_tick_drops_running [OF cur(2,1), where locks = all_locks] cur(1) by blast
qed

end
