(* ===== verification/Capabilities.thy ===== *)
theory Capabilities
  imports Scheduler Session
begin

text \<open>
  Capabilities of processes (\<open>kernel/src/security/capabilities.rs\<close>): the bit set, the defaults of a
  user, the transitions at spawn and exec, the one-way drop, and the checks.

  \<open>cs\<close> is the current session, \<open>db\<close> the user database, \<open>t\<close> the process table and \<open>cur\<close> the current
  process id. The text that the crate \<open>bitflags\<close> derives for the debug format of a set is the
  argument \<open>debug\<close>.
\<close>

section \<open>The bits\<close>

definition USER_ADMIN :: capabilities where "USER_ADMIN = push_bit 0 1"
definition FS_ADMIN :: capabilities where "FS_ADMIN = push_bit 1 1"
definition FILE_READ_ALL :: capabilities where "FILE_READ_ALL = push_bit 2 1"
definition FILE_WRITE_ALL :: capabilities where "FILE_WRITE_ALL = push_bit 3 1"
definition PROCESS_ADMIN :: capabilities where "PROCESS_ADMIN = push_bit 4 1"
definition NET_ADMIN :: capabilities where "NET_ADMIN = push_bit 5 1"
definition NET_RAW :: capabilities where "NET_RAW = push_bit 6 1"
definition NET_BIND_SERVICE :: capabilities where "NET_BIND_SERVICE = push_bit 7 1"
definition HW_ACCESS :: capabilities where "HW_ACCESS = push_bit 8 1"
definition SYS_TIME :: capabilities where "SYS_TIME = push_bit 9 1"
definition SYS_POWER :: capabilities where "SYS_POWER = push_bit 10 1"
definition PKG_INSTALL :: capabilities where "PKG_INSTALL = push_bit 11 1"
definition QUANTUM_ALLOC :: capabilities where "QUANTUM_ALLOC = push_bit 16 1"
definition QUANTUM_EXECUTE :: capabilities where "QUANTUM_EXECUTE = push_bit 17 1"
definition QUANTUM_REMOTE :: capabilities where "QUANTUM_REMOTE = push_bit 18 1"
definition CRYPTO_PQ :: capabilities where "CRYPTO_PQ = push_bit 19 1"
definition CRYPTO_KEYGEN :: capabilities where "CRYPTO_KEYGEN = push_bit 20 1"
definition ENTROPY_ACCESS :: capabilities where "ENTROPY_ACCESS = push_bit 21 1"
definition AI_INFERENCE :: capabilities where "AI_INFERENCE = push_bit 22 1"
definition SECURITY_ADMIN :: capabilities where "SECURITY_ADMIN = push_bit 23 1"
definition AUDIT_READ :: capabilities where "AUDIT_READ = push_bit 24 1"
definition FIREWALL_BYPASS :: capabilities where "FIREWALL_BYPASS = push_bit 25 1"

lemmas capability_bits =
  USER_ADMIN_def FS_ADMIN_def FILE_READ_ALL_def FILE_WRITE_ALL_def PROCESS_ADMIN_def NET_ADMIN_def
  NET_RAW_def NET_BIND_SERVICE_def HW_ACCESS_def SYS_TIME_def SYS_POWER_def PKG_INSTALL_def
  QUANTUM_ALLOC_def QUANTUM_EXECUTE_def QUANTUM_REMOTE_def CRYPTO_PQ_def CRYPTO_KEYGEN_def
  ENTROPY_ACCESS_def AI_INFERENCE_def SECURITY_ADMIN_def AUDIT_READ_def FIREWALL_BYPASS_def

definition ADMIN_DEFAULT :: capabilities where
  "ADMIN_DEFAULT = USER_ADMIN OR FS_ADMIN OR FILE_READ_ALL OR FILE_WRITE_ALL OR PROCESS_ADMIN
     OR NET_ADMIN OR NET_RAW OR NET_BIND_SERVICE OR HW_ACCESS OR SYS_TIME OR SYS_POWER
     OR PKG_INSTALL OR QUANTUM_ALLOC OR QUANTUM_EXECUTE OR QUANTUM_REMOTE OR CRYPTO_PQ
     OR CRYPTO_KEYGEN OR ENTROPY_ACCESS OR AI_INFERENCE OR SECURITY_ADMIN OR AUDIT_READ
     OR FIREWALL_BYPASS"

definition USER_DEFAULT :: capabilities where
  "USER_DEFAULT = QUANTUM_ALLOC OR QUANTUM_EXECUTE OR CRYPTO_PQ OR CRYPTO_KEYGEN OR AI_INFERENCE
     OR NET_BIND_SERVICE"

definition SANDBOXED :: capabilities where
  "SANDBOXED = 0"

definition ALL_CAPABILITIES :: "(capabilities \<times> string) list" where
  "ALL_CAPABILITIES =
    [(USER_ADMIN, ''USER_ADMIN''), (FS_ADMIN, ''FS_ADMIN''), (FILE_READ_ALL, ''FILE_READ_ALL''),
     (FILE_WRITE_ALL, ''FILE_WRITE_ALL''), (PROCESS_ADMIN, ''PROCESS_ADMIN''),
     (NET_ADMIN, ''NET_ADMIN''), (NET_RAW, ''NET_RAW''), (NET_BIND_SERVICE, ''NET_BIND_SERVICE''),
     (HW_ACCESS, ''HW_ACCESS''), (SYS_TIME, ''SYS_TIME''), (SYS_POWER, ''SYS_POWER''),
     (PKG_INSTALL, ''PKG_INSTALL''), (QUANTUM_ALLOC, ''QUANTUM_ALLOC''),
     (QUANTUM_EXECUTE, ''QUANTUM_EXECUTE''), (QUANTUM_REMOTE, ''QUANTUM_REMOTE''),
     (CRYPTO_PQ, ''CRYPTO_PQ''), (CRYPTO_KEYGEN, ''CRYPTO_KEYGEN''),
     (ENTROPY_ACCESS, ''ENTROPY_ACCESS''), (AI_INFERENCE, ''AI_INFERENCE''),
     (SECURITY_ADMIN, ''SECURITY_ADMIN''), (AUDIT_READ, ''AUDIT_READ''),
     (FIREWALL_BYPASS, ''FIREWALL_BYPASS'')]"

definition caps_contains :: "capabilities \<Rightarrow> capabilities \<Rightarrow> bool" where
  "caps_contains caps cap \<longleftrightarrow> caps AND cap = cap"

section \<open>Defaults and transitions\<close>

definition cap_role_for_uid :: "u16 \<Rightarrow> session option \<Rightarrow> user_db \<Rightarrow> user_role" where
  "cap_role_for_uid uid cs db =
    (let stored = (case find_by_uid uid db of
           Some user \<Rightarrow> ua_role user
         | None \<Rightarrow> if uid = 0 then Admin else User)
     in case current_user cs of
          Some user \<Rightarrow> if ua_uid user = uid then ua_role user else stored
        | None \<Rightarrow> stored)"

definition default_for_identity :: "u16 \<Rightarrow> user_role \<Rightarrow> capabilities" where
  "default_for_identity uid role = (if uid = 0 \<or> role = Admin then ADMIN_DEFAULT else USER_DEFAULT)"

definition default_for_uid :: "u16 \<Rightarrow> session option \<Rightarrow> user_db \<Rightarrow> capabilities" where
  "default_for_uid uid cs db = default_for_identity uid (cap_role_for_uid uid cs db)"

definition process_capabilities :: "u32 \<Rightarrow> process_table \<Rightarrow> capabilities option" where
  "process_capabilities pid t = map_option pr_effective_capabilities (pt_get pid t)"

definition current_capabilities :: "u32 option \<Rightarrow> process_table \<Rightarrow> capabilities option" where
  "current_capabilities cur t =
    (case cur of None \<Rightarrow> None | Some pid \<Rightarrow> process_capabilities pid t)"

definition session_capabilities_for_uid :: "u16 \<Rightarrow> session option \<Rightarrow> user_db \<Rightarrow> capabilities" where
  "session_capabilities_for_uid uid cs db = default_for_uid uid cs db"

definition current_or_session_capabilities ::
  "u32 option \<Rightarrow> process_table \<Rightarrow> session option \<Rightarrow> user_db \<Rightarrow> capabilities" where
  "current_or_session_capabilities cur t cs db =
    (case current_capabilities cur t of
       Some caps \<Rightarrow> caps
     | None \<Rightarrow> session_capabilities_for_uid (current_uid cs) cs db)"

definition shell_capabilities_for_uid :: "u16 \<Rightarrow> session option \<Rightarrow> user_db \<Rightarrow> capabilities" where
  "shell_capabilities_for_uid uid cs db = session_capabilities_for_uid uid cs db"

definition spawn_capabilities ::
  "u32 \<Rightarrow> u16 \<Rightarrow> process_table \<Rightarrow> session option \<Rightarrow> user_db \<Rightarrow> capabilities" where
  "spawn_capabilities parent_pid uid t cs db =
    (let baseline = default_for_uid uid cs db in
     (case process_capabilities parent_pid t of
        Some caps \<Rightarrow> caps
      | None \<Rightarrow> session_capabilities_for_uid uid cs db) AND baseline)"

definition exec_capabilities :: "capabilities \<Rightarrow> u16 \<Rightarrow> session option \<Rightarrow> user_db \<Rightarrow> capabilities" where
  "exec_capabilities current uid cs db = current AND default_for_uid uid cs db"

definition has_capability :: "capabilities \<Rightarrow> u32 option \<Rightarrow> process_table \<Rightarrow> bool" where
  "has_capability cap cur t =
    (case current_capabilities cur t of None \<Rightarrow> False | Some caps \<Rightarrow> caps_contains caps cap)"

definition summarize_capabilities :: "capabilities \<Rightarrow> string" where
  "summarize_capabilities caps =
    (let summary = foldl (\<lambda>summary (capability, name).
           if caps_contains caps capability
           then (if summary \<noteq> [] then summary @ '','' else summary) @ name else summary)
         [] ALL_CAPABILITIES
     in if summary = [] then ''none'' else summary)"

text \<open>A denied check is logged against the current process, or process 0.\<close>

definition denied_event :: "(capabilities \<Rightarrow> string) \<Rightarrow> u32 option \<Rightarrow> capabilities \<Rightarrow> audit_event" where
  "denied_event debug cur cap = CapabilityDenied (case cur of None \<Rightarrow> 0 | Some pid \<Rightarrow> pid) (debug cap)"

definition require_capability ::
  "(capabilities \<Rightarrow> string) \<Rightarrow> capabilities \<Rightarrow> u32 option \<Rightarrow> process_table \<Rightarrow> (string + unit) \<times> audit_event list"
where
  "require_capability debug cap cur t =
    (if has_capability cap cur t then (Ok (), [])
     else (Err ''permission denied: missing capability'', [denied_event debug cur cap]))"

definition session_require ::
  "(capabilities \<Rightarrow> string) \<Rightarrow> capabilities \<Rightarrow> u32 option \<Rightarrow> process_table \<Rightarrow> session option \<Rightarrow> user_db \<Rightarrow>
    (string + unit) \<times> audit_event list" where
  "session_require debug cap cur t cs db =
    (if caps_contains (current_or_session_capabilities cur t cs db) cap then (Ok (), [])
     else (Err ''permission denied: missing capability'', [denied_event debug cur cap]))"

definition caps_remove :: "capabilities \<Rightarrow> capabilities \<Rightarrow> capabilities" where
  "caps_remove caps c = c AND NOT caps"

definition drop_capabilities ::
  "capabilities \<Rightarrow> u32 option \<Rightarrow> process_table \<Rightarrow> process_table \<times> audit_event list" where
  "drop_capabilities caps cur t =
    (case cur of
       None \<Rightarrow> (t, [])
     | Some pid \<Rightarrow>
         (case pt_get pid t of
            None \<Rightarrow> (t, [])
          | Some process \<Rightarrow>
              let left = caps_remove caps (pr_effective_capabilities process) in
              (pt_get_mut pid (\<lambda>p. p\<lparr>pr_effective_capabilities := left\<rparr>) t,
               [SecurityPolicyChanged (''cap_drop pid='' @ show_word pid @ '' now=''
                  @ summarize_capabilities left) (pr_uid process)])))"

definition set_process_capabilities :: "u32 \<Rightarrow> capabilities \<Rightarrow> process_table \<Rightarrow> process_table" where
  "set_process_capabilities pid caps t = pt_get_mut pid (\<lambda>p. p\<lparr>pr_effective_capabilities := caps\<rparr>) t"

definition parse_capability :: "string \<Rightarrow> capabilities option" where
  "parse_capability name =
    map_option fst (find (\<lambda>(_, label). eq_ignore_ascii_case label name) ALL_CAPABILITIES)"

definition all_capability_names :: "string list" where
  "all_capability_names = map snd ALL_CAPABILITIES"

definition format_capabilities :: "capabilities \<Rightarrow> string" where
  "format_capabilities caps =
    join_with (CHR 0x0A) (map (\<lambda>(bit, name).
      ''  '' @ (if caps_contains caps bit then ''[x]'' else ''[ ]'') @ '' '' @ name) ALL_CAPABILITIES)"

section \<open>Capabilities only shrink\<close>

text \<open>
  The contract of a transition between the set a process holds and the set it, or a process it
  starts, holds afterwards: nothing is gained.
\<close>

locale capability_transition =
  fixes step :: "capabilities \<Rightarrow> capabilities \<Rightarrow> bool"
  assumes narrows: "step c c' \<Longrightarrow> c' AND c = c'"
begin

lemma narrows_all: "step\<^sup>*\<^sup>* c c' \<Longrightarrow> c' AND c = c'"
proof (induction rule: rtranclp_induct)
  case (step d e)
  have "e AND c = (e AND d) AND c" using narrows [OF step.hyps(2)] by simp
  also have "\<dots> = e AND (d AND c)" by (simp add: and.assoc)
  also have "\<dots> = e" using step.IH narrows [OF step.hyps(2)] by simp
  finally show ?case .
qed simp

lemma lost_for_good: "step\<^sup>*\<^sup>* c c' \<Longrightarrow> c AND bits = 0 \<Longrightarrow> c' AND bits = 0"
proof -
  assume "step\<^sup>*\<^sup>* c c'" and none: "c AND bits = 0"
  then have "c' AND bits = c' AND (c AND bits)" using narrows_all by (metis and.assoc)
  with none show ?thesis by simp
qed

end

lemma word_and_absorb: "(a AND b) AND a = a AND (b :: 'a::len word)"
  by (simp add: and.commute and.left_commute)

lemma spawn_narrows:
  "process_capabilities parent t = Some c \<Longrightarrow>
    spawn_capabilities parent uid t cs db AND c = spawn_capabilities parent uid t cs db"
  by (simp add: spawn_capabilities_def Let_def word_and_absorb)

lemma exec_narrows: "exec_capabilities c uid cs db AND c = exec_capabilities c uid cs db"
  by (simp add: exec_capabilities_def word_and_absorb)

lemma drop_process_capabilities:
  "process_capabilities pid t = Some c \<Longrightarrow>
    process_capabilities pid (fst (drop_capabilities caps (Some pid) t)) = Some (c AND NOT caps)"
  by (auto simp: process_capabilities_def drop_capabilities_def caps_remove_def Let_def pt_get_get_mut)

text \<open>One step in the life of a process or to a child: spawn, exec, drop.\<close>

inductive capability_step :: "capabilities \<Rightarrow> capabilities \<Rightarrow> bool" where
  cap_spawn: "process_capabilities parent t = Some c \<Longrightarrow>
    capability_step c (spawn_capabilities parent uid t cs db)"
| cap_exec: "capability_step c (exec_capabilities c uid cs db)"
| cap_drop: "process_capabilities pid t = Some c \<Longrightarrow>
    process_capabilities pid (fst (drop_capabilities caps (Some pid) t)) = Some c' \<Longrightarrow>
    capability_step c c'"

interpretation caps: capability_transition capability_step
proof
  show "capability_step c c' \<Longrightarrow> c' AND c = c'" for c c'
    by (induction rule: capability_step.induct)
      (auto simp: spawn_narrows exec_narrows drop_process_capabilities word_and_absorb)
qed

text \<open>
  C15. Capabilities are never gained. Along any chain of spawns, execs and drops, whatever the user
  ids, sessions and user databases in between, the set at the end is a subset of the set at the
  start; a capability that was absent or dropped does not come back.
\<close>

theorem capabilities_never_gained:
  assumes "capability_step\<^sup>*\<^sup>* c c'"
  shows "c' AND c = c' \<and> (\<forall>cap. cap \<noteq> 0 \<and> c AND cap = 0 \<longrightarrow> \<not> caps_contains c' cap)"
proof (intro conjI allI impI)
  show "c' AND c = c'" using assms by (rule caps.narrows_all)
  fix cap
  assume "cap \<noteq> 0 \<and> c AND cap = 0"
  then show "\<not> caps_contains c' cap"
    using caps.lost_for_good [OF assms, of cap] by (auto simp: caps_contains_def)
qed

theorem capabilities_never_gained_witness:
  "\<not> caps_contains (exec_capabilities (caps_remove PKG_INSTALL ADMIN_DEFAULT) 0 None
      \<lparr>db_users = [], db_next_uid = 0\<rparr>) PKG_INSTALL"
proof -
  have "capability_step (caps_remove PKG_INSTALL ADMIN_DEFAULT)
      (exec_capabilities (caps_remove PKG_INSTALL ADMIN_DEFAULT) 0 None \<lparr>db_users = [], db_next_uid = 0\<rparr>)"
    by (rule cap_exec)
  moreover have "caps_remove PKG_INSTALL ADMIN_DEFAULT AND PKG_INSTALL = 0" "PKG_INSTALL \<noteq> 0"
    by (simp_all add: caps_remove_def and.assoc and.commute and.left_commute PKG_INSTALL_def)
  ultimately show ?thesis using capabilities_never_gained [OF r_into_rtranclp] by blast
qed

text \<open>
  Ordinary users. A process spawned or exec'ed for a user id other than 0 whose role is not
  administrator holds at most the six capabilities of the user default, and so none of the
  administrative ones, whatever its parent holds.
\<close>

theorem ordinary_user_bounded:
  assumes "uid \<noteq> 0" and "cap_role_for_uid uid cs db \<noteq> Admin"
  shows "spawn_capabilities parent uid t cs db AND USER_DEFAULT = spawn_capabilities parent uid t cs db
    \<and> exec_capabilities c uid cs db AND USER_DEFAULT = exec_capabilities c uid cs db
    \<and> (\<forall>cap \<in> {USER_ADMIN, FS_ADMIN, FILE_READ_ALL, FILE_WRITE_ALL, PROCESS_ADMIN, NET_ADMIN, NET_RAW,
          HW_ACCESS, SYS_TIME, SYS_POWER, PKG_INSTALL, QUANTUM_REMOTE, ENTROPY_ACCESS, SECURITY_ADMIN,
          AUDIT_READ, FIREWALL_BYPASS}.
        \<not> caps_contains (spawn_capabilities parent uid t cs db) cap
        \<and> \<not> caps_contains (exec_capabilities c uid cs db) cap)"
proof -
  have def: "default_for_uid uid cs db = USER_DEFAULT"
    using assms by (simp add: default_for_uid_def default_for_identity_def)
  have none: "\<not> caps_contains (d AND USER_DEFAULT) cap"
    if "cap \<in> {USER_ADMIN, FS_ADMIN, FILE_READ_ALL, FILE_WRITE_ALL, PROCESS_ADMIN, NET_ADMIN, NET_RAW,
          HW_ACCESS, SYS_TIME, SYS_POWER, PKG_INSTALL, QUANTUM_REMOTE, ENTROPY_ACCESS, SECURITY_ADMIN,
          AUDIT_READ, FIREWALL_BYPASS}" for d cap
  proof -
    have "USER_DEFAULT AND cap = 0" "cap \<noteq> 0"
      using that by (auto simp: USER_DEFAULT_def capability_bits)
    then show ?thesis by (simp add: caps_contains_def and.assoc)
  qed
  have idem: "(d AND USER_DEFAULT) AND USER_DEFAULT = d AND USER_DEFAULT" for d
    by (simp add: and.assoc)
  obtain d where d: "spawn_capabilities parent uid t cs db = d AND USER_DEFAULT"
    unfolding spawn_capabilities_def Let_def def by blast
  have e: "exec_capabilities c uid cs db = c AND USER_DEFAULT"
    unfolding exec_capabilities_def def ..
  show ?thesis
    unfolding d e by (intro conjI ballI) (rule idem, rule idem, erule none, erule none)
qed

theorem ordinary_user_bounded_witness:
  "\<not> caps_contains (exec_capabilities ADMIN_DEFAULT 7 None \<lparr>db_users = [], db_next_uid = 1\<rparr>) SECURITY_ADMIN"
  using ordinary_user_bounded [of 7 None "\<lparr>db_users = [], db_next_uid = 1\<rparr>"]
  by (simp add: cap_role_for_uid_def current_user_def find_by_uid_def)

end
