(* ===== verification/Elf_Parser.thy ===== *)
theory Elf_Parser
  imports Process_Table
begin

text \<open>
  The ELF parser of the loader (\<open>kernel/src/exec/elf.rs\<close>): header checks, program headers, and the
  loadable segments. \<open>read_struct\<close> copies a \<open>repr(C)\<close> structure out of the image; the model reads it
  field by field, each at its \<open>repr(C)\<close> offset and little-endian, as on the x86-64 target.
\<close>

record elf64_header =
  e_ident :: "u8 list"
  e_type :: u16
  e_machine :: u16
  e_version :: u32
  e_entry :: u64
  e_phoff :: u64
  e_shoff :: u64
  e_flags :: u32
  e_ehsize :: u16
  e_phentsize :: u16
  e_phnum :: u16
  e_shentsize :: u16
  e_shnum :: u16
  e_shstrndx :: u16

record elf64_program_header =
  p_type :: u32
  p_flags :: u32
  p_offset :: u64
  p_vaddr :: u64
  p_paddr :: u64
  p_filesz :: u64
  p_memsz :: u64
  p_align :: u64

record elf_segment =
  sg_vaddr :: u64
  sg_memsz :: u64
  sg_filesz :: u64
  sg_offset :: u64
  sg_flags :: segment_flags
  sg_align :: u64

record elf_info =
  ei_entry_point :: u64
  ei_segments :: "elf_segment list"
  ei_is_pie :: bool

definition PT_LOAD :: u32 where "PT_LOAD = 1"
definition PF_X :: u32 where "PF_X = 1"
definition PF_W :: u32 where "PF_W = 2"
definition PF_R :: u32 where "PF_R = 4"

definition read_elf64_header :: "u8 list \<Rightarrow> nat \<Rightarrow> exec_error + elf64_header" where
  "read_elf64_header data offset =
    (if usize_sat_add offset 64 > length data then Err InvalidProgramHeader
     else Ok \<lparr>e_ident = bytes_at data offset 16, e_type = int_at data (offset + 16),
       e_machine = int_at data (offset + 18), e_version = int_at data (offset + 20),
       e_entry = int_at data (offset + 24), e_phoff = int_at data (offset + 32),
       e_shoff = int_at data (offset + 40), e_flags = int_at data (offset + 48),
       e_ehsize = int_at data (offset + 52), e_phentsize = int_at data (offset + 54),
       e_phnum = int_at data (offset + 56), e_shentsize = int_at data (offset + 58),
       e_shnum = int_at data (offset + 60), e_shstrndx = int_at data (offset + 62)\<rparr>)"

definition read_elf64_program_header :: "u8 list \<Rightarrow> nat \<Rightarrow> exec_error + elf64_program_header" where
  "read_elf64_program_header data offset =
    (if usize_sat_add offset 56 > length data then Err InvalidProgramHeader
     else Ok \<lparr>p_type = int_at data offset, p_flags = int_at data (offset + 4),
       p_offset = int_at data (offset + 8), p_vaddr = int_at data (offset + 16),
       p_paddr = int_at data (offset + 24), p_filesz = int_at data (offset + 32),
       p_memsz = int_at data (offset + 40), p_align = int_at data (offset + 48)\<rparr>)"

definition segment_flags_of :: "u32 \<Rightarrow> segment_flags" where
  "segment_flags_of flags =
    (if flags AND PF_R \<noteq> 0 then SEG_READ else 0) OR (if flags AND PF_W \<noteq> 0 then SEG_WRITE else 0)
    OR (if flags AND PF_X \<noteq> 0 then SEG_EXECUTE else 0)"

text \<open>
  The loop over the program headers: \<open>index\<close> counts up while \<open>n\<close> headers remain. The offset is
  computed in \<open>usize\<close>; its addition is unchecked in the source and wraps in the release profile.
\<close>

fun read_segments ::
  "u8 list \<Rightarrow> nat \<Rightarrow> nat \<Rightarrow> nat \<Rightarrow> nat \<Rightarrow> elf_segment list \<Rightarrow> exec_error + elf_segment list" where
  "read_segments data ph_offset ph_size index 0 segments = Ok segments"
| "read_segments data ph_offset ph_size index (Suc n) segments =
    (let offset = (ph_offset + min (index * ph_size) usize_max) mod 2 ^ 64 in
     result_bind (read_elf64_program_header data offset) (\<lambda>program.
       if p_type program \<noteq> PT_LOAD then read_segments data ph_offset ph_size (Suc index) n segments
       else if p_memsz program < p_filesz program then Err SegmentOverflow
       else if unat (sat_add (p_offset program) (p_filesz program)) > length data then Err SegmentOverflow
       else read_segments data ph_offset ph_size (Suc index) n (segments @
         [\<lparr>sg_vaddr = p_vaddr program, sg_memsz = p_memsz program, sg_filesz = p_filesz program,
           sg_offset = p_offset program, sg_flags = segment_flags_of (p_flags program),
           sg_align = p_align program\<rparr>])))"

definition parse_elf :: "u8 list \<Rightarrow> exec_error + elf_info" where
  "parse_elf data =
    (if length data < 64 then Err TooSmall
     else result_bind (read_elf64_header data 0) (\<lambda>header.
       if take 4 (e_ident header) \<noteq> [0x7F, 0x45, 0x4C, 0x46] then Err NotElf
       else if e_ident header ! 4 \<noteq> 2 then Err Not64Bit
       else if e_ident header ! 5 \<noteq> 1 then Err NotLittleEndian
       else if e_machine header \<noteq> 0x3E then Err WrongArchitecture
       else if \<not> (e_type header = 2 \<or> e_type header = 3) then Err NotExecutable
       else if unat (e_phentsize header) \<noteq> 56 then Err InvalidProgramHeader
       else result_bind (read_segments data (unat (e_phoff header)) (unat (e_phentsize header)) 0
           (unat (e_phnum header)) []) (\<lambda>segments.
         if segments = [] then Err NoLoadableSegments
         else Ok \<lparr>ei_entry_point = e_entry header, ei_segments = segments,
                ei_is_pie = (e_type header = 3)\<rparr>)))"

section \<open>What an accepted image guarantees\<close>

definition segment_in_file :: "u8 list \<Rightarrow> elf_segment \<Rightarrow> bool" where
  "segment_in_file data s \<longleftrightarrow> unat (sg_offset s) + unat (sg_filesz s) \<le> length data
    \<and> sg_filesz s \<le> sg_memsz s"

lemma sat_add_in_bounds:
  fixes a b :: u64
  assumes "unat (sat_add a b) \<le> n" and "n < 2 ^ 64 - 1"
  shows "unat a + unat b \<le> n"
  using assms by (auto simp: unat_sat_add min_def split: if_splits)

lemma read_segments_in_file:
  assumes "read_segments data off sz index n segments = Ok segments'"
    and "length data < usize_max" and "list_all (segment_in_file data) segments"
  shows "list_all (segment_in_file data) segments' \<and> length segments' \<le> length segments + n"
  using assms
proof (induction data off sz index n segments arbitrary: segments' rule: read_segments.induct)
  case (2 data off sz index n segments)
  let ?o = "(off + min (index * sz) usize_max) mod 2 ^ 64"
  obtain p where p: "read_elf64_program_header data ?o = Ok p"
    using 2(3) by (cases "read_elf64_program_header data ?o") (auto simp: Let_def)
  show ?case
  proof (cases "p_type p = PT_LOAD")
    case False
    with 2 p show ?thesis by (fastforce simp: Let_def)
  next
    case True
    let ?s = "\<lparr>sg_vaddr = p_vaddr p, sg_memsz = p_memsz p, sg_filesz = p_filesz p,
        sg_offset = p_offset p, sg_flags = segment_flags_of (p_flags p), sg_align = p_align p\<rparr>"
    have ok: "\<not> p_memsz p < p_filesz p" "\<not> unat (sat_add (p_offset p) (p_filesz p)) > length data"
      and rest: "read_segments data off sz (Suc index) n (segments @ [?s]) = Ok segments'"
      using 2(3) p True by (auto simp: Let_def split: if_splits)
    have "segment_in_file data ?s"
      using ok sat_add_in_bounds [of "p_offset p" "p_filesz p" "length data"] 2(4)
      by (simp add: segment_in_file_def not_less)
    with 2(2) [OF refl p] True ok rest 2(4,5) show ?thesis by fastforce
  qed
qed simp

text \<open>
  C18. An ELF image the parser accepts has at least one loadable segment and at most as many as its
  header announces, and each of them lies within the file (its offset plus its file size does not
  overflow and does not pass the end) and is no larger in the file than in memory.
\<close>

theorem parse_elf_segments_in_file:
  assumes "parse_elf data = Ok info" and "length data < usize_max"
  shows "ei_segments info \<noteq> [] \<and> length (ei_segments info) \<le> unat (int_at data 56 :: u16)
    \<and> list_all (segment_in_file data) (ei_segments info)"
proof -
  from assms(1) obtain h where h: "read_elf64_header data 0 = Ok h"
    and rd: "read_segments data (unat (e_phoff h)) (unat (e_phentsize h)) 0 (unat (e_phnum h)) []
      = Ok (ei_segments info)"
    and ne: "ei_segments info \<noteq> []"
    by (auto simp: parse_elf_def split: if_splits)
  from h have "e_phnum h = int_at data 56"
    by (auto simp: read_elf64_header_def split: if_splits)
  with read_segments_in_file [OF rd assms(2)] ne show ?thesis by simp
qed

text \<open>A minimal image: header, one loadable program header at offset 64, and no further data.\<close>

definition sample_elf :: "u8 list" where
  "sample_elf =
    [0x7F, 0x45, 0x4C, 0x46, 2, 1, 1, 0, 0, 0, 0, 0, 0, 0, 0, 0,
     2, 0, 0x3E, 0, 1, 0, 0, 0, 0, 16, 0, 0, 0, 0, 0, 0,
     64, 0, 0, 0, 0, 0, 0, 0, 0, 0, 0, 0, 0, 0, 0, 0,
     0, 0, 0, 0, 64, 0, 56, 0, 1, 0, 0, 0, 0, 0, 0, 0,
     1, 0, 0, 0, 5, 0, 0, 0, 0, 0, 0, 0, 0, 0, 0, 0,
     0, 16, 0, 0, 0, 0, 0, 0, 0, 0, 0, 0, 0, 0, 0, 0,
     120, 0, 0, 0, 0, 0, 0, 0, 0, 2, 0, 0, 0, 0, 0, 0,
     0, 16, 0, 0, 0, 0, 0, 0]"

lemmas sample_elf_eval =
  usize_sat_add_def int_at_def bytes_at_def sample_elf_def from_le_bytes_def

lemma sample_elf_header:
  "\<exists>h. read_elf64_header sample_elf 0 = Ok h \<and> take 4 (e_ident h) = [0x7F, 0x45, 0x4C, 0x46]
    \<and> e_ident h ! 4 = 2 \<and> e_ident h ! 5 = 1 \<and> e_machine h = 0x3E \<and> e_type h = 2
    \<and> e_phentsize h = 56 \<and> e_phnum h = 1 \<and> e_phoff h = 64 \<and> e_entry h = 4096"
  by (simp add: read_elf64_header_def sample_elf_eval)

lemma sample_elf_program:
  "read_elf64_program_header sample_elf 64 = Ok \<lparr>p_type = 1, p_flags = 5, p_offset = 0,
     p_vaddr = 4096, p_paddr = 0, p_filesz = 120, p_memsz = 512, p_align = 4096\<rparr>"
  by (simp add: read_elf64_program_header_def sample_elf_eval)

abbreviation sample_segment :: elf_segment where
  "sample_segment \<equiv> \<lparr>sg_vaddr = 4096, sg_memsz = 512, sg_filesz = 120, sg_offset = 0,
     sg_flags = segment_flags_of 5, sg_align = 4096\<rparr>"

lemma length_sample_elf: "length sample_elf = 120"
  by (simp add: sample_elf_def)

lemma parse_sample_elf:
  "parse_elf sample_elf = Ok \<lparr>ei_entry_point = 4096, ei_segments = [sample_segment], ei_is_pie = False\<rparr>"
proof -
  have segs: "read_segments sample_elf 64 56 0 (Suc 0) [] = Ok [sample_segment]"
    by (simp add: sample_elf_program PT_LOAD_def sat_add_def length_sample_elf)
  from sample_elf_header obtain h where h: "read_elf64_header sample_elf 0 = Ok h"
    "take 4 (e_ident h) = [0x7F, 0x45, 0x4C, 0x46]" "e_ident h ! 4 = 2" "e_ident h ! 5 = 1"
    "e_machine h = 0x3E" "e_type h = 2" "e_phentsize h = 56" "e_phnum h = 1" "e_phoff h = 64"
    "e_entry h = 4096" by blast
  show ?thesis
    unfolding parse_elf_def by (simp add: h segs length_sample_elf del: read_segments.simps)
qed

theorem parse_elf_segments_in_file_witness:
  "parse_elf sample_elf = Ok \<lparr>ei_entry_point = 4096, ei_segments = [sample_segment], ei_is_pie = False\<rparr>
    \<and> list_all (segment_in_file sample_elf) [sample_segment]"
  using parse_elf_segments_in_file [OF parse_sample_elf] parse_sample_elf
  by (simp add: length_sample_elf)

end
