(* ===== verification/Frame_Alloc.thy ===== *)
theory Frame_Alloc
  imports Waros_Prelude
begin

text \<open>
  The physical frame allocator (\<open>kernel/src/memory/physical.rs\<close>): a bitmap with one bit per 4 KiB
  frame, set when the frame is allocated or not usable. The boot loader's memory map is an argument,
  a list of regions with their kind. Indexing the bitmap out of range is a panic in the source; the
  invariant below keeps every index the operations use in range.
\<close>

definition FRAME_SIZE :: u64 where "FRAME_SIZE = 4096"
definition MAX_TRACKED_PHYSICAL_MEMORY :: u64 where
  "MAX_TRACKED_PHYSICAL_MEMORY = 4 * 1024 * 1024 * 1024"
definition MAX_TRACKED_FRAMES :: nat where
  "MAX_TRACKED_FRAMES = unat (MAX_TRACKED_PHYSICAL_MEMORY div FRAME_SIZE)"
definition BITMAP_BYTES :: nat where "BITMAP_BYTES = MAX_TRACKED_FRAMES div 8"

record memory_region =
  mr_start :: u64
  mr_end :: u64
  mr_usable :: bool

record bitmap_allocator =
  fa_bitmap :: "u8 list"
  fa_total_frames :: nat
  fa_free_frames :: nat
  fa_scan_hint :: nat
  fa_max_frame_index :: nat

definition is_allocated :: "nat \<Rightarrow> bitmap_allocator \<Rightarrow> bool" where
  "is_allocated frame_index a =
    ((fa_bitmap a ! (frame_index div 8)) AND push_bit (frame_index mod 8) 1 \<noteq> 0)"

definition set_allocated :: "nat \<Rightarrow> bool \<Rightarrow> bitmap_allocator \<Rightarrow> bitmap_allocator" where
  "set_allocated frame_index allocated a =
    (let byte = frame_index div 8; mask = push_bit (frame_index mod 8) 1 in
     a\<lparr>fa_bitmap := (fa_bitmap a)[byte := if allocated then fa_bitmap a ! byte OR mask
       else fa_bitmap a ! byte AND NOT mask]\<rparr>)"

definition init_frame :: "nat \<Rightarrow> bitmap_allocator \<Rightarrow> bitmap_allocator" where
  "init_frame frame_index a =
    (if is_allocated frame_index a
     then (set_allocated frame_index False a)
       \<lparr>fa_total_frames := fa_total_frames a + 1, fa_free_frames := fa_free_frames a + 1\<rparr>
     else a)"

definition init_region :: "memory_region \<Rightarrow> bitmap_allocator \<Rightarrow> bitmap_allocator" where
  "init_region region a =
    (if \<not> mr_usable region then a
     else
       let start = (if mr_start region = 0 then FRAME_SIZE else mr_start region);
           end_address = min (mr_end region) MAX_TRACKED_PHYSICAL_MEMORY;
           start_frame = unat (start div FRAME_SIZE);
           end_frame = unat (end_address div FRAME_SIZE);
           a' = fold init_frame [start_frame..<end_frame] a
       in a'\<lparr>fa_max_frame_index := max (fa_max_frame_index a') end_frame\<rparr>)"

definition allocator_init :: "memory_region list \<Rightarrow> bitmap_allocator" where
  "allocator_init regions = fold init_region regions
    \<lparr>fa_bitmap = replicate BITMAP_BYTES 0xFF, fa_total_frames = 0, fa_free_frames = 0,
     fa_scan_hint = 1, fa_max_frame_index = 1\<rparr>"

text \<open>The loop of \<open>allocate_frame\<close> stops at the first index of the scan that is usable.\<close>

definition allocate_frame :: "bitmap_allocator \<Rightarrow> u64 option \<times> bitmap_allocator" where
  "allocate_frame a =
    (if fa_free_frames a = 0 then (None, a)
     else
       let m = min (fa_max_frame_index a) MAX_TRACKED_FRAMES in
       (case find (\<lambda>i. \<not> (i = 0 \<or> is_allocated i a)) (map (\<lambda>off. (fa_scan_hint a + off) mod m) [0..<m]) of
          None \<Rightarrow> (None, a)
        | Some i \<Rightarrow> (Some (word_of_nat i * FRAME_SIZE),
            (set_allocated i True a)\<lparr>fa_free_frames := fa_free_frames a - 1, fa_scan_hint := i + 1\<rparr>)))"

definition allocate_contiguous_frames :: "nat \<Rightarrow> bitmap_allocator \<Rightarrow> u64 option \<times> bitmap_allocator" where
  "allocate_contiguous_frames n a =
    (if n = 0 \<or> n > fa_free_frames a then (None, a)
     else
       let m = min (fa_max_frame_index a) MAX_TRACKED_FRAMES in
       if m \<le> n then (None, a)
       else (case find (\<lambda>s. \<not> list_ex (\<lambda>off. is_allocated (s + off) a) [0..<n]) [1..<Suc (m - n)] of
          None \<Rightarrow> (None, a)
        | Some s \<Rightarrow> (Some (word_of_nat s * FRAME_SIZE),
            (fold (\<lambda>off. set_allocated (s + off) True) [0..<n] a)
              \<lparr>fa_free_frames := fa_free_frames a - n, fa_scan_hint := s + n\<rparr>)))"

definition release_frame :: "nat \<Rightarrow> bitmap_allocator \<Rightarrow> bitmap_allocator" where
  "release_frame i a =
    (if is_allocated i a
     then (set_allocated i False a)\<lparr>fa_free_frames := fa_free_frames a + 1\<rparr> else a)"

definition free_frame :: "u64 \<Rightarrow> bitmap_allocator \<Rightarrow> bitmap_allocator" where
  "free_frame address a =
    (let i = unat (address div FRAME_SIZE) in
     if i = 0 \<or> i \<ge> fa_max_frame_index a then a else release_frame i a)"

definition free_contiguous_frames :: "u64 \<Rightarrow> nat \<Rightarrow> bitmap_allocator \<Rightarrow> bitmap_allocator" where
  "free_contiguous_frames address n a =
    (let s = unat (address div FRAME_SIZE) in
     if s = 0 \<or> n = 0 then a
     else fold release_frame [s..<min (usize_sat_add s n) (fa_max_frame_index a)] a)"

section \<open>The bitmap as a set of free frames\<close>

definition free_set :: "bitmap_allocator \<Rightarrow> nat set" where
  "free_set a = {i. i < fa_max_frame_index a \<and> \<not> is_allocated i a}"

definition fa_wf :: "bitmap_allocator \<Rightarrow> bool" where
  "fa_wf a \<longleftrightarrow> length (fa_bitmap a) = BITMAP_BYTES \<and> fa_max_frame_index a \<le> MAX_TRACKED_FRAMES
    \<and> 0 < fa_max_frame_index a \<and> fa_free_frames a = card (free_set a)"

lemma MAX_TRACKED_FRAMES_eq: "MAX_TRACKED_FRAMES = 1048576"
  by (simp add: MAX_TRACKED_FRAMES_def MAX_TRACKED_PHYSICAL_MEMORY_def FRAME_SIZE_def)

lemma BITMAP_BYTES_eq: "BITMAP_BYTES = 131072"
  by (simp add: BITMAP_BYTES_def MAX_TRACKED_FRAMES_eq)

lemma is_allocated_bit:
  "is_allocated i a \<longleftrightarrow> bit (fa_bitmap a ! (i div 8)) (i mod 8)"
  by (simp add: is_allocated_def push_bit_eq_mult and_exp_eq_0_iff_not_bit)

lemma is_allocated_set_allocated:
  assumes "i div 8 < length (fa_bitmap a)"
  shows "is_allocated j (set_allocated i v a) \<longleftrightarrow> (if i = j then v else is_allocated j a)"
proof (cases "i div 8 = j div 8")
  case True
  have "i = j \<longleftrightarrow> i mod 8 = j mod 8" using True by (metis div_mod_decomp)
  moreover have "j mod 8 < 8" by simp
  ultimately show ?thesis
    using assms True
    by (auto simp: is_allocated_bit set_allocated_def Let_def bit_or_iff bit_and_iff bit_not_iff
        bit_push_bit_iff bit_1_iff bit_exp_iff)
next
  case False
  then show ?thesis by (auto simp: is_allocated_bit set_allocated_def Let_def)
qed

lemma set_allocated_fields [simp]:
  "fa_max_frame_index (set_allocated i v a) = fa_max_frame_index a"
  "fa_free_frames (set_allocated i v a) = fa_free_frames a"
  "fa_scan_hint (set_allocated i v a) = fa_scan_hint a"
  "fa_total_frames (set_allocated i v a) = fa_total_frames a"
  "length (fa_bitmap (set_allocated i v a)) = length (fa_bitmap a)"
  by (simp_all add: set_allocated_def Let_def)

lemma is_allocated_fields [simp]:
  "is_allocated i (a\<lparr>fa_free_frames := k\<rparr>) = is_allocated i a"
  "is_allocated i (a\<lparr>fa_scan_hint := k\<rparr>) = is_allocated i a"
  "is_allocated i (a\<lparr>fa_total_frames := k\<rparr>) = is_allocated i a"
  "is_allocated i (a\<lparr>fa_max_frame_index := k\<rparr>) = is_allocated i a"
  by (simp_all add: is_allocated_def)

lemma free_set_fields [simp]:
  "free_set (a\<lparr>fa_free_frames := k\<rparr>) = free_set a"
  "free_set (a\<lparr>fa_scan_hint := k\<rparr>) = free_set a"
  "free_set (a\<lparr>fa_total_frames := k\<rparr>) = free_set a"
  by (simp_all add: free_set_def)

lemma finite_free_set [simp]: "finite (free_set a)"
  by (simp add: free_set_def)

lemma in_range:
  assumes "length (fa_bitmap a) = BITMAP_BYTES" and "i < MAX_TRACKED_FRAMES"
  shows "i div 8 < length (fa_bitmap a)"
  using assms by (simp add: BITMAP_BYTES_eq MAX_TRACKED_FRAMES_eq less_mult_imp_div_less)

lemma free_set_set_allocated:
  assumes "length (fa_bitmap a) = BITMAP_BYTES" and "i < MAX_TRACKED_FRAMES"
  shows "free_set (set_allocated i v a) =
    (if v then free_set a - {i} else if i < fa_max_frame_index a then insert i (free_set a) else free_set a)"
  using in_range [OF assms] by (auto simp: free_set_def is_allocated_set_allocated)

section \<open>The operations on the set of free frames\<close>

lemma fa_wfD:
  assumes "fa_wf a"
  shows "length (fa_bitmap a) = BITMAP_BYTES" "fa_max_frame_index a \<le> MAX_TRACKED_FRAMES"
    "0 < fa_max_frame_index a" "fa_free_frames a = card (free_set a)"
    "min (fa_max_frame_index a) MAX_TRACKED_FRAMES = fa_max_frame_index a"
  using assms by (auto simp: fa_wf_def)

lemma free_set_bound: "fa_wf a \<Longrightarrow> i \<in> free_set a \<Longrightarrow> i < MAX_TRACKED_FRAMES"
  using fa_wfD(2) by (force simp: free_set_def)

lemma scan_covers:
  fixes m :: nat
  assumes "i < m"
  shows "i \<in> (\<lambda>off. (hint + off) mod m) ` {0..<m}"
proof -
  let ?off = "(i + m - hint mod m) mod m"
  have "hint mod m < m" using assms by simp
  then have "hint mod m + (i + m - hint mod m) = i + m" by linarith
  then have "(hint mod m + (i + m - hint mod m)) mod m = i" using assms by simp
  then have "(hint + ?off) mod m = i" by (metis mod_add_eq mod_mod_trivial)
  moreover have "?off \<in> {0..<m}" using assms by simp
  ultimately show ?thesis by force
qed

lemma allocate_frame_cases:
  assumes "fa_wf a"
  shows "(allocate_frame a = (None, a) \<and> free_set a \<subseteq> {0})
    \<or> (\<exists>i. 0 < i \<and> i \<in> free_set a \<and> allocate_frame a = (Some (word_of_nat i * FRAME_SIZE),
        (set_allocated i True a)\<lparr>fa_free_frames := fa_free_frames a - 1, fa_scan_hint := i + 1\<rparr>))"
proof (cases "fa_free_frames a = 0")
  case True
  then have "free_set a = {}" using fa_wfD(4) [OF assms] by simp
  then show ?thesis using True by (simp add: allocate_frame_def)
next
  case False
  let ?m = "fa_max_frame_index a"
  let ?xs = "map (\<lambda>off. (fa_scan_hint a + off) mod ?m) [0..<?m]"
  let ?f = "find (\<lambda>i. \<not> (i = 0 \<or> is_allocated i a)) ?xs"
  have all: "i \<in> set ?xs" if "i < ?m" for i
    using scan_covers [OF that] by simp
  show ?thesis
  proof (cases ?f)
    case None
    then have "i = 0 \<or> is_allocated i a" if "i \<in> set ?xs" for i
      using that by (auto simp: find_None_iff simp del: set_map)
    then have "free_set a \<subseteq> {0}" using all by (auto simp: free_set_def simp del: set_map)
    then show ?thesis using False None by (simp add: allocate_frame_def fa_wfD(5) [OF assms])
  next
    case (Some i)
    then have "i \<in> set ?xs" "i \<noteq> 0" "\<not> is_allocated i a"
      using find_SomeD [OF Some] by (simp_all del: set_map)
    moreover from this(1) have "i < ?m" using fa_wfD(3) [OF assms] by auto
    ultimately show ?thesis
      using False Some by (auto simp: allocate_frame_def free_set_def fa_wfD(5) [OF assms])
  qed
qed

lemma allocate_one_wf:
  assumes "fa_wf a" and "i \<in> free_set a"
    and b: "b = (set_allocated i True a)\<lparr>fa_free_frames := fa_free_frames a - 1, fa_scan_hint := k\<rparr>"
  shows "fa_wf b \<and> free_set b = free_set a - {i}"
proof -
  have "free_set (set_allocated i True a) = free_set a - {i}"
    using free_set_set_allocated [OF fa_wfD(1) [OF assms(1)] free_set_bound [OF assms(1,2)]] by simp
  then show ?thesis using assms(2) fa_wfD [OF assms(1)] by (simp add: b fa_wf_def card_Diff_singleton)
qed

text \<open>
  Frame allocation. Allocating returns the address of a frame that was free and is not frame 0,
  removes exactly that frame from the free ones and keeps the count of free frames right. It fails
  only when no frame other than frame 0 is free, and then changes nothing.
\<close>

theorem allocate_frame_correct:
  assumes "fa_wf a"
  shows "fa_wf (snd (allocate_frame a))
    \<and> (\<forall>addr. fst (allocate_frame a) = Some addr \<longrightarrow> (\<exists>i. addr = word_of_nat i * FRAME_SIZE \<and> 0 < i
        \<and> i \<in> free_set a \<and> free_set (snd (allocate_frame a)) = free_set a - {i}))
    \<and> (fst (allocate_frame a) = None \<longrightarrow> free_set a \<subseteq> {0} \<and> snd (allocate_frame a) = a)"
  using allocate_frame_cases [OF assms]
proof (elim disjE exE conjE)
  fix i
  assume i: "0 < i" "i \<in> free_set a" "allocate_frame a = (Some (word_of_nat i * FRAME_SIZE),
      (set_allocated i True a)\<lparr>fa_free_frames := fa_free_frames a - 1, fa_scan_hint := i + 1\<rparr>)"
  then show ?thesis using allocate_one_wf [OF assms i(2) refl, of "i + 1"] by auto
qed (use assms in auto)

text \<open>Marking a run of frames, in either direction.\<close>

lemma fold_set_allocated:
  assumes "length (fa_bitmap a) = BITMAP_BYTES" and "s + n \<le> MAX_TRACKED_FRAMES"
  shows "free_set (fold (\<lambda>off. set_allocated (s + off) True) [0..<n] a) = free_set a - {s..<s + n}
    \<and> length (fa_bitmap (fold (\<lambda>off. set_allocated (s + off) True) [0..<n] a)) = BITMAP_BYTES
    \<and> fa_max_frame_index (fold (\<lambda>off. set_allocated (s + off) True) [0..<n] a) = fa_max_frame_index a"
  using assms
proof (induction n)
  case (Suc n)
  let ?b = "fold (\<lambda>off. set_allocated (s + off) True) [0..<n] a"
  from Suc have IH: "free_set ?b = free_set a - {s..<s + n}" "length (fa_bitmap ?b) = BITMAP_BYTES"
    "fa_max_frame_index ?b = fa_max_frame_index a" and lt: "s + n < MAX_TRACKED_FRAMES" by auto
  have "free_set (set_allocated (s + n) True ?b) = free_set a - {s..<s + n} - {s + n}"
    using free_set_set_allocated [OF IH(2) lt, of True] IH(1) by simp
  also have "\<dots> = free_set a - {s..<s + Suc n}" by auto
  finally show ?case using IH by simp
qed simp

lemma release_frame_wf:
  assumes "fa_wf a" and "i < fa_max_frame_index a"
  shows "fa_wf (release_frame i a) \<and> free_set (release_frame i a) = insert i (free_set a)
    \<and> fa_max_frame_index (release_frame i a) = fa_max_frame_index a"
proof -
  have "i < MAX_TRACKED_FRAMES" using assms fa_wfD(2) by (meson order_less_le_trans)
  note fs = free_set_set_allocated [OF fa_wfD(1) [OF assms(1)] this, of False]
  show ?thesis
  proof (cases "is_allocated i a")
    case True
    then have "i \<notin> free_set a" by (simp add: free_set_def)
    then show ?thesis using True fs assms fa_wfD [OF assms(1)] by (simp add: release_frame_def fa_wf_def)
  next
    case False
    then have "i \<in> free_set a" using assms by (simp add: free_set_def)
    then show ?thesis using False assms by (simp add: release_frame_def insert_absorb)
  qed
qed

lemma fold_release_frame:
  assumes "fa_wf a" and "e \<le> fa_max_frame_index a"
  shows "fa_wf (fold release_frame [s..<e] a) \<and> free_set (fold release_frame [s..<e] a) = free_set a \<union> {s..<e}
    \<and> fa_max_frame_index (fold release_frame [s..<e] a) = fa_max_frame_index a"
  using assms
proof (induction e)
  case (Suc e)
  then show ?case
    using release_frame_wf [of "fold release_frame [s..<e] a" e]
    by (cases "s \<le> e") (auto simp: le_Suc_eq)
qed simp

lemma frame_index_of_address:
  assumes "s < MAX_TRACKED_FRAMES"
  shows "unat ((word_of_nat s * FRAME_SIZE) div FRAME_SIZE) = s"
proof -
  have "s * 4096 < 2 ^ LENGTH(64)" using assms by (simp add: MAX_TRACKED_FRAMES_eq)
  then have u: "unat (word_of_nat (s * 4096) :: u64) = s * 4096"
    by (simp only: unsigned_of_nat take_bit_nat_eq_self of_nat_id)
  have "word_of_nat s * FRAME_SIZE = word_of_nat (s * 4096)" by (simp add: FRAME_SIZE_def)
  moreover have "unat FRAME_SIZE = 4096" by (simp add: FRAME_SIZE_def)
  ultimately show ?thesis by (simp add: unat_div u del: of_nat_mult)
qed

lemma run_free:
  assumes "s + n \<le> fa_max_frame_index a"
  shows "\<not> list_ex (\<lambda>off. is_allocated (s + off) a) [0..<n] \<longleftrightarrow> {s..<s + n} \<subseteq> free_set a"
proof
  assume P: "\<not> list_ex (\<lambda>off. is_allocated (s + off) a) [0..<n]"
  show "{s..<s + n} \<subseteq> free_set a"
  proof
    fix x assume x: "x \<in> {s..<s + n}"
    then have "x = s + (x - s)" "x - s < n" by auto
    with P have "\<not> is_allocated x a" by (metis list_ex_iff atLeastLessThan_iff le0 set_upt)
    with x assms show "x \<in> free_set a" by (simp add: free_set_def)
  qed
qed (auto simp: list_ex_iff free_set_def subset_iff)

lemma contiguous_cases:
  assumes "fa_wf a" and "0 < n"
  shows "(allocate_contiguous_frames n a = (None, a)
      \<and> \<not> (\<exists>s > 0. s + n \<le> fa_max_frame_index a \<and> {s..<s + n} \<subseteq> free_set a))
    \<or> (\<exists>s > 0. s + n \<le> fa_max_frame_index a \<and> {s..<s + n} \<subseteq> free_set a
      \<and> allocate_contiguous_frames n a = (Some (word_of_nat s * FRAME_SIZE),
        (fold (\<lambda>off. set_allocated (s + off) True) [0..<n] a)
          \<lparr>fa_free_frames := fa_free_frames a - n, fa_scan_hint := s + n\<rparr>))"
    (is "?none \<or> ?some")
proof -
  let ?m = "fa_max_frame_index a"
  let ?P = "\<lambda>s. \<not> list_ex (\<lambda>off. is_allocated (s + off) a) [0..<n]"
  note run = run_free [where a = a and n = n]
  have few: "card {s..<s + n} \<le> fa_free_frames a" if "{s..<s + n} \<subseteq> free_set a" for s
    using card_mono [OF finite_free_set that] fa_wfD(4) [OF assms(1)] by simp
  show ?thesis
  proof (cases "n > fa_free_frames a \<or> ?m \<le> n")
    case True
    then have "?none"
      using few assms(2) fa_wfD(5) [OF assms(1)]
      by (fastforce simp: allocate_contiguous_frames_def Let_def)
    then show ?thesis ..
  next
    case False
    show ?thesis
    proof (cases "find ?P [1..<Suc (?m - n)]")
      case None
      then have np: "\<not> ?P s" if "s \<in> set [1..<Suc (?m - n)]" for s
        using that unfolding find_None_iff by blast
      have "s \<in> set [1..<Suc (?m - n)]" if "0 < s" "s + n \<le> ?m" for s
        using that by (simp del: upt_Suc)
      with np have "\<not> ?P s" if "0 < s" "s + n \<le> ?m" for s
        using that by blast
      then have "?none" using None False assms fa_wfD(5) [OF assms(1)] run
        by (auto simp: allocate_contiguous_frames_def Let_def simp del: upt_Suc)
      then show ?thesis ..
    next
      case (Some s)
      from find_SomeD [OF Some] False have s: "0 < s" "s + n \<le> ?m" "?P s" by auto
      then have "?some" using Some False assms fa_wfD(5) [OF assms(1)] run [OF s(2)]
        by (intro exI [of _ s]) (simp add: allocate_contiguous_frames_def Let_def del: upt_Suc)
      then show ?thesis ..
    qed
  qed
qed

lemma contiguous_wf:
  assumes "fa_wf a" and "s + n \<le> fa_max_frame_index a" and "{s..<s + n} \<subseteq> free_set a"
    and b: "b = (fold (\<lambda>off. set_allocated (s + off) True) [0..<n] a)
      \<lparr>fa_free_frames := fa_free_frames a - n, fa_scan_hint := k\<rparr>"
  shows "fa_wf b \<and> free_set b = free_set a - {s..<s + n} \<and> fa_max_frame_index b = fa_max_frame_index a"
proof -
  note f = fold_set_allocated [OF fa_wfD(1) [OF assms(1)] order_trans [OF assms(2) fa_wfD(2) [OF assms(1)]]]
  have "card (free_set a - {s..<s + n}) = card (free_set a) - n"
    using assms(3) by (simp add: card_Diff_subset)
  then show ?thesis using f fa_wfD [OF assms(1)] by (simp add: b fa_wf_def)
qed

text \<open>
  Contiguous runs. Allocating \<open>n\<close> frames finds a run whenever one exists above frame 0, takes
  exactly the frames of a run that was free, and keeps the count of free frames right; freeing the
  run at the returned address gives back exactly the free frames there were before.
\<close>

theorem contiguous_alloc_free:
  assumes "fa_wf a" and "0 < n"
  shows "(fst (allocate_contiguous_frames n a) = None \<longleftrightarrow>
      \<not> (\<exists>s > 0. s + n \<le> fa_max_frame_index a \<and> {s..<s + n} \<subseteq> free_set a))
    \<and> (\<forall>addr b. allocate_contiguous_frames n a = (Some addr, b) \<longrightarrow>
      fa_wf b \<and> (\<exists>s > 0. addr = word_of_nat s * FRAME_SIZE \<and> {s..<s + n} \<subseteq> free_set a
        \<and> free_set b = free_set a - {s..<s + n})
      \<and> fa_wf (free_contiguous_frames addr n b)
      \<and> free_set (free_contiguous_frames addr n b) = free_set a)"
  using contiguous_cases [OF assms(1,2)]
proof (elim disjE exE conjE)
  fix s
  let ?b = "(fold (\<lambda>off. set_allocated (s + off) True) [0..<n] a)
    \<lparr>fa_free_frames := fa_free_frames a - n, fa_scan_hint := s + n\<rparr>"
  assume s: "0 < s" "s + n \<le> fa_max_frame_index a" "{s..<s + n} \<subseteq> free_set a"
    and al: "allocate_contiguous_frames n a = (Some (word_of_nat s * FRAME_SIZE), ?b)"
  note b = contiguous_wf [OF assms(1) s(2,3) refl, of "s + n"]
  have lt: "s < MAX_TRACKED_FRAMES" using s(2) assms(2) fa_wfD(2) [OF assms(1)] by simp
  have "usize_sat_add s n = s + n" using s(2) fa_wfD(2) [OF assms(1)]
    by (simp add: usize_sat_add_def MAX_TRACKED_FRAMES_eq)
  then have "free_contiguous_frames (word_of_nat s * FRAME_SIZE) n ?b = fold release_frame [s..<s + n] ?b"
    using s b assms(2) by (simp add: free_contiguous_frames_def Let_def frame_index_of_address [OF lt])
  moreover note fold_release_frame [of ?b "s + n" s]
  moreover have "free_set a - {s..<s + n} \<union> {s..<s + n} = free_set a" using s(3) by blast
  ultimately show ?thesis using al b s by auto
qed (auto)

section \<open>Initialisation and reachable states\<close>

definition region_frames :: "memory_region \<Rightarrow> nat set" where
  "region_frames r = (if mr_usable r
    then {unat ((if mr_start r = 0 then FRAME_SIZE else mr_start r) div FRAME_SIZE)
      ..<unat (min (mr_end r) MAX_TRACKED_PHYSICAL_MEMORY div FRAME_SIZE)} else {})"

definition clear_frames :: "bitmap_allocator \<Rightarrow> nat set" where
  "clear_frames a = {i. i < MAX_TRACKED_FRAMES \<and> \<not> is_allocated i a}"

definition init_inv :: "nat set \<Rightarrow> bitmap_allocator \<Rightarrow> bool" where
  "init_inv S a \<longleftrightarrow> length (fa_bitmap a) = BITMAP_BYTES \<and> clear_frames a = S
    \<and> fa_free_frames a = card S \<and> fa_total_frames a = card S"

lemma finite_clear_frames [simp]: "finite (clear_frames a)"
  by (simp add: clear_frames_def)

lemma init_frame_inv:
  assumes "init_inv S a" and "i < MAX_TRACKED_FRAMES"
  shows "init_inv (insert i S) (init_frame i a) \<and> fa_max_frame_index (init_frame i a) = fa_max_frame_index a"
proof -
  from assms have len: "length (fa_bitmap a) = BITMAP_BYTES" and S: "clear_frames a = S"
    by (auto simp: init_inv_def)
  note al = is_allocated_set_allocated [OF in_range [OF len assms(2)]]
  have fin: "finite S" using S finite_clear_frames by metis
  show ?thesis
  proof (cases "is_allocated i a")
    case True
    then have "i \<notin> S" using S by (auto simp: clear_frames_def)
    moreover have "clear_frames (init_frame i a) = insert i S"
      using True S assms(2) by (auto simp: init_frame_def clear_frames_def al)
    ultimately show ?thesis using True assms(1) len fin by (simp add: init_inv_def init_frame_def)
  next
    case False
    then have "i \<in> S" using S assms(2) by (auto simp: clear_frames_def)
    then show ?thesis using False assms(1) by (simp add: init_frame_def insert_absorb)
  qed
qed

lemma fold_init_frame:
  assumes "init_inv S a" and "e \<le> MAX_TRACKED_FRAMES"
  shows "init_inv (S \<union> {s..<e}) (fold init_frame [s..<e] a)
    \<and> fa_max_frame_index (fold init_frame [s..<e] a) = fa_max_frame_index a"
  using assms
proof (induction e)
  case (Suc e)
  show ?case
  proof (cases "s \<le> e")
    case True
    have "insert e (S \<union> {s..<e}) = S \<union> {s..<Suc e}" using True by auto
    then show ?thesis
      using Suc True init_frame_inv [of "S \<union> {s..<e}" "fold init_frame [s..<e] a" e] by simp
  qed (use Suc in simp)
qed simp

lemma end_frame_le: "unat (min x MAX_TRACKED_PHYSICAL_MEMORY div FRAME_SIZE) \<le> MAX_TRACKED_FRAMES"
proof -
  have "unat (min x MAX_TRACKED_PHYSICAL_MEMORY) \<le> unat MAX_TRACKED_PHYSICAL_MEMORY"
    by (simp add: word_le_nat_alt [symmetric])
  then show ?thesis by (simp add: MAX_TRACKED_FRAMES_def unat_div div_le_mono)
qed

lemma init_region_inv:
  assumes "init_inv S a" and "S \<subseteq> {..<fa_max_frame_index a}" and "fa_max_frame_index a \<le> MAX_TRACKED_FRAMES"
    and "0 < fa_max_frame_index a" and b: "b = init_region r a"
  shows "init_inv (S \<union> region_frames r) b \<and> S \<union> region_frames r \<subseteq> {..<fa_max_frame_index b}
    \<and> fa_max_frame_index b \<le> MAX_TRACKED_FRAMES \<and> 0 < fa_max_frame_index b"
proof (cases "mr_usable r")
  case True
  have upd: "init_inv T (c\<lparr>fa_max_frame_index := k\<rparr>) = init_inv T c" for T c k
    by (simp add: init_inv_def clear_frames_def)
  show ?thesis
    using True assms fold_init_frame [OF assms(1) end_frame_le [of "mr_end r"]]
    by (auto simp: init_region_def region_frames_def Let_def upd end_frame_le)
qed (use assms in \<open>simp add: init_region_def region_frames_def\<close>)

lemma fold_init_region:
  assumes "init_inv S a" and "S \<subseteq> {..<fa_max_frame_index a}" and "fa_max_frame_index a \<le> MAX_TRACKED_FRAMES"
    and "0 < fa_max_frame_index a"
  shows "let b = fold init_region rs a in init_inv (S \<union> \<Union> (region_frames ` set rs)) b
    \<and> S \<union> \<Union> (region_frames ` set rs) \<subseteq> {..<fa_max_frame_index b}
    \<and> fa_max_frame_index b \<le> MAX_TRACKED_FRAMES \<and> 0 < fa_max_frame_index b"
  using assms
proof (induction rs arbitrary: S a)
  case (Cons r rs)
  note step = init_region_inv [OF Cons.prems refl, of r]
  show ?case
    using Cons.IH [of "S \<union> region_frames r" "init_region r a"] step
    by (simp add: Un_assoc)
qed simp

lemma allocator_init_frames:
  "fa_wf (allocator_init rs) \<and> free_set (allocator_init rs) = \<Union> (region_frames ` set rs)
    \<and> fa_total_frames (allocator_init rs) = card (\<Union> (region_frames ` set rs))"
proof -
  let ?a = "\<lparr>fa_bitmap = replicate BITMAP_BYTES 0xFF, fa_total_frames = 0, fa_free_frames = 0,
    fa_scan_hint = 1, fa_max_frame_index = 1\<rparr> :: bitmap_allocator"
  have ff: "(0xFF :: u8) = - 1" by simp
  have "is_allocated i ?a" if "i < MAX_TRACKED_FRAMES" for i
    using in_range [of ?a i] that unfolding ff by (simp add: is_allocated_bit)
  then have "init_inv {} ?a" by (auto simp: init_inv_def clear_frames_def)
  from fold_init_region [OF this, of rs]
  have b: "init_inv (\<Union> (region_frames ` set rs)) (allocator_init rs)"
    "\<Union> (region_frames ` set rs) \<subseteq> {..<fa_max_frame_index (allocator_init rs)}"
    "fa_max_frame_index (allocator_init rs) \<le> MAX_TRACKED_FRAMES" "0 < fa_max_frame_index (allocator_init rs)"
    by (auto simp: allocator_init_def Let_def MAX_TRACKED_FRAMES_eq)
  then have "free_set (allocator_init rs) = \<Union> (region_frames ` set rs)"
    by (auto simp: init_inv_def clear_frames_def free_set_def)
  then show ?thesis using b by (auto simp: fa_wf_def init_inv_def)
qed

inductive fa_step :: "bitmap_allocator \<Rightarrow> bitmap_allocator \<Rightarrow> bool" where
  fa_allocate: "fa_step a (snd (allocate_frame a))"
| fa_contiguous: "fa_step a (snd (allocate_contiguous_frames n a))"
| fa_free: "fa_step a (free_frame address a)"
| fa_free_contiguous: "fa_step a (free_contiguous_frames address n a)"

lemma fa_step_wf:
  assumes "fa_step a b" and "fa_wf a"
  shows "fa_wf b"
  using assms
proof cases
  case fa_allocate
  then show ?thesis
    using allocate_frame_cases [OF assms(2)]
    by (elim disjE exE conjE) (simp_all add: assms(2) allocate_one_wf [OF assms(2) _ refl, unfolded One_nat_def])
next
  case (fa_contiguous n)
  show ?thesis
  proof (cases "n = 0")
    case False
    then have "0 < n" by simp
    from contiguous_cases [OF assms(2) this] fa_contiguous show ?thesis
      by (elim disjE exE conjE) (simp_all add: assms(2) contiguous_wf [OF assms(2) _ _ refl])
  qed (use fa_contiguous assms(2) in \<open>simp add: allocate_contiguous_frames_def\<close>)
next
  case (fa_free address)
  then show ?thesis
    using release_frame_wf [OF assms(2)] assms(2) by (simp add: free_frame_def Let_def)
next
  case (fa_free_contiguous address n)
  then show ?thesis
    using fold_release_frame [OF assms(2)] assms(2) by (simp add: free_contiguous_frames_def Let_def)
qed

text \<open>
  C32. The allocator from boot on. Initialisation frees exactly the frames of the usable regions below
  4 GiB, without frame 0 of a region that starts at address 0, and counts each once even where
  regions overlap. After any sequence of allocations and releases the count of free frames is the
  number of clear bits and no bit outside the bitmap is used.
\<close>

theorem frame_allocator_reachable:
  assumes "fa_step\<^sup>*\<^sup>* (allocator_init rs) a"
  shows "free_set (allocator_init rs) = \<Union> (region_frames ` set rs)
    \<and> fa_total_frames (allocator_init rs) = card (free_set (allocator_init rs)) \<and> fa_wf a"
  using assms
proof (induction rule: rtranclp_induct)
  case base
  then show ?case using allocator_init_frames [of rs] by simp
next
  case (step b c)
  then show ?case using fa_step_wf by blast
qed

text \<open>Two usable frames, 1 and 2, behind the unusable frame 0.\<close>

definition sample_regions :: "memory_region list" where
  "sample_regions = [\<lparr>mr_start = 0, mr_end = 12288, mr_usable = True\<rparr>,
    \<lparr>mr_start = 12288, mr_end = 16384, mr_usable = False\<rparr>]"

lemma sample_regions_free: "free_set (allocator_init sample_regions) = {1, 2}"
proof -
  have "\<Union> (region_frames ` set sample_regions) = {1..<3}"
    by (simp add: sample_regions_def region_frames_def FRAME_SIZE_def MAX_TRACKED_PHYSICAL_MEMORY_def)
  also have "{1..<3} = {1, 2 :: nat}" by auto
  finally show ?thesis using allocator_init_frames by simp
qed

theorem allocate_frame_correct_witness:
  "fst (allocate_frame (allocator_init sample_regions)) \<noteq> None
    \<and> fa_wf (snd (allocate_frame (allocator_init sample_regions)))"
proof -
  have "fa_wf (allocator_init sample_regions)" using allocator_init_frames by blast
  from allocate_frame_correct [OF this] show ?thesis by (simp add: sample_regions_free)
qed

theorem contiguous_alloc_free_witness:
  "\<exists>addr b. allocate_contiguous_frames 2 (allocator_init sample_regions) = (Some addr, b)
    \<and> free_set (free_contiguous_frames addr 2 b) = {1, 2}"
proof -
  let ?a = "allocator_init sample_regions"
  have wf: "fa_wf ?a" using allocator_init_frames by blast
  note c = contiguous_alloc_free [OF wf, of 2, unfolded sample_regions_free]
  have "2 \<in> free_set ?a" by (simp add: sample_regions_free)
  then have "1 + 2 \<le> fa_max_frame_index ?a" by (simp add: free_set_def)
  moreover have "{1..<1 + 2} \<subseteq> {1, 2 :: nat}" by auto
  ultimately have "fst (allocate_contiguous_frames 2 ?a) \<noteq> None"
    using c by (metis zero_less_numeral zero_less_one)
  then obtain addr where "fst (allocate_contiguous_frames 2 ?a) = Some addr" by blast
  then have eq: "allocate_contiguous_frames 2 ?a = (Some addr, snd (allocate_contiguous_frames 2 ?a))"
    by (metis prod.collapse)
  with c have "free_set (free_contiguous_frames addr 2 (snd (allocate_contiguous_frames 2 ?a))) = {1, 2}"
    by simp
  with eq show ?thesis by blast
qed

theorem frame_allocator_reachable_witness:
  "fa_total_frames (allocator_init sample_regions) = 2
    \<and> fa_wf (free_frame 4096 (snd (allocate_frame (allocator_init sample_regions))))"
proof -
  let ?a = "allocator_init sample_regions"
  have "fa_step\<^sup>*\<^sup>* ?a (free_frame 4096 (snd (allocate_frame ?a)))"
    by (meson fa_step.intros rtranclp.intros)
  from frame_allocator_reachable [OF this] show ?thesis by (simp add: sample_regions_free)
qed

end
