(* ===== verification/Block_Cache.thy ===== *)
theory Block_Cache
  imports Fs_Path
begin

text \<open>
  The disk below the file system: the virtio block device (\<open>kernel/src/disk/virtio_blk.rs\<close>), the
  write-through sector cache (\<open>disk/cache.rs\<close>) and the pair of both (\<open>Disk\<close> of \<open>disk/mod.rs\<close>).

  The hardware is the content of the sectors and a list of outcomes, one for each coming request:
  the status byte the device reports and, for a write it reports as failed, what it leaves in the
  sector. Requests beyond the list succeed. The virtqueue protocol of \<open>do_request\<close> is not modelled;
  a read returns the bytes instead of filling a buffer, of which only the length is passed.
\<close>

datatype disk_error = DeviceNotFound | UnsupportedDevice string | InitFailed string
  | DiskOutOfMemory | OutOfBounds | BufferTooSmall | DeviceError | FormatError | CorruptedData
  | DiskFull | DiskFileNotFound | FilesystemError fs_error

definition disk_error_display :: "disk_error \<Rightarrow> string" where
  "disk_error_display e = (case e of
     DeviceNotFound \<Rightarrow> ''no virtio-blk device found''
   | UnsupportedDevice reason \<Rightarrow> ''unsupported disk device: '' @ reason
   | InitFailed reason \<Rightarrow> ''disk initialization failed: '' @ reason
   | DiskOutOfMemory \<Rightarrow> ''disk DMA allocation failed''
   | OutOfBounds \<Rightarrow> ''disk sector request is out of bounds''
   | BufferTooSmall \<Rightarrow> ''disk buffer is smaller than the request''
   | DeviceError \<Rightarrow> ''virtio-blk device reported an I/O error''
   | FormatError \<Rightarrow> ''disk does not contain a valid WarFS volume''
   | CorruptedData \<Rightarrow> ''disk metadata is corrupted''
   | DiskFull \<Rightarrow> ''disk is full''
   | DiskFileNotFound \<Rightarrow> ''file not found on disk''
   | FilesystemError error \<Rightarrow> ''filesystem error: '' @ fs_error_display error)"

definition SECTOR_SIZE :: nat where "SECTOR_SIZE = 512"

record virtio_blk =
  vb_capacity_sectors :: u64
  vb_data :: "u64 \<Rightarrow> u8 list"
  vb_outcomes :: "(u8 \<times> u8 list) list"

definition next_outcome :: "virtio_blk \<Rightarrow> (u8 \<times> u8 list) \<times> virtio_blk" where
  "next_outcome d = (case vb_outcomes d of
     [] \<Rightarrow> ((0, []), d) | r # rs \<Rightarrow> (r, d\<lparr>vb_outcomes := rs\<rparr>))"

definition request_in :: "u64 \<Rightarrow> virtio_blk \<Rightarrow> (disk_error + u8 list) \<times> virtio_blk" where
  "request_in sector d =
    (let ((status, _), d') = next_outcome d in
     if status \<noteq> 0 then (Err DeviceError, d') else (Ok (vb_data d' sector), d'))"

definition request_out :: "u64 \<Rightarrow> u8 list \<Rightarrow> virtio_blk \<Rightarrow> (disk_error + unit) \<times> virtio_blk" where
  "request_out sector buffer d =
    (if length buffer \<noteq> SECTOR_SIZE then (Err BufferTooSmall, d)
     else
       let ((status, left), d') = next_outcome d in
       if status \<noteq> 0 then (Err DeviceError, d'\<lparr>vb_data := (vb_data d')(sector := left)\<rparr>)
       else (Ok (), d'\<lparr>vb_data := (vb_data d')(sector := buffer)\<rparr>))"

definition validate_request :: "u64 \<Rightarrow> u32 \<Rightarrow> nat \<Rightarrow> virtio_blk \<Rightarrow> disk_error + unit" where
  "validate_request sector n buffer_len d =
    (if sat_add sector (ucast n) > vb_capacity_sectors d then Err OutOfBounds
     else if buffer_len < unat n * SECTOR_SIZE then Err BufferTooSmall
     else Ok ())"

fun vb_read_loop :: "u64 \<Rightarrow> nat \<Rightarrow> virtio_blk \<Rightarrow> (disk_error + u8 list) \<times> virtio_blk" where
  "vb_read_loop sector 0 d = (Ok [], d)"
| "vb_read_loop sector (Suc n) d =
    (case request_in sector d of
       (Inl e, d') \<Rightarrow> (Err e, d')
     | (Inr bytes, d') \<Rightarrow>
         (case vb_read_loop (sector + 1) n d' of
            (Inl e, d'') \<Rightarrow> (Err e, d'')
          | (Inr rest, d'') \<Rightarrow> (Ok (bytes @ rest), d'')))"

definition vb_read_sectors ::
  "u64 \<Rightarrow> u32 \<Rightarrow> nat \<Rightarrow> virtio_blk \<Rightarrow> (disk_error + u8 list) \<times> virtio_blk" where
  "vb_read_sectors sector n buffer_len d =
    (case validate_request sector n buffer_len d of
       Inl e \<Rightarrow> (Err e, d) | Inr _ \<Rightarrow> vb_read_loop sector (unat n) d)"

fun vb_write_loop :: "u64 \<Rightarrow> nat \<Rightarrow> u8 list \<Rightarrow> virtio_blk \<Rightarrow> (disk_error + unit) \<times> virtio_blk" where
  "vb_write_loop sector 0 buffer d = (Ok (), d)"
| "vb_write_loop sector (Suc n) buffer d =
    (case request_out sector (take SECTOR_SIZE buffer) d of
       (Inl e, d') \<Rightarrow> (Err e, d')
     | (Inr _, d') \<Rightarrow> vb_write_loop (sector + 1) n (drop SECTOR_SIZE buffer) d')"

definition vb_write_sectors ::
  "u64 \<Rightarrow> u32 \<Rightarrow> u8 list \<Rightarrow> virtio_blk \<Rightarrow> (disk_error + unit) \<times> virtio_blk" where
  "vb_write_sectors sector n buffer d =
    (case validate_request sector n (length buffer) d of
       Inl e \<Rightarrow> (Err e, d) | Inr _ \<Rightarrow> vb_write_loop sector (unat n) buffer d)"

section \<open>The cache\<close>

record cache_entry =
  ce_sector :: u64
  ce_data :: "u8 list"
  ce_dirty :: bool
  ce_generation :: u64

record block_cache =
  bc_entries :: "cache_entry list"
  bc_capacity :: nat
  bc_generation :: u64

definition block_cache_new :: "nat \<Rightarrow> block_cache" where
  "block_cache_new capacity = \<lparr>bc_entries = [], bc_capacity = capacity, bc_generation = 0\<rparr>"

definition cache_clear :: "block_cache \<Rightarrow> block_cache" where
  "cache_clear c = c\<lparr>bc_entries := [], bc_generation := 0\<rparr>"

definition cache_flush :: "block_cache \<Rightarrow> block_cache" where
  "cache_flush c = c\<lparr>bc_entries := map (\<lambda>e. e\<lparr>ce_dirty := False\<rparr>) (bc_entries c)\<rparr>"

definition next_generation :: "block_cache \<Rightarrow> u64 \<times> block_cache" where
  "next_generation c = (bc_generation c + 1, c\<lparr>bc_generation := bc_generation c + 1\<rparr>)"

text \<open>\<open>min_by_key\<close> returns the first of the entries with the least generation.\<close>

definition victim_index :: "cache_entry list \<Rightarrow> nat option" where
  "victim_index es =
    find_index (\<lambda>e. list_all (\<lambda>x. ce_generation e \<le> ce_generation x) es) es"

definition cache_insert :: "u64 \<Rightarrow> u8 list \<Rightarrow> bool \<Rightarrow> u64 \<Rightarrow> block_cache \<Rightarrow> block_cache" where
  "cache_insert sector data dirty generation c =
    (let entry = \<lparr>ce_sector = sector, ce_data = data, ce_dirty = dirty, ce_generation = generation\<rparr> in
     if list_ex (\<lambda>e. ce_sector e = sector) (bc_entries c)
     then c\<lparr>bc_entries := update_first (\<lambda>e. ce_sector e = sector)
       (\<lambda>e. e\<lparr>ce_data := data, ce_dirty := dirty, ce_generation := generation\<rparr>) (bc_entries c)\<rparr>
     else if length (bc_entries c) < bc_capacity c then c\<lparr>bc_entries := bc_entries c @ [entry]\<rparr>
     else (case victim_index (bc_entries c) of
         None \<Rightarrow> c
       | Some i \<Rightarrow> c\<lparr>bc_entries := (bc_entries c)[i := entry]\<rparr>))"

record disk =
  dk_device :: virtio_blk
  dk_cache :: block_cache

definition DEFAULT_CACHE_SECTORS :: nat where "DEFAULT_CACHE_SECTORS = 64"

definition disk_new :: "virtio_blk \<Rightarrow> disk" where
  "disk_new device = \<lparr>dk_device = device, dk_cache = block_cache_new DEFAULT_CACHE_SECTORS\<rparr>"

definition read_sector :: "u64 \<Rightarrow> disk \<Rightarrow> (disk_error + u8 list) \<times> disk" where
  "read_sector sector d =
    (let (generation, c) = next_generation (dk_cache d) in
     case find (\<lambda>e. ce_sector e = sector) (bc_entries c) of
       Some entry \<Rightarrow> (Ok (ce_data entry), d\<lparr>dk_cache := c\<lparr>bc_entries :=
         update_first (\<lambda>e. ce_sector e = sector) (\<lambda>e. e\<lparr>ce_generation := generation\<rparr>) (bc_entries c)\<rparr>\<rparr>)
     | None \<Rightarrow>
         (case vb_read_sectors sector 1 SECTOR_SIZE (dk_device d) of
            (Inl e, dev) \<Rightarrow> (Err e, d\<lparr>dk_device := dev, dk_cache := c\<rparr>)
          | (Inr bytes, dev) \<Rightarrow> (Ok bytes,
              d\<lparr>dk_device := dev, dk_cache := cache_insert sector bytes False generation c\<rparr>)))"

definition write_sector :: "u64 \<Rightarrow> u8 list \<Rightarrow> disk \<Rightarrow> (disk_error + unit) \<times> disk" where
  "write_sector sector data d =
    (case vb_write_sectors sector 1 data (dk_device d) of
       (Inl e, dev) \<Rightarrow> (Err e, d\<lparr>dk_device := dev\<rparr>)
     | (Inr _, dev) \<Rightarrow>
         (let (generation, c) = next_generation (dk_cache d) in
          (Ok (), d\<lparr>dk_device := dev, dk_cache := cache_insert sector data False generation c\<rparr>)))"

fun read_loop :: "u64 \<Rightarrow> nat \<Rightarrow> disk \<Rightarrow> (disk_error + u8 list) \<times> disk" where
  "read_loop sector 0 d = (Ok [], d)"
| "read_loop sector (Suc n) d =
    (case read_sector sector d of
       (Inl e, d') \<Rightarrow> (Err e, d')
     | (Inr bytes, d') \<Rightarrow>
         (case read_loop (sector + 1) n d' of
            (Inl e, d'') \<Rightarrow> (Err e, d'')
          | (Inr rest, d'') \<Rightarrow> (Ok (bytes @ rest), d'')))"

definition read_sectors :: "u64 \<Rightarrow> u32 \<Rightarrow> nat \<Rightarrow> disk \<Rightarrow> (disk_error + u8 list) \<times> disk" where
  "read_sectors sector n buffer_len d =
    (if buffer_len < unat n * SECTOR_SIZE then (Err BufferTooSmall, d)
     else read_loop sector (unat n) d)"

fun write_loop :: "u64 \<Rightarrow> nat \<Rightarrow> u8 list \<Rightarrow> disk \<Rightarrow> (disk_error + unit) \<times> disk" where
  "write_loop sector 0 buffer d = (Ok (), d)"
| "write_loop sector (Suc n) buffer d =
    (case write_sector sector (take SECTOR_SIZE buffer) d of
       (Inl e, d') \<Rightarrow> (Err e, d')
     | (Inr _, d') \<Rightarrow> write_loop (sector + 1) n (drop SECTOR_SIZE buffer) d')"

definition write_sectors :: "u64 \<Rightarrow> u32 \<Rightarrow> u8 list \<Rightarrow> disk \<Rightarrow> (disk_error + unit) \<times> disk" where
  "write_sectors sector n buffer d =
    (if length buffer < unat n * SECTOR_SIZE then (Err BufferTooSmall, d)
     else write_loop sector (unat n) buffer d)"

definition disk_flush :: "disk \<Rightarrow> (disk_error + unit) \<times> disk" where
  "disk_flush d = (Ok (), d\<lparr>dk_cache := cache_flush (dk_cache d)\<rparr>)"

definition reset_cache :: "disk \<Rightarrow> disk" where
  "reset_cache d = d\<lparr>dk_cache := cache_clear (dk_cache d)\<rparr>"

section \<open>The contract of a sector store\<close>

text \<open>
  What the layers above rely on: a read leaves the content alone and returns it, a successful write
  changes one sector. Both the bare device and the cached disk keep this contract.
\<close>

locale sector_store =
  fixes rd :: "u64 \<Rightarrow> 's \<Rightarrow> (disk_error + u8 list) \<times> 's"
    and wr :: "u64 \<Rightarrow> u8 list \<Rightarrow> 's \<Rightarrow> (disk_error + unit) \<times> 's"
    and content :: "'s \<Rightarrow> u64 \<Rightarrow> u8 list"
    and inv :: "'s \<Rightarrow> bool"
  assumes rd_content: "inv s \<Longrightarrow> rd k s = (r, s') \<Longrightarrow> inv s' \<and> content s' = content s"
    and rd_result: "inv s \<Longrightarrow> rd k s = (Inr b, s') \<Longrightarrow> b = content s k"
    and wr_content: "inv s \<Longrightarrow> length b = SECTOR_SIZE \<Longrightarrow> wr k b s = (Inr u, s') \<Longrightarrow>
      inv s' \<and> content s' = (content s)(k := b)"
begin

inductive run :: "(u64 \<times> u8 list) list \<Rightarrow> 's \<Rightarrow> 's \<Rightarrow> bool" where
  run_nil: "run [] s s"
| run_read: "run ws s s' \<Longrightarrow> rd k s' = (r, s'') \<Longrightarrow> run ws s s''"
| run_write: "run ws s s' \<Longrightarrow> length b = SECTOR_SIZE \<Longrightarrow> wr k b s' = (Inr u, s'') \<Longrightarrow>
    run (ws @ [(k, b)]) s s''"

lemma run_content:
  assumes "run ws s s'" and "inv s"
  shows "inv s' \<and> content s' = foldl (\<lambda>c (k, b). c(k := b)) (content s) ws"
  using assms by (induction rule: run.induct) (auto dest: rd_content wr_content)

lemma read_after_run:
  assumes "run ws s s'" and "inv s" and "rd k s' = (Inr b, s'')"
  shows "b = foldl (\<lambda>c (k, b). c(k := b)) (content s) ws k"
proof -
  from run_content [OF assms(1,2)] have "inv s'" and c: "content s' = foldl (\<lambda>c (k, b). c(k := b)) (content s) ws"
    by auto
  from rd_result [OF this(1) assms(3)] c show ?thesis by simp
qed

end

definition vb_wf :: "virtio_blk \<Rightarrow> bool" where
  "vb_wf d \<longleftrightarrow> (\<forall>s. length (vb_data d s) = SECTOR_SIZE)"

definition device_read :: "u64 \<Rightarrow> virtio_blk \<Rightarrow> (disk_error + u8 list) \<times> virtio_blk" where
  "device_read sector d = vb_read_sectors sector 1 SECTOR_SIZE d"

definition device_write :: "u64 \<Rightarrow> u8 list \<Rightarrow> virtio_blk \<Rightarrow> (disk_error + unit) \<times> virtio_blk" where
  "device_write sector data d = vb_write_sectors sector 1 data d"

lemma next_outcome_data [simp]:
  "vb_data (snd (next_outcome d)) = vb_data d"
  "vb_capacity_sectors (snd (next_outcome d)) = vb_capacity_sectors d"
  by (auto simp: next_outcome_def split: list.splits)

lemma vb_read_one:
  assumes "vb_read_sectors k 1 n d = (r, d')"
  shows "vb_data d' = vb_data d \<and> (\<forall>b. r = Ok b \<longrightarrow> b = vb_data d k)"
  using assms next_outcome_data [of d]
  by (cases "next_outcome d")
    (auto simp: vb_read_sectors_def request_in_def split: sum.splits if_splits prod.splits)

lemma vb_write_one:
  assumes "vb_write_sectors k 1 b d = (r, d')" and "length b = SECTOR_SIZE"
  shows "(r = Ok () \<longrightarrow> vb_data d' = (vb_data d)(k := b)) \<and> (\<forall>j. j \<noteq> k \<longrightarrow> vb_data d' j = vb_data d j)"
  using assms next_outcome_data [of d]
  by (cases "next_outcome d")
    (auto simp: vb_write_sectors_def request_out_def split: sum.splits if_splits prod.splits)

interpretation dev: sector_store device_read device_write vb_data vb_wf
proof
  fix s :: virtio_blk and k r s'
  assume "vb_wf s" "device_read k s = (r, s')"
  then show "vb_wf s' \<and> vb_data s' = vb_data s"
    using vb_read_one by (auto simp: vb_wf_def device_read_def)
next
  fix s :: virtio_blk and k b s'
  assume "vb_wf s" "device_read k s = (Inr b, s')"
  then show "b = vb_data s k" using vb_read_one by (auto simp: device_read_def)
next
  fix s :: virtio_blk and k b s' and u :: unit
  assume "vb_wf s" "length b = SECTOR_SIZE" "device_write k b s = (Inr u, s')"
  then show "vb_wf s' \<and> vb_data s' = (vb_data s)(k := b)"
    using vb_write_one [of k b s "Inr u" s'] by (auto simp: vb_wf_def device_write_def)
qed

section \<open>The cache is invisible\<close>

definition cache_ok :: "(u64 \<Rightarrow> u8 list) \<Rightarrow> block_cache \<Rightarrow> bool" where
  "cache_ok m c \<longleftrightarrow> distinct (map ce_sector (bc_entries c)) \<and> length (bc_entries c) \<le> bc_capacity c
    \<and> (\<forall>e \<in> set (bc_entries c). ce_data e = m (ce_sector e))"

definition disk_wf :: "disk \<Rightarrow> bool" where
  "disk_wf d \<longleftrightarrow> vb_wf (dk_device d) \<and> cache_ok (vb_data (dk_device d)) (dk_cache d)"

abbreviation disk_content :: "disk \<Rightarrow> u64 \<Rightarrow> u8 list" where
  "disk_content d \<equiv> vb_data (dk_device d)"

lemma cache_ok_generation [simp]: "cache_ok m (c\<lparr>bc_generation := g\<rparr>) = cache_ok m c"
  by (simp add: cache_ok_def)

lemma victim_index_bound: "victim_index es = Some i \<Longrightarrow> i < length es"
proof -
  have "find_index P xs = Some i \<Longrightarrow> i < length xs" for P :: "cache_entry \<Rightarrow> bool" and xs
    by (induction xs arbitrary: i) (auto split: if_splits)
  then show "victim_index es = Some i \<Longrightarrow> i < length es" by (simp add: victim_index_def)
qed

lemma distinct_map_list_update:
  assumes "distinct (map f xs)" and "f y \<notin> f ` set xs"
  shows "distinct (map f (xs[i := y]))"
  using assms by (simp add: map_update distinct_list_update)

lemma cache_insert_ok:
  assumes "cache_ok m c"
  shows "cache_ok (m(k := b)) (cache_insert k b dirty g c)"
proof (cases "list_ex (\<lambda>e. ce_sector e = k) (bc_entries c)")
  case True
  let ?f = "\<lambda>e. e\<lparr>ce_data := b, ce_dirty := dirty, ce_generation := g\<rparr>"
  let ?es = "update_first (\<lambda>e. ce_sector e = k) ?f (bc_entries c)"
  have dist: "distinct (map ce_sector (bc_entries c))" using assms by (simp add: cache_ok_def)
  have "map ce_sector ?es = map ce_sector (bc_entries c)" by (rule map_update_first_same) simp
  moreover have "\<forall>e \<in> set ?es. ce_data e = (m(k := b)) (ce_sector e)"
    unfolding update_first_map [OF dist] using assms by (auto simp: cache_ok_def)
  ultimately show ?thesis
    using True assms by (simp add: cache_insert_def cache_ok_def Let_def)
next
  case False
  then have new: "k \<notin> ce_sector ` set (bc_entries c)" by (auto simp: list_ex_iff)
  have keep: "\<forall>e \<in> set (bc_entries c). ce_data e = (m(k := b)) (ce_sector e)"
    using assms new by (auto simp: cache_ok_def)
  let ?n = "\<lparr>ce_sector = k, ce_data = b, ce_dirty = dirty, ce_generation = g\<rparr>"
  have "cache_ok (m(k := b)) (c\<lparr>bc_entries := (bc_entries c)[i := ?n]\<rparr>)" for i
  proof -
    have "distinct (map ce_sector ((bc_entries c)[i := ?n]))"
      using assms new by (intro distinct_map_list_update) (auto simp: cache_ok_def)
    moreover have "\<forall>e \<in> set ((bc_entries c)[i := ?n]). ce_data e = (m(k := b)) (ce_sector e)"
    proof
      fix e assume "e \<in> set ((bc_entries c)[i := ?n])"
      then have "e = ?n \<or> e \<in> set (bc_entries c)"
        using set_update_subset_insert [of "bc_entries c" i ?n] by blast
      then show "ce_data e = (m(k := b)) (ce_sector e)" using keep by auto
    qed
    ultimately show ?thesis using assms by (simp add: cache_ok_def)
  qed
  then show ?thesis
    using False assms new keep
    by (auto simp: cache_insert_def cache_ok_def Let_def split: option.splits)
qed

lemma disk_read_one:
  assumes "disk_wf d" and "read_sector k d = (r, d')"
  shows "disk_wf d' \<and> disk_content d' = disk_content d \<and> (\<forall>b. r = Ok b \<longrightarrow> b = disk_content d k)"
proof (cases "find (\<lambda>e. ce_sector e = k) (bc_entries (dk_cache d))")
  case None
  obtain r1 dev where v: "vb_read_sectors k 1 SECTOR_SIZE (dk_device d) = (r1, dev)" by fastforce
  note one = vb_read_one [OF v]
  have ok: "cache_ok (disk_content d) (dk_cache d)" and wf: "vb_wf dev"
    using assms(1) one by (auto simp: disk_wf_def vb_wf_def)
  show ?thesis
  proof (cases r1)
    case (Inl e)
    then show ?thesis using assms None v one ok wf
      by (auto simp: read_sector_def next_generation_def disk_wf_def)
  next
    case (Inr b)
    then have b: "b = disk_content d k" using one by simp
    let ?g = "bc_generation (dk_cache d) + 1"
    have "cache_ok ((disk_content d)(k := b)) (cache_insert k b False ?g (dk_cache d\<lparr>bc_generation := ?g\<rparr>))"
      by (rule cache_insert_ok) (simp add: ok)
    then have "cache_ok (disk_content d) (cache_insert k b False ?g (dk_cache d\<lparr>bc_generation := ?g\<rparr>))"
      unfolding b fun_upd_triv .
    moreover have "r = Ok b \<and> d' = d\<lparr>dk_device := dev,
        dk_cache := cache_insert k b False ?g (dk_cache d\<lparr>bc_generation := ?g\<rparr>)\<rparr>"
      using assms(2) None v Inr by (simp add: read_sector_def next_generation_def)
    ultimately show ?thesis using one wf b by (simp add: disk_wf_def)
  qed
next
  case (Some e)
  let ?es = "update_first (\<lambda>e. ce_sector e = k) (\<lambda>e. e\<lparr>ce_generation := bc_generation (dk_cache d) + 1\<rparr>) (bc_entries (dk_cache d))"
  have ok: "cache_ok (disk_content d) (dk_cache d)" using assms(1) by (simp add: disk_wf_def)
  then have "distinct (map ce_sector (bc_entries (dk_cache d)))" by (simp add: cache_ok_def)
  note u = update_first_map [OF this]
  have "map ce_sector ?es = map ce_sector (bc_entries (dk_cache d))" by (rule map_update_first_same) simp
  moreover have "\<forall>e \<in> set ?es. ce_data e = disk_content d (ce_sector e)"
    unfolding u using ok by (auto simp: cache_ok_def)
  ultimately have "cache_ok (disk_content d) (dk_cache d\<lparr>bc_generation := bc_generation (dk_cache d) + 1, bc_entries := ?es\<rparr>)"
    using ok by (simp add: cache_ok_def)
  moreover have "ce_data e = disk_content d k"
    using find_key_Some [OF Some] ok by (auto simp: cache_ok_def)
  moreover have "r = Ok (ce_data e) \<and> d' = d\<lparr>dk_cache := dk_cache d
      \<lparr>bc_generation := bc_generation (dk_cache d) + 1, bc_entries := ?es\<rparr>\<rparr>"
    using assms(2) Some by (simp add: read_sector_def next_generation_def)
  ultimately show ?thesis using assms(1) by (simp add: disk_wf_def)
qed

lemma disk_write_one:
  assumes "disk_wf d" and "length b = SECTOR_SIZE" and "write_sector k b d = (Inr u, d')"
  shows "disk_wf d' \<and> disk_content d' = (disk_content d)(k := b)"
proof -
  obtain r dev where v: "vb_write_sectors k 1 b (dk_device d) = (r, dev)" by fastforce
  let ?g = "bc_generation (dk_cache d) + 1"
  have r: "r = Ok ()" and d': "d' = d\<lparr>dk_device := dev,
      dk_cache := cache_insert k b False ?g (dk_cache d\<lparr>bc_generation := ?g\<rparr>)\<rparr>"
    using assms(3) v by (auto simp: write_sector_def next_generation_def split: sum.splits)
  have c: "vb_data dev = (disk_content d)(k := b)" using vb_write_one [OF v assms(2)] r by simp
  have "cache_ok ((disk_content d)(k := b)) (cache_insert k b False ?g (dk_cache d\<lparr>bc_generation := ?g\<rparr>))"
    using assms(1) by (intro cache_insert_ok) (simp add: disk_wf_def)
  moreover have "vb_wf dev" using assms(1,2) c by (simp add: disk_wf_def vb_wf_def)
  ultimately show ?thesis using c d' by (simp add: disk_wf_def)
qed

interpretation cached: sector_store read_sector write_sector disk_content disk_wf
proof
  fix s :: disk and k r s'
  assume "disk_wf s" "read_sector k s = (r, s')"
  then show "disk_wf s' \<and> disk_content s' = disk_content s" using disk_read_one by blast
next
  fix s :: disk and k b s'
  assume "disk_wf s" "read_sector k s = (Inr b, s')"
  then show "b = disk_content s k" using disk_read_one by blast
next
  fix s :: disk and k b s' and u :: unit
  assume "disk_wf s" "length b = SECTOR_SIZE" "write_sector k b s = (Inr u, s')"
  then show "disk_wf s' \<and> disk_content s' = (disk_content s)(k := b)" using disk_write_one by blast
qed

text \<open>The bytes of a run of sectors, and the content after a run has been written.\<close>

fun sectors_at :: "(u64 \<Rightarrow> u8 list) \<Rightarrow> u64 \<Rightarrow> nat \<Rightarrow> u8 list" where
  "sectors_at c k 0 = []"
| "sectors_at c k (Suc n) = c k @ sectors_at c (k + 1) n"

fun put_sectors :: "u64 \<Rightarrow> nat \<Rightarrow> u8 list \<Rightarrow> (u64 \<Rightarrow> u8 list) \<Rightarrow> u64 \<Rightarrow> u8 list" where
  "put_sectors k 0 buffer c = c"
| "put_sectors k (Suc n) buffer c =
    put_sectors (k + 1) n (drop SECTOR_SIZE buffer) (c(k := take SECTOR_SIZE buffer))"

lemma read_loop_content:
  assumes "disk_wf d" and "read_loop k n d = (r, d')"
  shows "disk_wf d' \<and> disk_content d' = disk_content d
    \<and> (\<forall>bs. r = Ok bs \<longrightarrow> bs = sectors_at (disk_content d) k n)"
  using assms
proof (induction n arbitrary: k d r d')
  case (Suc n)
  obtain r1 d1 where one: "read_sector k d = (r1, d1)" by fastforce
  note c = cached.rd_content [OF Suc.prems(1) one]
  show ?case
  proof (cases r1)
    case (Inl e)
    then show ?thesis using Suc.prems(2) one c by auto
  next
    case (Inr b)
    have b: "b = disk_content d k" using cached.rd_result [OF Suc.prems(1)] one Inr by blast
    obtain r2 d2 where rest: "read_loop (k + 1) n d1 = (r2, d2)" by fastforce
    have IH: "disk_wf d2 \<and> disk_content d2 = disk_content d1
        \<and> (\<forall>bs. r2 = Ok bs \<longrightarrow> bs = sectors_at (disk_content d1) (k + 1) n)"
      using Suc.IH [of d1 "k + 1" r2 d2] rest c by simp
    show ?thesis using Suc.prems(2) one Inr rest IH c b by (cases r2) auto
  qed
qed auto

lemma write_loop_content:
  assumes "disk_wf d" and "unat n * SECTOR_SIZE \<le> length buffer"
    and "write_loop k (unat n) buffer d = (Inr u, d')"
  shows "disk_wf d' \<and> disk_content d' = put_sectors k (unat n) buffer (disk_content d)"
proof -
  have "disk_wf d' \<and> disk_content d' = put_sectors k m buffer (disk_content d)"
    if "disk_wf d" "m * SECTOR_SIZE \<le> length buffer" "write_loop k m buffer d = (Inr u, d')" for m
    using that
  proof (induction m arbitrary: k buffer d)
    case (Suc m)
    obtain r1 d1 where one: "write_sector k (take SECTOR_SIZE buffer) d = (r1, d1)" by fastforce
    with Suc.prems(3) obtain v where r1: "r1 = Inr v" by (cases r1) auto
    have "length (take SECTOR_SIZE buffer) = SECTOR_SIZE" using Suc.prems(2) by simp
    from cached.wr_content [OF Suc.prems(1) this one [unfolded r1]]
      Suc.IH [of d1 "drop SECTOR_SIZE buffer" "k + 1"] Suc.prems one r1
    show ?case by (simp add: fun_upd_def)
  qed simp
  with assms show ?thesis by blast
qed

text \<open>
  C33. The cache is invisible. On a disk whose cache agrees with the device, a read of any run of
  sectors returns the bytes on the device, changes none of them, and keeps the agreement even when
  it fails half way; a write that succeeds changes exactly the sectors it names and keeps the
  agreement, whichever entries the cache evicts.
\<close>

theorem cache_transparent:
  assumes "disk_wf d"
  shows "(\<forall>r d'. read_sectors k n len d = (r, d') \<longrightarrow> disk_wf d' \<and> disk_content d' = disk_content d
      \<and> (\<forall>bs. r = Ok bs \<longrightarrow> bs = sectors_at (disk_content d) k (unat n)))
    \<and> (\<forall>d'. write_sectors k n buffer d = (Ok (), d') \<longrightarrow> disk_wf d'
      \<and> disk_content d' = put_sectors k (unat n) buffer (disk_content d))"
  using read_loop_content [OF assms] write_loop_content [OF assms, of n buffer k "()"] assms
  by (auto simp: read_sectors_def write_sectors_def split: if_splits)

definition sample_disk :: disk where
  "sample_disk = disk_new \<lparr>vb_capacity_sectors = 1000, vb_data = (\<lambda>_. replicate SECTOR_SIZE 0),
    vb_outcomes = []\<rparr>"

lemma sample_disk_wf: "disk_wf sample_disk"
  by (simp add: sample_disk_def disk_new_def disk_wf_def vb_wf_def cache_ok_def block_cache_new_def)

theorem cache_transparent_witness:
  "disk_content (snd (write_sectors 7 1 (replicate 512 1) sample_disk)) 7 = replicate 512 1
    \<and> disk_wf (snd (write_sectors 7 1 (replicate 512 1) sample_disk))"
proof -
  let ?b = "replicate 512 (1 :: u8)"
  have "fst (write_sectors 7 1 ?b sample_disk) = Ok ()"
    by (simp add: write_sectors_def write_sector_def vb_write_sectors_def validate_request_def sat_add_def
        sample_disk_def disk_new_def request_out_def next_outcome_def SECTOR_SIZE_def next_generation_def
        block_cache_new_def)
  then have "write_sectors 7 1 ?b sample_disk = (Ok (), snd (write_sectors 7 1 ?b sample_disk))"
    by (metis prod.collapse)
  with cache_transparent [OF sample_disk_wf, of 7 1 512 ?b]
  have "disk_wf (snd (write_sectors 7 1 ?b sample_disk))
    \<and> disk_content (snd (write_sectors 7 1 ?b sample_disk)) = put_sectors 7 (unat (1 :: u32)) ?b (disk_content sample_disk)"
    by blast
  then show ?thesis by (simp add: SECTOR_SIZE_def)
qed

end
