(* ===== verification/Disk_Format.thy ===== *)
theory Disk_Format
  imports Block_Cache
begin

text \<open>
  The on-disk format (\<open>kernel/src/disk/format.rs\<close>): one sector for the superblock, one for each of
  the 128 file entries, then blocks of 4096 bytes. The two structures are \<open>repr(C)\<close> and one sector
  wide; they are written byte by byte here, with the padding between fields zero. Readers never
  look at the padding. An operation on the disk returns its result and the disk.
\<close>

type_synonym 'a disk_op = "disk \<Rightarrow> (disk_error + 'a) \<times> disk"

definition WARFS_MAGIC :: u32 where "WARFS_MAGIC = 0x57415246"
definition WARFS_VERSION :: u16 where "WARFS_VERSION = 1"
definition BLOCK_SIZE :: nat where "BLOCK_SIZE = 4096"
definition SECTORS_PER_BLOCK :: u64 where "SECTORS_PER_BLOCK = 8"
definition MAX_FILENAME :: nat where "MAX_FILENAME = MAX_PATH_LEN"
definition FILE_TABLE_START_SECTOR :: u64 where "FILE_TABLE_START_SECTOR = 1"
definition DATA_START_SECTOR :: u64 where
  "DATA_START_SECTOR = FILE_TABLE_START_SECTOR + word_of_nat MAX_FILES"
definition FS_STATE_CLEAN :: u8 where "FS_STATE_CLEAN = 0"
definition FS_STATE_DIRTY :: u8 where "FS_STATE_DIRTY = 1"

record superblock =
  sb_magic :: u32
  sb_version :: u16
  sb_label :: "u8 list"
  sb_total_sectors :: u64
  sb_total_blocks :: u32
  sb_used_blocks :: u32
  sb_file_count :: u16
  sb_block_size :: u32
  sb_created_at :: u64
  sb_last_mount :: u64
  sb_mount_count :: u32
  sb_state :: u8
  sb_reserved :: "u8 list"

record disk_file_entry =
  de_active :: u8
  de_name :: "u8 list"
  de_size :: u64
  de_owner_uid :: u16
  de_perm_owner_read :: u8
  de_perm_owner_write :: u8
  de_perm_others_read :: u8
  de_perm_others_write :: u8
  de_readonly :: u8
  de_created_at :: u64
  de_modified_at :: u64
  de_start_block :: u32
  de_block_count :: u32
  de_reserved :: "u8 list"

definition superblock_bytes :: "superblock \<Rightarrow> u8 list" where
  "superblock_bytes s = to_le_bytes (sb_magic s) @ to_le_bytes (sb_version s) @ sb_label s @ [0, 0]
    @ to_le_bytes (sb_total_sectors s) @ to_le_bytes (sb_total_blocks s) @ to_le_bytes (sb_used_blocks s)
    @ to_le_bytes (sb_file_count s) @ [0, 0] @ to_le_bytes (sb_block_size s)
    @ to_le_bytes (sb_created_at s) @ to_le_bytes (sb_last_mount s) @ to_le_bytes (sb_mount_count s)
    @ [sb_state s] @ sb_reserved s"

definition superblock_of_bytes :: "u8 list \<Rightarrow> superblock" where
  "superblock_of_bytes b = \<lparr>sb_magic = int_at b 0, sb_version = int_at b 4, sb_label = bytes_at b 6 32,
    sb_total_sectors = int_at b 40, sb_total_blocks = int_at b 48, sb_used_blocks = int_at b 52,
    sb_file_count = int_at b 56, sb_block_size = int_at b 60, sb_created_at = int_at b 64,
    sb_last_mount = int_at b 72, sb_mount_count = int_at b 80, sb_state = b ! 84,
    sb_reserved = bytes_at b 85 427\<rparr>"

definition entry_bytes :: "disk_file_entry \<Rightarrow> u8 list" where
  "entry_bytes e = [de_active e] @ de_name e @ [0, 0, 0, 0, 0, 0, 0] @ to_le_bytes (de_size e)
    @ to_le_bytes (de_owner_uid e) @ [de_perm_owner_read e, de_perm_owner_write e,
       de_perm_others_read e, de_perm_others_write e, de_readonly e, 0]
    @ to_le_bytes (de_created_at e) @ to_le_bytes (de_modified_at e) @ to_le_bytes (de_start_block e)
    @ to_le_bytes (de_block_count e) @ de_reserved e"

definition entry_of_bytes :: "u8 list \<Rightarrow> disk_file_entry" where
  "entry_of_bytes b = \<lparr>de_active = b ! 0, de_name = bytes_at b 1 96, de_size = int_at b 104,
    de_owner_uid = int_at b 112, de_perm_owner_read = b ! 114, de_perm_owner_write = b ! 115,
    de_perm_others_read = b ! 116, de_perm_others_write = b ! 117, de_readonly = b ! 118,
    de_created_at = int_at b 120, de_modified_at = int_at b 128, de_start_block = int_at b 136,
    de_block_count = int_at b 140, de_reserved = bytes_at b 144 368\<rparr>"

definition superblock_is_valid :: "superblock \<Rightarrow> bool" where
  "superblock_is_valid s \<longleftrightarrow> sb_magic s = WARFS_MAGIC \<and> sb_version s = WARFS_VERSION"

definition superblock_new :: "u64 \<Rightarrow> u64 \<Rightarrow> superblock" where
  "superblock_new now total_sectors =
    (let data_sectors = sat_sub total_sectors DATA_START_SECTOR;
         name = as_bytes ''WarOS Disk''
     in \<lparr>sb_magic = WARFS_MAGIC, sb_version = WARFS_VERSION, sb_label = name @ replicate (32 - length name) 0,
         sb_total_sectors = total_sectors, sb_total_blocks = ucast (data_sectors div SECTORS_PER_BLOCK),
         sb_used_blocks = 0, sb_file_count = 0, sb_block_size = word_of_nat BLOCK_SIZE,
         sb_created_at = now, sb_last_mount = 0, sb_mount_count = 0, sb_state = FS_STATE_CLEAN,
         sb_reserved = replicate 427 0\<rparr>)"

definition entry_inactive :: disk_file_entry where
  "entry_inactive = \<lparr>de_active = 0, de_name = replicate MAX_FILENAME 0, de_size = 0, de_owner_uid = 0,
    de_perm_owner_read = 0, de_perm_owner_write = 0, de_perm_others_read = 0, de_perm_others_write = 0,
    de_readonly = 0, de_created_at = 0, de_modified_at = 0, de_start_block = 0, de_block_count = 0,
    de_reserved = replicate 368 0\<rparr>"

definition read_superblock :: "superblock disk_op" where
  "read_superblock = bind_op (read_sectors 0 1 SECTOR_SIZE) (\<lambda>buffer.
    let s = superblock_of_bytes buffer in
    if \<not> superblock_is_valid s then fail_op FormatError else return_op s)"

definition write_superblock :: "superblock \<Rightarrow> unit disk_op" where
  "write_superblock s = write_sectors 0 1 (superblock_bytes s)"

fun write_zero_sectors :: "u64 list \<Rightarrow> unit disk_op" where
  "write_zero_sectors [] = return_op ()"
| "write_zero_sectors (k # ks) =
    bind_op (write_sectors k 1 (replicate SECTOR_SIZE 0)) (\<lambda>_. write_zero_sectors ks)"

definition format_disk :: "u64 \<Rightarrow> unit disk_op" where
  "format_disk now d =
    bind_op (write_superblock (superblock_new now (vb_capacity_sectors (dk_device d)))) (\<lambda>_.
      write_zero_sectors (map (\<lambda>i. FILE_TABLE_START_SECTOR + word_of_nat i) [0..<MAX_FILES])) d"

definition mark_mounted :: "u64 \<Rightarrow> superblock disk_op" where
  "mark_mounted now = bind_op read_superblock (\<lambda>s.
    let s' = s\<lparr>sb_last_mount := now, sb_mount_count := sat_add (sb_mount_count s) 1, sb_state := FS_STATE_CLEAN\<rparr>
    in bind_op (write_superblock s') (\<lambda>_. return_op s'))"

definition set_superblock_state :: "u8 \<Rightarrow> unit disk_op" where
  "set_superblock_state state = bind_op read_superblock (\<lambda>s. write_superblock (s\<lparr>sb_state := state\<rparr>))"

definition read_file_entry :: "nat \<Rightarrow> disk_file_entry disk_op" where
  "read_file_entry index =
    (if index \<ge> MAX_FILES then fail_op OutOfBounds
     else bind_op (read_sectors (FILE_TABLE_START_SECTOR + word_of_nat index) 1 SECTOR_SIZE)
       (\<lambda>buffer. return_op (entry_of_bytes buffer)))"

definition write_file_entry :: "nat \<Rightarrow> disk_file_entry \<Rightarrow> unit disk_op" where
  "write_file_entry index entry =
    (if index \<ge> MAX_FILES then fail_op OutOfBounds
     else write_sectors (FILE_TABLE_START_SECTOR + word_of_nat index) 1 (entry_bytes entry))"

definition entry_name :: "disk_file_entry \<Rightarrow> disk_error + string" where
  "entry_name entry =
    (case str_from_utf8 (takeWhile (\<lambda>b. b \<noteq> 0) (de_name entry)) of
       None \<Rightarrow> Err CorruptedData | Some s \<Rightarrow> Ok s)"

definition block_count_for_len :: "nat \<Rightarrow> u32" where
  "block_count_for_len len = (if len = 0 then 0 else word_of_nat ((len + (BLOCK_SIZE - 1)) div BLOCK_SIZE))"

definition read_file_data :: "u32 \<Rightarrow> u32 \<Rightarrow> nat \<Rightarrow> u8 list disk_op" where
  "read_file_data start_block block_count buffer_len =
    (let total_sectors = ucast block_count * SECTORS_PER_BLOCK;
         start_sector = DATA_START_SECTOR + ucast start_block * SECTORS_PER_BLOCK
     in read_sectors start_sector (ucast total_sectors) buffer_len)"

definition write_file_data :: "u32 \<Rightarrow> u8 list \<Rightarrow> u32 disk_op" where
  "write_file_data start_block data =
    (let blocks_needed = block_count_for_len (length data) in
     if blocks_needed = 0 then return_op 0
     else
       let start_sector = DATA_START_SECTOR + ucast start_block * SECTORS_PER_BLOCK;
           padded = data @ replicate (unat blocks_needed * BLOCK_SIZE - length data) 0
       in bind_op (write_sectors start_sector (ucast (ucast blocks_needed * SECTORS_PER_BLOCK)) padded)
            (\<lambda>_. return_op blocks_needed))"

text \<open>\<open>sort_unstable_by_key\<close> on the start of the ranges is a sort by that key.\<close>

fun collect_ranges :: "nat option \<Rightarrow> nat list \<Rightarrow> (u32 \<times> u32) list \<Rightarrow> (u32 \<times> u32) list disk_op" where
  "collect_ranges ignore_index [] used = return_op used"
| "collect_ranges ignore_index (index # is) used =
    (if Some index = ignore_index then collect_ranges ignore_index is used
     else bind_op (read_file_entry index) (\<lambda>entry.
       if de_active entry = 0 \<or> de_block_count entry = 0 then collect_ranges ignore_index is used
       else collect_ranges ignore_index is
         (used @ [(de_start_block entry, de_start_block entry + de_block_count entry)])))"

fun first_gap :: "(u32 \<times> u32) list \<Rightarrow> u32 \<Rightarrow> u32 \<Rightarrow> u32 + u32" where
  "first_gap [] n candidate = Inr candidate"
| "first_gap ((start, stop) # ranges) n candidate =
    (if sat_add candidate n \<le> start then Inl candidate
     else first_gap ranges n (max candidate stop))"

definition allocate_blocks :: "u32 \<Rightarrow> nat option \<Rightarrow> u32 disk_op" where
  "allocate_blocks n ignore_index = bind_op read_superblock (\<lambda>s.
    bind_op (collect_ranges ignore_index [0..<MAX_FILES] []) (\<lambda>used.
      case first_gap (sort_key fst used) n 0 of
        Inl candidate \<Rightarrow> return_op candidate
      | Inr candidate \<Rightarrow>
          if sat_add candidate n \<le> sb_total_blocks s then return_op candidate else fail_op DiskFull))"

fun count_active_loop :: "nat list \<Rightarrow> u16 \<Rightarrow> u16 disk_op" where
  "count_active_loop [] acc = return_op acc"
| "count_active_loop (index # is) acc = bind_op (read_file_entry index) (\<lambda>entry.
    count_active_loop is (if de_active entry \<noteq> 0 then sat_add acc 1 else acc))"

definition count_active_files :: "u16 disk_op" where
  "count_active_files = count_active_loop [0..<MAX_FILES] 0"

fun count_used_loop :: "nat list \<Rightarrow> u32 \<Rightarrow> u32 disk_op" where
  "count_used_loop [] acc = return_op acc"
| "count_used_loop (index # is) acc = bind_op (read_file_entry index) (\<lambda>entry.
    count_used_loop is (if de_active entry \<noteq> 0 then sat_add acc (de_block_count entry) else acc))"

definition count_used_blocks :: "u32 disk_op" where
  "count_used_blocks = count_used_loop [0..<MAX_FILES] 0"

definition refresh_superblock :: "u8 \<Rightarrow> superblock disk_op" where
  "refresh_superblock state = bind_op read_superblock (\<lambda>s.
    bind_op count_used_blocks (\<lambda>used. bind_op count_active_files (\<lambda>files.
      let s' = s\<lparr>sb_used_blocks := used, sb_file_count := files, sb_state := state\<rparr>
      in bind_op (write_superblock s') (\<lambda>_. return_op s'))))"

section \<open>The two structures\<close>

definition superblock_ok :: "superblock \<Rightarrow> bool" where
  "superblock_ok s \<longleftrightarrow> length (sb_label s) = 32 \<and> length (sb_reserved s) = 427"

definition disk_entry_ok :: "disk_file_entry \<Rightarrow> bool" where
  "disk_entry_ok e \<longleftrightarrow> length (de_name e) = MAX_FILENAME \<and> length (de_reserved e) = 368"

lemma MAX_FILENAME_eq [simp]: "MAX_FILENAME = 96"
  by (simp add: MAX_FILENAME_def MAX_PATH_LEN_def)

lemma length_superblock_bytes: "superblock_ok s \<Longrightarrow> length (superblock_bytes s) = SECTOR_SIZE"
  by (simp add: superblock_bytes_def superblock_ok_def SECTOR_SIZE_def)

lemma length_entry_bytes: "disk_entry_ok e \<Longrightarrow> length (entry_bytes e) = SECTOR_SIZE"
  by (simp add: entry_bytes_def disk_entry_ok_def SECTOR_SIZE_def)

text \<open>A field is read by dropping what stands before it.\<close>

lemma int_at_skip: "length xs \<le> offset \<Longrightarrow> int_at (xs @ ys) offset = int_at ys (offset - length xs)"
  by (simp add: int_at_def bytes_at_def)

lemma bytes_at_skip: "length xs \<le> offset \<Longrightarrow> bytes_at (xs @ ys) offset n = bytes_at ys (offset - length xs) n"
  by (simp add: bytes_at_def)

lemma int_at_here: "8 dvd LENGTH('a) \<Longrightarrow> int_at (to_le_bytes (w :: 'a::len word) @ ys) 0 = w"
  using int_at_append [of "[]" 0 w ys] by simp

lemma bytes_at_here: "length bs = n \<Longrightarrow> bytes_at (bs @ ys) 0 n = bs" "length bs = n \<Longrightarrow> bytes_at bs 0 n = bs"
  by (simp_all add: bytes_at_def)

lemma at_Cons:
  "0 < offset \<Longrightarrow> int_at (x # ys) offset = int_at ys (offset - 1)"
  "0 < offset \<Longrightarrow> bytes_at (x # ys) offset n = bytes_at ys (offset - 1) n"
  by (cases offset; simp add: int_at_def bytes_at_def)+

lemmas field_simps_at = at_Cons int_at_skip bytes_at_skip int_at_here bytes_at_here nth_append

lemma superblock_roundtrip:
  assumes "superblock_ok s"
  shows "superblock_of_bytes (superblock_bytes s) = s"
  using assms
  by (cases s) (simp add: superblock_of_bytes_def superblock_bytes_def superblock_ok_def field_simps_at)

lemma entry_roundtrip:
  assumes "disk_entry_ok e"
  shows "entry_of_bytes (entry_bytes e) = e"
  using assms
  by (cases e) (simp add: entry_of_bytes_def entry_bytes_def disk_entry_ok_def field_simps_at)

section \<open>What an operation reads and writes\<close>

text \<open>
  An operation only reads when it leaves the sectors as they are, keeps the cache in agreement with
  them, and returns, if it succeeds, a function of them.
\<close>

definition reads_op :: "'a disk_op \<Rightarrow> ((u64 \<Rightarrow> u8 list) \<Rightarrow> 'a) \<Rightarrow> bool" where
  "reads_op m f \<longleftrightarrow> (\<forall>d r d'. disk_wf d \<longrightarrow> m d = (r, d') \<longrightarrow>
    disk_wf d' \<and> disk_content d' = disk_content d \<and> (\<forall>x. r = Ok x \<longrightarrow> x = f (disk_content d)))"

named_theorems reads "operations that only read"

lemma reads_opD:
  assumes "reads_op m f" and "disk_wf d" and "m d = (r, d')"
  shows "disk_wf d'" and "disk_content d' = disk_content d" and "r = Ok x \<Longrightarrow> x = f (disk_content d)"
  using assms unfolding reads_op_def by blast+

lemma reads_return [reads]: "reads_op (return_op x) (\<lambda>_. x)"
  by (auto simp: reads_op_def return_op_def)

lemma reads_fail [reads]: "reads_op (fail_op e) f"
  by (auto simp: reads_op_def fail_op_def)

lemma reads_bind:
  assumes "reads_op m f" and "\<And>x. reads_op (k x) (g x)"
  shows "reads_op (bind_op m k) (\<lambda>c. g (f c) c)"
  unfolding reads_op_def
proof (intro allI impI)
  fix d r d' assume wf: "disk_wf d" and run: "bind_op m k d = (r, d')"
  obtain r1 d1 where m: "m d = (r1, d1)" by fastforce
  note one = reads_opD [OF assms(1) wf m]
  show "disk_wf d' \<and> disk_content d' = disk_content d \<and> (\<forall>x. r = Ok x \<longrightarrow> x = g (f (disk_content d)) (disk_content d))"
  proof (cases r1)
    case (Inl e)
    then show ?thesis using run m one by (auto simp: bind_op_def)
  next
    case (Inr x)
    then have "k x d1 = (r, d')" using run m by (simp add: bind_op_def)
    note two = reads_opD [OF assms(2) one(1) this]
    show ?thesis using one two Inr by auto
  qed
qed

lemma reads_if [reads]: "(b \<Longrightarrow> reads_op m f) \<Longrightarrow> (\<not> b \<Longrightarrow> reads_op m' f) \<Longrightarrow> reads_op (if b then m else m') f"
  by simp

lemma reads_weaken:
  assumes "reads_op m f" and "\<And>c. f c = g c"
  shows "reads_op m g"
proof -
  have "f = g" using assms(2) by (rule ext)
  with assms(1) show ?thesis by simp
qed

lemma reads_read_sectors [reads]: "reads_op (read_sectors k n len) (\<lambda>c. sectors_at c k (unat n))"
  unfolding reads_op_def
proof (intro allI impI)
  fix d r d' assume wf: "disk_wf d" and run: "read_sectors k n len d = (r, d')"
  show "disk_wf d' \<and> disk_content d' = disk_content d \<and> (\<forall>x. r = Ok x \<longrightarrow> x = sectors_at (disk_content d) k (unat n))"
  proof (cases "len < unat n * SECTOR_SIZE")
    case True
    then show ?thesis using wf run by (auto simp: read_sectors_def)
  next
    case False
    then have "read_loop k (unat n) d = (r, d')" using run by (simp add: read_sectors_def)
    from read_loop_content [OF wf this] show ?thesis .
  qed
qed

text \<open>The file table and the superblock, as functions of the sectors.\<close>

definition slot_sector :: "nat \<Rightarrow> u64" where
  "slot_sector i = FILE_TABLE_START_SECTOR + word_of_nat i"

definition tbl :: "(u64 \<Rightarrow> u8 list) \<Rightarrow> nat \<Rightarrow> disk_file_entry" where
  "tbl c i = entry_of_bytes (c (slot_sector i))"

definition sblk :: "(u64 \<Rightarrow> u8 list) \<Rightarrow> superblock" where
  "sblk c = superblock_of_bytes (c 0)"

lemma reads_read_superblock [reads]: "reads_op read_superblock sblk"
  unfolding read_superblock_def Let_def
  by (rule reads_weaken [OF reads_bind [OF reads_read_sectors
        reads_if [OF reads_fail reads_return]]]) (simp add: sblk_def)

lemma read_superblock_valid:
  assumes "read_superblock d = (Inr s, d')"
  shows "superblock_is_valid s"
  using assms by (auto simp: read_superblock_def bind_op_Ok Let_def fail_op_def return_op_def split: if_splits)

lemma reads_read_file_entry [reads]: "reads_op (read_file_entry i) (\<lambda>c. tbl c i)"
  unfolding read_file_entry_def
  by (rule reads_if [OF reads_fail reads_weaken [OF reads_bind [OF reads_read_sectors reads_return]]])
    (simp add: tbl_def slot_sector_def)

definition entry_range :: "disk_file_entry \<Rightarrow> u32 \<times> u32" where
  "entry_range e = (de_start_block e, de_start_block e + de_block_count e)"

definition holds_blocks :: "disk_file_entry \<Rightarrow> bool" where
  "holds_blocks e \<longleftrightarrow> de_active e \<noteq> 0 \<and> de_block_count e \<noteq> 0"

definition used_ranges :: "(u64 \<Rightarrow> u8 list) \<Rightarrow> nat option \<Rightarrow> nat list \<Rightarrow> (u32 \<times> u32) list" where
  "used_ranges c ignore_index is =
    map (\<lambda>i. entry_range (tbl c i)) (filter (\<lambda>i. Some i \<noteq> ignore_index \<and> holds_blocks (tbl c i)) is)"

lemma reads_collect_ranges:
  "reads_op (collect_ranges ig is acc) (\<lambda>c. acc @ used_ranges c ig is)"
proof (induction "is" arbitrary: acc)
  case Nil
  then show ?case by (simp add: used_ranges_def reads_return)
next
  case (Cons i "is")
  show ?case
  proof (cases "Some i = ig")
    case True
    with Cons show ?thesis by (simp add: used_ranges_def)
  next
    case False
    let ?g = "\<lambda>e c. (if de_active e = 0 \<or> de_block_count e = 0 then acc @ used_ranges c ig is
      else (acc @ [entry_range e]) @ used_ranges c ig is)"
    have step: "reads_op (if de_active e = 0 \<or> de_block_count e = 0 then collect_ranges ig is acc
        else collect_ranges ig is (acc @ [(de_start_block e, de_start_block e + de_block_count e)])) (?g e)" for e
      using Cons [of acc] Cons [of "acc @ [entry_range e]"] by (simp add: entry_range_def)
    have "reads_op (collect_ranges ig (i # is) acc) (\<lambda>c. ?g (tbl c i) c)"
      using reads_bind [where g = ?g, OF reads_read_file_entry step, of i] False by simp
    then show ?thesis
      by (rule reads_weaken) (use False in \<open>simp add: used_ranges_def holds_blocks_def\<close>)
  qed
qed

lemma reads_count_active: "\<exists>f. reads_op (count_active_loop is acc) f"
proof (induction "is" arbitrary: acc)
  case (Cons i "is")
  then obtain f where f: "\<And>acc. reads_op (count_active_loop is acc) (f acc)" by metis
  have "reads_op (count_active_loop (i # is) acc)
      (\<lambda>c. f (if de_active (tbl c i) \<noteq> 0 then sat_add acc 1 else acc) c)"
    using reads_bind [where g = "\<lambda>e. f (if de_active e \<noteq> 0 then sat_add acc 1 else acc)",
        OF reads_read_file_entry f, of i] by simp
  then show ?case by blast
qed (auto intro: reads_return)

lemma reads_count_used: "\<exists>f. reads_op (count_used_loop is acc) f"
proof (induction "is" arbitrary: acc)
  case (Cons i "is")
  then obtain f where f: "\<And>acc. reads_op (count_used_loop is acc) (f acc)" by metis
  have "reads_op (count_used_loop (i # is) acc)
      (\<lambda>c. f (if de_active (tbl c i) \<noteq> 0 then sat_add acc (de_block_count (tbl c i)) else acc) c)"
    using reads_bind [where g = "\<lambda>e. f (if de_active e \<noteq> 0 then sat_add acc (de_block_count e) else acc)",
        OF reads_read_file_entry f, of i] by simp
  then show ?case by blast
qed (auto intro: reads_return)

section \<open>Block allocation\<close>

lemma sat_add_le_exact:
  fixes a b c :: u32
  assumes "sat_add a b \<le> c" and "c \<noteq> - 1"
  shows "unat a + unat b \<le> unat c"
proof (cases "unat a + unat b < 2 ^ LENGTH(32)")
  case True
  then have "unat (sat_add a b) = unat a + unat b"
    using iffD1 [OF unat_add_lem True] by (simp add: sat_add_def)
  then show ?thesis using assms(1) by (simp add: word_le_nat_alt)
next
  case False
  then have "sat_add a b = - 1" by (simp add: sat_add_def)
  with assms have "c = - 1" by (simp add: word_order.extremum_unique)
  with assms(2) show ?thesis by simp
qed

lemma first_gap_free:
  assumes "sorted (map fst rs)" and "\<forall>(s, e) \<in> set rs. s < e"
  shows "case first_gap rs n x of
      Inl y \<Rightarrow> x \<le> y \<and> (\<exists>(s, e) \<in> set rs. unat y + unat n \<le> unat s)
        \<and> (\<forall>(s, e) \<in> set rs. unat y + unat n \<le> unat s \<or> e \<le> y)
    | Inr y \<Rightarrow> x \<le> y \<and> (\<forall>(s, e) \<in> set rs. e \<le> y)"
  using assms
proof (induction rs n x rule: first_gap.induct)
  case (2 s e rs n x)
  show ?case
  proof (cases "sat_add x n \<le> s")
    case True
    have "s < e" using 2(3) by simp
    then have "s \<noteq> - 1" using word_order.extremum_strict [of e] by blast
    with True have le: "unat x + unat n \<le> unat s" by (rule sat_add_le_exact)
    have "unat s \<le> unat s'" if "(s', e') \<in> set rs" for s' e'
      using 2(2) that by (force simp: word_le_nat_alt)
    with le True show ?thesis by fastforce
  next
    case False
    have IH: "case first_gap rs n (max x e) of
        Inl y \<Rightarrow> max x e \<le> y \<and> (\<exists>(s, e) \<in> set rs. unat y + unat n \<le> unat s)
          \<and> (\<forall>(s, e) \<in> set rs. unat y + unat n \<le> unat s \<or> e \<le> y)
      | Inr y \<Rightarrow> max x e \<le> y \<and> (\<forall>(s, e) \<in> set rs. e \<le> y)"
      using 2(1) [OF False] 2(2,3) by simp
    show ?thesis using False IH by (auto split: sum.splits)
  qed
qed simp

text \<open>Two ranges of blocks, given by start and length, do not meet.\<close>

definition apart :: "u32 \<Rightarrow> u32 \<Rightarrow> u32 \<Rightarrow> u32 \<Rightarrow> bool" where
  "apart s n t m \<longleftrightarrow> unat s + unat n \<le> unat t \<or> unat t + unat m \<le> unat s"

definition blocks_in_range :: "(u64 \<Rightarrow> u8 list) \<Rightarrow> bool" where
  "blocks_in_range c \<longleftrightarrow> sb_total_blocks (sblk c) \<noteq> - 1 \<and>
    (\<forall>i < MAX_FILES. holds_blocks (tbl c i) \<longrightarrow>
      unat (de_start_block (tbl c i)) + unat (de_block_count (tbl c i)) \<le> unat (sb_total_blocks (sblk c)))"

lemma entry_range_bounds:
  fixes t :: u32
  assumes "unat (de_start_block e) + unat (de_block_count e) \<le> unat t" and "holds_blocks e"
  shows "fst (entry_range e) < snd (entry_range e)"
    and "unat (snd (entry_range e)) = unat (de_start_block e) + unat (de_block_count e)"
proof -
  have "unat t < 2 ^ LENGTH(32)" by (rule unsigned_less)
  with assms(1) have "unat (de_start_block e) + unat (de_block_count e) < 2 ^ LENGTH(32)" by linarith
  from iffD1 [OF unat_add_lem this]
  show u: "unat (snd (entry_range e)) = unat (de_start_block e) + unat (de_block_count e)"
    by (simp add: entry_range_def)
  have "0 < unat (de_block_count e)" using assms(2) by (simp add: holds_blocks_def unat_gt_0)
  then show "fst (entry_range e) < snd (entry_range e)"
    using u by (simp add: entry_range_def word_less_nat_alt)
qed

lemma allocate_blocks_Ok:
  assumes "disk_wf d" and "allocate_blocks n ignore_index d = (Ok b, d')"
  shows "disk_wf d'" and "disk_content d' = disk_content d"
    and "case first_gap (sort_key fst (used_ranges (disk_content d) ignore_index [0..<MAX_FILES])) n 0 of
        Inl x \<Rightarrow> x = b | Inr x \<Rightarrow> x = b \<and> sat_add x n \<le> sb_total_blocks (sblk (disk_content d))"
proof -
  from assms(2) obtain sb d1 used d2 where
    1: "read_superblock d = (Ok sb, d1)" and 2: "collect_ranges ignore_index [0..<MAX_FILES] [] d1 = (Ok used, d2)"
    and 3: "(case first_gap (sort_key fst used) n 0 of Inl x \<Rightarrow> return_op x
      | Inr x \<Rightarrow> if sat_add x n \<le> sb_total_blocks sb then return_op x else fail_op DiskFull) d2 = (Ok b, d')"
    by (auto simp: allocate_blocks_def bind_op_Ok)
  note s1 = reads_opD [OF reads_read_superblock assms(1) 1]
  note s2 = reads_opD [OF reads_collect_ranges s1(1) 2]
  have eq: "sb = sblk (disk_content d)" "used = used_ranges (disk_content d) ignore_index [0..<MAX_FILES]"
    using s1(2) s1(3) s2(3) by simp_all
  have "d' = d2 \<and> (case first_gap (sort_key fst used) n 0 of
      Inl x \<Rightarrow> x = b | Inr x \<Rightarrow> x = b \<and> sat_add x n \<le> sb_total_blocks sb)"
    using 3 by (auto simp: return_op_def fail_op_def split: sum.splits if_splits)
  then show "disk_wf d'" "disk_content d' = disk_content d"
    "case first_gap (sort_key fst (used_ranges (disk_content d) ignore_index [0..<MAX_FILES])) n 0 of
        Inl x \<Rightarrow> x = b | Inr x \<Rightarrow> x = b \<and> sat_add x n \<le> sb_total_blocks (sblk (disk_content d))"
    using s1(1,2) s2(1,2) unfolding eq by simp_all
qed

lemma blocks_in_rangeD:
  assumes "blocks_in_range c" and "i < MAX_FILES" and "holds_blocks (tbl c i)"
  shows "unat (de_start_block (tbl c i)) + unat (de_block_count (tbl c i)) \<le> unat (sb_total_blocks (sblk c))"
  using assms by (simp add: blocks_in_range_def)

lemma gap_in_range:
  assumes "blocks_in_range c"
    and "case first_gap (sort_key fst (used_ranges c ig [0..<MAX_FILES])) n 0 of
        Inl x \<Rightarrow> x = b | Inr x \<Rightarrow> x = b \<and> sat_add x n \<le> sb_total_blocks (sblk c)"
  shows "unat b + unat n \<le> unat (sb_total_blocks (sblk c))
    \<and> (\<forall>(s, e) \<in> set (used_ranges c ig [0..<MAX_FILES]). unat b + unat n \<le> unat s \<or> e \<le> b)"
proof -
  let ?used = "sort_key fst (used_ranges c ig [0..<MAX_FILES])"
  have from_used: "\<exists>i < MAX_FILES. holds_blocks (tbl c i) \<and> p = entry_range (tbl c i)" if "p \<in> set ?used" for p
    using that by (auto simp: used_ranges_def)
  have "s < e" if "(s, e) \<in> set ?used" for s e
    using from_used [OF that] entry_range_bounds(1) [OF blocks_in_rangeD [OF assms(1)]]
    by (metis fst_conv snd_conv)
  then have "\<forall>(s, e) \<in> set ?used. s < e" by blast
  note gap = first_gap_free [OF sorted_sort_key this, where n = n and x = 0]
  show ?thesis
  proof (cases "first_gap ?used n 0")
    case (Inl y)
    with assms(2) have y: "y = b" by simp
    with gap Inl obtain s e where se: "(s, e) \<in> set ?used" "unat b + unat n \<le> unat s" by auto
    from from_used [OF se(1)] obtain i where "i < MAX_FILES" "holds_blocks (tbl c i)" "s = de_start_block (tbl c i)"
      by (auto simp: entry_range_def)
    with blocks_in_rangeD [OF assms(1), of i] se(2) have "unat b + unat n \<le> unat (sb_total_blocks (sblk c))"
      by simp
    with gap Inl y show ?thesis by simp
  next
    case (Inr y)
    with assms(2) have y: "y = b" "sat_add b n \<le> sb_total_blocks (sblk c)" by auto
    have "sb_total_blocks (sblk c) \<noteq> - 1" using assms(1) by (simp add: blocks_in_range_def)
    from sat_add_le_exact [OF y(2) this] gap Inr y show ?thesis by auto
  qed
qed

lemma allocate_blocks_apart:
  assumes "disk_wf d" and "blocks_in_range (disk_content d)"
    and "allocate_blocks n ignore_index d = (Ok b, d')"
    and i: "i < MAX_FILES" "Some i \<noteq> ignore_index" "holds_blocks (tbl (disk_content d) i)"
  shows "apart b n (de_start_block (tbl (disk_content d) i)) (de_block_count (tbl (disk_content d) i))"
proof -
  let ?e = "tbl (disk_content d) i"
  note gap = gap_in_range [OF assms(2) allocate_blocks_Ok(3) [OF assms(1,3)]]
  have "entry_range ?e \<in> set (used_ranges (disk_content d) ignore_index [0..<MAX_FILES])"
    using i by (auto simp: used_ranges_def)
  with gap have "unat b + unat n \<le> unat (fst (entry_range ?e)) \<or> snd (entry_range ?e) \<le> b" by auto
  with entry_range_bounds(2) [OF blocks_in_rangeD [OF assms(2) i(1,3)] i(3)] show ?thesis
    by (auto simp: apart_def word_le_nat_alt entry_range_def)
qed

text \<open>
  Block allocation. When the file table is in range, a successful allocation of \<open>n\<close> blocks returns
  a start such that all \<open>n\<close> blocks lie on the disk and none of them belongs to an active file, other
  than the one the caller asked to ignore; nothing on the disk changes.
\<close>

theorem allocate_blocks_free:
  assumes "disk_wf d" and "blocks_in_range (disk_content d)"
    and "allocate_blocks n ignore_index d = (Ok b, d')"
  shows "disk_wf d' \<and> disk_content d' = disk_content d
    \<and> unat b + unat n \<le> unat (sb_total_blocks (sblk (disk_content d)))
    \<and> (\<forall>i < MAX_FILES. Some i \<noteq> ignore_index \<and> holds_blocks (tbl (disk_content d) i) \<longrightarrow>
      apart b n (de_start_block (tbl (disk_content d) i)) (de_block_count (tbl (disk_content d) i)))"
  using allocate_blocks_Ok(1,2) [OF assms(1,3)] allocate_blocks_apart [OF assms]
    gap_in_range [OF assms(2) allocate_blocks_Ok(3) [OF assms(1,3)]] by blast

section \<open>A device without faults\<close>

text \<open>On a device that reports no error and holds at least the table, reading the table succeeds.\<close>

definition healthy :: "disk \<Rightarrow> bool" where
  "healthy d \<longleftrightarrow> disk_wf d \<and> vb_outcomes (dk_device d) = []
    \<and> DATA_START_SECTOR \<le> vb_capacity_sectors (dk_device d)"

definition yields :: "'a disk_op \<Rightarrow> ((u64 \<Rightarrow> u8 list) \<Rightarrow> 'a) \<Rightarrow> disk \<Rightarrow> bool" where
  "yields m f d \<longleftrightarrow> (\<exists>d'. m d = (Ok (f (disk_content d)), d') \<and> healthy d'
    \<and> disk_content d' = disk_content d
    \<and> vb_capacity_sectors (dk_device d') = vb_capacity_sectors (dk_device d))"

lemma yields_return: "healthy d \<Longrightarrow> yields (return_op x) (\<lambda>_. x) d"
  by (simp add: yields_def return_op_def)

lemma yields_bind:
  assumes "yields m f d" and "\<And>d'. healthy d' \<Longrightarrow> disk_content d' = disk_content d \<Longrightarrow>
      yields (k (f (disk_content d))) (g (f (disk_content d))) d'"
  shows "yields (bind_op m k) (\<lambda>c. g (f c) c) d"
proof -
  from assms(1) obtain d1 where 1: "m d = (Ok (f (disk_content d)), d1)" "healthy d1"
    "disk_content d1 = disk_content d" "vb_capacity_sectors (dk_device d1) = vb_capacity_sectors (dk_device d)"
    by (auto simp: yields_def)
  from assms(2) [OF 1(2,3)] 1 show ?thesis by (auto simp: yields_def bind_op_def)
qed

lemma vb_read_healthy:
  assumes "vb_outcomes d = []" and "k < vb_capacity_sectors d"
  shows "vb_read_sectors k 1 SECTOR_SIZE d = (Ok (vb_data d k), d)"
proof -
  have "unat k + 1 \<le> unat (vb_capacity_sectors d)" using assms(2) by (simp add: word_less_nat_alt)
  moreover have "unat (sat_add k 1) \<le> unat k + 1" by (simp add: unat_sat_add)
  ultimately have "\<not> vb_capacity_sectors d < sat_add k 1" by (simp add: word_less_nat_alt)
  then show ?thesis
    using assms(1) by (simp add: vb_read_sectors_def validate_request_def request_in_def next_outcome_def)
qed

lemma yields_read_one:
  assumes "healthy d" and "k < DATA_START_SECTOR"
  shows "yields (read_sectors k 1 SECTOR_SIZE) (\<lambda>c. c k) d"
proof -
  obtain r d' where run: "read_sector k d = (r, d')" by fastforce
  have "k < vb_capacity_sectors (dk_device d)" using assms by (auto simp: healthy_def)
  note dev = vb_read_healthy [OF _ this]
  have wf: "disk_wf d" and out: "vb_outcomes (dk_device d) = []" using assms(1) by (auto simp: healthy_def)
  have keep: "dk_device d' = dk_device d \<and> (\<exists>b. r = Ok b)"
    using run dev [OF out] by (auto simp: read_sector_def next_generation_def split: option.splits)
  then obtain b where r: "r = Ok b" by blast
  note c = cached.rd_content [OF wf run] cached.rd_result [OF wf run [unfolded r]]
  have "healthy d'" using c keep assms(1) by (simp add: healthy_def)
  moreover have "read_sectors k 1 SECTOR_SIZE d = (Ok (disk_content d k), d')"
    using run r c by (simp add: read_sectors_def)
  ultimately show ?thesis using keep by (simp add: yields_def)
qed

lemma yields_cong: "yields m f d \<Longrightarrow> f (disk_content d) = g (disk_content d) \<Longrightarrow> yields m g d"
  by (simp add: yields_def)

lemma DATA_START_SECTOR_eq: "DATA_START_SECTOR = 129"
  by (simp add: DATA_START_SECTOR_def FILE_TABLE_START_SECTOR_def MAX_FILES_def)

lemma slot_sector_unat: "i < MAX_FILES \<Longrightarrow> unat (slot_sector i) = Suc i"
proof -
  assume "i < MAX_FILES"
  then have "Suc i < 2 ^ LENGTH(64)" by (simp add: MAX_FILES_def)
  then have "unat (word_of_nat (Suc i) :: u64) = Suc i"
    by (simp only: unsigned_of_nat take_bit_nat_eq_self of_nat_id)
  then show ?thesis by (simp add: slot_sector_def FILE_TABLE_START_SECTOR_def)
qed

lemma slot_sector_less: "i < MAX_FILES \<Longrightarrow> slot_sector i < DATA_START_SECTOR"
  by (simp add: word_less_nat_alt slot_sector_unat DATA_START_SECTOR_eq MAX_FILES_def)

lemma yields_read_superblock:
  assumes "healthy d" and "superblock_is_valid (sblk (disk_content d))"
  shows "yields read_superblock sblk d"
proof -
  have "yields (read_sectors 0 1 SECTOR_SIZE) (\<lambda>c. c 0) d"
    using assms(1) by (rule yields_read_one) (simp add: DATA_START_SECTOR_eq)
  then show ?thesis
    using assms(2) by (auto simp: yields_def read_superblock_def bind_op_def sblk_def return_op_def)
qed

lemma yields_read_file_entry:
  assumes "healthy d" and "i < MAX_FILES"
  shows "yields (read_file_entry i) (\<lambda>c. tbl c i) d"
  using yields_read_one [OF assms(1) slot_sector_less [OF assms(2)]] assms(2)
  by (auto simp: yields_def read_file_entry_def bind_op_def return_op_def tbl_def slot_sector_def)

lemma yields_collect_ranges:
  assumes "healthy d" and "\<forall>i \<in> set is. i < MAX_FILES"
  shows "yields (collect_ranges ig is acc) (\<lambda>c. acc @ used_ranges c ig is) d"
  using assms
proof (induction "is" arbitrary: acc d)
  case Nil
  then show ?case by (simp add: used_ranges_def yields_return)
next
  case (Cons i "is")
  show ?case
  proof (cases "Some i = ig")
    case True
    with Cons show ?thesis by (simp add: used_ranges_def)
  next
    case False
    let ?e = "tbl (disk_content d) i"
    have rd: "yields (read_file_entry i) (\<lambda>c. tbl c i) d" using Cons.prems by (simp add: yields_read_file_entry)
    then obtain d1 where 1: "read_file_entry i d = (Ok ?e, d1)" "healthy d1" "disk_content d1 = disk_content d"
      "vb_capacity_sectors (dk_device d1) = vb_capacity_sectors (dk_device d)" by (auto simp: yields_def)
    have "yields (collect_ranges ig is (if holds_blocks ?e then acc @ [entry_range ?e] else acc))
      (\<lambda>c. (if holds_blocks ?e then acc @ [entry_range ?e] else acc) @ used_ranges c ig is) d1"
      using Cons.IH [OF 1(2)] Cons.prems by simp
    then show ?thesis using False 1
      by (auto simp: yields_def bind_op_def used_ranges_def entry_range_def holds_blocks_def)
  qed
qed

lemma yields_allocate_blocks:
  assumes "healthy d" and "superblock_is_valid (sblk (disk_content d))"
    and "used_ranges (disk_content d) ig [0..<MAX_FILES] = []" and "n \<le> sb_total_blocks (sblk (disk_content d))"
  shows "yields (allocate_blocks n ig) (\<lambda>_. 0) d"
proof -
  from yields_read_superblock [OF assms(1,2)] obtain d1 where 1: "read_superblock d = (Ok (sblk (disk_content d)), d1)"
    "healthy d1" "disk_content d1 = disk_content d" "vb_capacity_sectors (dk_device d1) = vb_capacity_sectors (dk_device d)"
    by (auto simp: yields_def)
  have "yields (collect_ranges ig [0..<MAX_FILES] []) (\<lambda>c. [] @ used_ranges c ig [0..<MAX_FILES]) d1"
    using 1(2) by (rule yields_collect_ranges) simp
  moreover have "sat_add 0 n = n" using unsigned_less [of n, where 'a = nat] by (simp add: sat_add_def)
  ultimately show ?thesis
    using 1 assms(3,4) by (auto simp: yields_def allocate_blocks_def bind_op_def return_op_def)
qed

text \<open>A formatted disk of 1000 sectors without files.\<close>

definition formatted_disk :: disk where
  "formatted_disk = disk_new \<lparr>vb_capacity_sectors = 1000, vb_data = (\<lambda>k. if k = 0
    then superblock_bytes (superblock_new 0 1000) else replicate SECTOR_SIZE 0), vb_outcomes = []\<rparr>"

lemma superblock_new_ok: "superblock_ok (superblock_new now n)"
  by (simp add: superblock_ok_def superblock_new_def Let_def)

lemma superblock_new_valid: "superblock_is_valid (superblock_new now n)"
  by (simp add: superblock_is_valid_def superblock_new_def Let_def)

lemma formatted_healthy: "healthy formatted_disk"
  using length_superblock_bytes [OF superblock_new_ok, of 0 1000]
  by (simp add: healthy_def formatted_disk_def disk_new_def disk_wf_def vb_wf_def cache_ok_def
      block_cache_new_def DATA_START_SECTOR_eq)

lemma formatted_superblock: "sblk (disk_content formatted_disk) = superblock_new 0 1000"
  by (simp add: sblk_def formatted_disk_def disk_new_def superblock_roundtrip superblock_new_ok)

lemma formatted_table:
  assumes "i < MAX_FILES"
  shows "de_active (tbl (disk_content formatted_disk) i) = 0"
proof -
  have "slot_sector i \<noteq> 0" using slot_sector_unat [OF assms] by (metis nat.distinct(1) unsigned_0)
  then show ?thesis by (simp add: tbl_def formatted_disk_def disk_new_def entry_of_bytes_def SECTOR_SIZE_def)
qed

lemma formatted_total: "sb_total_blocks (superblock_new 0 1000) = 108"
  by (simp add: superblock_new_def Let_def sat_sub_def DATA_START_SECTOR_eq SECTORS_PER_BLOCK_def)

lemma formatted_in_range: "blocks_in_range (disk_content formatted_disk)"
  using formatted_table by (simp add: blocks_in_range_def formatted_superblock formatted_total holds_blocks_def)

theorem allocate_blocks_free_witness:
  "\<exists>d'. allocate_blocks 3 None formatted_disk = (Ok 0, d') \<and> disk_wf d'
    \<and> disk_content d' = disk_content formatted_disk"
proof -
  have "used_ranges (disk_content formatted_disk) None [0..<MAX_FILES] = []"
    using formatted_table by (auto simp: used_ranges_def holds_blocks_def)
  then have "yields (allocate_blocks 3 None) (\<lambda>_. 0) formatted_disk"
    by (intro yields_allocate_blocks formatted_healthy)
      (simp_all add: formatted_superblock formatted_total superblock_new_valid)
  then obtain d' where run: "allocate_blocks 3 None formatted_disk = (Ok 0, d')" by (auto simp: yields_def)
  have "disk_wf formatted_disk" using formatted_healthy by (simp add: healthy_def)
  from allocate_blocks_free [OF this formatted_in_range run] run show ?thesis by blast
qed

end
