(* ===== verification/Disk_Persist.thy ===== *)
theory Disk_Persist
  imports Disk_Format WarFS_Props
begin

text \<open>
  Persistence of the file system (\<open>kernel/src/disk/persist.rs\<close> and the functions of
  \<open>kernel/src/disk/mod.rs\<close> that use it): saving, deleting and loading files, and what becomes of the
  disk requests the file system issues. Loading can panic, when an entry claims more bytes than its
  blocks hold; its result is then \<open>None\<close>. Running out of kernel memory is not modelled.
\<close>

definition is_persistable_path :: "string \<Rightarrow> bool" where
  "is_persistable_path path \<longleftrightarrow> \<not> (path = ''/readme.txt'' \<or> path = ''/sysinfo.txt'')"

definition state_label :: "u8 \<Rightarrow> string" where
  "state_label state = (if state = FS_STATE_CLEAN then ''clean'' else ''dirty'')"

definition entry_permissions :: "disk_file_entry \<Rightarrow> file_permissions" where
  "entry_permissions e = \<lparr>fp_owner_uid = de_owner_uid e, fp_owner_read = (de_perm_owner_read e \<noteq> 0),
    fp_owner_write = (de_perm_owner_write e \<noteq> 0), fp_others_read = (de_perm_others_read e \<noteq> 0),
    fp_others_write = (de_perm_others_write e \<noteq> 0)\<rparr>"

definition entry_data :: "disk_file_entry \<Rightarrow> disk \<Rightarrow> (disk_error + u8 list) option \<times> disk" where
  "entry_data e d =
    (if de_block_count e \<noteq> 0 \<and> de_size e \<noteq> 0
     then (case read_file_data (de_start_block e) (de_block_count e) (unat (de_block_count e) * BLOCK_SIZE) d of
         (Inl err, d') \<Rightarrow> (Some (Err err), d')
       | (Inr bytes, d') \<Rightarrow>
           let block_buffer = bytes @ replicate (unat (de_block_count e) * BLOCK_SIZE - length bytes) 0 in
           if unat (de_size e) > length block_buffer then (None, d')
           else (Some (Ok (take (unat (de_size e)) block_buffer)), d'))
     else (Some (Ok (replicate (unat (de_size e)) 0)), d))"

fun load_loop :: "nat list \<Rightarrow> nat \<Rightarrow> disk \<Rightarrow> warfs \<Rightarrow> (disk_error + nat) option \<times> disk \<times> warfs" where
  "load_loop [] loaded d fs = (Some (Ok loaded), d, fs)"
| "load_loop (index # is) loaded d fs =
    (case read_file_entry index d of
       (Inl err, d1) \<Rightarrow> (Some (Err err), d1, fs)
     | (Inr e, d1) \<Rightarrow>
         if de_active e = 0 then load_loop is loaded d1 fs
         else (case entry_name e of
             Inl err \<Rightarrow> (Some (Err err), d1, fs)
           | Inr name \<Rightarrow>
               if \<not> is_persistable_path name then load_loop is loaded d1 fs
               else (case entry_data e d1 of
                   (None, d2) \<Rightarrow> (None, d2, fs)
                 | (Some (Inl err), d2) \<Rightarrow> (Some (Err err), d2, fs)
                 | (Some (Inr data), d2) \<Rightarrow>
                     (case load_file_from_disk name data (de_owner_uid e) (entry_permissions e)
                         (de_readonly e \<noteq> 0) (de_created_at e) (de_modified_at e) fs of
                        (Inl err, fs') \<Rightarrow> (Some (Err (FilesystemError err)), d2, fs')
                      | (Inr _, fs') \<Rightarrow> load_loop is (loaded + 1) d2 fs'))))"

definition load_filesystem :: "disk \<Rightarrow> warfs \<Rightarrow> (disk_error + nat) option \<times> disk \<times> warfs" where
  "load_filesystem d fs = load_loop [0..<MAX_FILES] 0 d fs"

fun find_slot :: "string \<Rightarrow> nat list \<Rightarrow> nat option \<Rightarrow> ((nat \<times> disk_file_entry) option \<times> nat option) disk_op" where
  "find_slot name [] empty_index = return_op (None, empty_index)"
| "find_slot name (index # is) empty_index = bind_op (read_file_entry index) (\<lambda>entry.
    if de_active entry \<noteq> 0
    then (case entry_name entry of
        Inl err \<Rightarrow> fail_op err
      | Inr n \<Rightarrow> if n = name then return_op (Some (index, entry), empty_index)
          else find_slot name is empty_index)
    else find_slot name is (if empty_index = None then Some index else empty_index))"

definition flag_byte :: "bool \<Rightarrow> u8" where
  "flag_byte b = (if b then 1 else 0)"

definition stored_name :: "string \<Rightarrow> u8 list" where
  "stored_name name =
    (let name_bytes = as_bytes name; copy_len = min (length name_bytes) (MAX_FILENAME - 1)
     in take copy_len name_bytes @ replicate (MAX_FILENAME - copy_len) 0)"

definition new_entry ::
  "string \<Rightarrow> u8 list \<Rightarrow> u16 \<Rightarrow> file_permissions \<Rightarrow> bool \<Rightarrow> u64 \<Rightarrow> u64 \<Rightarrow> u32 \<Rightarrow> u32 \<Rightarrow> disk_file_entry" where
  "new_entry name data owner_uid permissions readonly created_at modified_at start_block blocks_needed =
    \<lparr>de_active = 1, de_name = stored_name name, de_size = word_of_nat (length data), de_owner_uid = owner_uid,
     de_perm_owner_read = flag_byte (fp_owner_read permissions),
     de_perm_owner_write = flag_byte (fp_owner_write permissions),
     de_perm_others_read = flag_byte (fp_others_read permissions),
     de_perm_others_write = flag_byte (fp_others_write permissions), de_readonly = flag_byte readonly,
     de_created_at = created_at, de_modified_at = modified_at, de_start_block = start_block,
     de_block_count = blocks_needed, de_reserved = replicate 368 0\<rparr>"

definition choose_blocks :: "u32 \<Rightarrow> (nat \<times> disk_file_entry) option \<Rightarrow> u32 disk_op" where
  "choose_blocks blocks_needed target =
    (if blocks_needed = 0 then return_op 0
     else (case target of
         Some (index, existing) \<Rightarrow>
           if de_block_count existing \<ge> blocks_needed then return_op (de_start_block existing)
           else allocate_blocks blocks_needed (Some index)
       | None \<Rightarrow> allocate_blocks blocks_needed None))"

definition upsert_file_entry ::
  "string \<Rightarrow> u8 list \<Rightarrow> u16 \<Rightarrow> file_permissions \<Rightarrow> bool \<Rightarrow> u64 \<Rightarrow> u64 \<Rightarrow> unit disk_op" where
  "upsert_file_entry name data owner_uid permissions readonly created_at modified_at =
    bind_op (find_slot name [0..<MAX_FILES] None) (\<lambda>(target, empty_index).
      case (case target of Some (i, _) \<Rightarrow> Some i | None \<Rightarrow> empty_index) of
        None \<Rightarrow> fail_op DiskFull
      | Some index \<Rightarrow>
          let blocks_needed = block_count_for_len (length data) in
          bind_op (choose_blocks blocks_needed target) (\<lambda>start_block.
          bind_op (if blocks_needed \<noteq> 0 then bind_op (write_file_data start_block data) (\<lambda>_. return_op ())
              else return_op ()) (\<lambda>_.
            write_file_entry index (new_entry name data owner_uid permissions readonly created_at
              modified_at start_block blocks_needed))))"

definition save_entry :: "file_entry \<Rightarrow> unit disk_op" where
  "save_entry entry = bind_op (set_superblock_state FS_STATE_DIRTY) (\<lambda>_.
    bind_op (upsert_file_entry (fe_name entry) (fe_data entry) (fe_owner_uid entry) (fe_permissions entry)
      (fe_readonly entry) (fe_created_at entry) (fe_modified_at entry)) (\<lambda>_.
    bind_op (refresh_superblock FS_STATE_CLEAN) (\<lambda>_. return_op ())))"

fun delete_loop :: "string \<Rightarrow> nat list \<Rightarrow> bool disk_op" where
  "delete_loop name [] = return_op False"
| "delete_loop name (index # is) = bind_op (read_file_entry index) (\<lambda>entry.
    if de_active entry = 0 then delete_loop name is
    else (case entry_name entry of
        Inl err \<Rightarrow> fail_op err
      | Inr n \<Rightarrow> if n = name then bind_op (write_file_entry index entry_inactive) (\<lambda>_. return_op True)
          else delete_loop name is))"

definition delete_file_from_disk :: "string \<Rightarrow> unit disk_op" where
  "delete_file_from_disk name = bind_op (set_superblock_state FS_STATE_DIRTY) (\<lambda>_.
    bind_op (delete_loop name [0..<MAX_FILES]) (\<lambda>found.
      if \<not> found then fail_op DiskFileNotFound
      else bind_op (refresh_superblock FS_STATE_CLEAN) (\<lambda>_. return_op ())))"

fun prune_loop :: "file_entry list \<Rightarrow> nat list \<Rightarrow> unit disk_op" where
  "prune_loop files [] = return_op ()"
| "prune_loop files (index # is) = bind_op (read_file_entry index) (\<lambda>entry.
    if de_active entry = 0 then prune_loop files is
    else (case entry_name entry of
        Inl err \<Rightarrow> fail_op err
      | Inr name \<Rightarrow>
          if list_ex (\<lambda>file. is_persistable_path (fe_name file) \<and> fe_name file = name) files
          then prune_loop files is
          else bind_op (write_file_entry index entry_inactive) (\<lambda>_. prune_loop files is)))"

fun sync_loop :: "file_entry list \<Rightarrow> nat \<Rightarrow> nat disk_op" where
  "sync_loop [] synced = return_op synced"
| "sync_loop (file # files) synced =
    (if \<not> is_persistable_path (fe_name file) then sync_loop files synced
     else bind_op (upsert_file_entry (fe_name file) (fe_data file) (fe_owner_uid file) (fe_permissions file)
         (fe_readonly file) (fe_created_at file) (fe_modified_at file)) (\<lambda>_. sync_loop files (synced + 1)))"

definition sync_filesystem :: "file_entry list \<Rightarrow> nat disk_op" where
  "sync_filesystem files = bind_op (set_superblock_state FS_STATE_DIRTY) (\<lambda>_.
    bind_op (prune_loop files [0..<MAX_FILES]) (\<lambda>_.
    bind_op (sync_loop files 0) (\<lambda>synced.
    bind_op (refresh_superblock FS_STATE_CLEAN) (\<lambda>_. return_op synced))))"

definition disk_usage :: "(u16 \<times> u32) disk_op" where
  "disk_usage = bind_op count_active_files (\<lambda>files. bind_op count_used_blocks (\<lambda>blocks. return_op (files, blocks)))"

text \<open>The module functions; the global disk is an option.\<close>

definition maybe_sync_file_entry :: "file_entry \<Rightarrow> disk option \<Rightarrow> disk option" where
  "maybe_sync_file_entry entry disk =
    (if \<not> is_persistable_path (fe_name entry) then disk
     else map_option (\<lambda>d. snd (save_entry entry d)) disk)"

definition maybe_delete_path :: "string \<Rightarrow> disk option \<Rightarrow> disk option" where
  "maybe_delete_path path disk =
    (if \<not> is_persistable_path path then disk
     else map_option (\<lambda>d. snd (delete_file_from_disk path d)) disk)"

definition sync_all :: "warfs \<Rightarrow> disk option \<Rightarrow> (disk_error + nat) \<times> disk option" where
  "sync_all fs disk = (case disk of
     None \<Rightarrow> (Ok 0, None)
   | Some d \<Rightarrow> (let (r, d') = bind_op (sync_filesystem (fs_files fs)) (\<lambda>synced.
        bind_op disk_flush (\<lambda>_. return_op synced)) d in (r, Some d')))"

definition format_active :: "u64 \<Rightarrow> u64 \<Rightarrow> disk option \<Rightarrow> (disk_error + bool) \<times> disk option" where
  "format_active now now' disk = (case disk of
     None \<Rightarrow> (Ok False, None)
   | Some d \<Rightarrow> (let (r, d') = bind_op (format_disk now) (\<lambda>_ d. bind_op (mark_mounted now') (\<lambda>_.
        bind_op (refresh_superblock FS_STATE_CLEAN) (\<lambda>_. return_op True)) (reset_cache d)) d in (r, Some d')))"

text \<open>\<open>init\<close> after the device has been found and set up: whether it formatted, and the files loaded.\<close>

definition disk_init ::
  "u64 \<Rightarrow> u64 \<Rightarrow> virtio_blk \<Rightarrow> warfs \<Rightarrow> (disk_error + (u16 \<times> nat \<times> bool)) option \<times> disk \<times> warfs" where
  "disk_init now now' device fs =
    (case read_superblock (disk_new device) of
       (Inr _, d) \<Rightarrow>
         (case mark_mounted now' d of
            (Inl e, d1) \<Rightarrow> (Some (Err e), d1, fs)
          | (Inr mounted, d1) \<Rightarrow>
              (case load_filesystem d1 fs of
                 (None, d2, fs') \<Rightarrow> (None, d2, fs')
               | (Some (Inl e), d2, fs') \<Rightarrow> (Some (Err e), d2, fs')
               | (Some (Inr loaded), d2, fs') \<Rightarrow> (Some (Ok (sb_version mounted, loaded, False)), d2, fs')))
     | (Inl e, d) \<Rightarrow>
         if e \<noteq> FormatError then (Some (Err e), d, fs)
         else (case bind_op (format_disk now) (\<lambda>_ d. mark_mounted now' (reset_cache d)) d of
             (Inl e, d1) \<Rightarrow> (Some (Err e), d1, fs)
           | (Inr mounted, d1) \<Rightarrow> (Some (Ok (sb_version mounted, 0, True)), d1, fs)))"

end
