(* ===== verification/Disk_Persist_Props.thy ===== *)
theory Disk_Persist_Props
  imports Disk_Persist
begin

text \<open>
  The disk as a partial map from paths to files: saving a file updates the map at its path, deleting
  removes the path, and loading after a restart gives back exactly the files of the map.
\<close>

section \<open>Runs of sectors\<close>

lemma unat_succ: "unat (k :: u64) + 1 < 2 ^ 64 \<Longrightarrow> unat (k + 1) = Suc (unat k)"
  using iffD1 [OF unat_add_lem, of k 1] by simp

lemma put_sectors_outside:
  assumes "unat k + n < 2 ^ 64" and "unat j < unat k \<or> unat k + n \<le> unat j"
  shows "put_sectors k n buffer c j = c j"
  using assms
proof (induction n arbitrary: k buffer c)
  case (Suc n)
  have s: "unat (k + 1) = Suc (unat k)" using Suc.prems(1) by (intro unat_succ) simp
  have "j \<noteq> k" using Suc.prems(2) by auto
  moreover have "unat j < unat (k + 1) \<or> unat (k + 1) + n \<le> unat j" using Suc.prems(2) s by auto
  ultimately show ?case using Suc.IH [of "k + 1"] Suc.prems(1) s by simp
qed simp

lemma sectors_at_cong:
  assumes "unat k + n < 2 ^ 64" and "\<And>j. unat k \<le> unat j \<Longrightarrow> unat j < unat k + n \<Longrightarrow> c' j = c j"
  shows "sectors_at c' k n = sectors_at c k n"
  using assms
proof (induction n arbitrary: k)
  case (Suc n)
  have s: "unat (k + 1) = Suc (unat k)" using Suc.prems(1) by (intro unat_succ) simp
  show ?case using Suc.IH [of "k + 1"] Suc.prems s by simp
qed simp

lemma sectors_at_put_sectors:
  assumes "unat k + n < 2 ^ 64" and "n * SECTOR_SIZE \<le> length buffer"
  shows "sectors_at (put_sectors k n buffer c) k n = take (n * SECTOR_SIZE) buffer"
  using assms
proof (induction n arbitrary: k buffer c)
  case (Suc n)
  have s: "unat (k + 1) = Suc (unat k)" using Suc.prems(1) by (intro unat_succ) simp
  let ?c = "c(k := take SECTOR_SIZE buffer)"
  have "put_sectors (k + 1) n (drop SECTOR_SIZE buffer) ?c k = ?c k"
    using Suc.prems(1) s by (intro put_sectors_outside) auto
  then show ?case
    using Suc.IH [of "k + 1" "drop SECTOR_SIZE buffer" ?c] Suc.prems s by (simp add: take_add fun_upd_def)
qed simp

lemma length_sectors_at: "\<forall>j. length (c j) = SECTOR_SIZE \<Longrightarrow> length (sectors_at c k n) = n * SECTOR_SIZE"
  by (induction n arbitrary: k) auto

section \<open>The data area\<close>

definition data_sector :: "u32 \<Rightarrow> u64" where
  "data_sector b = DATA_START_SECTOR + ucast b * SECTORS_PER_BLOCK"

lemma unat_ucast_u64 [simp]: "unat (ucast (b :: u32) :: u64) = unat b"
proof -
  have "unat b < 2 ^ LENGTH(32)" by (rule unsigned_less)
  then have "unat b < 2 ^ LENGTH(64)" by simp
  then show ?thesis by (simp only: unsigned_ucast_eq take_bit_nat_eq_self)
qed

lemma unat_block_sectors: "unat (ucast (b :: u32) * SECTORS_PER_BLOCK) = unat b * 8"
proof -
  have b: "unat b < 2 ^ LENGTH(32)" by (rule unsigned_less)
  then have "unat (ucast b :: u64) * unat SECTORS_PER_BLOCK < 2 ^ LENGTH(64)"
    by (simp add: SECTORS_PER_BLOCK_def)
  from iffD1 [OF unat_mult_lem this] show ?thesis
    by (simp add: SECTORS_PER_BLOCK_def)
qed

lemma unat_data_sector: "unat (data_sector b) = 129 + unat b * 8"
proof -
  have "unat b < 2 ^ LENGTH(32)" by (rule unsigned_less)
  then have "unat DATA_START_SECTOR + unat (ucast b * SECTORS_PER_BLOCK) < 2 ^ LENGTH(64)"
    by (simp add: unat_block_sectors DATA_START_SECTOR_eq)
  from iffD1 [OF unat_add_lem this] show ?thesis
    by (simp add: data_sector_def unat_block_sectors DATA_START_SECTOR_eq)
qed

lemma data_sector_room: "unat (data_sector b) + unat (n :: u32) * 8 < 2 ^ 64"
  using unsigned_less [of b, where 'a = nat] unsigned_less [of n, where 'a = nat]
  by (simp add: unat_data_sector)

definition file_bytes :: "(u64 \<Rightarrow> u8 list) \<Rightarrow> disk_file_entry \<Rightarrow> u8 list" where
  "file_bytes c e = take (unat (de_size e))
    (sectors_at c (data_sector (de_start_block e)) (unat (de_block_count e) * 8))"

lemma file_bytes_cong:
  assumes "\<And>j. unat (data_sector (de_start_block e)) \<le> unat j \<Longrightarrow>
      unat j < unat (data_sector (de_start_block e)) + unat (de_block_count e) * 8 \<Longrightarrow> c' j = c j"
  shows "file_bytes c' e = file_bytes c e"
  unfolding file_bytes_def using sectors_at_cong [OF data_sector_room assms] by simp

lemma file_bytes_other:
  assumes "apart s n (de_start_block e) (de_block_count e)"
  shows "file_bytes (put_sectors (data_sector s) (unat n * 8) buffer c) e = file_bytes c e"
  using assms
  by (intro file_bytes_cong put_sectors_outside data_sector_room)
    (auto simp: apart_def unat_data_sector)

section \<open>Writing\<close>

lemma write_sectors_Ok:
  assumes "disk_wf d" and "write_sectors k n buffer d = (Inr u, d')"
  shows "disk_wf d' \<and> disk_content d' = put_sectors k (unat n) buffer (disk_content d)"
  using assms write_loop_content [OF assms(1), of n buffer k u d'] by (auto simp: write_sectors_def split: if_splits)

lemma write_one_sector_Ok:
  assumes "disk_wf d" and "write_sectors k 1 b d = (Inr u, d')" and "length b = SECTOR_SIZE"
  shows "disk_wf d'" and "disk_content d' = (disk_content d)(k := b)"
  using write_sectors_Ok [OF assms(1,2)] assms(3) by simp_all

lemma disk_wf_sector: "disk_wf d \<Longrightarrow> length (disk_content d k) = SECTOR_SIZE"
  by (simp add: disk_wf_def vb_wf_def)

lemma write_file_entry_Ok:
  assumes "disk_wf d" and "write_file_entry i e d = (Inr u, d')" and "disk_entry_ok e"
  shows "i < MAX_FILES" and "disk_wf d'" and "disk_content d' = (disk_content d)(slot_sector i := entry_bytes e)"
proof -
  from assms(2) have i: "i < MAX_FILES" and w: "write_sectors (slot_sector i) 1 (entry_bytes e) d = (Inr u, d')"
    by (auto simp: write_file_entry_def slot_sector_def fail_op_def split: if_splits)
  with write_one_sector_Ok [OF assms(1) w length_entry_bytes [OF assms(3)]]
  show "i < MAX_FILES" "disk_wf d'" "disk_content d' = (disk_content d)(slot_sector i := entry_bytes e)" by auto
qed

lemma block_count_small:
  assumes "length data \<le> MAX_FILE_SIZE"
  shows "unat (block_count_for_len (length data)) = (length data + 4095) div 4096"
    and "unat (block_count_for_len (length data)) \<le> 256"
proof -
  have le: "(length data + 4095) div 4096 \<le> 256" using assms by (simp add: MAX_FILE_SIZE_def)
  then have "(length data + 4095) div 4096 < 2 ^ LENGTH(32)" by simp
  then have "unat (word_of_nat ((length data + 4095) div 4096) :: u32) = (length data + 4095) div 4096"
    by (simp only: unsigned_of_nat take_bit_nat_eq_self of_nat_id)
  then show "unat (block_count_for_len (length data)) = (length data + 4095) div 4096"
    by (simp add: block_count_for_len_def BLOCK_SIZE_def)
  with le show "unat (block_count_for_len (length data)) \<le> 256" by simp
qed

definition padded :: "u8 list \<Rightarrow> u8 list" where
  "padded data = data @ replicate (unat (block_count_for_len (length data)) * BLOCK_SIZE - length data) 0"

lemma length_padded:
  assumes "length data \<le> MAX_FILE_SIZE"
  shows "length (padded data) = unat (block_count_for_len (length data)) * 8 * SECTOR_SIZE"
    and "length data \<le> unat (block_count_for_len (length data)) * BLOCK_SIZE"
proof -
  show le: "length data \<le> unat (block_count_for_len (length data)) * BLOCK_SIZE"
    unfolding block_count_small(1) [OF assms] BLOCK_SIZE_def by linarith
  show "length (padded data) = unat (block_count_for_len (length data)) * 8 * SECTOR_SIZE"
    using le by (simp add: padded_def BLOCK_SIZE_def SECTOR_SIZE_def)
qed

lemma unat_sector_count:
  assumes "length data \<le> MAX_FILE_SIZE"
  shows "unat (ucast (ucast (block_count_for_len (length data)) * SECTORS_PER_BLOCK) :: u32)
    = unat (block_count_for_len (length data)) * 8"
proof -
  have "unat (block_count_for_len (length data)) * 8 < 2 ^ LENGTH(32)"
    using block_count_small(2) [OF assms] by simp
  then show ?thesis
    by (simp add: unsigned_ucast_eq unat_block_sectors take_bit_nat_eq_self)
qed

lemma write_file_data_Ok:
  assumes "disk_wf d" and "write_file_data b data d = (Inr x, d')" and "length data \<le> MAX_FILE_SIZE"
    and "block_count_for_len (length data) \<noteq> 0"
  shows "disk_wf d'" and "disk_content d' =
    put_sectors (data_sector b) (unat (block_count_for_len (length data)) * 8) (padded data) (disk_content d)"
proof -
  from assms(2,4) obtain u where
    "write_sectors (data_sector b) (ucast (ucast (block_count_for_len (length data)) * SECTORS_PER_BLOCK)) (padded data) d
      = (Inr u, d')"
    by (auto simp: write_file_data_def Let_def bind_op_Ok return_op_def data_sector_def padded_def)
  from write_sectors_Ok [OF assms(1) this] show "disk_wf d'" "disk_content d' =
    put_sectors (data_sector b) (unat (block_count_for_len (length data)) * 8) (padded data) (disk_content d)"
    by (simp_all add: unat_sector_count [OF assms(3)])
qed

section \<open>Names on disk\<close>

lemma canonical_bytes:
  assumes "is_canonical p"
  shows "list_all (\<lambda>c. 0 < byte_val c \<and> byte_val c < 128) p"
proof -
  from assms obtain cs where cs: "list_all good_component cs" "p = of_components cs"
    unfolding is_canonical_iff by blast
  have byte: "0 < byte_val c \<and> byte_val c < 128" if "component_byte c" for c
    using that by (auto simp: component_byte_def is_ascii_alphanumeric_def is_ascii_digit_def)
  have "list_all (\<lambda>c. 0 < byte_val c \<and> byte_val c < 128) (join_with (CHR ''/'') ds)" if "list_all good_component ds" for ds
    using that
  proof (induction ds)
    case (Cons d ds)
    then have "list_all (\<lambda>c. 0 < byte_val c \<and> byte_val c < 128) d"
      using byte by (auto simp: good_component_def list_all_iff)
    with Cons show ?case by (cases ds) auto
  qed simp
  with cs show ?thesis by (simp add: of_components_def)
qed

lemma entry_name_new_entry:
  assumes "is_canonical name" and "length name < MAX_FILENAME"
    and "de_name e = stored_name name"
  shows "entry_name e = Ok name"
proof -
  have nz: "\<forall>b \<in> set (as_bytes name). b \<noteq> 0"
  proof
    fix b assume "b \<in> set (as_bytes name)"
    then obtain c where c: "c \<in> set name" "b = of_char c" by (auto simp: as_bytes_def)
    then have "0 < byte_val c" using canonical_bytes [OF assms(1)] by (auto simp: list_all_iff)
    moreover have "unat b = byte_val c" using c(2) by (simp add: byte_val_def)
    ultimately show "b \<noteq> 0" by auto
  qed
  have "min (length (as_bytes name)) (MAX_FILENAME - 1) = length (as_bytes name)" using assms(2) by simp
  then have "stored_name name = as_bytes name @ replicate (MAX_FILENAME - length name) 0"
    by (simp add: stored_name_def Let_def)
  moreover have "takeWhile (\<lambda>b. b \<noteq> 0) (replicate k (0 :: u8)) = []" for k by (cases k) auto
  ultimately have "takeWhile (\<lambda>b. b \<noteq> 0) (de_name e) = as_bytes name"
    using nz assms(3) by simp
  moreover have "str_from_utf8 (as_bytes name) = Some name"
    using canonical_bytes [OF assms(1)] by (intro str_from_utf8_ascii) (auto simp: list_all_iff)
  ultimately show ?thesis by (simp add: entry_name_def)
qed

lemma length_stored_name: "length (stored_name name) = MAX_FILENAME"
  by (simp add: stored_name_def Let_def)

lemma new_entry_ok: "disk_entry_ok (new_entry name data own p ro ct mt b n)"
  by (simp add: disk_entry_ok_def new_entry_def length_stored_name)

lemma entry_inactive_ok: "disk_entry_ok entry_inactive"
  by (simp add: disk_entry_ok_def entry_inactive_def)

section \<open>The file table\<close>

definition slot_used :: "(u64 \<Rightarrow> u8 list) \<Rightarrow> nat \<Rightarrow> bool" where
  "slot_used c i \<longleftrightarrow> i < MAX_FILES \<and> de_active (tbl c i) \<noteq> 0"

definition disk_table_ok :: "(u64 \<Rightarrow> u8 list) \<Rightarrow> bool" where
  "disk_table_ok c \<longleftrightarrow> blocks_in_range c
    \<and> (\<forall>i. slot_used c i \<longrightarrow> unat (de_size (tbl c i)) \<le> unat (de_block_count (tbl c i)) * BLOCK_SIZE
        \<and> unat (de_size (tbl c i)) \<le> MAX_FILE_SIZE \<and> unat (de_block_count (tbl c i)) \<le> 256
        \<and> (\<exists>name. entry_name (tbl c i) = Ok name \<and> is_canonical name \<and> name \<noteq> ''/''))
    \<and> (\<forall>i j. slot_used c i \<longrightarrow> slot_used c j \<longrightarrow> i \<noteq> j \<longrightarrow> entry_name (tbl c i) \<noteq> entry_name (tbl c j)
        \<and> (holds_blocks (tbl c i) \<longrightarrow> holds_blocks (tbl c j) \<longrightarrow>
          apart (de_start_block (tbl c i)) (de_block_count (tbl c i))
            (de_start_block (tbl c j)) (de_block_count (tbl c j))))"

lemma disk_table_okD:
  assumes "disk_table_ok c"
  shows "blocks_in_range c"
    and "slot_used c i \<Longrightarrow> unat (de_size (tbl c i)) \<le> unat (de_block_count (tbl c i)) * BLOCK_SIZE"
    and "slot_used c i \<Longrightarrow> unat (de_size (tbl c i)) \<le> MAX_FILE_SIZE"
    and "slot_used c i \<Longrightarrow> \<exists>name. entry_name (tbl c i) = Ok name \<and> is_canonical name \<and> name \<noteq> ''/''"
    and "slot_used c i \<Longrightarrow> slot_used c j \<Longrightarrow> i \<noteq> j \<Longrightarrow> entry_name (tbl c i) \<noteq> entry_name (tbl c j)"
    and "slot_used c i \<Longrightarrow> slot_used c j \<Longrightarrow> i \<noteq> j \<Longrightarrow> holds_blocks (tbl c i) \<Longrightarrow> holds_blocks (tbl c j) \<Longrightarrow>
      apart (de_start_block (tbl c i)) (de_block_count (tbl c i)) (de_start_block (tbl c j)) (de_block_count (tbl c j))"
    and "slot_used c i \<Longrightarrow> unat (de_block_count (tbl c i)) \<le> 256"
  using assms unfolding disk_table_ok_def by blast+

lemma slot_sector_inj: "i < MAX_FILES \<Longrightarrow> j < MAX_FILES \<Longrightarrow> slot_sector i = slot_sector j \<longleftrightarrow> i = j"
  using slot_sector_unat by (metis nat.inject)

lemma tbl_update:
  assumes "i < MAX_FILES" and "j < MAX_FILES" and "disk_entry_ok e"
  shows "tbl (c(slot_sector i := entry_bytes e)) j = (if j = i then e else tbl c j)"
  using assms slot_sector_inj by (simp add: tbl_def entry_roundtrip)

lemma tbl_put_data:
  assumes "i < MAX_FILES"
  shows "tbl (put_sectors (data_sector b) (unat (n :: u32) * 8) buffer c) i = tbl c i"
proof -
  have "unat (slot_sector i) < unat (data_sector b)"
    using assms by (simp add: slot_sector_unat unat_data_sector MAX_FILES_def)
  then show ?thesis unfolding tbl_def by (simp add: put_sectors_outside [OF data_sector_room])
qed

lemma sblk_put_data: "sblk (put_sectors (data_sector b) (unat (n :: u32) * 8) buffer c) = sblk c"
  unfolding sblk_def by (simp add: put_sectors_outside [OF data_sector_room] unat_data_sector)

lemma sblk_update_slot: "i < MAX_FILES \<Longrightarrow> sblk (c(slot_sector i := x)) = sblk c"
proof -
  assume "i < MAX_FILES"
  then have "slot_sector i \<noteq> 0" using slot_sector_unat by (metis nat.distinct(1) unsigned_0)
  then show ?thesis by (simp add: sblk_def)
qed

lemma file_bytes_low:
  assumes "unat k < 129"
  shows "file_bytes (c(k := x)) e = file_bytes c e"
  using assms by (intro file_bytes_cong) (auto simp: unat_data_sector)

lemma file_bytes_slot: "i < MAX_FILES \<Longrightarrow> file_bytes (c(slot_sector i := x)) e = file_bytes c e"
  by (rule file_bytes_low) (simp add: slot_sector_unat MAX_FILES_def)

section \<open>Saving one file\<close>

lemma find_slot_Ok:
  assumes "disk_wf d" and "find_slot name is emp d = (Inr (target, emp'), d')"
  shows "disk_wf d' \<and> disk_content d' = disk_content d
    \<and> (case target of
        Some (i, e) \<Rightarrow> i \<in> set is \<and> e = tbl (disk_content d) i \<and> de_active e \<noteq> 0 \<and> entry_name e = Ok name
      | None \<Rightarrow> \<forall>i \<in> set is. de_active (tbl (disk_content d) i) \<noteq> 0 \<longrightarrow> entry_name (tbl (disk_content d) i) \<noteq> Ok name)
    \<and> (emp' = emp \<or> (\<exists>i \<in> set is. emp' = Some i \<and> de_active (tbl (disk_content d) i) = 0))"
  using assms
proof (induction "is" arbitrary: emp d)
  case Nil
  then show ?case by (auto simp: return_op_def)
next
  case (Cons i "is")
  from Cons.prems(2) obtain e d1 where rd: "read_file_entry i d = (Inr e, d1)"
    and rest: "(if de_active e \<noteq> 0
      then (case entry_name e of Inl err \<Rightarrow> fail_op err
        | Inr n \<Rightarrow> if n = name then return_op (Some (i, e), emp) else find_slot name is emp)
      else find_slot name is (if emp = None then Some i else emp)) d1 = (Inr (target, emp'), d')"
    by (auto simp: bind_op_Ok)
  note r = reads_opD [OF reads_read_file_entry Cons.prems(1) rd]
  have e: "e = tbl (disk_content d) i" using r(3) by simp
  show ?case
  proof (cases "de_active e \<noteq> 0")
    case True
    with rest obtain n where n: "entry_name e = Ok n"
      and rest: "(if n = name then return_op (Some (i, e), emp) else find_slot name is emp) d1 = (Inr (target, emp'), d')"
      by (auto simp: fail_op_def split: sum.splits)
    show ?thesis
    proof (cases "n = name")
      case True
      then show ?thesis using rest r(1,2) e n \<open>de_active e \<noteq> 0\<close> by (auto simp: return_op_def)
    next
      case False
      then show ?thesis using Cons.IH [OF r(1), of emp] rest r(2) e n by (auto split: option.splits)
    qed
  next
    case False
    then show ?thesis
      using Cons.IH [OF r(1), of "if emp = None then Some i else emp"] rest r(2) e
      by (auto split: option.splits if_splits)
  qed
qed

lemma apart_mono: "apart s n t m \<Longrightarrow> n' \<le> n \<Longrightarrow> apart s n' t m"
  by (auto simp: apart_def word_le_nat_alt)

lemma apart_sym: "apart s n t m \<longleftrightarrow> apart t m s n"
  by (auto simp: apart_def)

text \<open>The blocks chosen for slot \<open>i\<close> lie on the disk and meet no other file.\<close>

definition blocks_for :: "(u64 \<Rightarrow> u8 list) \<Rightarrow> nat \<Rightarrow> u32 \<Rightarrow> u32 \<Rightarrow> bool" where
  "blocks_for c i b n \<longleftrightarrow> unat b + unat n \<le> unat (sb_total_blocks (sblk c))
    \<and> (\<forall>j. slot_used c j \<longrightarrow> j \<noteq> i \<longrightarrow> holds_blocks (tbl c j) \<longrightarrow>
      apart b n (de_start_block (tbl c j)) (de_block_count (tbl c j)))"

lemma allocate_blocks_for:
  assumes "disk_wf d" and "blocks_in_range (disk_content d)"
    and "allocate_blocks n ig d = (Inr b, d')" and "ig = Some i \<or> (ig = None \<and> \<not> slot_used (disk_content d) i)"
  shows "disk_wf d'" and "disk_content d' = disk_content d" and "blocks_for (disk_content d) i b n"
proof -
  note ok = allocate_blocks_Ok [OF assms(1,3)]
  show "disk_wf d'" "disk_content d' = disk_content d" using ok by auto
  show "blocks_for (disk_content d) i b n"
    using gap_in_range [OF assms(2) ok(3)] allocate_blocks_apart [OF assms(1-3)] assms(4)
    by (auto simp: blocks_for_def slot_used_def)
qed

lemma choose_blocks_Ok:
  assumes "disk_wf d" and ok: "disk_table_ok (disk_content d)" and "choose_blocks n target d = (Inr b, d')" and "n \<noteq> 0"
    and target: "case target of Some (j, e) \<Rightarrow> j = i \<and> e = tbl (disk_content d) i \<and> slot_used (disk_content d) i
      | None \<Rightarrow> \<not> slot_used (disk_content d) i"
  shows "disk_wf d' \<and> disk_content d' = disk_content d \<and> blocks_for (disk_content d) i b n"
proof (cases target)
  case None
  with assms have al: "allocate_blocks n None d = (Inr b, d')" by (simp add: choose_blocks_def)
  show ?thesis
    using allocate_blocks_for [OF assms(1) disk_table_okD(1) [OF ok] al, of i] target None by simp
next
  case (Some p)
  let ?e = "tbl (disk_content d) i"
  have p: "p = (i, ?e)" and used: "slot_used (disk_content d) i" using target Some by (auto split: prod.splits)
  show ?thesis
  proof (cases "n \<le> de_block_count ?e")
    case True
    with assms Some p have d': "d' = d" "b = de_start_block ?e" by (auto simp: choose_blocks_def return_op_def)
    have "0 < de_block_count ?e" using True assms(4) by (metis word_le_0_iff word_neq_0_conv)
    then have holds: "holds_blocks ?e" using used by (auto simp: holds_blocks_def slot_used_def)
    have "unat (de_start_block ?e) + unat (de_block_count ?e) \<le> unat (sb_total_blocks (sblk (disk_content d)))"
      using blocks_in_rangeD [OF disk_table_okD(1) [OF ok]] used holds by (simp add: slot_used_def)
    moreover have "unat n \<le> unat (de_block_count ?e)" using True by (simp add: word_le_nat_alt)
    moreover have "apart b n (de_start_block (tbl (disk_content d) j)) (de_block_count (tbl (disk_content d) j))"
      if "slot_used (disk_content d) j" "j \<noteq> i" "holds_blocks (tbl (disk_content d) j)" for j
      unfolding d'(2) using disk_table_okD(6) [OF ok used that(1) _ holds that(3)] that(2) True
      by (blast intro: apart_mono)
    ultimately show ?thesis using d' assms(1) by (simp add: blocks_for_def)
  next
    case False
    with assms Some p have al: "allocate_blocks n (Some i) d = (Inr b, d')" by (simp add: choose_blocks_def)
    show ?thesis using allocate_blocks_for [OF assms(1) disk_table_okD(1) [OF ok] al, of i] by simp
  qed
qed

text \<open>
  The sectors after a file has been stored in slot \<open>i\<close> with its data at block \<open>b\<close>: the data in
  blocks of its own, the entry in the slot, and the slot free before or holding the same path.
\<close>

definition stored_file :: "(u64 \<Rightarrow> u8 list) \<Rightarrow> file_entry \<Rightarrow> nat \<Rightarrow> u32 \<Rightarrow> (u64 \<Rightarrow> u8 list) \<Rightarrow> bool" where
  "stored_file c f i b c' \<longleftrightarrow>
    (let n = block_count_for_len (length (fe_data f));
         c1 = (if n = 0 then c else put_sectors (data_sector b) (unat n * 8) (padded (fe_data f)) c)
     in i < MAX_FILES \<and> (n = 0 \<or> blocks_for c i b n)
        \<and> c' = c1(slot_sector i := entry_bytes (new_entry (fe_name f) (fe_data f) (fe_owner_uid f)
            (fe_permissions f) (fe_readonly f) (fe_created_at f) (fe_modified_at f) b n))
        \<and> (slot_used c i \<longrightarrow> entry_name (tbl c i) = Ok (fe_name f))
        \<and> (\<forall>j. slot_used c j \<longrightarrow> j \<noteq> i \<longrightarrow> entry_name (tbl c j) \<noteq> Ok (fe_name f)))"

abbreviation upsert :: "file_entry \<Rightarrow> unit disk_op" where
  "upsert f \<equiv> upsert_file_entry (fe_name f) (fe_data f) (fe_owner_uid f) (fe_permissions f)
    (fe_readonly f) (fe_created_at f) (fe_modified_at f)"

lemma choose_slot:
  assumes "disk_wf d" and "disk_table_ok (disk_content d)"
    and "find_slot name [0..<MAX_FILES] None d = (Inr (target, emp), d1)"
    and "(case target of Some (i, _) \<Rightarrow> Some i | None \<Rightarrow> emp) = Some i"
  shows "disk_wf d1 \<and> disk_content d1 = disk_content d \<and> i < MAX_FILES
    \<and> (slot_used (disk_content d) i \<longrightarrow> entry_name (tbl (disk_content d) i) = Ok name)
    \<and> (\<forall>j. slot_used (disk_content d) j \<longrightarrow> j \<noteq> i \<longrightarrow> entry_name (tbl (disk_content d) j) \<noteq> Ok name)
    \<and> (case target of Some (j, e) \<Rightarrow> j = i \<and> e = tbl (disk_content d) i \<and> slot_used (disk_content d) i
      | None \<Rightarrow> \<not> slot_used (disk_content d) i)"
proof (cases target)
  case None
  then show ?thesis
    using find_slot_Ok [OF assms(1,3)] assms(4) by (auto simp: slot_used_def)
next
  case (Some p)
  obtain j e where p: "p = (j, e)" by fastforce
  from find_slot_Ok [OF assms(1,3)] Some p assms(4)
  have i: "disk_wf d1" "disk_content d1 = disk_content d" "j = i" "i < MAX_FILES" "e = tbl (disk_content d) i"
    "slot_used (disk_content d) i" "entry_name (tbl (disk_content d) i) = Ok name" by (auto simp: slot_used_def)
  moreover have "entry_name (tbl (disk_content d) k) \<noteq> Ok name" if "slot_used (disk_content d) k" "k \<noteq> i" for k
    using disk_table_okD(5) [OF assms(2) that(1) i(6) that(2)] i(7) by simp
  ultimately show ?thesis using Some p by simp
qed

lemma upsert_Ok:
  assumes "disk_wf d" and "disk_table_ok (disk_content d)" and "length (fe_data f) \<le> MAX_FILE_SIZE"
    and "upsert f d = (Inr u, d')"
  shows "disk_wf d' \<and> (\<exists>i b. stored_file (disk_content d) f i b (disk_content d'))"
proof -
  let ?n = "block_count_for_len (length (fe_data f))"
  let ?e = "\<lambda>b. new_entry (fe_name f) (fe_data f) (fe_owner_uid f) (fe_permissions f) (fe_readonly f)
    (fe_created_at f) (fe_modified_at f) b ?n"
  from assms(4) obtain target emp d1 i b d2 d3 where
    1: "find_slot (fe_name f) [0..<MAX_FILES] None d = (Inr (target, emp), d1)"
    and i: "(case target of Some (i, _) \<Rightarrow> Some i | None \<Rightarrow> emp) = Some i"
    and 2: "choose_blocks ?n target d1 = (Inr b, d2)"
    and 3: "(if ?n \<noteq> 0 then bind_op (write_file_data b (fe_data f)) (\<lambda>_. return_op ()) else return_op ()) d2 = (Inr (), d3)"
    and 4: "write_file_entry i (?e b) d3 = (Inr u, d')"
    by (auto simp: upsert_file_entry_def bind_op_Ok Let_def fail_op_def split: option.splits)
  note slot = choose_slot [OF assms(1,2) 1 i]
  have c1: "disk_wf d1" "disk_content d1 = disk_content d" using slot by auto
  have two: "disk_wf d2 \<and> disk_content d2 = disk_content d \<and> (?n = 0 \<or> blocks_for (disk_content d) i b ?n)"
  proof (cases "?n = 0")
    case True
    then show ?thesis using 2 c1 by (auto simp: choose_blocks_def return_op_def)
  next
    case False
    note cb = choose_blocks_Ok [OF c1(1) _ 2 False, where i = i, unfolded c1(2), OF assms(2)]
    from cb slot show ?thesis by blast
  qed
  have three: "disk_wf d3 \<and> disk_content d3 = (if ?n = 0 then disk_content d
      else put_sectors (data_sector b) (unat ?n * 8) (padded (fe_data f)) (disk_content d))"
  proof (cases "?n = 0")
    case True
    then show ?thesis using 3 two by (auto simp: return_op_def)
  next
    case False
    then obtain x where "write_file_data b (fe_data f) d2 = (Inr x, d3)"
      using 3 by (auto simp: bind_op_Ok return_op_def)
    from write_file_data_Ok [OF _ this assms(3) False] two False show ?thesis by simp
  qed
  from write_file_entry_Ok [OF _ 4 new_entry_ok] three two slot
  show ?thesis by (auto simp: stored_file_def Let_def)
qed

section \<open>The disk as a map of files\<close>

definition disk_file :: "(u64 \<Rightarrow> u8 list) \<Rightarrow> disk_file_entry \<Rightarrow> file_entry" where
  "disk_file c e = \<lparr>fe_name = (case entry_name e of Inl _ \<Rightarrow> [] | Inr n \<Rightarrow> n), fe_data = file_bytes c e,
    fe_created_at = de_created_at e, fe_modified_at = de_modified_at e, fe_readonly = (de_readonly e \<noteq> 0),
    fe_owner_uid = de_owner_uid e, fe_permissions = entry_permissions e\<rparr>"

definition disk_lookup :: "(u64 \<Rightarrow> u8 list) \<Rightarrow> string \<Rightarrow> file_entry option" where
  "disk_lookup c name = map_option (\<lambda>i. disk_file c (tbl c i))
    (find (\<lambda>i. de_active (tbl c i) \<noteq> 0 \<and> entry_name (tbl c i) = Ok name) [0..<MAX_FILES])"

lemma disk_lookup_used:
  assumes "disk_table_ok c" and "slot_used c i" and "entry_name (tbl c i) = Ok name"
  shows "disk_lookup c name = Some (disk_file c (tbl c i))"
proof -
  let ?P = "\<lambda>i. de_active (tbl c i) \<noteq> 0 \<and> entry_name (tbl c i) = Ok name"
  have "i \<in> set [0..<MAX_FILES]" "?P i" using assms(2,3) by (simp_all add: slot_used_def)
  then have "\<exists>j \<in> set [0..<MAX_FILES]. ?P j" by blast
  from find_exists [OF this] obtain j where f: "find ?P [0..<MAX_FILES] = Some j" ..
  from find_SomeD [OF f] have j: "slot_used c j" "entry_name (tbl c j) = Ok name" by (simp_all add: slot_used_def)
  have "j = i" using disk_table_okD(5) [OF assms(1) j(1) assms(2)] j(2) assms(3) by metis
  then show ?thesis using f by (simp add: disk_lookup_def)
qed

lemma disk_lookup_none:
  assumes "\<And>i. slot_used c i \<Longrightarrow> entry_name (tbl c i) \<noteq> Ok name"
  shows "disk_lookup c name = None"
  using assms by (auto simp: disk_lookup_def find_None_iff slot_used_def)

text \<open>
  A file can be stored when its path is canonical and shorter than the name field, and its owner is
  the owner its permissions name.
\<close>

definition storable :: "file_entry \<Rightarrow> bool" where
  "storable f \<longleftrightarrow> is_canonical (fe_name f) \<and> fe_name f \<noteq> ''/'' \<and> length (fe_name f) < MAX_FILENAME
    \<and> length (fe_data f) \<le> MAX_FILE_SIZE \<and> fp_owner_uid (fe_permissions f) = fe_owner_uid f"

lemma unat_data_size: "length data \<le> MAX_FILE_SIZE \<Longrightarrow> unat (word_of_nat (length data) :: u64) = length data"
proof -
  assume "length data \<le> MAX_FILE_SIZE"
  then have "length data < 2 ^ LENGTH(64)" by (simp add: MAX_FILE_SIZE_def)
  then show ?thesis by (simp only: unsigned_of_nat take_bit_nat_eq_self of_nat_id)
qed

lemma flag_byte_neq_0 [simp]: "flag_byte b \<noteq> 0 \<longleftrightarrow> b"
  by (simp add: flag_byte_def)

lemma stored_file_bytes:
  assumes "stored_file c f i b c'" and "length (fe_data f) \<le> MAX_FILE_SIZE"
  shows "file_bytes c' (tbl c' i) = fe_data f"
proof -
  let ?n = "block_count_for_len (length (fe_data f))"
  let ?e = "new_entry (fe_name f) (fe_data f) (fe_owner_uid f) (fe_permissions f) (fe_readonly f)
    (fe_created_at f) (fe_modified_at f) b ?n"
  let ?c1 = "if ?n = 0 then c else put_sectors (data_sector b) (unat ?n * 8) (padded (fe_data f)) c"
  have i: "i < MAX_FILES" and c': "c' = ?c1(slot_sector i := entry_bytes ?e)"
    using assms(1) by (auto simp: stored_file_def Let_def)
  have e: "tbl c' i = ?e" unfolding c' by (simp add: tbl_update [OF i i new_entry_ok])
  have "file_bytes c' ?e = file_bytes ?c1 ?e" unfolding c' by (rule file_bytes_slot [OF i])
  also have "\<dots> = take (length (fe_data f)) (sectors_at ?c1 (data_sector b) (unat ?n * 8))"
    by (simp add: file_bytes_def new_entry_def unat_data_size [OF assms(2)])
  finally have fb: "file_bytes c' ?e = take (length (fe_data f)) (sectors_at ?c1 (data_sector b) (unat ?n * 8))" .
  show ?thesis
  proof (cases "?n = 0")
    case True
    then have "length (fe_data f) = 0" using length_padded(2) [OF assms(2)] by simp
    then show ?thesis using e fb by simp
  next
    case False
    have "sectors_at ?c1 (data_sector b) (unat ?n * 8) = take (unat ?n * 8 * SECTOR_SIZE) (padded (fe_data f))"
      using False length_padded(1) [OF assms(2)] by (simp add: sectors_at_put_sectors [OF data_sector_room])
    then show ?thesis using e fb length_padded(1) [OF assms(2)] by (simp add: padded_def)
  qed
qed

lemma stored_file_slots:
  assumes "stored_file c f i b c'"
  shows "i < MAX_FILES" and "slot_used c' j \<longleftrightarrow> j = i \<or> slot_used c j" and "j < MAX_FILES \<Longrightarrow> j \<noteq> i \<Longrightarrow> tbl c' j = tbl c j"
    and "tbl c' i = new_entry (fe_name f) (fe_data f) (fe_owner_uid f) (fe_permissions f) (fe_readonly f)
      (fe_created_at f) (fe_modified_at f) b (block_count_for_len (length (fe_data f)))"
    and "sblk c' = sblk c"
proof -
  let ?n = "block_count_for_len (length (fe_data f))"
  let ?e = "new_entry (fe_name f) (fe_data f) (fe_owner_uid f) (fe_permissions f) (fe_readonly f)
    (fe_created_at f) (fe_modified_at f) b ?n"
  let ?c1 = "if ?n = 0 then c else put_sectors (data_sector b) (unat ?n * 8) (padded (fe_data f)) c"
  show i: "i < MAX_FILES" using assms by (simp add: stored_file_def Let_def)
  have c': "c' = ?c1(slot_sector i := entry_bytes ?e)" using assms by (simp add: stored_file_def Let_def)
  have t: "tbl c' j = (if j = i then ?e else tbl c j)" if "j < MAX_FILES" for j
    unfolding c' tbl_update [OF i that new_entry_ok] using tbl_put_data [OF that] by simp
  show "j < MAX_FILES \<Longrightarrow> j \<noteq> i \<Longrightarrow> tbl c' j = tbl c j" using t by simp
  show "tbl c' i = ?e" using t [OF i] by simp
  show "slot_used c' j \<longleftrightarrow> j = i \<or> slot_used c j"
    using t [of j] i by (cases "j = i") (auto simp: slot_used_def new_entry_def)
  show "sblk c' = sblk c" unfolding c' sblk_update_slot [OF i] using sblk_put_data by simp
qed

lemma stored_file_other:
  assumes "stored_file c f i b c'" and "slot_used c j" and "j \<noteq> i"
  shows "file_bytes c' (tbl c j) = file_bytes c (tbl c j)"
proof -
  let ?n = "block_count_for_len (length (fe_data f))"
  let ?c1 = "if ?n = 0 then c else put_sectors (data_sector b) (unat ?n * 8) (padded (fe_data f)) c"
  obtain x where c': "c' = ?c1(slot_sector i := x)" and i: "i < MAX_FILES"
    and bl: "?n = 0 \<or> blocks_for c i b ?n" using assms(1) by (auto simp: stored_file_def Let_def)
  have "file_bytes c' (tbl c j) = file_bytes ?c1 (tbl c j)" unfolding c' by (rule file_bytes_slot [OF i])
  also have "\<dots> = file_bytes c (tbl c j)"
  proof (cases "?n = 0 \<or> de_block_count (tbl c j) = 0")
    case True
    then show ?thesis by (auto simp: file_bytes_def)
  next
    case False
    then have "holds_blocks (tbl c j)" using assms(2) by (simp add: holds_blocks_def slot_used_def)
    then have "apart b ?n (de_start_block (tbl c j)) (de_block_count (tbl c j))"
      using bl False assms(2,3) by (simp add: blocks_for_def)
    then show ?thesis using False file_bytes_other by simp
  qed
  finally show ?thesis .
qed

lemma stored_file_table_ok:
  assumes st: "stored_file c f i b c'" and ok: "disk_table_ok c" and f: "storable f"
  shows "disk_table_ok c'"
proof -
  let ?n = "block_count_for_len (length (fe_data f))"
  note sl = stored_file_slots [OF st]
  have size: "length (fe_data f) \<le> MAX_FILE_SIZE" using f by (simp add: storable_def)
  have new: "de_start_block (tbl c' i) = b" "de_block_count (tbl c' i) = ?n" "unat (de_size (tbl c' i)) = length (fe_data f)"
    "entry_name (tbl c' i) = Ok (fe_name f)"
    using entry_name_new_entry [of "fe_name f"] f unat_data_size [OF size] by (simp_all add: sl(4) new_entry_def storable_def)
  have bl: "?n = 0 \<or> blocks_for c i b ?n" and others: "\<And>j. slot_used c j \<Longrightarrow> j \<noteq> i \<Longrightarrow> entry_name (tbl c j) \<noteq> Ok (fe_name f)"
    using st by (auto simp: stored_file_def Let_def)
  have same: "tbl c' j = tbl c j \<and> slot_used c j" if "slot_used c' j" "j \<noteq> i" for j
    using that sl(2,3) [of j] by (simp add: slot_used_def)
  have "blocks_in_range c'"
    unfolding blocks_in_range_def sl(5)
  proof (intro conjI allI impI)
    show "sb_total_blocks (sblk c) \<noteq> - 1" using disk_table_okD(1) [OF ok] by (simp add: blocks_in_range_def)
    fix j assume j: "j < MAX_FILES" "holds_blocks (tbl c' j)"
    show "unat (de_start_block (tbl c' j)) + unat (de_block_count (tbl c' j)) \<le> unat (sb_total_blocks (sblk c))"
    proof (cases "j = i")
      case True
      then show ?thesis using new bl j(2) by (auto simp: blocks_for_def holds_blocks_def)
    next
      case False
      then show ?thesis using blocks_in_rangeD [OF disk_table_okD(1) [OF ok] j(1)] j sl(3) by simp
    qed
  qed
  moreover have "unat (de_size (tbl c' j)) \<le> unat (de_block_count (tbl c' j)) * BLOCK_SIZE
      \<and> unat (de_size (tbl c' j)) \<le> MAX_FILE_SIZE \<and> unat (de_block_count (tbl c' j)) \<le> 256
      \<and> (\<exists>name. entry_name (tbl c' j) = Ok name \<and> is_canonical name \<and> name \<noteq> ''/'')" if "slot_used c' j" for j
    using new length_padded(2) [OF size] size f same [OF that] disk_table_okD(2-4,7) [OF ok, of j] block_count_small(2) [OF size]
    by (cases "j = i") (auto simp: storable_def)
  moreover have "entry_name (tbl c' j) \<noteq> entry_name (tbl c' k)
      \<and> (holds_blocks (tbl c' j) \<longrightarrow> holds_blocks (tbl c' k) \<longrightarrow>
        apart (de_start_block (tbl c' j)) (de_block_count (tbl c' j)) (de_start_block (tbl c' k)) (de_block_count (tbl c' k)))"
    if jk: "slot_used c' j" "slot_used c' k" "j \<noteq> k" for j k
  proof -
    have i_vs: "entry_name (tbl c' i) \<noteq> entry_name (tbl c' m) \<and> (holds_blocks (tbl c' i) \<longrightarrow> holds_blocks (tbl c' m) \<longrightarrow>
        apart b ?n (de_start_block (tbl c' m)) (de_block_count (tbl c' m)))" if "slot_used c' m" "m \<noteq> i" for m
      using same [OF that] others [of m] that(2) new bl by (auto simp: blocks_for_def holds_blocks_def)
    show ?thesis
      using i_vs [of j] i_vs [of k] same [of j] same [of k] jk new disk_table_okD(5,6) [OF ok, of j k]
      by (cases "j = i"; cases "k = i") (auto simp: apart_sym)
  qed
  ultimately show ?thesis unfolding disk_table_ok_def by blast
qed

lemma stored_file_lookup:
  assumes st: "stored_file c f i b c'" and ok: "disk_table_ok c" and f: "storable f"
  shows "disk_lookup c' = (disk_lookup c)(fe_name f \<mapsto> f)"
proof
  fix name
  note sl = stored_file_slots [OF st]
  note ok' = stored_file_table_ok [OF st ok f]
  have size: "length (fe_data f) \<le> MAX_FILE_SIZE" using f by (simp add: storable_def)
  have en: "entry_name (tbl c' i) = Ok (fe_name f)"
    using entry_name_new_entry [of "fe_name f"] f by (simp add: sl(4) new_entry_def storable_def)
  have "entry_permissions (tbl c' i) = fe_permissions f"
    using f by (simp add: entry_permissions_def sl(4) new_entry_def storable_def)
  then have whole: "disk_file c' (tbl c' i) = f"
    using stored_file_bytes [OF st size] en by (simp add: disk_file_def) (simp add: sl(4) new_entry_def)
  have i: "slot_used c' i" using sl(2) by simp
  show "disk_lookup c' name = ((disk_lookup c)(fe_name f \<mapsto> f)) name"
  proof (cases "name = fe_name f")
    case True
    then show ?thesis using disk_lookup_used [OF ok' i en] whole by simp
  next
    case False
    show ?thesis
    proof (cases "\<exists>j. slot_used c j \<and> entry_name (tbl c j) = Ok name")
      case True
      then obtain j where j: "slot_used c j" "entry_name (tbl c j) = Ok name" by blast
      have ji: "j \<noteq> i" using st j False by (auto simp: stored_file_def Let_def)
      have t: "tbl c' j = tbl c j" using sl(3) j(1) ji by (simp add: slot_used_def)
      have "disk_lookup c' name = Some (disk_file c' (tbl c j))"
        using disk_lookup_used [OF ok', of j] j sl(2) t by simp
      then show ?thesis
        using disk_lookup_used [OF ok j] stored_file_other [OF st j(1) ji] False by (simp add: disk_file_def)
    next
      case no: False
      have "entry_name (tbl c' j) \<noteq> Ok name" if "slot_used c' j" for j
        using that no en False sl(2,3) [of j] by (cases "j = i") (auto simp: slot_used_def)
      then show ?thesis using disk_lookup_none [of c' name] disk_lookup_none [of c name] no False by auto
    qed
  qed
qed

section \<open>Updates of the superblock\<close>

definition same_files :: "(u64 \<Rightarrow> u8 list) \<Rightarrow> (u64 \<Rightarrow> u8 list) \<Rightarrow> bool" where
  "same_files c c' \<longleftrightarrow> (\<forall>i < MAX_FILES. tbl c' i = tbl c i) \<and> (\<forall>e. file_bytes c' e = file_bytes c e)
    \<and> sb_total_blocks (sblk c') = sb_total_blocks (sblk c)"

lemma same_files_table_ok:
  assumes "same_files c c'" and "disk_table_ok c"
  shows "disk_table_ok c'"
proof -
  have u: "slot_used c' i \<longleftrightarrow> slot_used c i" for i using assms(1) by (auto simp: slot_used_def same_files_def)
  have t: "tbl c' i = tbl c i" if "slot_used c i" for i using assms(1) that by (simp add: slot_used_def same_files_def)
  have "blocks_in_range c'"
    using disk_table_okD(1) [OF assms(2)] assms(1) by (simp add: blocks_in_range_def same_files_def)
  then show ?thesis
    using disk_table_okD(2-7) [OF assms(2)] unfolding disk_table_ok_def by (simp add: u t)
qed

lemma same_files_lookup:
  assumes "same_files c c'"
  shows "disk_lookup c' = disk_lookup c"
proof
  fix name
  have "find (\<lambda>i. de_active (tbl c' i) \<noteq> 0 \<and> entry_name (tbl c' i) = Ok name) [0..<MAX_FILES]
      = find (\<lambda>i. de_active (tbl c i) \<noteq> 0 \<and> entry_name (tbl c i) = Ok name) [0..<MAX_FILES]"
    using assms by (intro find_cong) (auto simp: same_files_def)
  moreover have "disk_file c' (tbl c' i) = disk_file c (tbl c i)" if "i < MAX_FILES" for i
    using assms that by (simp add: same_files_def disk_file_def)
  ultimately show "disk_lookup c' name = disk_lookup c name"
    using find_SomeD [of _ "[0..<MAX_FILES]"] by (fastforce simp: disk_lookup_def intro!: option.map_cong)
qed

lemma superblock_update_same_files:
  assumes "superblock_ok s" and "sb_total_blocks s = sb_total_blocks (sblk c)"
  shows "same_files c (c(0 := superblock_bytes s))"
proof -
  have "tbl (c(0 := superblock_bytes s)) i = tbl c i" if "i < MAX_FILES" for i
    using slot_sector_unat [OF that] by (auto simp: tbl_def)
  moreover have "file_bytes (c(0 := superblock_bytes s)) e = file_bytes c e" for e
    by (rule file_bytes_low) simp
  moreover have "sblk (c(0 := superblock_bytes s)) = s" by (simp add: sblk_def superblock_roundtrip [OF assms(1)])
  ultimately show ?thesis using assms(2) by (simp add: same_files_def)
qed

lemma sblk_ok: "disk_wf d \<Longrightarrow> superblock_ok (sblk (disk_content d))"
  using disk_wf_sector [of d 0]
  by (simp add: superblock_ok_def sblk_def superblock_of_bytes_def bytes_at_def SECTOR_SIZE_def)

lemma write_superblock_Ok:
  assumes "disk_wf d" and "write_superblock s d = (Inr u, d')" and "superblock_ok s"
    and "sb_total_blocks s = sb_total_blocks (sblk (disk_content d))"
  shows "disk_wf d' \<and> same_files (disk_content d) (disk_content d')"
  using write_one_sector_Ok [OF assms(1) assms(2) [unfolded write_superblock_def] length_superblock_bytes [OF assms(3)]]
    superblock_update_same_files [OF assms(3,4)] by simp

lemma set_superblock_state_Ok:
  assumes "disk_wf d" and "set_superblock_state st d = (Inr u, d')"
  shows "disk_wf d' \<and> same_files (disk_content d) (disk_content d')"
proof -
  from assms(2) obtain s d1 where 1: "read_superblock d = (Inr s, d1)" and 2: "write_superblock (s\<lparr>sb_state := st\<rparr>) d1 = (Inr u, d')"
    by (auto simp: set_superblock_state_def bind_op_Ok)
  note r = reads_opD [OF reads_read_superblock assms(1) 1]
  have s: "s = sblk (disk_content d)" using r(3) by simp
  have "superblock_ok (s\<lparr>sb_state := st\<rparr>)" using sblk_ok [OF assms(1)] s by (simp add: superblock_ok_def)
  from write_superblock_Ok [OF r(1) 2 this] r(2) s show ?thesis by simp
qed

lemma refresh_superblock_Ok:
  assumes "disk_wf d" and "refresh_superblock st d = (Inr x, d')"
  shows "disk_wf d' \<and> same_files (disk_content d) (disk_content d')"
proof -
  from assms(2) obtain s d1 used d2 files d3 u where 1: "read_superblock d = (Inr s, d1)"
    and 2: "count_used_blocks d1 = (Inr used, d2)" and 3: "count_active_files d2 = (Inr files, d3)"
    and 4: "write_superblock (s\<lparr>sb_used_blocks := used, sb_file_count := files, sb_state := st\<rparr>) d3 = (Inr u, d')"
    by (auto simp: refresh_superblock_def bind_op_Ok Let_def return_op_def)
  obtain f g where f: "reads_op count_used_blocks f" and g: "reads_op count_active_files g"
    using reads_count_used reads_count_active unfolding count_used_blocks_def count_active_files_def by blast
  note r = reads_opD [OF reads_read_superblock assms(1) 1]
  note r2 = reads_opD [OF f r(1) 2]
  note r3 = reads_opD [OF g r2(1) 3]
  have s: "s = sblk (disk_content d)" using r(3) by simp
  have "superblock_ok (s\<lparr>sb_used_blocks := used, sb_file_count := files, sb_state := st\<rparr>)"
    using sblk_ok [OF assms(1)] s by (simp add: superblock_ok_def)
  from write_superblock_Ok [OF r3(1) 4 this] r(2) r2(2) r3(2) s show ?thesis by simp
qed

section \<open>Deleting one file\<close>

lemma clear_slot:
  assumes "disk_table_ok c" and "slot_used c i" and "entry_name (tbl c i) = Ok name"
    and c': "c' = c(slot_sector i := entry_bytes entry_inactive)"
  shows "disk_table_ok c'" and "disk_lookup c' = (disk_lookup c)(name := None)"
proof -
  have i: "i < MAX_FILES" using assms(2) by (simp add: slot_used_def)
  have t: "tbl c' j = (if j = i then entry_inactive else tbl c j)" if "j < MAX_FILES" for j
    unfolding c' by (rule tbl_update [OF i that entry_inactive_ok])
  have u: "slot_used c' j \<longleftrightarrow> slot_used c j \<and> j \<noteq> i" for j
    using t [of j] by (cases "j = i") (auto simp: slot_used_def entry_inactive_def)
  have same: "tbl c' j = tbl c j" if "slot_used c' j" for j
    using t [of j] that u [of j] by (auto simp: slot_used_def)
  have "blocks_in_range c'"
    using disk_table_okD(1) [OF assms(1)] t sblk_update_slot [OF i] i
    by (auto simp: blocks_in_range_def c' holds_blocks_def entry_inactive_def)
  then show ok': "disk_table_ok c'"
    using disk_table_okD(2-7) [OF assms(1)] unfolding disk_table_ok_def by (simp add: same u)
  show "disk_lookup c' = (disk_lookup c)(name := None)"
  proof
    fix n
    show "disk_lookup c' n = ((disk_lookup c)(name := None)) n"
    proof (cases "\<exists>j. slot_used c' j \<and> entry_name (tbl c j) = Ok n")
      case True
      then obtain j where j: "slot_used c' j" "entry_name (tbl c j) = Ok n" by blast
      then have "n \<noteq> name" using disk_table_okD(5) [OF assms(1), of j i] assms(2,3) u by auto
      moreover have "disk_file c' (tbl c j) = disk_file c (tbl c j)"
        unfolding c' by (simp add: disk_file_def file_bytes_slot [OF i])
      ultimately show ?thesis
        using disk_lookup_used [OF ok' j(1)] disk_lookup_used [OF assms(1), of j n] j same u by simp
    next
      case False
      then have "disk_lookup c' n = None" using same by (intro disk_lookup_none) auto
      moreover have "disk_lookup c n = None" if "n \<noteq> name"
        using that False assms(3) u by (intro disk_lookup_none) (metis sum.inject(2))
      ultimately show ?thesis by simp
    qed
  qed
qed

lemma delete_loop_Ok:
  assumes "disk_wf d" and "delete_loop name is d = (Inr found, d')"
  shows "disk_wf d' \<and> (if found then \<exists>i. slot_used (disk_content d) i \<and> entry_name (tbl (disk_content d) i) = Ok name
      \<and> disk_content d' = (disk_content d)(slot_sector i := entry_bytes entry_inactive)
    else disk_content d' = disk_content d)"
  using assms
proof (induction "is" arbitrary: d)
  case Nil
  then show ?case by (auto simp: return_op_def)
next
  case (Cons i "is")
  from Cons.prems(2) obtain e d1 where rd: "read_file_entry i d = (Inr e, d1)"
    and rest: "(if de_active e = 0 then delete_loop name is
      else (case entry_name e of Inl err \<Rightarrow> fail_op err
        | Inr n \<Rightarrow> if n = name then bind_op (write_file_entry i entry_inactive) (\<lambda>_. return_op True)
            else delete_loop name is)) d1 = (Inr found, d')"
    by (auto simp: bind_op_Ok)
  note r = reads_opD [OF reads_read_file_entry Cons.prems(1) rd]
  have e: "e = tbl (disk_content d) i" using r(3) by simp
  show ?case
  proof (cases "de_active e \<noteq> 0 \<and> entry_name e = Ok name")
    case True
    with rest obtain u where w: "write_file_entry i entry_inactive d1 = (Inr u, d')" and "found"
      by (auto simp: bind_op_Ok return_op_def)
    from write_file_entry_Ok [OF r(1) w entry_inactive_ok] True e r(2) \<open>found\<close> show ?thesis
      by (auto simp: slot_used_def)
  next
    case False
    then have "delete_loop name is d1 = (Inr found, d')"
      using rest by (auto simp: fail_op_def split: if_splits sum.splits)
    from Cons.IH [OF r(1) this] show ?thesis unfolding r(2) .
  qed
qed

section \<open>What the format cannot hold\<close>

text \<open>
  A path of the greatest length the file system accepts is cut when it is stored, so that no entry
  is ever found under it again.
\<close>

lemma longest_name_is_cut:
  assumes "length name = MAX_PATH_LEN"
  shows "entry_name (new_entry name data own p ro ct mt b n) \<noteq> Ok name"
proof
  let ?bytes = "takeWhile (\<lambda>b. b \<noteq> 0) (stored_name name)"
  assume "entry_name (new_entry name data own p ro ct mt b n) = Ok name"
  then have "str_from_utf8 ?bytes = Some name" by (simp add: entry_name_def new_entry_def split: option.splits)
  then have "from_bytes ?bytes = name" by (auto simp: str_from_utf8_def split: if_splits)
  then have "length ?bytes = length name" by (metis from_bytes_def length_map)
  moreover have "stored_name name = take 95 (as_bytes name) @ [0]"
    using assms by (simp add: stored_name_def Let_def as_bytes_def MAX_PATH_LEN_def)
  then have "length ?bytes \<le> 95"
    using length_takeWhile_le [of "\<lambda>b. b \<noteq> 0" "take 95 (as_bytes name)"] by (simp add: takeWhile_append)
  ultimately show False using assms by (simp add: MAX_PATH_LEN_def)
qed

text \<open>An entry that claims more bytes than its blocks hold makes loading panic.\<close>

lemma oversized_entry_panics:
  assumes "read_file_data (de_start_block e) (de_block_count e) (unat (de_block_count e) * BLOCK_SIZE) d = (Ok bytes, d')"
    and "de_block_count e \<noteq> 0" and "length bytes \<le> unat (de_block_count e) * BLOCK_SIZE"
    and "unat (de_size e) > unat (de_block_count e) * BLOCK_SIZE"
  shows "entry_data e d = (None, d')"
proof -
  have "de_size e \<noteq> 0" using assms(4) by auto
  with assms show ?thesis by (simp add: entry_data_def Let_def)
qed

end
