(* ===== verification/Disk_Reboot.thy ===== *)
theory Disk_Reboot
  imports Disk_Persist_Props
begin

text \<open>
  Loading the file system from the disk, and saving on a device without faults: after a reboot the
  file system holds the files the disk held, and on a device that reports no error a new file for
  which there is a slot and a gap is saved, and loading a disk whose files fit in memory succeeds.
\<close>

section \<open>Loading\<close>

lemma entry_data_used:
  assumes "disk_wf d" and "disk_table_ok (disk_content d)" and "slot_used (disk_content d) i"
    and run: "entry_data (tbl (disk_content d) i) d = (r, d')"
  shows "disk_wf d' \<and> disk_content d' = disk_content d
    \<and> (\<exists>e. r = Some (Err e) \<or> r = Some (Ok (file_bytes (disk_content d) (tbl (disk_content d) i))))"
proof (cases "de_block_count (tbl (disk_content d) i) \<noteq> 0 \<and> de_size (tbl (disk_content d) i) \<noteq> 0")
  case True
  let ?e = "tbl (disk_content d) i"
  let ?n = "ucast (ucast (de_block_count ?e) * SECTORS_PER_BLOCK) :: u32"
  obtain r1 d1 where rd: "read_sectors (data_sector (de_start_block ?e)) ?n (unat (de_block_count ?e) * BLOCK_SIZE) d = (r1, d1)"
    by fastforce
  have "unat (de_block_count ?e) * 8 < 2 ^ LENGTH(32)" using disk_table_okD(7) [OF assms(2,3)] by simp
  then have n: "unat ?n = unat (de_block_count ?e) * 8"
    by (simp add: unsigned_ucast_eq unat_block_sectors take_bit_nat_eq_self)
  have c: "disk_wf d1 \<and> disk_content d1 = disk_content d
    \<and> (\<forall>bs. r1 = Ok bs \<longrightarrow> bs = sectors_at (disk_content d) (data_sector (de_start_block ?e)) (unat ?n))"
    using rd assms(1) read_loop_content [OF assms(1)] by (auto simp: read_sectors_def split: if_splits)
  have "length (sectors_at (disk_content d) (data_sector (de_start_block ?e)) (unat ?n)) = unat (de_block_count ?e) * BLOCK_SIZE"
    using length_sectors_at [of "disk_content d"] disk_wf_sector [OF assms(1)] n by (simp add: SECTOR_SIZE_def BLOCK_SIZE_def)
  moreover have "entry_data ?e d = (case (r1, d1) of
         (Inl err, d') \<Rightarrow> (Some (Err err), d')
       | (Inr bytes, d') \<Rightarrow>
           let block_buffer = bytes @ replicate (unat (de_block_count ?e) * BLOCK_SIZE - length bytes) 0 in
           if unat (de_size ?e) > length block_buffer then (None, d')
           else (Some (Ok (take (unat (de_size ?e)) block_buffer)), d'))"
    using True rd by (simp add: entry_data_def read_file_data_def Let_def data_sector_def)
  ultimately show ?thesis
    using c run disk_table_okD(2) [OF assms(2,3)] n by (cases r1) (auto simp: Let_def file_bytes_def)
next
  case False
  moreover from False have "de_size (tbl (disk_content d) i) = 0"
    using disk_table_okD(2) [OF assms(2,3)] by (auto simp: unat_eq_zero)
  ultimately show ?thesis using run assms(1) by (auto simp: entry_data_def file_bytes_def)
qed

lemma load_file_Ok:
  assumes "fs_wf fs" and "is_canonical name"
    and "load_file_from_disk name data own p ro ct mt fs = (Inr u, fs')" and "fp_owner_uid p = own"
  shows "fs_find q fs' = (if q = name then Some \<lparr>fe_name = name, fe_data = data, fe_created_at = ct,
    fe_modified_at = mt, fe_readonly = ro, fe_owner_uid = own, fe_permissions = p\<rparr> else fs_find q fs)"
proof -
  let ?new = "\<lambda>e. e\<lparr>fe_data := data, fe_created_at := ct, fe_modified_at := mt, fe_readonly := ro,
    fe_owner_uid := own, fe_permissions := p\<lparr>fp_owner_uid := own\<rparr>\<rparr>"
  have p: "p\<lparr>fp_owner_uid := own\<rparr> = p" using assms(4) by (cases p) simp
  consider e where "fs_find name fs = Some e" "fs' = fs_find_mut name ?new fs"
    | "insertable name data fs" "fs' = push_sorted \<lparr>fe_name = name, fe_data = data, fe_created_at = ct,
        fe_modified_at = mt, fe_readonly = ro, fe_owner_uid = own, fe_permissions = p\<lparr>fp_owner_uid := own\<rparr>\<rparr> fs"
    using load_file_from_disk_outcome [of name data own p ro ct mt fs] assms(2,3) by auto
  then show ?thesis
  proof cases
    case (1 e)
    then have "fe_name e = name" using fs_find_name by blast
    then show ?thesis using 1 p by (simp add: fs_find_fs_find_mut)
  next
    case 2
    then show ?thesis using fs_wf_distinct [OF assms(1)] p by (simp add: fs_find_push_sorted insertable_def)
  qed
qed

text \<open>One entry: loading stops with an error, or goes on with the file of the entry in place.\<close>

definition load_stops :: "(u64 \<Rightarrow> u8 list) \<Rightarrow> (disk_error + nat) option \<times> disk \<times> warfs \<Rightarrow> bool" where
  "load_stops c = (\<lambda>(r, d', fs'). (\<exists>err. r = Some (Err err)) \<and> disk_wf d' \<and> disk_content d' = c \<and> fs_wf fs')"

definition load_goes_on :: "(u64 \<Rightarrow> u8 list) \<Rightarrow> nat \<Rightarrow> nat list \<Rightarrow> warfs \<Rightarrow> (disk_error + nat) option \<times> disk \<times> warfs \<Rightarrow> bool" where
  "load_goes_on c i is fs result \<longleftrightarrow> (\<exists>n1 d1 fs1. load_loop is n1 d1 fs1 = result \<and> disk_wf d1 \<and> disk_content d1 = c \<and> fs_wf fs1
    \<and> (\<forall>q. fs_find q fs1 = (if is_persistable_path q \<and> slot_used c i \<and> entry_name (tbl c i) = Ok q
        then disk_lookup c q else fs_find q fs)))"

lemma load_used:
  assumes "disk_wf d" and "disk_table_ok (disk_content d)" and "fs_wf fs" and used: "slot_used (disk_content d) i"
    and name: "entry_name (tbl (disk_content d) i) = Ok name" "is_canonical name" "is_persistable_path name"
    and run: "(case entry_data (tbl (disk_content d) i) d of
                   (None, d2) \<Rightarrow> (None, d2, fs)
                 | (Some (Inl err), d2) \<Rightarrow> (Some (Err err), d2, fs)
                 | (Some (Inr data), d2) \<Rightarrow>
                     (case load_file_from_disk name data (de_owner_uid (tbl (disk_content d) i))
                         (entry_permissions (tbl (disk_content d) i)) (de_readonly (tbl (disk_content d) i) \<noteq> 0)
                         (de_created_at (tbl (disk_content d) i)) (de_modified_at (tbl (disk_content d) i)) fs of
                        (Inl err, fs') \<Rightarrow> (Some (Err (FilesystemError err)), d2, fs')
                      | (Inr _, fs') \<Rightarrow> load_loop is (n + 1) d2 fs')) = result"
  shows "load_stops (disk_content d) result \<or> load_goes_on (disk_content d) i is fs result"
proof -
  let ?c = "disk_content d"
  let ?e = "tbl ?c i"
  obtain rb d2 where bytes: "entry_data ?e d = (rb, d2)" by fastforce
  note d2 = entry_data_used [OF assms(1,2) used bytes]
  obtain rl fs1 where load: "load_file_from_disk name (file_bytes ?c ?e) (de_owner_uid ?e) (entry_permissions ?e)
    (de_readonly ?e \<noteq> 0) (de_created_at ?e) (de_modified_at ?e) fs = (rl, fs1)" by fastforce
  have wf1: "fs_wf fs1" using load_file_from_disk_wf [OF assms(3)] load by (metis snd_conv)
  from d2 consider err where "rb = Some (Err err)" | "rb = Some (Ok (file_bytes ?c ?e))" by blast
  then show ?thesis
  proof cases
    case 1
    then show ?thesis using run bytes d2 assms(3) by (auto simp: load_stops_def)
  next
    case 2
    show ?thesis
    proof (cases rl)
      case (Inl err)
      then show ?thesis using run bytes 2 load d2 wf1 by (auto simp: load_stops_def)
    next
      case (Inr u)
      have "fs_find q fs1 = (if q = name then disk_lookup ?c q else fs_find q fs)" for q
        using load_file_Ok [OF assms(3) name(2) load [unfolded Inr], of q] name(1)
          disk_lookup_used [OF assms(2) used name(1)]
        by (simp add: disk_file_def entry_permissions_def)
      moreover have "load_loop is (n + 1) d2 fs1 = result" using run bytes 2 load Inr by simp
      ultimately show ?thesis unfolding load_goes_on_def using d2 wf1 name used by (intro disjI2 exI) auto
    qed
  qed
qed

lemma load_step:
  assumes "disk_wf d" and "disk_table_ok (disk_content d)" and "fs_wf fs" and "load_loop (i # is) n d fs = result"
  shows "load_stops (disk_content d) result \<or> load_goes_on (disk_content d) i is fs result"
proof -
  let ?c = "disk_content d"
  obtain re d1 where rd: "read_file_entry i d = (re, d1)" by fastforce
  have keep: "disk_wf d1 \<and> disk_content d1 = ?c"
    using reads_read_file_entry [of i] assms(1) rd unfolding reads_op_def by (cases re) blast+
  show ?thesis
  proof (cases re)
    case (Inl err)
    then show ?thesis using assms(3,4) rd keep by (auto simp: load_stops_def)
  next
    case (Inr e)
    have e: "e = tbl ?c i" using reads_opD(3) [OF reads_read_file_entry assms(1) rd [unfolded Inr]] by simp
    have i: "i < MAX_FILES" using rd Inr by (auto simp: read_file_entry_def fail_op_def split: if_splits)
    have skip: "load_goes_on ?c i is fs result" if "load_loop is n d1 fs = result"
      "\<And>q. is_persistable_path q \<Longrightarrow> slot_used ?c i \<Longrightarrow> entry_name (tbl ?c i) \<noteq> Ok q"
      unfolding load_goes_on_def using that keep assms(3) by (intro exI) auto
    show ?thesis
    proof (cases "slot_used ?c i")
      case False
      then show ?thesis using skip assms(4) rd Inr e i by (simp add: slot_used_def)
    next
      case True
      from disk_table_okD(4) [OF assms(2) True] obtain name where name: "entry_name (tbl ?c i) = Ok name" "is_canonical name"
        by blast
      show ?thesis
      proof (cases "is_persistable_path name")
        case False
        then show ?thesis using skip assms(4) rd Inr e name True by (auto simp: slot_used_def)
      next
        case persist: True
        note load_used [of d1, unfolded keep [THEN conjunct2], OF keep [THEN conjunct1] assms(2,3) True name persist, of "is" n result]
        then show ?thesis using assms(4) rd Inr e name(1) persist True by (simp add: slot_used_def)
      qed
    qed
  qed
qed

lemma load_loop_files:
  assumes "disk_wf d" and "disk_table_ok (disk_content d)" and "fs_wf fs"
    and "load_loop is n d fs = (r, d', fs')"
  shows "r \<noteq> None \<and> disk_wf d' \<and> disk_content d' = disk_content d \<and> fs_wf fs'
    \<and> (\<forall>m. r = Some (Ok m) \<longrightarrow> (\<forall>name. fs_find name fs' =
        (if is_persistable_path name \<and> (\<exists>i \<in> set is. slot_used (disk_content d) i
            \<and> entry_name (tbl (disk_content d) i) = Ok name)
         then disk_lookup (disk_content d) name else fs_find name fs)))"
  using assms
proof (induction "is" arbitrary: n d fs)
  case Nil
  then show ?case by auto
next
  case (Cons i "is")
  from load_step [OF Cons.prems] show ?case
  proof
    assume "load_stops (disk_content d) (r, d', fs')"
    then show ?thesis by (auto simp: load_stops_def)
  next
    assume "load_goes_on (disk_content d) i is fs (r, d', fs')"
    then obtain n1 d1 fs1 where rest: "load_loop is n1 d1 fs1 = (r, d', fs')" and d1: "disk_wf d1" "disk_content d1 = disk_content d"
      and fs1: "fs_wf fs1" and f: "\<And>q. fs_find q fs1 = (if is_persistable_path q \<and> slot_used (disk_content d) i
        \<and> entry_name (tbl (disk_content d) i) = Ok q then disk_lookup (disk_content d) q else fs_find q fs)"
      unfolding load_goes_on_def by metis
    have "disk_table_ok (disk_content d1)" using Cons.prems(2) d1 by simp
    from Cons.IH [OF d1(1) this fs1 rest] show ?thesis unfolding d1(2) f by auto
  qed
qed

lemma disk_lookup_Some:
  assumes "disk_lookup c name = Some f"
  shows "\<exists>i < MAX_FILES. slot_used c i \<and> entry_name (tbl c i) = Ok name"
  using assms find_SomeD unfolding disk_lookup_def slot_used_def by fastforce

lemma load_restores:
  assumes "disk_wf d" and "disk_table_ok (disk_content d)" and "fs_wf fs"
    and "load_filesystem d fs = (r, d', fs')"
  shows "r \<noteq> None \<and> disk_wf d' \<and> disk_content d' = disk_content d \<and> fs_wf fs'
    \<and> (\<forall>n. r = Some (Ok n) \<longrightarrow> (\<forall>name. fs_find name fs' =
        (if is_persistable_path name \<and> disk_lookup (disk_content d) name \<noteq> None
         then disk_lookup (disk_content d) name else fs_find name fs)))"
proof -
  have "(\<exists>i \<in> set [0..<MAX_FILES]. slot_used (disk_content d) i \<and> entry_name (tbl (disk_content d) i) = Ok name)
    \<longleftrightarrow> disk_lookup (disk_content d) name \<noteq> None" for name
    using disk_lookup_Some disk_lookup_used [OF assms(2)] by fastforce
  with load_loop_files [OF assms(1-3) assms(4) [unfolded load_filesystem_def]] show ?thesis by simp
qed

text \<open>
  C34. Loading after a reboot. From a consistent disk, loading never panics, and keeps both the disk and
  the invariant of the file system. When it reports success, every path other than the two
  generated ones holds exactly the file the disk holds for it, and a path the disk does not hold is
  as it was before.
\<close>

theorem load_filesystem_restores:
  assumes "disk_wf d" and "disk_table_ok (disk_content d)" and "fs_wf fs"
    and "load_filesystem d fs = (r, d', fs')"
  shows "r \<noteq> None \<and> disk_wf d' \<and> disk_content d' = disk_content d \<and> fs_wf fs'
    \<and> (\<forall>n. r = Some (Ok n) \<longrightarrow> (\<forall>name. fs_find name fs' =
        (if is_persistable_path name \<and> disk_lookup (disk_content d) name \<noteq> None
         then disk_lookup (disk_content d) name else fs_find name fs)))"
  by (rule load_restores [OF assms])

section \<open>Writing without faults\<close>

definition succeeds :: "'a disk_op \<Rightarrow> disk \<Rightarrow> ('a \<Rightarrow> disk \<Rightarrow> bool) \<Rightarrow> bool" where
  "succeeds m d Q \<longleftrightarrow> (\<exists>x d'. m d = (Ok x, d') \<and> healthy d'
    \<and> vb_capacity_sectors (dk_device d') = vb_capacity_sectors (dk_device d) \<and> Q x d')"

lemma succeeds_bind:
  assumes "succeeds m d Q" and "\<And>x d'. healthy d' \<Longrightarrow>
      vb_capacity_sectors (dk_device d') = vb_capacity_sectors (dk_device d) \<Longrightarrow> Q x d' \<Longrightarrow> succeeds (k x) d' R"
  shows "succeeds (bind_op m k) d R"
proof -
  from assms(1) obtain x d1 where 1: "m d = (Ok x, d1)" "healthy d1"
    "vb_capacity_sectors (dk_device d1) = vb_capacity_sectors (dk_device d)" "Q x d1" by (auto simp: succeeds_def)
  from assms(2) [OF 1(2-4)] 1 show ?thesis by (auto simp: succeeds_def bind_op_def)
qed

lemma succeeds_return: "healthy d \<Longrightarrow> Q x d \<Longrightarrow> succeeds (return_op x) d Q"
  by (simp add: succeeds_def return_op_def)

lemma succeeds_yields: "yields m f d \<Longrightarrow> succeeds m d (\<lambda>x d'. x = f (disk_content d) \<and> disk_content d' = disk_content d)"
  by (auto simp: succeeds_def yields_def)

lemma vb_write_healthy:
  assumes "vb_outcomes d = []" and "k < vb_capacity_sectors d" and "length b = SECTOR_SIZE"
  shows "vb_write_sectors k 1 b d = (Ok (), d\<lparr>vb_data := (vb_data d)(k := b)\<rparr>)"
proof -
  have "unat k + 1 \<le> unat (vb_capacity_sectors d)" using assms(2) by (simp add: word_less_nat_alt)
  moreover have "unat (sat_add k 1) \<le> unat k + 1" by (simp add: unat_sat_add)
  ultimately have "\<not> vb_capacity_sectors d < sat_add k 1" by (simp add: word_less_nat_alt)
  then show ?thesis
    using assms(1,3) by (simp add: vb_write_sectors_def validate_request_def request_out_def next_outcome_def)
qed

lemma write_sector_healthy:
  assumes "healthy d" and "k < vb_capacity_sectors (dk_device d)" and "length b = SECTOR_SIZE"
  shows "succeeds (write_sector k b) d (\<lambda>_ d'. disk_content d' = (disk_content d)(k := b))"
proof -
  have wf: "disk_wf d" and out: "vb_outcomes (dk_device d) = []" using assms(1) by (auto simp: healthy_def)
  note dev = vb_write_healthy [OF out assms(2,3)]
  obtain r d' where run: "write_sector k b d = (r, d')" by fastforce
  have keep: "r = Ok () \<and> dk_device d' = dk_device d\<lparr>vb_data := (vb_data (dk_device d))(k := b)\<rparr>"
    using run dev by (auto simp: write_sector_def next_generation_def)
  note c = cached.wr_content [OF wf assms(3) run [unfolded keep [THEN conjunct1]]]
  then show ?thesis using keep assms(1) run by (simp add: succeeds_def healthy_def)
qed

lemma read_sector_healthy:
  assumes "healthy d" and "k < vb_capacity_sectors (dk_device d)"
  shows "succeeds (read_sector k) d (\<lambda>_ _. True)"
proof -
  have wf: "disk_wf d" and out: "vb_outcomes (dk_device d) = []" using assms(1) by (auto simp: healthy_def)
  obtain r d' where run: "read_sector k d = (r, d')" by fastforce
  have keep: "dk_device d' = dk_device d \<and> (\<exists>b. r = Ok b)"
    using run vb_read_healthy [OF out assms(2)] by (auto simp: read_sector_def next_generation_def split: option.splits)
  then show ?thesis using cached.rd_content [OF wf run] assms(1) run by (auto simp: succeeds_def healthy_def)
qed

lemma next_sector_in_range:
  assumes "unat (k :: u64) + Suc m \<le> unat (n :: u64)"
  shows "unat (k + 1) + m \<le> unat n"
proof -
  have "unat (k + 1) \<le> unat k + 1" by (simp add: unat_word_ariths)
  with assms show ?thesis by linarith
qed

lemma write_loop_healthy:
  assumes "healthy d" and "unat k + m \<le> unat (vb_capacity_sectors (dk_device d))" and "m * SECTOR_SIZE \<le> length buffer"
  shows "succeeds (write_loop k m buffer) d (\<lambda>_ _. True)"
  using assms
proof (induction m arbitrary: k buffer d)
  case 0
  then show ?case by (simp add: succeeds_def)
next
  case (Suc m)
  have k: "k < vb_capacity_sectors (dk_device d)" using Suc.prems(2) by (simp add: word_less_nat_alt)
  note next_ok = next_sector_in_range [OF Suc.prems(2)]
  from write_sector_healthy [OF Suc.prems(1) k, of "take SECTOR_SIZE buffer"] Suc.prems(3)
  obtain u d1 where 1: "write_sector k (take SECTOR_SIZE buffer) d = (Ok u, d1)" "healthy d1"
    "vb_capacity_sectors (dk_device d1) = vb_capacity_sectors (dk_device d)" by (auto simp: succeeds_def)
  from Suc.IH [OF 1(2), of "k + 1" "drop SECTOR_SIZE buffer"] 1(3) next_ok Suc.prems(3)
  show ?case using 1(1,3) by (auto simp: succeeds_def)
qed

lemma write_sectors_healthy:
  assumes "healthy d" and "unat k + unat n \<le> unat (vb_capacity_sectors (dk_device d))"
    and "unat n * SECTOR_SIZE \<le> length buffer"
  shows "succeeds (write_sectors k n buffer) d
    (\<lambda>_ d'. disk_content d' = put_sectors k (unat n) buffer (disk_content d))"
proof -
  from write_loop_healthy [OF assms] assms(3) obtain u d' where 1: "write_sectors k n buffer d = (Inr u, d')" "healthy d'"
    "vb_capacity_sectors (dk_device d') = vb_capacity_sectors (dk_device d)"
    by (auto simp: succeeds_def write_sectors_def)
  have "disk_wf d" using assms(1) by (simp add: healthy_def)
  from write_sectors_Ok [OF this 1(1)] 1 show ?thesis by (simp add: succeeds_def)
qed

lemma write_low_sector_healthy:
  assumes "healthy d" and "k < DATA_START_SECTOR" and "length b = SECTOR_SIZE"
  shows "succeeds (write_sectors k 1 b) d (\<lambda>_ d'. disk_content d' = (disk_content d)(k := b))"
proof -
  have "k < vb_capacity_sectors (dk_device d)" using assms(1,2) by (auto simp: healthy_def)
  then have "unat k + unat (1 :: u32) \<le> unat (vb_capacity_sectors (dk_device d))" by (simp add: word_less_nat_alt)
  from write_sectors_healthy [OF assms(1) this, of b] assms(3) show ?thesis by simp
qed

text \<open>A disk in service: no faults, a valid superblock, and all its blocks on the device.\<close>

definition in_service :: "disk \<Rightarrow> bool" where
  "in_service d \<longleftrightarrow> healthy d \<and> superblock_is_valid (sblk (disk_content d))
    \<and> 129 + unat (sb_total_blocks (sblk (disk_content d))) * 8 \<le> unat (vb_capacity_sectors (dk_device d))"

lemma in_serviceD:
  assumes "in_service d"
  shows "healthy d" and "superblock_is_valid (sblk (disk_content d))" and "disk_wf d"
  using assms by (auto simp: in_service_def healthy_def)

lemma in_service_cong:
  "in_service d \<Longrightarrow> healthy d' \<Longrightarrow> vb_capacity_sectors (dk_device d') = vb_capacity_sectors (dk_device d) \<Longrightarrow>
    superblock_is_valid (sblk (disk_content d')) \<Longrightarrow>
    sb_total_blocks (sblk (disk_content d')) = sb_total_blocks (sblk (disk_content d)) \<Longrightarrow> in_service d'"
  by (simp add: in_service_def)

lemma write_superblock_healthy:
  assumes "in_service d" and "superblock_ok s" and "superblock_is_valid s"
    and "sb_total_blocks s = sb_total_blocks (sblk (disk_content d))"
  shows "succeeds (write_superblock s) d (\<lambda>_ d'. in_service d')"
proof -
  have "(0 :: u64) < DATA_START_SECTOR" by (simp add: DATA_START_SECTOR_eq)
  from write_low_sector_healthy [OF in_serviceD(1) [OF assms(1)] this length_superblock_bytes [OF assms(2)]]
  obtain u d' where 1: "write_superblock s d = (Ok u, d')" "healthy d'"
    "vb_capacity_sectors (dk_device d') = vb_capacity_sectors (dk_device d)"
    "disk_content d' = (disk_content d)(0 := superblock_bytes s)" by (auto simp: succeeds_def write_superblock_def)
  have "sblk (disk_content d') = s" using 1(4) by (simp add: sblk_def superblock_roundtrip [OF assms(2)])
  then have "in_service d'" using in_service_cong [OF assms(1) 1(2,3)] assms(3,4) by simp
  then show ?thesis using 1 by (simp add: succeeds_def)
qed

lemma set_superblock_state_healthy:
  assumes "in_service d"
  shows "succeeds (set_superblock_state st) d (\<lambda>_ d'. in_service d')"
  unfolding set_superblock_state_def
proof (rule succeeds_bind [OF succeeds_yields [OF yields_read_superblock [OF in_serviceD(1,2) [OF assms]]]])
  fix x d' assume h: "healthy d'" "vb_capacity_sectors (dk_device d') = vb_capacity_sectors (dk_device d)"
    and x: "x = sblk (disk_content d) \<and> disk_content d' = disk_content d"
  have "in_service d'" using in_service_cong [OF assms h] x in_serviceD(2) [OF assms] by simp
  then show "succeeds (write_superblock (x\<lparr>sb_state := st\<rparr>)) d' (\<lambda>_ d'. in_service d')"
    using sblk_ok [OF in_serviceD(3) [OF assms]] in_serviceD(2) [OF assms] x
    by (intro write_superblock_healthy) (auto simp: superblock_ok_def superblock_is_valid_def)
qed

lemma read_entry_healthy:
  assumes "healthy d" and "i < MAX_FILES"
  obtains d1 where "read_file_entry i d = (Ok (tbl (disk_content d) i), d1)" "healthy d1"
    "disk_content d1 = disk_content d" "vb_capacity_sectors (dk_device d1) = vb_capacity_sectors (dk_device d)"
  using yields_read_file_entry [OF assms] by (auto simp: yields_def)

lemma yields_entry_bind:
  assumes "healthy d" and "i < MAX_FILES" and "\<And>e d1. healthy d1 \<Longrightarrow> \<exists>f. yields (k e) f d1"
  shows "\<exists>f. yields (bind_op (read_file_entry i) k) f d"
proof -
  obtain d1 where 1: "read_file_entry i d = (Ok (tbl (disk_content d) i), d1)" "healthy d1"
    "disk_content d1 = disk_content d" "vb_capacity_sectors (dk_device d1) = vb_capacity_sectors (dk_device d)"
    by (rule read_entry_healthy [OF assms(1,2)])
  obtain f where "yields (k (tbl (disk_content d) i)) f d1" using assms(3) [OF 1(2)] by blast
  then have "yields (bind_op (read_file_entry i) k) (\<lambda>_. f (disk_content d)) d"
    using 1 by (auto simp: yields_def bind_op_def)
  then show ?thesis by blast
qed

lemma yields_count_used: "healthy d \<Longrightarrow> \<forall>i \<in> set is. i < MAX_FILES \<Longrightarrow> \<exists>f. yields (count_used_loop is acc) f d"
  by (induction "is" arbitrary: acc d) (auto intro!: yields_entry_bind intro: yields_return)

lemma yields_count_active: "healthy d \<Longrightarrow> \<forall>i \<in> set is. i < MAX_FILES \<Longrightarrow> \<exists>f. yields (count_active_loop is acc) f d"
  by (induction "is" arbitrary: acc d) (auto intro!: yields_entry_bind intro: yields_return)

lemma refresh_superblock_healthy:
  assumes "in_service d"
  shows "\<exists>x d'. refresh_superblock st d = (Ok x, d') \<and> in_service d'"
proof -
  from yields_read_superblock [OF in_serviceD(1,2) [OF assms]] obtain d1 where 1: "read_superblock d = (Ok (sblk (disk_content d)), d1)"
    "healthy d1" "disk_content d1 = disk_content d" "vb_capacity_sectors (dk_device d1) = vb_capacity_sectors (dk_device d)"
    by (auto simp: yields_def)
  have all: "\<forall>i \<in> set [0..<MAX_FILES]. i < MAX_FILES" by simp
  from yields_count_used [OF 1(2) all, of 0] obtain used d2 where 2: "count_used_blocks d1 = (Ok used, d2)"
    "healthy d2" "disk_content d2 = disk_content d" "vb_capacity_sectors (dk_device d2) = vb_capacity_sectors (dk_device d)"
    using 1 by (auto simp: yields_def count_used_blocks_def)
  from yields_count_active [OF 2(2) all, of 0] obtain files d3 where 3: "count_active_files d2 = (Ok files, d3)"
    "healthy d3" "disk_content d3 = disk_content d" "vb_capacity_sectors (dk_device d3) = vb_capacity_sectors (dk_device d)"
    using 2 by (auto simp: yields_def count_active_files_def)
  let ?s = "(sblk (disk_content d))\<lparr>sb_used_blocks := used, sb_file_count := files, sb_state := st\<rparr>"
  have "in_service d3" using in_service_cong [OF assms 3(2,4)] 3(3) in_serviceD(2) [OF assms] by simp
  moreover have "superblock_ok ?s" "superblock_is_valid ?s"
    using sblk_ok [OF in_serviceD(3) [OF assms]] in_serviceD(2) [OF assms]
    by (auto simp: superblock_ok_def superblock_is_valid_def)
  ultimately have "succeeds (write_superblock ?s) d3 (\<lambda>_ d'. in_service d')"
    using 3(3) by (intro write_superblock_healthy) simp_all
  then show ?thesis
    using 1(1) 2(1) 3(1) by (auto simp: succeeds_def refresh_superblock_def bind_op_def Let_def return_op_def)
qed

lemma yields_find_slot:
  assumes "healthy d" and "\<forall>i \<in> set is. i < MAX_FILES
      \<and> (de_active (tbl (disk_content d) i) \<noteq> 0 \<longrightarrow> (\<exists>n. entry_name (tbl (disk_content d) i) = Ok n \<and> n \<noteq> name))"
  shows "yields (find_slot name is emp)
    (\<lambda>c. (None, if emp = None then find (\<lambda>i. de_active (tbl c i) = 0) is else emp)) d"
  using assms
proof (induction "is" arbitrary: emp d)
  case Nil
  then show ?case by (auto intro: yields_cong [OF yields_return])
next
  case (Cons i "is")
  let ?e = "tbl (disk_content d) i"
  obtain d1 where 1: "read_file_entry i d = (Ok ?e, d1)" "healthy d1" "disk_content d1 = disk_content d"
    "vb_capacity_sectors (dk_device d1) = vb_capacity_sectors (dk_device d)"
    using read_entry_healthy [OF Cons.prems(1), of i] Cons.prems(2) by auto
  have IH: "yields (find_slot name is em)
    (\<lambda>c. (None, if em = None then find (\<lambda>i. de_active (tbl c i) = 0) is else em)) d1" for em
    using Cons.IH [OF 1(2), of em] Cons.prems(2) 1(3) by simp
  show ?case
    using IH [of "if de_active ?e = 0 \<and> emp = None then Some i else emp"] Cons.prems(2) 1
    by (cases "de_active ?e = 0") (auto simp: yields_def bind_op_def)
qed

text \<open>There is room for \<open>n\<close> blocks if some run of \<open>n\<close> blocks lies within the disk and meets no file.\<close>

definition has_room :: "(u64 \<Rightarrow> u8 list) \<Rightarrow> u32 \<Rightarrow> bool" where
  "has_room c n \<longleftrightarrow> (\<exists>b. b + unat n \<le> unat (sb_total_blocks (sblk c)) \<and>
     (\<forall>i < MAX_FILES. holds_blocks (tbl c i) \<longrightarrow> b + unat n \<le> unat (de_start_block (tbl c i)) \<or>
       unat (de_start_block (tbl c i)) + unat (de_block_count (tbl c i)) \<le> b))"

lemma first_gap_complete:
  assumes "unat x \<le> b" and "\<forall>(s, e) \<in> set rs. b + unat n \<le> unat s \<or> unat e \<le> b"
  shows "case first_gap rs n x of Inl _ \<Rightarrow> True | Inr y \<Rightarrow> unat y \<le> b"
  using assms
proof (induction rs n x rule: first_gap.induct)
  case (2 s e rs n x)
  show ?case
  proof (cases "sat_add x n \<le> s")
    case False
    have "\<not> b + unat n \<le> unat s"
    proof
      assume "b + unat n \<le> unat s"
      then have "unat x + unat n \<le> unat s" using 2(2) by linarith
      then show False using False by (simp add: word_le_nat_alt unat_sat_add)
    qed
    then have "unat (max x e) \<le> b" using 2(2,3) by (auto simp: max_def)
    then show ?thesis using 2(1) [OF False] 2(3) False by simp
  qed simp
qed simp

lemma first_gap_has_room:
  assumes "has_room c n" and "blocks_in_range c"
  shows "case first_gap (sort_key fst (used_ranges c None [0..<MAX_FILES])) n 0 of
     Inl _ \<Rightarrow> True | Inr b \<Rightarrow> sat_add b n \<le> sb_total_blocks (sblk c)"
proof -
  from assms(1) obtain b where b: "b + unat n \<le> unat (sb_total_blocks (sblk c))"
    and free: "\<And>i. i < MAX_FILES \<Longrightarrow> holds_blocks (tbl c i) \<Longrightarrow> b + unat n \<le> unat (de_start_block (tbl c i)) \<or>
       unat (de_start_block (tbl c i)) + unat (de_block_count (tbl c i)) \<le> b"
    unfolding has_room_def by blast
  have "b + unat n \<le> unat s \<or> unat e \<le> b" if "(s, e) \<in> set (used_ranges c None [0..<MAX_FILES])" for s e
  proof -
    from that obtain i where i: "i < MAX_FILES" "holds_blocks (tbl c i)" "(s, e) = entry_range (tbl c i)"
      by (auto simp: used_ranges_def)
    then show ?thesis
      using free [OF i(1,2)] entry_range_bounds(2) [OF blocks_in_rangeD [OF assms(2) i(1,2)] i(2)]
      by (metis entry_range_def fst_conv snd_conv)
  qed
  then have gap: "case first_gap (sort_key fst (used_ranges c None [0..<MAX_FILES])) n 0 of Inl _ \<Rightarrow> True | Inr y \<Rightarrow> unat y \<le> b"
    by (intro first_gap_complete) auto
  have "sat_add y n \<le> sb_total_blocks (sblk c)" if "unat y \<le> b" for y
    using that b by (simp add: word_le_nat_alt unat_sat_add)
  with gap show ?thesis by (auto split: sum.splits)
qed

lemma allocate_blocks_healthy:
  assumes "in_service d" and "has_room (disk_content d) n" and "blocks_in_range (disk_content d)"
  shows "\<exists>b d'. allocate_blocks n None d = (Ok b, d') \<and> healthy d' \<and> disk_content d' = disk_content d
    \<and> vb_capacity_sectors (dk_device d') = vb_capacity_sectors (dk_device d)"
proof -
  from yields_read_superblock [OF in_serviceD(1,2) [OF assms(1)]] obtain d1 where 1: "read_superblock d = (Ok (sblk (disk_content d)), d1)"
    "healthy d1" "disk_content d1 = disk_content d" "vb_capacity_sectors (dk_device d1) = vb_capacity_sectors (dk_device d)"
    by (auto simp: yields_def)
  have "yields (collect_ranges None [0..<MAX_FILES] []) (\<lambda>c. [] @ used_ranges c None [0..<MAX_FILES]) d1"
    using 1(2) by (rule yields_collect_ranges) simp
  then show ?thesis
    using 1 first_gap_has_room [OF assms(2,3)]
    by (auto simp: yields_def allocate_blocks_def bind_op_def return_op_def split: sum.splits)
qed

lemma write_file_data_healthy:
  assumes "in_service d" and "length data \<le> MAX_FILE_SIZE" and "block_count_for_len (length data) \<noteq> 0"
    and "unat b + unat (block_count_for_len (length data)) \<le> unat (sb_total_blocks (sblk (disk_content d)))"
  shows "succeeds (write_file_data b data) d (\<lambda>_ d'. in_service d')"
proof -
  let ?n = "block_count_for_len (length data)"
  let ?m = "ucast (ucast ?n * SECTORS_PER_BLOCK) :: u32"
  have "unat (data_sector b) + unat ?m \<le> unat (vb_capacity_sectors (dk_device d))"
    using assms(1,4) by (simp add: unat_data_sector unat_sector_count [OF assms(2)] in_service_def)
  from write_sectors_healthy [OF in_serviceD(1) [OF assms(1)] this, of "padded data"]
  obtain u d' where 1: "write_sectors (data_sector b) ?m (padded data) d = (Ok u, d')" "healthy d'"
    "vb_capacity_sectors (dk_device d') = vb_capacity_sectors (dk_device d)"
    and c: "disk_content d' = put_sectors (data_sector b) (unat ?n * 8) (padded data) (disk_content d)"
    by (auto simp: succeeds_def unat_sector_count [OF assms(2)] length_padded(1) [OF assms(2)])
  have "in_service d'"
    using in_service_cong [OF assms(1) 1(2,3)] c in_serviceD(2) [OF assms(1)] by (simp add: sblk_put_data)
  moreover have "write_file_data b data d = (Ok ?n, d')"
    using assms(3) 1(1) by (simp add: write_file_data_def Let_def bind_op_def data_sector_def padded_def return_op_def)
  ultimately show ?thesis using 1 by (simp add: succeeds_def)
qed

lemma write_file_entry_healthy:
  assumes "in_service d" and "i < MAX_FILES" and "disk_entry_ok e"
  shows "succeeds (write_file_entry i e) d (\<lambda>_ d'. in_service d')"
proof -
  from write_low_sector_healthy [OF in_serviceD(1) [OF assms(1)] slot_sector_less [OF assms(2)] length_entry_bytes [OF assms(3)]]
  obtain u d' where 1: "write_sectors (slot_sector i) 1 (entry_bytes e) d = (Ok u, d')" "healthy d'"
    "vb_capacity_sectors (dk_device d') = vb_capacity_sectors (dk_device d)"
    and c: "disk_content d' = (disk_content d)(slot_sector i := entry_bytes e)" by (auto simp: succeeds_def)
  have "in_service d'"
    using in_service_cong [OF assms(1) 1(2,3)] c in_serviceD(2) [OF assms(1)] by (simp add: sblk_update_slot [OF assms(2)])
  then show ?thesis using 1 assms(2) by (simp add: succeeds_def write_file_entry_def slot_sector_def)
qed

definition fits :: "(u64 \<Rightarrow> u8 list) \<Rightarrow> file_entry \<Rightarrow> bool" where
  "fits c f \<longleftrightarrow> length (fe_data f) \<le> MAX_FILE_SIZE \<and> disk_lookup c (fe_name f) = None
    \<and> (\<exists>i < MAX_FILES. \<not> slot_used c i) \<and> has_room c (block_count_for_len (length (fe_data f)))"

lemma fits_same_files:
  assumes "same_files c c'" and "fits c f"
  shows "fits c' f"
proof -
  have t: "tbl c' i = tbl c i" if "i < MAX_FILES" for i using assms(1) that by (simp add: same_files_def)
  then have "has_room c' n \<longleftrightarrow> has_room c n" for n using assms(1)
    by (simp add: has_room_def same_files_def)
  then show ?thesis using assms(2) same_files_lookup [OF assms(1)] t by (auto simp: fits_def slot_used_def)
qed

lemma free_slot_found:
  assumes "in_service d" and "disk_table_ok (disk_content d)" and "fits (disk_content d) f"
  shows "\<exists>i d1. find_slot (fe_name f) [0..<MAX_FILES] None d = (Ok (None, Some i), d1) \<and> i < MAX_FILES
    \<and> healthy d1 \<and> disk_content d1 = disk_content d \<and> vb_capacity_sectors (dk_device d1) = vb_capacity_sectors (dk_device d)"
proof -
  let ?c = "disk_content d"
  have named: "\<exists>n. entry_name (tbl ?c i) = Ok n \<and> n \<noteq> fe_name f" if "slot_used ?c i" for i
    using disk_table_okD(4) [OF assms(2) that] disk_lookup_used [OF assms(2) that] assms(3) by (auto simp: fits_def)
  obtain j where "j < MAX_FILES" "\<not> slot_used ?c j" using assms(3) by (auto simp: fits_def)
  then have "\<exists>i \<in> set [0..<MAX_FILES]. de_active (tbl ?c i) = 0" by (auto simp: slot_used_def)
  from find_exists [OF this] obtain i where i: "find (\<lambda>i. de_active (tbl ?c i) = 0) [0..<MAX_FILES] = Some i" ..
  have "yields (find_slot (fe_name f) [0..<MAX_FILES] None)
    (\<lambda>c. (None, if (None :: nat option) = None then find (\<lambda>i. de_active (tbl c i) = 0) [0..<MAX_FILES] else None)) d"
    using named by (intro yields_find_slot in_serviceD(1) [OF assms(1)]) (auto simp: slot_used_def)
  then show ?thesis using i find_SomeD [OF i] by (auto simp: yields_def)
qed

lemma upsert_healthy:
  assumes "in_service d" and "disk_table_ok (disk_content d)" and "fits (disk_content d) f"
  shows "\<exists>d'. upsert f d = (Ok (), d') \<and> in_service d'"
proof -
  let ?n = "block_count_for_len (length (fe_data f))"
  have size: "length (fe_data f) \<le> MAX_FILE_SIZE" using assms(3) by (simp add: fits_def)
  from free_slot_found [OF assms] obtain i d1 where 1: "find_slot (fe_name f) [0..<MAX_FILES] None d = (Ok (None, Some i), d1)"
    "i < MAX_FILES" "healthy d1" "disk_content d1 = disk_content d"
    "vb_capacity_sectors (dk_device d1) = vb_capacity_sectors (dk_device d)" by blast
  have s1: "in_service d1" using in_service_cong [OF assms(1) 1(3,5)] 1(4) in_serviceD(2) [OF assms(1)] by simp
  have "\<exists>b d2 d3. choose_blocks ?n None d1 = (Ok b, d2) \<and> in_service d3
    \<and> (if ?n \<noteq> 0 then bind_op (write_file_data b (fe_data f)) (\<lambda>_. return_op ()) else return_op ()) d2 = (Ok (), d3)"
  proof (cases "?n = 0")
    case True
    then show ?thesis using s1 by (auto simp: choose_blocks_def return_op_def)
  next
    case False
    have "has_room (disk_content d1) ?n" using assms(3) 1(4) by (simp add: fits_def)
    moreover have blocks: "blocks_in_range (disk_content d1)" using disk_table_okD(1) [OF assms(2)] 1(4) by simp
    ultimately obtain b d2 where 2: "allocate_blocks ?n None d1 = (Ok b, d2)" "healthy d2"
      "disk_content d2 = disk_content d1" "vb_capacity_sectors (dk_device d2) = vb_capacity_sectors (dk_device d1)"
      using allocate_blocks_healthy [OF s1] by blast
    have s2: "in_service d2" using in_service_cong [OF s1 2(2,4)] 2(3) in_serviceD(2) [OF s1] by simp
    from gap_in_range [OF blocks allocate_blocks_Ok(3) [OF in_serviceD(3) [OF s1] 2(1)]]
    have "unat b + unat ?n \<le> unat (sb_total_blocks (sblk (disk_content d2)))" using 2(3) by simp
    from write_file_data_healthy [OF s2 size False this] 2(1) False show ?thesis
      by (auto simp: succeeds_def choose_blocks_def bind_op_def return_op_def)
  qed
  then obtain b d2 d3 where 2: "choose_blocks ?n None d1 = (Ok b, d2)" "in_service d3"
    "(if ?n \<noteq> 0 then bind_op (write_file_data b (fe_data f)) (\<lambda>_. return_op ()) else return_op ()) d2 = (Ok (), d3)" by blast
  from write_file_entry_healthy [OF 2(2) 1(2) new_entry_ok, of "fe_name f" "fe_data f" "fe_owner_uid f" "fe_permissions f"
      "fe_readonly f" "fe_created_at f" "fe_modified_at f" b ?n] 1(1) 2
  show ?thesis by (auto simp: succeeds_def upsert_file_entry_def Let_def bind_op_def)
qed

lemma save_succeeds:
  assumes "in_service d" and "disk_table_ok (disk_content d)" and "fits (disk_content d) f"
  shows "\<exists>d'. save_entry f d = (Ok (), d') \<and> in_service d'"
proof -
  from set_superblock_state_healthy [OF assms(1)] obtain d1 where 1: "set_superblock_state FS_STATE_DIRTY d = (Ok (), d1)" "in_service d1"
    by (auto simp: succeeds_def)
  note same = set_superblock_state_Ok [OF in_serviceD(3) [OF assms(1)] 1(1)]
  have "disk_table_ok (disk_content d1)" "fits (disk_content d1) f"
    using same same_files_table_ok fits_same_files assms(2,3) by blast+
  from upsert_healthy [OF 1(2) this] obtain d2 where 2: "upsert f d1 = (Ok (), d2)" "in_service d2" by blast
  from refresh_superblock_healthy [OF 2(2)] obtain x d3 where "refresh_superblock FS_STATE_CLEAN d2 = (Ok x, d3)" "in_service d3"
    by blast
  with 1(1) 2(1) show ?thesis by (simp add: save_entry_def bind_op_def return_op_def)
qed

lemma read_entry_in_service:
  assumes "in_service d" and "i < MAX_FILES"
  obtains d1 where "read_file_entry i d = (Ok (tbl (disk_content d) i), d1)" "in_service d1" "disk_content d1 = disk_content d"
  using read_entry_healthy [OF in_serviceD(1) [OF assms(1)] assms(2)] in_service_cong [OF assms(1)] in_serviceD(2) [OF assms(1)]
  by metis

lemma delete_loop_healthy:
  assumes "in_service d" and "disk_table_ok (disk_content d)" and "\<forall>i \<in> set is. i < MAX_FILES"
    and "\<exists>i \<in> set is. slot_used (disk_content d) i \<and> entry_name (tbl (disk_content d) i) = Ok name"
  shows "\<exists>d'. delete_loop name is d = (Ok True, d') \<and> in_service d'"
  using assms
proof (induction "is" arbitrary: d)
  case (Cons i "is")
  let ?e = "tbl (disk_content d) i"
  obtain d1 where 1: "read_file_entry i d = (Ok ?e, d1)" and s1: "in_service d1" and c1: "disk_content d1 = disk_content d"
    using read_entry_in_service [OF Cons.prems(1), of i] Cons.prems(3) by auto
  show ?case
  proof (cases "slot_used (disk_content d) i \<and> entry_name ?e = Ok name")
    case True
    then show ?thesis
      using write_file_entry_healthy [OF s1 _ entry_inactive_ok, of i] 1
      by (auto simp: slot_used_def succeeds_def bind_op_def return_op_def)
  next
    case False
    then have "\<exists>d'. delete_loop name is d1 = (Ok True, d') \<and> in_service d'"
      using Cons.IH [OF s1] Cons.prems(2-4) c1 by auto
    moreover have "de_active ?e = 0 \<or> (\<exists>n. entry_name ?e = Ok n \<and> n \<noteq> name)"
      using False Cons.prems(3) disk_table_okD(4) [OF Cons.prems(2), of i] by (auto simp: slot_used_def)
    ultimately show ?thesis using 1 by (auto simp: bind_op_def)
  qed
qed simp

lemma delete_succeeds:
  assumes "in_service d" and "disk_table_ok (disk_content d)" and "disk_lookup (disk_content d) name \<noteq> None"
  shows "\<exists>d'. delete_file_from_disk name d = (Ok (), d') \<and> in_service d'"
proof -
  from set_superblock_state_healthy [OF assms(1)] obtain d1 where 1: "set_superblock_state FS_STATE_DIRTY d = (Ok (), d1)" "in_service d1"
    by (auto simp: succeeds_def)
  note same = set_superblock_state_Ok [OF in_serviceD(3) [OF assms(1)] 1(1)]
  have ok1: "disk_table_ok (disk_content d1)" using same same_files_table_ok assms(2) by blast
  have "disk_lookup (disk_content d1) name \<noteq> None" using same same_files_lookup assms(3) by metis
  then have "\<exists>i \<in> set [0..<MAX_FILES]. slot_used (disk_content d1) i \<and> entry_name (tbl (disk_content d1) i) = Ok name"
    using disk_lookup_Some by fastforce
  from delete_loop_healthy [OF 1(2) ok1 _ this] obtain d2 where 2: "delete_loop name [0..<MAX_FILES] d1 = (Ok True, d2)" "in_service d2"
    by auto
  from refresh_superblock_healthy [OF 2(2)] obtain x d3 where "refresh_superblock FS_STATE_CLEAN d2 = (Ok x, d3)" "in_service d3"
    by blast
  with 1(1) 2(1) show ?thesis by (simp add: delete_file_from_disk_def bind_op_def return_op_def)
qed

text \<open>
  C36. Disk requests are served. On a device without faults whose superblock is valid and whose table
  is consistent, saving a new file succeeds whenever a table slot is free and somewhere on the disk a run
  of enough blocks meets no file, deleting a file the disk holds succeeds, and the disk stays in service.
\<close>

theorem disk_requests_succeed:
  assumes "in_service d" and "disk_table_ok (disk_content d)"
  shows "(fits (disk_content d) f \<longrightarrow> (\<exists>d'. save_entry f d = (Ok (), d') \<and> in_service d'))
    \<and> (disk_lookup (disk_content d) name \<noteq> None \<longrightarrow>
      (\<exists>d'. delete_file_from_disk name d = (Ok (), d') \<and> in_service d'))"
  using save_succeeds [OF assms] delete_succeeds [OF assms] by blast

section \<open>The disk as a map of files\<close>

lemma save_entry_Ok:
  assumes "disk_wf d" and "disk_table_ok (disk_content d)" and f: "storable f" and "save_entry f d = (Ok (), d')"
  shows "disk_wf d' \<and> disk_table_ok (disk_content d')
      \<and> disk_lookup (disk_content d') = (disk_lookup (disk_content d))(fe_name f \<mapsto> f)"
proof -
  from assms(4) obtain d1 u d2 s where 1: "set_superblock_state FS_STATE_DIRTY d = (Inr (), d1)" and 2: "upsert f d1 = (Inr u, d2)"
    and 3: "refresh_superblock FS_STATE_CLEAN d2 = (Inr s, d')"
    by (auto simp: save_entry_def bind_op_Ok return_op_def)
  note s1 = set_superblock_state_Ok [OF assms(1) 1]
  have ok1: "disk_table_ok (disk_content d1)" using same_files_table_ok s1 assms(2) by blast
  have size: "length (fe_data f) \<le> MAX_FILE_SIZE" using f by (simp add: storable_def)
  from upsert_Ok [OF _ ok1 size 2] s1 obtain i b where d2: "disk_wf d2"
    and st: "stored_file (disk_content d1) f i b (disk_content d2)" by blast
  note s3 = refresh_superblock_Ok [OF d2 3]
  have "disk_table_ok (disk_content d')" using same_files_table_ok stored_file_table_ok [OF st ok1 f] s3 by blast
  moreover have "disk_lookup (disk_content d') = (disk_lookup (disk_content d))(fe_name f \<mapsto> f)"
    using same_files_lookup s1 s3 stored_file_lookup [OF st ok1 f] by metis
  ultimately show ?thesis using s3 by blast
qed

lemma delete_file_Ok:
  assumes "disk_wf d" and "disk_table_ok (disk_content d)" and "delete_file_from_disk name d = (Ok (), d')"
  shows "disk_wf d' \<and> disk_table_ok (disk_content d')
      \<and> disk_lookup (disk_content d') = (disk_lookup (disk_content d))(name := None)"
proof -
  from assms(3) obtain d1 d2 s where 1: "set_superblock_state FS_STATE_DIRTY d = (Inr (), d1)"
    and 2: "delete_loop name [0..<MAX_FILES] d1 = (Inr True, d2)" and 3: "refresh_superblock FS_STATE_CLEAN d2 = (Inr s, d')"
    by (auto simp: delete_file_from_disk_def bind_op_Ok return_op_def fail_op_def split: if_splits)
  note s1 = set_superblock_state_Ok [OF assms(1) 1]
  have ok1: "disk_table_ok (disk_content d1)" using same_files_table_ok s1 assms(2) by blast
  from delete_loop_Ok [OF _ 2] s1 obtain i where d2: "disk_wf d2" and i: "slot_used (disk_content d1) i"
    "entry_name (tbl (disk_content d1) i) = Ok name"
    "disk_content d2 = (disk_content d1)(slot_sector i := entry_bytes entry_inactive)" by auto
  note cl = clear_slot [OF ok1 i]
  note s3 = refresh_superblock_Ok [OF d2 3]
  have "disk_table_ok (disk_content d')" using same_files_table_ok cl(1) s3 by blast
  moreover have "disk_lookup (disk_content d') = (disk_lookup (disk_content d))(name := None)"
    using same_files_lookup s1 s3 cl(2) by metis
  ultimately show ?thesis using s3 by blast
qed

definition wanted :: "file_entry list \<Rightarrow> string \<Rightarrow> bool" where
  "wanted files name \<longleftrightarrow> list_ex (\<lambda>f. is_persistable_path (fe_name f) \<and> fe_name f = name) files"

lemma prune_loop_Ok:
  assumes "disk_wf d" and "disk_table_ok (disk_content d)" and "prune_loop files is d = (Inr u, d')"
  shows "disk_wf d' \<and> disk_table_ok (disk_content d')
    \<and> (\<forall>name. wanted files name \<longrightarrow> disk_lookup (disk_content d') name = disk_lookup (disk_content d) name)
    \<and> (\<forall>j. slot_used (disk_content d') j \<longrightarrow> slot_used (disk_content d) j
        \<and> tbl (disk_content d') j = tbl (disk_content d) j
        \<and> (j \<in> set is \<longrightarrow> (\<exists>name. wanted files name \<and> entry_name (tbl (disk_content d') j) = Ok name)))"
  using assms
proof (induction "is" arbitrary: d)
  case Nil
  then show ?case by (auto simp: return_op_def)
next
  case (Cons i "is")
  let ?c = "disk_content d"
  from Cons.prems(3) obtain e d1 where rd: "read_file_entry i d = (Inr e, d1)"
    and rest: "(if de_active e = 0 then prune_loop files is
      else (case entry_name e of Inl err \<Rightarrow> fail_op err
        | Inr n \<Rightarrow> if wanted files n then prune_loop files is
            else bind_op (write_file_entry i entry_inactive) (\<lambda>_. prune_loop files is))) d1 = (Inr u, d')"
    unfolding prune_loop.simps wanted_def bind_op_Ok by blast
  note r = reads_opD [OF reads_read_file_entry Cons.prems(1) rd]
  have e: "e = tbl ?c i" using r(3) by simp
  have i: "i < MAX_FILES" using rd by (auto simp: read_file_entry_def fail_op_def split: if_splits)
  have ok1: "disk_table_ok (disk_content d1)" using Cons.prems(2) r(2) by simp
  show ?case
  proof (cases "\<exists>n. de_active e \<noteq> 0 \<and> entry_name e = Ok n \<and> \<not> wanted files n")
    case False
    then have "prune_loop files is d1 = (Inr u, d')" and keep: "slot_used ?c i \<Longrightarrow> \<exists>n. wanted files n \<and> entry_name (tbl ?c i) = Ok n"
      using rest e by (auto simp: fail_op_def slot_used_def split: if_splits sum.splits)
    from Cons.IH [OF r(1) ok1 this(1)] keep show ?thesis unfolding r(2) by auto
  next
    case True
    then obtain n where n: "de_active e \<noteq> 0" "entry_name e = Ok n" "\<not> wanted files n" by blast
    with rest obtain v d2 where w: "write_file_entry i entry_inactive d1 = (Inr v, d2)" and tail: "prune_loop files is d2 = (Inr u, d')"
      by (auto simp: bind_op_Ok)
    note w2 = write_file_entry_Ok [OF r(1) w entry_inactive_ok]
    have c2: "disk_content d2 = ?c(slot_sector i := entry_bytes entry_inactive)" using w2(3) r(2) by simp
    have used: "slot_used ?c i" using n(1) e i by (simp add: slot_used_def)
    note cl = clear_slot [OF Cons.prems(2) used n(2) [unfolded e] c2]
    have t2: "slot_used (disk_content d2) j \<Longrightarrow> j \<noteq> i \<and> slot_used ?c j \<and> tbl (disk_content d2) j = tbl ?c j" for j
      using tbl_update [OF i, of j, OF _ entry_inactive_ok, of ?c] c2
      by (cases "j = i") (auto simp: slot_used_def entry_inactive_def)
    from Cons.IH [OF w2(2) cl(1) tail] cl(2) n(3) t2 show ?thesis by (auto simp: fun_upd_def)
  qed
qed

lemma sync_loop_Ok:
  assumes "disk_wf d" and "disk_table_ok (disk_content d)" and "sync_loop files k d = (Inr m, d')"
    and "\<forall>f \<in> set files. storable f" and "distinct (map fe_name files)"
  shows "disk_wf d' \<and> disk_table_ok (disk_content d') \<and> (\<forall>name. disk_lookup (disk_content d') name =
    (case find (\<lambda>f. is_persistable_path (fe_name f) \<and> fe_name f = name) files of
       Some f \<Rightarrow> Some f | None \<Rightarrow> disk_lookup (disk_content d) name))"
  using assms
proof (induction files arbitrary: d k)
  case Nil
  then show ?case by (auto simp: return_op_def)
next
  case (Cons f files)
  show ?case
  proof (cases "is_persistable_path (fe_name f)")
    case False
    then show ?thesis using Cons by auto
  next
    case True
    with Cons.prems(3) obtain u d1 where up: "upsert f d = (Inr u, d1)" and rest: "sync_loop files (k + 1) d1 = (Inr m, d')"
      by (auto simp: bind_op_Ok)
    have f: "storable f" using Cons.prems(4) by simp
    then have "length (fe_data f) \<le> MAX_FILE_SIZE" by (simp add: storable_def)
    from upsert_Ok [OF Cons.prems(1,2) this up] obtain i b where d1: "disk_wf d1"
      and st: "stored_file (disk_content d) f i b (disk_content d1)" by blast
    have "find (\<lambda>g. is_persistable_path (fe_name g) \<and> fe_name g = fe_name f) files = None"
      using Cons.prems(5) unfolding find_None_iff by (simp add: image_iff) metis
    moreover have "disk_wf d' \<and> disk_table_ok (disk_content d') \<and> (\<forall>name. disk_lookup (disk_content d') name =
      (case find (\<lambda>g. is_persistable_path (fe_name g) \<and> fe_name g = name) files of
         Some g \<Rightarrow> Some g | None \<Rightarrow> disk_lookup (disk_content d1) name))"
      using Cons.IH [OF d1 stored_file_table_ok [OF st Cons.prems(2) f] rest] Cons.prems(4,5) by simp
    ultimately show ?thesis using True stored_file_lookup [OF st Cons.prems(2) f] by (auto split: option.split)
  qed
qed

text \<open>
  C35. Synchronising the whole file system. On a consistent disk, when \<open>sync_filesystem\<close> succeeds the
  disk holds exactly the given files other than the two generated ones, each with its data and
  attributes, whatever it held before, and its table is consistent.
\<close>

theorem sync_filesystem_exact:
  assumes "disk_wf d" and "disk_table_ok (disk_content d)" and "\<forall>f \<in> set files. storable f"
    and "distinct (map fe_name files)" and "sync_filesystem files d = (Ok n, d')"
  shows "disk_wf d' \<and> disk_table_ok (disk_content d') \<and> (\<forall>name. disk_lookup (disk_content d') name =
    find (\<lambda>f. is_persistable_path (fe_name f) \<and> fe_name f = name) files)"
proof -
  from assms(5) obtain d1 d2 m d3 s where 1: "set_superblock_state FS_STATE_DIRTY d = (Inr (), d1)"
    and 2: "prune_loop files [0..<MAX_FILES] d1 = (Inr (), d2)" and 3: "sync_loop files 0 d2 = (Inr m, d3)"
    and 4: "refresh_superblock FS_STATE_CLEAN d3 = (Inr s, d')"
    by (auto simp: sync_filesystem_def bind_op_Ok return_op_def)
  note s1 = set_superblock_state_Ok [OF assms(1) 1]
  have ok1: "disk_table_ok (disk_content d1)" using same_files_table_ok s1 assms(2) by blast
  from prune_loop_Ok [OF _ ok1 2] s1 have d2: "disk_wf d2" "disk_table_ok (disk_content d2)"
    and used: "slot_used (disk_content d2) j \<Longrightarrow> \<exists>name. wanted files name \<and> entry_name (tbl (disk_content d2) j) = Ok name" for j
    by (auto simp: slot_used_def)
  have gone: "disk_lookup (disk_content d2) name = None" if "\<not> wanted files name" for name
    using used that by (intro disk_lookup_none) fastforce
  note s3 = sync_loop_Ok [OF d2 3 assms(3,4)]
  note s4 = refresh_superblock_Ok [OF s3 [THEN conjunct1] 4]
  have "disk_lookup (disk_content d3) name = find (\<lambda>f. is_persistable_path (fe_name f) \<and> fe_name f = name) files" for name
  proof (cases "find (\<lambda>f. is_persistable_path (fe_name f) \<and> fe_name f = name) files")
    case None
    then have "\<not> wanted files name" by (auto simp: wanted_def list_ex_iff find_None_iff)
    then show ?thesis using None s3 gone by simp
  qed (use s3 in simp)
  then show ?thesis using s3 s4 same_files_table_ok same_files_lookup by metis
qed

text \<open>
  C4. The disk refines a map of files. On a consistent disk, saving a file whose path is shorter than
  the name field makes exactly that path map to exactly that file, with its data, times, owner and
  permissions; deleting a file removes exactly its path. Every other file keeps its data although
  blocks are reused, and the table stays consistent.
\<close>

theorem disk_refines_file_map:
  assumes "disk_wf d" and "disk_table_ok (disk_content d)"
  shows "(\<forall>f d'. storable f \<and> save_entry f d = (Ok (), d') \<longrightarrow> disk_wf d' \<and> disk_table_ok (disk_content d')
      \<and> disk_lookup (disk_content d') = (disk_lookup (disk_content d))(fe_name f \<mapsto> f))
    \<and> (\<forall>name d'. delete_file_from_disk name d = (Ok (), d') \<longrightarrow> disk_wf d' \<and> disk_table_ok (disk_content d')
      \<and> disk_lookup (disk_content d') = (disk_lookup (disk_content d))(name := None))"
  using save_entry_Ok [OF assms] delete_file_Ok [OF assms] by blast

definition sample_file :: file_entry where
  "sample_file = \<lparr>fe_name = ''/etc/motd'', fe_data = [104, 105], fe_created_at = 3, fe_modified_at = 3,
    fe_readonly = False, fe_owner_uid = 7, fe_permissions = \<lparr>fp_owner_uid = 7, fp_owner_read = True,
      fp_owner_write = True, fp_others_read = True, fp_others_write = False\<rparr>\<rparr>"

lemma formatted_in_service: "in_service formatted_disk"
proof -
  have "vb_capacity_sectors (dk_device formatted_disk) = 1000" by (simp add: formatted_disk_def disk_new_def)
  then show ?thesis
    using formatted_healthy by (simp add: in_service_def formatted_superblock formatted_total superblock_new_valid)
qed

lemma formatted_unused: "\<not> slot_used (disk_content formatted_disk) i"
  using formatted_table by (auto simp: slot_used_def)

lemma formatted_table_ok: "disk_table_ok (disk_content formatted_disk)"
  using formatted_in_range formatted_unused by (simp add: disk_table_ok_def)

lemma formatted_lookup: "disk_lookup (disk_content formatted_disk) name = None"
  by (rule disk_lookup_none) (simp add: formatted_unused)

lemma sample_file_storable: "storable sample_file"
proof -
  have "is_canonical ''/etc/motd''" unfolding is_canonical_def by code_simp
  then show ?thesis by (simp add: storable_def sample_file_def MAX_FILE_SIZE_def)
qed

lemma sample_file_fits: "fits (disk_content formatted_disk) sample_file"
proof -
  have "\<not> holds_blocks (tbl (disk_content formatted_disk) i)" if "i < MAX_FILES" for i
    using formatted_table that by (auto simp: holds_blocks_def)
  then have "has_room (disk_content formatted_disk) (block_count_for_len (length (fe_data sample_file)))"
    by (auto simp: has_room_def formatted_superblock formatted_total sample_file_def block_count_for_len_def BLOCK_SIZE_def
        intro!: exI [of _ 0])
  then show ?thesis
    using formatted_lookup formatted_unused [of 0]
    by (auto simp: fits_def sample_file_def MAX_FILE_SIZE_def MAX_FILES_def intro!: exI [of _ 0])
qed

lemma sample_saved:
  obtains d' where "save_entry sample_file formatted_disk = (Ok (), d')" "in_service d'"
  using save_succeeds [OF formatted_in_service formatted_table_ok sample_file_fits] by blast

theorem disk_requests_succeed_witness:
  "\<exists>d'. save_entry sample_file formatted_disk = (Ok (), d') \<and> in_service d'"
  using disk_requests_succeed [OF formatted_in_service formatted_table_ok] sample_file_fits by blast

theorem disk_refines_file_map_witness:
  "\<exists>d' d''. save_entry sample_file formatted_disk = (Ok (), d')
    \<and> disk_lookup (disk_content d') = [''/etc/motd'' \<mapsto> sample_file]
    \<and> delete_file_from_disk ''/etc/motd'' d' = (Ok (), d'') \<and> disk_lookup (disk_content d'') = Map.empty"
proof -
  obtain d1 where 1: "save_entry sample_file formatted_disk = (Ok (), d1)" "in_service d1" by (rule sample_saved)
  have name: "fe_name sample_file = ''/etc/motd''" by (simp add: sample_file_def)
  have empty: "disk_lookup (disk_content formatted_disk) = Map.empty" using formatted_lookup by blast
  note saved = disk_refines_file_map [OF in_serviceD(3) [OF formatted_in_service] formatted_table_ok,
      THEN conjunct1, rule_format, OF conjI, OF sample_file_storable 1(1), unfolded name empty]
  have "disk_lookup (disk_content d1) ''/etc/motd'' \<noteq> None" using saved by simp
  from delete_succeeds [OF 1(2) _ this] saved obtain d2 where 2: "delete_file_from_disk ''/etc/motd'' d1 = (Ok (), d2)" by blast
  from saved disk_refines_file_map [THEN conjunct2, rule_format, OF _ _ 2]
  have "disk_lookup (disk_content d2) = Map.empty" by simp
  with 1 2 saved show ?thesis by blast
qed

text \<open>Loading on a device without faults.\<close>

lemma read_sectors_healthy:
  assumes "healthy d" and "unat k + m \<le> unat (vb_capacity_sectors (dk_device d))"
  shows "succeeds (read_loop k m) d (\<lambda>_ _. True)"
  using assms
proof (induction m arbitrary: k d)
  case 0
  then show ?case by (simp add: succeeds_def)
next
  case (Suc m)
  have k: "k < vb_capacity_sectors (dk_device d)" using Suc.prems(2) by (simp add: word_less_nat_alt)
  note next_ok = next_sector_in_range [OF Suc.prems(2)]
  from read_sector_healthy [OF Suc.prems(1) k]
  obtain u d1 where 1: "read_sector k d = (Ok u, d1)" "healthy d1"
    "vb_capacity_sectors (dk_device d1) = vb_capacity_sectors (dk_device d)" by (auto simp: succeeds_def)
  from Suc.IH [OF 1(2), of "k + 1"] 1(3) next_ok
  show ?case using 1(1,3) by (auto simp: succeeds_def)
qed

lemma entry_data_healthy:
  assumes "in_service d" and "disk_table_ok (disk_content d)" and "slot_used (disk_content d) i"
  shows "\<exists>d'. entry_data (tbl (disk_content d) i) d = (Some (Ok (file_bytes (disk_content d) (tbl (disk_content d) i))), d')
    \<and> in_service d' \<and> disk_content d' = disk_content d"
proof -
  let ?e = "tbl (disk_content d) i"
  obtain r d' where run: "entry_data ?e d = (r, d')" by fastforce
  note c = entry_data_used [OF in_serviceD(3) [OF assms(1)] assms(2,3) run]
  have "in_service d' \<and> (\<nexists>err. r = Some (Err err))"
  proof (cases "de_block_count ?e \<noteq> 0 \<and> de_size ?e \<noteq> 0")
    case True
    let ?n = "ucast (ucast (de_block_count ?e) * SECTORS_PER_BLOCK) :: u32"
    have "unat (de_block_count ?e) * 8 < 2 ^ LENGTH(32)" using disk_table_okD(7) [OF assms(2,3)] by simp
    then have n: "unat ?n = unat (de_block_count ?e) * 8"
      by (simp add: unsigned_ucast_eq unat_block_sectors take_bit_nat_eq_self)
    have "unat (de_start_block ?e) + unat (de_block_count ?e) \<le> unat (sb_total_blocks (sblk (disk_content d)))"
      using blocks_in_rangeD [OF disk_table_okD(1) [OF assms(2)], of i] assms(3) True by (simp add: slot_used_def holds_blocks_def)
    then have "unat (data_sector (de_start_block ?e)) + unat ?n \<le> unat (vb_capacity_sectors (dk_device d))"
      using assms(1) n by (simp add: in_service_def unat_data_sector)
    from read_sectors_healthy [OF in_serviceD(1) [OF assms(1)] this] obtain bs d1 where
      1: "read_sectors (data_sector (de_start_block ?e)) ?n (unat (de_block_count ?e) * BLOCK_SIZE) d = (Ok bs, d1)"
      "healthy d1" "vb_capacity_sectors (dk_device d1) = vb_capacity_sectors (dk_device d)"
      by (auto simp: succeeds_def read_sectors_def n BLOCK_SIZE_def SECTOR_SIZE_def)
    then have "d' = d1 \<and> (\<nexists>err. r = Some (Err err))"
      using run True by (auto simp: entry_data_def read_file_data_def Let_def data_sector_def split: if_splits)
    then show ?thesis using in_service_cong [OF assms(1) 1(2,3)] c in_serviceD(2) [OF assms(1)] by simp
  next
    case False
    then show ?thesis using run assms(1) by (auto simp: entry_data_def)
  qed
  then show ?thesis using c run by blast
qed

lemma prune_unused_healthy:
  assumes "in_service d" and "\<forall>i \<in> set is. i < MAX_FILES \<and> \<not> slot_used (disk_content d) i"
  shows "\<exists>d'. prune_loop files is d = (Ok (), d') \<and> in_service d' \<and> disk_content d' = disk_content d"
  using assms
proof (induction "is" arbitrary: d)
  case Nil
  then show ?case by (simp add: return_op_def)
next
  case (Cons i "is")
  obtain d1 where 1: "read_file_entry i d = (Ok (tbl (disk_content d) i), d1)" "in_service d1" "disk_content d1 = disk_content d"
    using read_entry_in_service [OF Cons.prems(1), of i] Cons.prems(2) by auto
  from Cons.IH [OF 1(2)] Cons.prems(2) 1 show ?case by (auto simp: slot_used_def bind_op_def)
qed

text \<open>A file system whose files have the sizes they have in a file system within the limits has room
  for one more of those files.\<close>

definition file_size :: "warfs \<Rightarrow> string \<Rightarrow> nat option" where
  "file_size fs name = map_option (\<lambda>e. length (fe_data e)) (fs_find name fs)"

lemma sum_by_name:
  assumes "distinct (map fe_name es)" and "\<And>e. e \<in> set es \<Longrightarrow> g (fe_name e) = length (fe_data e)"
  shows "sum_list (map (\<lambda>e. length (fe_data e)) es) = sum g (fe_name ` set es)"
proof -
  have eq: "map (\<lambda>e. length (fe_data e)) es = map g (map fe_name es)" using assms(2) by simp
  show ?thesis unfolding eq using sum_list_distinct_conv_sum_set [OF assms(1), of g] by simp
qed

lemma file_size_member: "fs_wf fs \<Longrightarrow> e \<in> set (fs_files fs) \<Longrightarrow> file_size fs (fe_name e) = Some (length (fe_data e))"
  using find_key_unique [of fe_name "fs_files fs" e]
  by (simp add: file_size_def fs_find_def fs_wf_def distinct_names_def)

lemma room_for_file:
  assumes "fs_wf fs" and "fs_wf T" and "\<And>p k. file_size fs p = Some k \<Longrightarrow> file_size T p = Some k"
    and "file_size T c = Some k"
  shows "k \<le> MAX_FILE_SIZE" and "used_without_target c fs + k \<le> TOTAL_CAPACITY"
    and "fs_find c fs = None \<Longrightarrow> length (fs_files fs) < MAX_FILES"
proof -
  let ?names = "\<lambda>F. fe_name ` set (fs_files F)" and ?g = "\<lambda>p. the (file_size T p)"
  have d: "distinct (map fe_name (fs_files fs))" "distinct (map fe_name (fs_files T))"
    using assms(1,2) by (auto simp: fs_wf_def distinct_names_def)
  have sub: "?names fs \<subseteq> ?names T"
  proof
    fix p
    assume "p \<in> ?names fs"
    then obtain k where "file_size fs p = Some k" using file_size_member [OF assms(1)] by auto
    then have "file_size T p = Some k" by (rule assms(3))
    then show "p \<in> ?names T" using fs_find_name [of p T] by (auto simp: file_size_def)
  qed
  have c: "c \<in> ?names T" and size: "k \<le> MAX_FILE_SIZE"
    using assms(2,4) fs_find_name [of c T] by (auto simp: file_size_def fs_wf_def list_all_iff entry_ok_def)
  show "k \<le> MAX_FILE_SIZE" by (rule size)
  have "used_without_target c fs = sum ?g (fe_name ` set (filter (\<lambda>e. fe_name e \<noteq> c) (fs_files fs)))"
    unfolding used_without_target_def
    using d(1) file_size_member [OF assms(1)] assms(3) by (intro sum_by_name) (auto simp: distinct_map_filter)
  also have "fe_name ` set (filter (\<lambda>e. fe_name e \<noteq> c) (fs_files fs)) = ?names fs - {c}" by auto
  finally have "used_without_target c fs + k = sum ?g (insert c (?names fs - {c}))"
    using assms(4) by (subst sum.insert) simp_all
  also have "\<dots> \<le> sum ?g (?names T)" using sub c by (intro sum_mono2) auto
  also have "\<dots> = used_space T"
    unfolding used_space_def using d(2) file_size_member [OF assms(2)] by (intro sum_by_name [symmetric]) auto
  finally show "used_without_target c fs + k \<le> TOTAL_CAPACITY" using assms(2) by (simp add: fs_wf_def)
  have card: "card (?names F) = length (fs_files F)" if "distinct (map fe_name (fs_files F))" for F :: warfs
    using distinct_card [OF that] by simp
  show "length (fs_files fs) < MAX_FILES" if "fs_find c fs = None"
  proof -
    have "c \<notin> ?names fs" using that by (auto simp: fs_find_def find_key_None)
    then have "?names fs \<subset> ?names T" using sub c by blast
    then have "card (?names fs) < card (?names T)" by (intro psubset_card_mono) simp_all
    then show ?thesis using card [OF d(1)] card [OF d(2)] assms(2) by (simp add: fs_wf_def)
  qed
qed

lemma load_file_succeeds:
  assumes "fs_wf fs" and "fs_wf T" and "\<And>p k. file_size fs p = Some k \<Longrightarrow> file_size T p = Some k"
    and "file_size T c = Some (length data)" and "is_canonical c" and "c \<noteq> ''/''"
  shows "\<exists>fs'. load_file_from_disk c data own p ro ct mt fs = (Ok (), fs')"
  using room_for_file [OF assms(1-4)] assms(1,5,6)
  by (auto simp: load_file_from_disk_def fs_wf_def Let_def not_less split: option.splits)

lemma load_loop_healthy:
  assumes "in_service d" and "disk_table_ok (disk_content d)" and "fs_wf fs" and "fs_wf T"
    and "\<And>p f. is_persistable_path p \<Longrightarrow> disk_lookup (disk_content d) p = Some f \<Longrightarrow> file_size T p = Some (length (fe_data f))"
    and "\<And>p k. file_size fs p = Some k \<Longrightarrow> file_size T p = Some k" and "\<forall>i \<in> set is. i < MAX_FILES"
  shows "\<exists>m d' fs'. load_loop is n d fs = (Some (Ok m), d', fs')"
  using assms
proof (induction "is" arbitrary: n d fs)
  case (Cons i "is")
  let ?c = "disk_content d"
  let ?e = "tbl ?c i"
  obtain d1 where 1: "read_file_entry i d = (Ok ?e, d1)" and s1: "in_service d1" and c1: "disk_content d1 = ?c"
    using read_entry_in_service [OF Cons.prems(1), of i] Cons.prems(7) by auto
  have skip: "\<exists>m d' fs'. load_loop is n d1 fs = (Some (Ok m), d', fs')"
    using Cons.IH [OF s1 _ Cons.prems(3,4)] Cons.prems(2,5-7) c1 by simp
  show ?case
  proof (cases "slot_used ?c i")
    case False
    then show ?thesis using skip 1 Cons.prems(7) by (auto simp: slot_used_def)
  next
    case True
    from disk_table_okD(4) [OF Cons.prems(2) True]
    obtain name where name: "entry_name ?e = Ok name" "is_canonical name" "name \<noteq> ''/''" by blast
    show ?thesis
    proof (cases "is_persistable_path name")
      case False
      then show ?thesis using skip 1 name True by (auto simp: slot_used_def)
    next
      case persist: True
      from entry_data_healthy [OF s1, of i] Cons.prems(2) True c1
      obtain d2 where 2: "entry_data ?e d1 = (Some (Ok (file_bytes ?c ?e)), d2)" "in_service d2" "disk_content d2 = ?c"
        by auto
      have look: "disk_lookup ?c name = Some (disk_file ?c ?e)" by (rule disk_lookup_used [OF Cons.prems(2) True name(1)])
      have size: "file_size T name = Some (length (file_bytes ?c ?e))"
        using Cons.prems(5) [OF persist look] by (simp add: disk_file_def)
      obtain fs1 where load: "load_file_from_disk name (file_bytes ?c ?e) (de_owner_uid ?e) (entry_permissions ?e)
          (de_readonly ?e \<noteq> 0) (de_created_at ?e) (de_modified_at ?e) fs = (Ok (), fs1)"
        using load_file_succeeds [OF Cons.prems(3,4,6) size name(2,3)] by blast
      have wf1: "fs_wf fs1" using load_file_from_disk_wf [OF Cons.prems(3)] load by (metis snd_conv)
      have sizes: "file_size T p = Some k" if "file_size fs1 p = Some k" for p k
        using that load_file_Ok [OF Cons.prems(3) name(2) load, of p] size Cons.prems(6) [of p k]
        by (auto simp: file_size_def entry_permissions_def split: if_splits)
      have "\<exists>m d' fs'. load_loop is (n + 1) d2 fs1 = (Some (Ok m), d', fs')"
        using Cons.IH [OF 2(2) _ wf1 Cons.prems(4) _ sizes, of "n + 1"] Cons.prems(2,5,7) 2(3) by simp
      then show ?thesis using 1 2(1) load name(1) persist True by (auto simp: slot_used_def)
    qed
  qed
qed simp

lemma load_succeeds:
  assumes "in_service d" and "disk_table_ok (disk_content d)" and "fs_wf T"
    and "\<And>p f. is_persistable_path p \<Longrightarrow> disk_lookup (disk_content d) p = Some f \<Longrightarrow> file_size T p = Some (length (fe_data f))"
  shows "\<exists>n d' fs'. load_filesystem d warfs_new = (Some (Ok n), d', fs')"
  unfolding load_filesystem_def
  by (rule load_loop_healthy [OF assms(1,2) fs_wf_new assms(3,4)])
    (simp_all add: file_size_def warfs_new_def fs_find_def)

lemma sample_loaded:
  obtains d1 n d2 fs where "save_entry sample_file formatted_disk = (Ok (), d1)" "disk_wf d1" "disk_table_ok (disk_content d1)"
    "disk_lookup (disk_content d1) = [''/etc/motd'' \<mapsto> sample_file]" "load_filesystem d1 warfs_new = (Some (Ok n), d2, fs)"
proof -
  obtain d1 where 1: "save_entry sample_file formatted_disk = (Ok (), d1)" "in_service d1" by (rule sample_saved)
  have name: "fe_name sample_file = ''/etc/motd''" by (simp add: sample_file_def)
  have empty: "disk_lookup (disk_content formatted_disk) = Map.empty" using formatted_lookup by blast
  have saved: "disk_table_ok (disk_content d1)" "disk_lookup (disk_content d1) = [''/etc/motd'' \<mapsto> sample_file]"
    using save_entry_Ok [OF in_serviceD(3) [OF formatted_in_service] formatted_table_ok sample_file_storable 1(1)]
    unfolding name empty by auto
  have none: "fs_find ''/etc/motd'' warfs_new = None" by (simp add: warfs_new_def fs_find_def)
  then have "insertable ''/etc/motd'' (fe_data sample_file) warfs_new"
    using sample_file_storable
    by (simp add: insertable_def storable_def sample_file_def warfs_new_def used_without_target_def MAX_FILES_def
        MAX_FILE_SIZE_def TOTAL_CAPACITY_def)
  then have "fs_wf (push_sorted sample_file warfs_new)"
    using fs_wf_push_sorted [OF fs_wf_new, of sample_file] by (simp add: name)
  moreover have "file_size (push_sorted sample_file warfs_new) ''/etc/motd'' = Some (length (fe_data sample_file))"
    using fs_find_push_sorted [OF fs_wf_distinct [OF fs_wf_new], of sample_file] none
    by (simp add: file_size_def name)
  ultimately have "\<exists>n d2 fs. load_filesystem d1 warfs_new = (Some (Ok n), d2, fs)"
    by (intro load_succeeds [OF 1(2) saved(1), of "push_sorted sample_file warfs_new"])
      (simp_all add: saved(2) split: if_splits)
  then obtain n d2 fs where "load_filesystem d1 warfs_new = (Some (Ok n), d2, fs)" by blast
  then show thesis using that 1 in_serviceD(3) [OF 1(2)] saved by blast
qed

theorem load_filesystem_restores_witness:
  "\<exists>d1 n d2 fs. save_entry sample_file formatted_disk = (Ok (), d1)
    \<and> load_filesystem d1 warfs_new = (Some (Ok n), d2, fs) \<and> fs_find ''/etc/motd'' fs = Some sample_file"
proof -
  obtain d1 n d2 fs where 1: "save_entry sample_file formatted_disk = (Ok (), d1)" "disk_wf d1" "disk_table_ok (disk_content d1)"
    "disk_lookup (disk_content d1) = [''/etc/motd'' \<mapsto> sample_file]"
    and 2: "load_filesystem d1 warfs_new = (Some (Ok n), d2, fs)" by (rule sample_loaded)
  from load_filesystem_restores [OF 1(2,3) fs_wf_new 2]
  have "fs_find ''/etc/motd'' fs = Some sample_file" by (simp add: 1(4) is_persistable_path_def)
  with 1(1) 2 show ?thesis by blast
qed

theorem sync_filesystem_exact_witness:
  "\<exists>n d'. sync_filesystem [sample_file] formatted_disk = (Ok n, d')
    \<and> disk_lookup (disk_content d') ''/etc/motd'' = Some sample_file"
proof -
  from set_superblock_state_healthy [OF formatted_in_service]
  obtain d1 where 1: "set_superblock_state FS_STATE_DIRTY formatted_disk = (Ok (), d1)" "in_service d1"
    by (auto simp: succeeds_def)
  note same = set_superblock_state_Ok [OF in_serviceD(3) [OF formatted_in_service] 1(1)]
  have unused: "\<not> slot_used (disk_content d1) i" for i
    using same formatted_unused [of i] by (auto simp: same_files_def slot_used_def)
  obtain d2 where 2: "prune_loop [sample_file] [0..<MAX_FILES] d1 = (Ok (), d2)" "in_service d2" "disk_content d2 = disk_content d1"
    using prune_unused_healthy [OF 1(2), of "[0..<MAX_FILES]"] unused by auto
  have "disk_table_ok (disk_content d2)" "fits (disk_content d2) sample_file"
    using 2(3) same same_files_table_ok formatted_table_ok fits_same_files sample_file_fits by auto
  from upsert_healthy [OF 2(2) this] obtain d3 where 3: "upsert sample_file d2 = (Ok (), d3)" "in_service d3" by blast
  from refresh_superblock_healthy [OF 3(2)] obtain x d4 where 4: "refresh_superblock FS_STATE_CLEAN d3 = (Ok x, d4)" by blast
  have name: "is_persistable_path (fe_name sample_file)" "fe_name sample_file = ''/etc/motd''"
    by (simp_all add: is_persistable_path_def sample_file_def)
  have run: "sync_filesystem [sample_file] formatted_disk = (Ok 1, d4)"
    using 1(1) 2(1) 3(1) 4 name(1) by (simp add: sync_filesystem_def bind_op_def return_op_def)
  from sync_filesystem_exact [OF in_serviceD(3) [OF formatted_in_service] formatted_table_ok _ _ run] sample_file_storable run name
  show ?thesis by simp
qed

end
