(* ===== verification/War_Pkg.thy ===== *)
theory War_Pkg
  imports Auth_Types
begin

text \<open>
  Signed package bundles (\<open>crates/waros-pkg/src/lib.rs\<close>): manifests, payload digests, hexadecimal
  text, the consistency of a bundle and the verification of its signature.

  The record \<open>pkg_crypto\<close> holds what the crate takes from others: the SHA-2 and SHA-3 digests, the
  JSON encoding by \<open>serde_json\<close>, and ML-DSA keys and signatures. A failing conversion is \<open>None\<close>. The
  text of the built-in public key is an argument.
\<close>

record manifest_file =
  mf_path :: string
  mf_source :: string
  mf_executable :: bool
  mf_size :: u64

record manifest =
  mn_name :: string
  mn_version :: string
  mn_description :: string
  mn_author :: string
  mn_license :: string
  mn_files :: "manifest_file list"
  mn_dependencies :: "string list"
  mn_min_waros_version :: string
  mn_category :: string

record war_pack_payload =
  wp_source :: string
  wp_contents :: string

record payload_digest =
  pd_source :: string
  pd_size :: u64
  pd_sha3_256 :: string

record signature_envelope =
  se_scheme :: string
  se_key_id :: string
  se_signature :: string

record signed_manifest =
  sm_manifest :: manifest
  sm_payloads :: "payload_digest list"
  sm_signature :: signature_envelope

record war_pack_bundle =
  wb_signed_manifest :: signed_manifest
  wb_payloads :: "war_pack_payload list"

record trust_root =
  tr_key_id :: string
  tr_scheme :: string
  tr_public_key_hex :: string

datatype verify_error = SignatureMissing | UnsupportedSignatureScheme | UnknownTrustRoot
  | InvalidPublicKey | InvalidSignatureEncoding | SignatureMismatch | CanonicalEncodingFailed
  | DuplicatePayload string | PayloadMissing string | UnexpectedPayload string
  | PayloadDigestMismatch string | PayloadSizeMismatch string | FilePayloadMissing string
  | FileSizeMismatch string

datatype sign_error = SignUnsupportedScheme | InvalidSecretKey | SignEncodingFailed

record ('pk, 'sg) pkg_crypto =
  api_sha256 :: "u8 list \<Rightarrow> u8 list"
  api_sha3_256 :: "u8 list \<Rightarrow> u8 list"
  api_manifest_json :: "manifest \<Rightarrow> payload_digest list \<Rightarrow> u8 list option"
  api_decode_key :: "u8 list \<Rightarrow> 'pk option"
  api_decode_signature :: "u8 list \<Rightarrow> 'sg option"
  api_verify :: "'pk \<Rightarrow> u8 list \<Rightarrow> 'sg \<Rightarrow> bool"
  api_sign :: "u8 list \<Rightarrow> u8 list \<Rightarrow> u8 list option"

definition WARPKG_SIGNATURE_SCHEME :: string where "WARPKG_SIGNATURE_SCHEME = ''ml-dsa-dilithium3-v1''"
definition WARPKG_BOOTSTRAP_KEY_ID :: string where "WARPKG_BOOTSTRAP_KEY_ID = ''waros-bootstrap-root-v1''"
definition SIGNING_DOMAIN :: "u8 list" where "SIGNING_DOMAIN = as_bytes ''WarPkgSignedManifest-v1'' @ [0]"

definition embedded_bootstrap_root :: "string \<Rightarrow> trust_root" where
  "embedded_bootstrap_root public_key_hex = \<lparr>tr_key_id = WARPKG_BOOTSTRAP_KEY_ID,
    tr_scheme = WARPKG_SIGNATURE_SCHEME, tr_public_key_hex = public_key_hex\<rparr>"

section \<open>Hexadecimal text\<close>

definition hex_digit :: "u8 \<Rightarrow> char" where
  "hex_digit value =
    (let v = unat (value AND 0x0F) in
     if v \<le> 9 then char_of (of_char CHR ''0'' + v)
     else char_of (of_char CHR ''a'' + (v - 10)))"

definition decode_digit :: "u8 \<Rightarrow> u8 option" where
  "decode_digit value =
    (if 48 \<le> value \<and> value \<le> 57 then Some (value - 48)
     else if 97 \<le> value \<and> value \<le> 102 then Some (value - 97 + 10)
     else if 65 \<le> value \<and> value \<le> 70 then Some (value - 65 + 10)
     else None)"

fun hex_encode :: "u8 list \<Rightarrow> string" where
  "hex_encode [] = []"
| "hex_encode (byte # bytes) = hex_digit (drop_bit 4 byte) # hex_digit (byte AND 0x0F) # hex_encode bytes"

fun decode_pairs :: "u8 list \<Rightarrow> u8 list option" where
  "decode_pairs (h # l # bytes) =
    (case decode_digit h of None \<Rightarrow> None
     | Some high \<Rightarrow> (case decode_digit l of None \<Rightarrow> None
         | Some low \<Rightarrow> map_option ((#) (push_bit 4 high OR low)) (decode_pairs bytes)))"
| "decode_pairs _ = Some []"

definition parse_hex :: "string \<Rightarrow> u8 list option" where
  "parse_hex txt =
    (let bytes = as_bytes (trim txt) in if odd (length bytes) then None else decode_pairs bytes)"

section \<open>Digests and signatures\<close>

definition sha256_hex :: "('pk, 'sg) pkg_crypto \<Rightarrow> u8 list \<Rightarrow> string" where
  "sha256_hex api payload = hex_encode (api_sha256 api payload)"

definition sha3_256_hex :: "('pk, 'sg) pkg_crypto \<Rightarrow> u8 list \<Rightarrow> string" where
  "sha3_256_hex api payload = hex_encode (api_sha3_256 api payload)"

definition canonical_signed_message ::
  "('pk, 'sg) pkg_crypto \<Rightarrow> manifest \<Rightarrow> payload_digest list \<Rightarrow> verify_error + u8 list" where
  "canonical_signed_message api manifest payloads =
    (case api_manifest_json api manifest payloads of
       None \<Rightarrow> Err CanonicalEncodingFailed
     | Some json \<Rightarrow> Ok (SIGNING_DOMAIN @ json))"

definition sign_manifest ::
  "('pk, 'sg) pkg_crypto \<Rightarrow> manifest \<Rightarrow> payload_digest list \<Rightarrow> string \<Rightarrow> string \<Rightarrow> string \<Rightarrow> sign_error + signature_envelope"
where
  "sign_manifest api manifest payloads key_id scheme secret_key_hex =
    (if scheme \<noteq> WARPKG_SIGNATURE_SCHEME then Err SignUnsupportedScheme
     else (case canonical_signed_message api manifest payloads of
         Inl _ \<Rightarrow> Err SignEncodingFailed
       | Inr message \<Rightarrow>
           result_bind (ok_or (parse_hex secret_key_hex) InvalidSecretKey) (\<lambda>secret_key_bytes.
           result_bind (ok_or (api_sign api secret_key_bytes message) InvalidSecretKey) (\<lambda>signature.
             Ok \<lparr>se_scheme = scheme, se_key_id = key_id, se_signature = hex_encode signature\<rparr>))))"

definition payload_digests :: "('pk, 'sg) pkg_crypto \<Rightarrow> war_pack_payload list \<Rightarrow> payload_digest list" where
  "payload_digests api payloads = map (\<lambda>payload. \<lparr>pd_source = wp_source payload,
    pd_size = word_of_nat (length (wp_contents payload)),
    pd_sha3_256 = sha3_256_hex api (as_bytes (wp_contents payload))\<rparr>) payloads"

section \<open>Consistency of a bundle\<close>

fun check_signed ::
  "('pk, 'sg) pkg_crypto \<Rightarrow> war_pack_payload list \<Rightarrow> payload_digest list \<Rightarrow> string list \<Rightarrow> verify_error + unit" where
  "check_signed api payloads [] seen_signed = Ok ()"
| "check_signed api payloads (digest # digests) seen_signed =
    (let source = pd_source digest in
     if source \<in> set seen_signed then Err (DuplicatePayload source)
     else (case find (\<lambda>payload. wp_source payload = source) payloads of
         None \<Rightarrow> Err (PayloadMissing source)
       | Some payload \<Rightarrow>
           if word_of_nat (length (wp_contents payload)) \<noteq> pd_size digest then Err (PayloadSizeMismatch source)
           else if sha3_256_hex api (as_bytes (wp_contents payload)) \<noteq> pd_sha3_256 digest
           then Err (PayloadDigestMismatch source)
           else check_signed api payloads digests (seen_signed @ [source])))"

fun check_payloads :: "payload_digest list \<Rightarrow> war_pack_payload list \<Rightarrow> string list \<Rightarrow> verify_error + unit" where
  "check_payloads digests [] seen_payloads = Ok ()"
| "check_payloads digests (payload # payloads) seen_payloads =
    (let source = wp_source payload in
     if source \<in> set seen_payloads then Err (DuplicatePayload source)
     else if \<not> list_ex (\<lambda>digest. pd_source digest = source) digests then Err (UnexpectedPayload source)
     else check_payloads digests payloads (seen_payloads @ [source]))"

fun check_files :: "payload_digest list \<Rightarrow> manifest_file list \<Rightarrow> verify_error + unit" where
  "check_files digests [] = Ok ()"
| "check_files digests (f # files) =
    (case find (\<lambda>digest. pd_source digest = mf_source f) digests of
       None \<Rightarrow> Err (FilePayloadMissing (mf_source f))
     | Some digest \<Rightarrow>
         if pd_size digest \<noteq> mf_size f then Err (FileSizeMismatch (mf_path f))
         else check_files digests files)"

definition validate_payloads :: "('pk, 'sg) pkg_crypto \<Rightarrow> war_pack_bundle \<Rightarrow> verify_error + unit" where
  "validate_payloads api bundle =
    (let digests = sm_payloads (wb_signed_manifest bundle) in
     result_bind (check_signed api (wb_payloads bundle) digests []) (\<lambda>_.
     result_bind (check_payloads digests (wb_payloads bundle) []) (\<lambda>_.
       check_files digests (mn_files (sm_manifest (wb_signed_manifest bundle))))))"

definition verify_bundle :: "('pk, 'sg) pkg_crypto \<Rightarrow> war_pack_bundle \<Rightarrow> trust_root \<Rightarrow> verify_error + unit" where
  "verify_bundle api bundle root =
    (let signature = sm_signature (wb_signed_manifest bundle) in
     if se_signature signature = [] then Err SignatureMissing
     else if se_scheme signature \<noteq> tr_scheme root then Err UnsupportedSignatureScheme
     else if se_key_id signature \<noteq> tr_key_id root then Err UnknownTrustRoot
     else
       result_bind (validate_payloads api bundle) (\<lambda>_.
       result_bind (ok_or (parse_hex (tr_public_key_hex root)) InvalidPublicKey) (\<lambda>public_key_bytes.
       result_bind (ok_or (parse_hex (se_signature signature)) InvalidSignatureEncoding) (\<lambda>signature_bytes.
       result_bind (ok_or (api_decode_key api public_key_bytes) InvalidPublicKey) (\<lambda>public_key.
       result_bind (canonical_signed_message api (sm_manifest (wb_signed_manifest bundle))
           (sm_payloads (wb_signed_manifest bundle))) (\<lambda>message.
       result_bind (ok_or (api_decode_signature api signature_bytes) InvalidSignatureEncoding) (\<lambda>decoded.
         if api_verify api public_key message decoded then Ok () else Err SignatureMismatch)))))))"

definition verify_bundle_with_embedded_root ::
  "('pk, 'sg) pkg_crypto \<Rightarrow> string \<Rightarrow> war_pack_bundle \<Rightarrow> verify_error + unit" where
  "verify_bundle_with_embedded_root api public_key_hex bundle =
    verify_bundle api bundle (embedded_bootstrap_root public_key_hex)"

section \<open>Hexadecimal text is read back\<close>

lemma and_nibble: "unat (v AND 0x0F :: u8) < 16"
proof -
  have "v AND 0x0F = take_bit 4 v" by (simp add: take_bit_eq_mask mask_eq_exp_minus_1)
  then show ?thesis by (simp add: unsigned_take_bit_eq take_bit_nat_less_exp [of 4, simplified])
qed

lemma drop_nibble: "unat (drop_bit 4 v :: u8) < 16"
proof -
  have "unat (drop_bit 4 v) = unat v div 16" by (simp add: drop_bit_eq_div unat_div)
  then show ?thesis using unsigned_less [of v, where 'a = nat] by simp
qed

lemma hex_digit_code:
  assumes "unat v < 16"
  shows "(of_char (hex_digit v) :: nat) = (if unat v \<le> 9 then 48 + unat v else 87 + unat v)"
proof -
  have "v AND 0x0F = take_bit 4 v" by (simp add: take_bit_eq_mask mask_eq_exp_minus_1)
  then have "unat (v AND 0x0F) = unat v" using assms by (simp add: unsigned_take_bit_eq take_bit_nat_eq_self)
  then show ?thesis using assms by (simp add: hex_digit_def Let_def)
qed

lemma decode_hex_digit:
  assumes "unat v < 16"
  shows "decode_digit (of_char (hex_digit v)) = Some v" and "hex_digit v \<notin> ws_bytes"
proof -
  let ?x = "of_char (hex_digit v) :: u8"
  have u: "unat ?x = (if unat v \<le> 9 then 48 + unat v else 87 + unat v)" using hex_digit_code [OF assms] by simp
  then have "?x = (if unat v \<le> 9 then 48 + v else 87 + v)"
    using assms by (auto simp: word_unat_eq_iff unat_word_ariths)
  then show "decode_digit ?x = Some v" using u assms by (auto simp: decode_digit_def word_le_nat_alt)
  show "hex_digit v \<notin> ws_bytes" using byte_val_ws [of "hex_digit v"] hex_digit_code [OF assms] assms
    by (auto simp: byte_val_def split: if_splits)
qed

lemma join_nibbles: "push_bit 4 (drop_bit 4 v) OR (v AND 0x0F) = (v :: u8)"
proof -
  have "v AND 0x0F = take_bit 4 v" by (simp add: take_bit_eq_mask mask_eq_exp_minus_1)
  then show ?thesis by (simp add: bit_eq_iff bit_or_iff bit_push_bit_iff bit_drop_bit_eq bit_take_bit_iff) (auto simp: not_less)
qed

lemma hex_encode_no_ws: "set (hex_encode bs) \<inter> ws_bytes = {}"
  by (induction bs) (auto simp: decode_hex_digit(2) and_nibble drop_nibble)

lemma length_hex_encode: "length (hex_encode bs) = 2 * length bs"
  by (induction bs) auto

lemma decode_hex_encode: "decode_pairs (as_bytes (hex_encode bs)) = Some bs"
  by (induction bs) (simp_all add: as_bytes_def decode_hex_digit(1) and_nibble drop_nibble join_nibbles)

lemma parse_hex_encode: "parse_hex (hex_encode bs) = Some bs"
  by (simp add: parse_hex_def trim_no_ws hex_encode_no_ws length_hex_encode decode_hex_encode)

section \<open>What a verified bundle guarantees\<close>

lemma check_signed_Ok:
  assumes "check_signed api payloads digests seen = Ok ()"
  shows "distinct (map pd_source digests) \<and> set (map pd_source digests) \<inter> set seen = {}
    \<and> (\<forall>digest \<in> set digests. \<exists>payload. find (\<lambda>p. wp_source p = pd_source digest) payloads = Some payload
        \<and> word_of_nat (length (wp_contents payload)) = pd_size digest
        \<and> sha3_256_hex api (as_bytes (wp_contents payload)) = pd_sha3_256 digest)"
  using assms
proof (induction digests arbitrary: seen)
  case (Cons digest digests)
  from Cons.prems have new: "pd_source digest \<notin> set seen"
    and rest: "check_signed api payloads digests (seen @ [pd_source digest]) = Ok ()"
    and found: "\<exists>payload. find (\<lambda>p. wp_source p = pd_source digest) payloads = Some payload
      \<and> word_of_nat (length (wp_contents payload)) = pd_size digest
      \<and> sha3_256_hex api (as_bytes (wp_contents payload)) = pd_sha3_256 digest"
    by (auto simp: Let_def split: if_splits option.splits)
  from Cons.IH [OF rest] new found show ?case by auto
qed simp

lemma check_payloads_Ok:
  assumes "check_payloads digests payloads seen = Ok ()"
  shows "distinct (map wp_source payloads) \<and> set (map wp_source payloads) \<inter> set seen = {}
    \<and> set (map wp_source payloads) \<subseteq> set (map pd_source digests)"
  using assms
proof (induction payloads arbitrary: seen)
  case (Cons payload payloads)
  from Cons.prems have new: "wp_source payload \<notin> set seen" "wp_source payload \<in> set (map pd_source digests)"
    and rest: "check_payloads digests payloads (seen @ [wp_source payload]) = Ok ()"
    by (auto simp: Let_def list_ex_iff split: if_splits intro: rev_image_eqI)
  from Cons.IH [OF rest] new show ?case by auto
qed simp

lemma check_files_Ok:
  assumes "check_files digests files = Ok ()" and "f \<in> set files"
  shows "\<exists>digest. find (\<lambda>d. pd_source d = mf_source f) digests = Some digest \<and> pd_size digest = mf_size f"
  using assms by (induction files) (auto split: if_splits option.splits)

text \<open>A file of the manifest and the payload the bundle carries for it.\<close>

definition carries :: "('pk, 'sg) pkg_crypto \<Rightarrow> war_pack_bundle \<Rightarrow> manifest_file \<Rightarrow> bool" where
  "carries api bundle f \<longleftrightarrow> (\<exists>payload digest. payload \<in> set (wb_payloads bundle)
    \<and> find (\<lambda>p. wp_source p = mf_source f) (wb_payloads bundle) = Some payload
    \<and> digest \<in> set (sm_payloads (wb_signed_manifest bundle)) \<and> pd_source digest = mf_source f
    \<and> pd_size digest = mf_size f \<and> word_of_nat (length (wp_contents payload)) = mf_size f
    \<and> hex_encode (api_sha3_256 api (as_bytes (wp_contents payload))) = pd_sha3_256 digest)"

lemma validate_payloads_Ok:
  assumes "validate_payloads api bundle = Ok ()"
  shows "distinct (map wp_source (wb_payloads bundle))
    \<and> set (map wp_source (wb_payloads bundle)) = set (map pd_source (sm_payloads (wb_signed_manifest bundle)))
    \<and> (\<forall>f \<in> set (mn_files (sm_manifest (wb_signed_manifest bundle))). carries api bundle f)"
proof -
  let ?digests = "sm_payloads (wb_signed_manifest bundle)"
  from assms have 1: "check_signed api (wb_payloads bundle) ?digests [] = Ok ()"
    and 2: "check_payloads ?digests (wb_payloads bundle) [] = Ok ()"
    and 3: "check_files ?digests (mn_files (sm_manifest (wb_signed_manifest bundle))) = Ok ()"
    by (auto simp: validate_payloads_def Let_def)
  note c1 = check_signed_Ok [OF 1] and c2 = check_payloads_Ok [OF 2]
  have "carries api bundle f" if f: "f \<in> set (mn_files (sm_manifest (wb_signed_manifest bundle)))" for f
  proof -
    from check_files_Ok [OF 3 f] obtain digest where d: "find (\<lambda>d. pd_source d = mf_source f) ?digests = Some digest"
      "pd_size digest = mf_size f" by blast
    from find_SomeD [OF d(1)] have dd: "digest \<in> set ?digests" "pd_source digest = mf_source f" by auto
    with c1 obtain payload where p: "find (\<lambda>p. wp_source p = mf_source f) (wb_payloads bundle) = Some payload"
      "word_of_nat (length (wp_contents payload)) = pd_size digest"
      "sha3_256_hex api (as_bytes (wp_contents payload)) = pd_sha3_256 digest" by metis
    with find_SomeD [OF p(1)] d dd show ?thesis by (auto simp: carries_def sha3_256_hex_def)
  qed
  moreover have "set (map pd_source ?digests) \<subseteq> set (map wp_source (wb_payloads bundle))"
    using c1 by (force dest!: find_SomeD)
  ultimately show ?thesis using c2 by blast
qed

text \<open>Signing and verifying fit together: a bundle signed over its own digests is accepted.\<close>

lemma check_signed_digests:
  assumes "\<And>p. p \<in> set ps \<Longrightarrow> find (\<lambda>q. wp_source q = wp_source p) all = Some p"
    and "distinct (map wp_source ps)" and "set (map wp_source ps) \<inter> set seen = {}"
  shows "check_signed api all (payload_digests api ps) seen = Ok ()"
  using assms by (induction ps arbitrary: seen) (auto simp: payload_digests_def Let_def)

lemma check_payloads_digests:
  assumes "set (map wp_source ps) \<subseteq> set (map pd_source digests)"
    and "distinct (map wp_source ps)" and "set (map wp_source ps) \<inter> set seen = {}"
  shows "check_payloads digests ps seen = Ok ()"
  using assms by (induction ps arbitrary: seen) (auto simp: Let_def list_ex_iff)

lemma find_distinct_key:
  assumes "distinct (map key xs)" and "x \<in> set xs"
  shows "find (\<lambda>y. key y = key x) xs = Some x"
  using assms by (induction xs) (auto simp: image_iff)

lemma find_digest:
  "find (\<lambda>d. pd_source d = source) (payload_digests api ps) =
    map_option (\<lambda>p. \<lparr>pd_source = wp_source p, pd_size = word_of_nat (length (wp_contents p)),
      pd_sha3_256 = sha3_256_hex api (as_bytes (wp_contents p))\<rparr>) (find (\<lambda>p. wp_source p = source) ps)"
  by (induction ps) (auto simp: payload_digests_def)

lemma check_files_digests:
  assumes "\<And>f. f \<in> set files \<Longrightarrow> \<exists>p. find (\<lambda>p. wp_source p = mf_source f) ps = Some p
      \<and> mf_size f = word_of_nat (length (wp_contents p))"
  shows "check_files (payload_digests api ps) files = Ok ()"
  using assms
proof (induction files)
  case (Cons f files)
  obtain p where "find (\<lambda>p. wp_source p = mf_source f) ps = Some p" "mf_size f = word_of_nat (length (wp_contents p))"
    using Cons.prems [of f] by auto
  then show ?case using Cons by (simp add: find_digest)
qed simp

lemma signed_bundle_verifies:
  assumes "sign_manifest api m (payload_digests api ps) (tr_key_id root) (tr_scheme root) secret = Ok envelope"
    and "distinct (map wp_source ps)"
    and "\<And>f. f \<in> set (mn_files m) \<Longrightarrow> \<exists>p. find (\<lambda>p. wp_source p = mf_source f) ps = Some p
      \<and> mf_size f = word_of_nat (length (wp_contents p))"
    and key: "parse_hex (tr_public_key_hex root) = Some key_bytes" "api_decode_key api key_bytes = Some key"
    and genuine: "\<And>seed message sig. parse_hex secret = Some seed \<Longrightarrow> api_sign api seed message = Some sig \<Longrightarrow>
      sig \<noteq> [] \<and> (\<exists>s. api_decode_signature api sig = Some s \<and> api_verify api key message s)"
  shows "verify_bundle api \<lparr>wb_signed_manifest = \<lparr>sm_manifest = m, sm_payloads = payload_digests api ps,
    sm_signature = envelope\<rparr>, wb_payloads = ps\<rparr> root = Ok ()"
proof -
  from assms(1) obtain json seed sig where scheme: "tr_scheme root = WARPKG_SIGNATURE_SCHEME"
    and json: "api_manifest_json api m (payload_digests api ps) = Some json"
    and seed: "parse_hex secret = Some seed" and sig: "api_sign api seed (SIGNING_DOMAIN @ json) = Some sig"
    and env: "envelope = \<lparr>se_scheme = tr_scheme root, se_key_id = tr_key_id root, se_signature = hex_encode sig\<rparr>"
    by (auto simp: sign_manifest_def canonical_signed_message_def split: if_splits option.splits)
  obtain s where s: "sig \<noteq> []" "api_decode_signature api sig = Some s" "api_verify api key (SIGNING_DOMAIN @ json) s"
    using genuine [OF seed sig] by blast
  have "hex_encode sig \<noteq> []" using s(1) by (cases sig) auto
  moreover have "validate_payloads api \<lparr>wb_signed_manifest = \<lparr>sm_manifest = m, sm_payloads = payload_digests api ps,
    sm_signature = envelope\<rparr>, wb_payloads = ps\<rparr> = Ok ()"
    using check_signed_digests [of ps ps "[]" api] find_distinct_key [OF assms(2)] assms(2)
      check_payloads_digests [of ps "payload_digests api ps" "[]"] check_files_digests [OF assms(3)]
    by (simp add: validate_payloads_def payload_digests_def comp_def)
  ultimately show ?thesis
    using env key s json by (simp add: verify_bundle_def canonical_signed_message_def parse_hex_encode)
qed

text \<open>
  C10. An accepted bundle is authentic and whole. When verification succeeds, the signature was made
  for the given key id and scheme and verifies, under the key of the trust root, the encoding of
  exactly this manifest and these digests. Every file of the manifest has a payload in the bundle
  whose length and SHA-3 digest are the signed ones, no source occurs twice, and there is no payload
  the manifest does not list.
\<close>

theorem verified_bundle_sound:
  assumes "verify_bundle api bundle root = Ok ()"
  shows "(\<exists>key signature json. map_option (api_decode_key api) (parse_hex (tr_public_key_hex root)) = Some (Some key)
      \<and> map_option (api_decode_signature api) (parse_hex (se_signature (sm_signature (wb_signed_manifest bundle))))
        = Some (Some signature)
      \<and> api_manifest_json api (sm_manifest (wb_signed_manifest bundle)) (sm_payloads (wb_signed_manifest bundle)) = Some json
      \<and> api_verify api key (SIGNING_DOMAIN @ json) signature)
    \<and> se_scheme (sm_signature (wb_signed_manifest bundle)) = tr_scheme root
    \<and> se_key_id (sm_signature (wb_signed_manifest bundle)) = tr_key_id root
    \<and> (\<forall>f \<in> set (mn_files (sm_manifest (wb_signed_manifest bundle))). carries api bundle f)
    \<and> distinct (map wp_source (wb_payloads bundle))
    \<and> set (map wp_source (wb_payloads bundle)) = set (map pd_source (sm_payloads (wb_signed_manifest bundle)))"
  using assms validate_payloads_Ok [of api "bundle"]
  by (auto simp: verify_bundle_def Let_def canonical_signed_message_def split: if_splits option.splits)

text \<open>A stand-in for the digests and the signature scheme, and a bundle with one file.\<close>

definition sample_crypto :: "(u8 list, u8 list) pkg_crypto" where
  "sample_crypto = \<lparr>api_sha256 = rev, api_sha3_256 = take 3, api_manifest_json = (\<lambda>m _. Some (as_bytes (mn_name m))),
    api_decode_key = Some, api_decode_signature = Some, api_verify = (\<lambda>key message sig. sig = key @ message),
    api_sign = (\<lambda>seed message. Some (seed @ message))\<rparr>"

definition sample_manifest :: manifest where
  "sample_manifest = \<lparr>mn_name = ''hello'', mn_version = ''1.0.0'', mn_description = ''greeting'', mn_author = ''WarOS'',
    mn_license = ''Apache-2.0'', mn_files = [\<lparr>mf_path = ''/usr/share/hello.txt'', mf_source = ''hello.txt'',
      mf_executable = False, mf_size = 2\<rparr>], mn_dependencies = [], mn_min_waros_version = ''0.2.0'', mn_category = ''docs''\<rparr>"

definition sample_payloads :: "war_pack_payload list" where
  "sample_payloads = [\<lparr>wp_source = ''hello.txt'', wp_contents = ''hi''\<rparr>]"

definition sample_root :: trust_root where
  "sample_root = embedded_bootstrap_root (hex_encode [7])"

definition sample_bundle :: war_pack_bundle where
  "sample_bundle = \<lparr>wb_signed_manifest = \<lparr>sm_manifest = sample_manifest,
    sm_payloads = payload_digests sample_crypto sample_payloads,
    sm_signature = \<lparr>se_scheme = WARPKG_SIGNATURE_SCHEME, se_key_id = WARPKG_BOOTSTRAP_KEY_ID,
      se_signature = hex_encode ([7] @ SIGNING_DOMAIN @ as_bytes ''hello'')\<rparr>\<rparr>, wb_payloads = sample_payloads\<rparr>"

lemma sample_bundle_verifies: "verify_bundle sample_crypto sample_bundle sample_root = Ok ()"
  unfolding sample_bundle_def
  by (rule signed_bundle_verifies [where key_bytes = "[7]" and key = "[7]" and secret = "hex_encode [7]"])
    (auto simp: sign_manifest_def canonical_signed_message_def sample_crypto_def sample_manifest_def sample_payloads_def
      sample_root_def embedded_bootstrap_root_def parse_hex_encode simp del: hex_encode.simps)

theorem verified_bundle_sound_witness:
  "verify_bundle sample_crypto sample_bundle sample_root = Ok ()
    \<and> carries sample_crypto sample_bundle (hd (mn_files sample_manifest))"
  using verified_bundle_sound [OF sample_bundle_verifies] sample_bundle_verifies
  by (auto simp: sample_bundle_def sample_manifest_def)

end
