(* ===== verification/Pkg_Resolver.thy ===== *)
theory Pkg_Resolver
  imports War_Pkg
begin

text \<open>
  The package index and the order of installation (\<open>kernel/src/pkg/mod.rs\<close>, its types, and
  \<open>kernel/src/pkg/resolver.rs\<close>): a depth-first search with a list of packages being visited, which
  refuses cycles and missing dependencies.
\<close>

record installed_package =
  ip_name :: string
  ip_version :: string
  ip_description :: string
  ip_files :: "string list"
  ip_installed_at :: u64
  ip_size_bytes :: u64
  ip_signed_by :: string
  ip_signature_scheme :: string

record package_info =
  pi_name :: string
  pi_version :: string
  pi_description :: string
  pi_size_bytes :: u64
  pi_sha256 :: string
  pi_signed_by :: string
  pi_signature_scheme :: string
  pi_dependencies :: "string list"
  pi_download_url :: string

record package_index =
  px_packages :: "package_info list"
  px_last_updated :: u64

datatype pkg_error = PackageNotFound | PackageNotInstalled | ChecksumMismatch | UnsignedPackage
  | SignatureInvalid | MetadataMismatch | PkgPermissionDenied | DependencyCycle
  | DependencyNotFound string | DownloadFailed | ExtractFailed | InstallFailed | NetworkError
  | BundleUnavailable | UpdateBusy | NoStagedBundle | NoPendingUpdate | BootConfirmationRequired
  | RollbackUnavailable | RecoveryBlocked | StateCorrupted

definition pkg_error_display :: "pkg_error \<Rightarrow> string" where
  "pkg_error_display e = (case e of
     PackageNotFound \<Rightarrow> ''package not found''
   | PackageNotInstalled \<Rightarrow> ''package is not installed''
   | ChecksumMismatch \<Rightarrow> ''package checksum mismatch''
   | UnsignedPackage \<Rightarrow> ''package is unsigned''
   | SignatureInvalid \<Rightarrow> ''package signature invalid''
   | MetadataMismatch \<Rightarrow> ''package metadata does not match signed manifest''
   | PkgPermissionDenied \<Rightarrow> ''permission denied: PKG_INSTALL capability required''
   | DependencyCycle \<Rightarrow> ''dependency cycle detected''
   | DependencyNotFound name \<Rightarrow> ''dependency '' @ [CHR 0x27] @ name @ [CHR 0x27] @ '' missing from package index''
   | DownloadFailed \<Rightarrow> ''package download failed''
   | ExtractFailed \<Rightarrow> ''package extraction failed''
   | InstallFailed \<Rightarrow> ''package installation failed''
   | NetworkError \<Rightarrow> ''network error while updating package index''
   | BundleUnavailable \<Rightarrow> ''offline bundle path could not be read''
   | UpdateBusy \<Rightarrow> ''an update is already pending confirmation or recovery handling''
   | NoStagedBundle \<Rightarrow> ''no staged update bundle is available''
   | NoPendingUpdate \<Rightarrow> ''no pending applied update exists''
   | BootConfirmationRequired \<Rightarrow>
       ''pending update has not reached shell-ready yet; boot it and confirm after shell-ready''
   | RollbackUnavailable \<Rightarrow> ''no rollback record is available for the current update''
   | RecoveryBlocked \<Rightarrow> ''recovery cannot be cleared while an update is still pending or failed''
   | StateCorrupted \<Rightarrow> ''update state metadata is corrupted'')"

definition find_package :: "package_index \<Rightarrow> string \<Rightarrow> package_info option" where
  "find_package index name = find (\<lambda>package. pi_name package = name) (px_packages index)"

text \<open>\<open>visit\<close> returns the two lists it changes; \<open>visit_all\<close> is its loop over the dependencies.\<close>

function (sequential) visit ::
  "package_index \<Rightarrow> string \<Rightarrow> string list \<Rightarrow> string list \<Rightarrow> pkg_error + string list \<times> string list"
and visit_all ::
  "package_index \<Rightarrow> string list \<Rightarrow> string list \<Rightarrow> string list \<Rightarrow> pkg_error + string list \<times> string list"
where
  "visit index package_name visiting ordered =
    (if package_name \<in> set ordered then Ok (visiting, ordered)
     else if package_name \<in> set visiting then Err DependencyCycle
     else (case find_package index package_name of
         None \<Rightarrow> Err (DependencyNotFound package_name)
       | Some package \<Rightarrow>
           (case visit_all index (pi_dependencies package) (visiting @ [package_name]) ordered of
              Inl e \<Rightarrow> Err e
            | Inr (visiting', ordered') \<Rightarrow>
                Ok (filter (\<lambda>name. name \<noteq> package_name) visiting', ordered' @ [package_name]))))"
| "visit_all index [] visiting ordered = Ok (visiting, ordered)"
| "visit_all index (dependency # dependencies) visiting ordered =
    (case visit index dependency visiting ordered of
       Inl e \<Rightarrow> Err e
     | Inr (visiting', ordered') \<Rightarrow> visit_all index dependencies visiting' ordered')"
  by pat_completeness auto

lemma visit_keeps_visiting:
  "visit_visit_all_dom (Inl (index, p, vis, ord)) \<Longrightarrow> visit index p vis ord = Ok (vis', ord') \<Longrightarrow> vis' = vis"
  "visit_visit_all_dom (Inr (index, ds, vis, ord)) \<Longrightarrow> visit_all index ds vis ord = Ok (vis', ord') \<Longrightarrow> vis' = vis"
proof (induction index p vis ord and index ds vis ord arbitrary: vis' ord' and vis' ord' rule: visit_visit_all.pinduct)
  case (1 index p vis ord)
  show ?case
  proof (cases "p \<in> set ord")
    case True
    then show ?thesis using 1 by (simp add: visit.psimps)
  next
    case False
    note run = 1(3) [unfolded visit.psimps [OF 1(1)]]
    from run False obtain package where new: "p \<notin> set vis" "find_package index p = Some package"
      by (cases "p \<in> set vis"; cases "find_package index p") simp_all
    show ?thesis
    proof (cases "visit_all index (pi_dependencies package) (vis @ [p]) ord")
      case (Inl e)
      then show ?thesis using run False new by simp
    next
      case (Inr out)
      then have "fst out = vis @ [p]" using 1(2) [OF False new, of "fst out" "snd out"] by simp
      then show ?thesis using run False new Inr by (cases out) (auto simp: filter_id_conv)
    qed
  qed
next
  case (3 index d ds vis ord)
  note run = 3(4) [unfolded visit_all.psimps(2) [OF 3(1)]]
  show ?case
  proof (cases "visit index d vis ord")
    case (Inl e)
    then show ?thesis using run by simp
  next
    case (Inr out)
    obtain v r where out: "out = (v, r)" by fastforce
    have "v = vis" using 3(2) [of v r] Inr out by simp
    moreover have "visit_all index ds v r = Ok (vis', ord')" using run Inr out by simp
    ultimately show ?thesis using 3(3) [OF Inr out [symmetric]] by simp
  qed
qed (simp add: visit_all.psimps)

definition unvisited :: "package_index \<Rightarrow> string list \<Rightarrow> nat" where
  "unvisited index visiting = card (pi_name ` set (px_packages index) - set visiting)"

lemma unvisited_decreases:
  assumes "find_package index p = Some package" and "p \<notin> set visiting"
  shows "unvisited index (visiting @ [p]) < unvisited index visiting"
proof -
  have "p \<in> pi_name ` set (px_packages index)" using find_SomeD [OF assms(1) [unfolded find_package_def]] by auto
  then show ?thesis unfolding unvisited_def using assms(2) by (intro psubset_card_mono) auto
qed

termination visit
proof (relation "measures [\<lambda>x. case x of Inl (index, p, vis, ord) \<Rightarrow> unvisited index vis
      | Inr (index, ds, vis, ord) \<Rightarrow> unvisited index vis,
    \<lambda>x. case x of Inl _ \<Rightarrow> 0 | Inr (index, ds, vis, ord) \<Rightarrow> Suc (length ds)]", goal_cases)
  case (2 index p vis ord package)
  then show ?case using unvisited_decreases by simp
next
  case (4 index d ds vis ord found vis' ord')
  from 4(2) have found: "found = (vis', ord')" by simp
  have "vis' = vis" by (rule visit_keeps_visiting(1) [OF 4(3) 4(1) [unfolded found]])
  then show ?case unfolding found by simp
qed simp_all

declare visit.simps [simp del]

definition resolve_dependencies :: "package_index \<Rightarrow> string \<Rightarrow> pkg_error + string list" where
  "resolve_dependencies index root =
    result_bind (visit index root [] []) (\<lambda>(visiting, ordered). Ok ordered)"

section \<open>Correctness\<close>

definition depends :: "package_index \<Rightarrow> string \<Rightarrow> string \<Rightarrow> bool" where
  "depends index p q \<longleftrightarrow> (\<exists>package. find_package index p = Some package \<and> q \<in> set (pi_dependencies package))"

text \<open>An order in which every package is known and comes after all its dependencies.\<close>

definition install_order :: "package_index \<Rightarrow> string list \<Rightarrow> bool" where
  "install_order index ordered \<longleftrightarrow> distinct ordered
    \<and> (\<forall>i < length ordered. find_package index (ordered ! i) \<noteq> None
      \<and> (\<forall>q. depends index (ordered ! i) q \<longrightarrow> q \<in> set (take i ordered)))"

lemma install_order_snoc:
  assumes "install_order index ordered" and "p \<notin> set ordered" and "find_package index p \<noteq> None"
    and "\<And>q. depends index p q \<Longrightarrow> q \<in> set ordered"
  shows "install_order index (ordered @ [p])"
  using assms by (auto simp: install_order_def nth_append less_Suc_eq)

lemma visit_Ok:
  "visit index p vis ord = Ok (vis', ord') \<Longrightarrow> install_order index ord \<Longrightarrow>
    vis' = vis \<and> install_order index ord' \<and> set ord \<union> {p} \<subseteq> set ord'
    \<and> (\<forall>q \<in> set ord'. q \<in> set ord \<or> (depends index)\<^sup>*\<^sup>* p q) \<and> (p \<notin> set ord \<longrightarrow> last ord' = p)
    \<and> (\<forall>v \<in> set vis. v \<notin> set ord \<longrightarrow> v \<notin> set ord')"
  "visit_all index ds vis ord = Ok (vis', ord') \<Longrightarrow> install_order index ord \<Longrightarrow>
    vis' = vis \<and> install_order index ord' \<and> set ord \<union> set ds \<subseteq> set ord'
    \<and> (\<forall>q \<in> set ord'. q \<in> set ord \<or> (\<exists>d \<in> set ds. (depends index)\<^sup>*\<^sup>* d q))
    \<and> (\<forall>v \<in> set vis. v \<notin> set ord \<longrightarrow> v \<notin> set ord')"
proof (induction index p vis ord and index ds vis ord arbitrary: vis' ord' and vis' ord' rule: visit_visit_all.induct)
  case (1 index p vis ord)
  note run = 1(2) [unfolded visit.simps [of index p]]
  show ?case
  proof (cases "p \<in> set ord")
    case True
    then show ?thesis using run 1(3) by auto
  next
    case False
    from run False obtain package where new: "p \<notin> set vis" "find_package index p = Some package"
      by (cases "p \<in> set vis"; cases "find_package index p") simp_all
    from run False new obtain v r where all: "visit_all index (pi_dependencies package) (vis @ [p]) ord = Ok (v, r)"
      and out: "vis' = filter (\<lambda>name. name \<noteq> p) v" "ord' = r @ [p]"
      by (cases "visit_all index (pi_dependencies package) (vis @ [p]) ord") auto
    note IH = 1(1) [OF False new all 1(3)]
    have dep: "depends index p q \<longleftrightarrow> q \<in> set (pi_dependencies package)" for q using new(2) by (simp add: depends_def)
    have fresh: "p \<notin> set r" using IH False by auto
    have "install_order index (r @ [p])" using IH fresh new(2) dep by (intro install_order_snoc) auto
    moreover have "(depends index)\<^sup>*\<^sup>* p q" if "q \<in> set r" "q \<notin> set ord" for q
      using that IH dep by (meson converse_rtranclp_into_rtranclp)
    moreover have "vis' = vis" using IH new(1) out by (auto simp: filter_id_conv)
    ultimately show ?thesis using IH out new(1) by auto
  qed
next
  case (3 index d ds vis ord)
  from 3(3) obtain v r where one: "visit index d vis ord = Ok (v, r)" and rest: "visit_all index ds v r = Ok (vis', ord')"
    by (cases "visit index d vis ord") auto
  note I1 = 3(1) [OF one 3(4)]
  then have "install_order index r" by blast
  note I2 = 3(2) [OF one refl rest this]
  show ?case using I1 I2 by auto
qed auto

text \<open>Why a search fails: a reachable cycle, or a reachable name the index does not know.\<close>

definition failure_reason :: "package_index \<Rightarrow> (string \<Rightarrow> bool) \<Rightarrow> pkg_error \<Rightarrow> bool" where
  "failure_reason index reached e \<longleftrightarrow>
    (e = DependencyCycle \<and> (\<exists>q. reached q \<and> (depends index)\<^sup>+\<^sup>+ q q))
    \<or> (\<exists>n. e = DependencyNotFound n \<and> reached n \<and> find_package index n = None)"

lemma failure_reason_mono:
  "failure_reason index reached e \<Longrightarrow> (\<And>q. reached q \<Longrightarrow> reached' q) \<Longrightarrow> failure_reason index reached' e"
  by (auto simp: failure_reason_def)

lemma visit_Err:
  "visit index p vis ord = Err e \<Longrightarrow> install_order index ord \<Longrightarrow> \<forall>v \<in> set vis. (depends index)\<^sup>+\<^sup>+ v p \<Longrightarrow>
    failure_reason index ((depends index)\<^sup>*\<^sup>* p) e"
  "visit_all index ds vis ord = Err e \<Longrightarrow> install_order index ord \<Longrightarrow>
    \<forall>v \<in> set vis. \<forall>d \<in> set ds. (depends index)\<^sup>+\<^sup>+ v d \<Longrightarrow>
    failure_reason index (\<lambda>q. \<exists>d \<in> set ds. (depends index)\<^sup>*\<^sup>* d q) e"
proof (induction index p vis ord and index ds vis ord arbitrary: e and e rule: visit_visit_all.induct)
  case (1 index p vis ord)
  note run = 1(2) [unfolded visit.simps [of index p]]
  have p: "p \<notin> set ord" using run by auto
  show ?case
  proof (cases "p \<in> set vis")
    case True
    then show ?thesis using run p 1(4) by (auto simp: failure_reason_def)
  next
    case new: False
    show ?thesis
    proof (cases "find_package index p")
      case None
      then show ?thesis using run p new by (auto simp: failure_reason_def)
    next
      case (Some package)
      have dep: "depends index p q \<longleftrightarrow> q \<in> set (pi_dependencies package)" for q using Some by (simp add: depends_def)
      have "visit_all index (pi_dependencies package) (vis @ [p]) ord = Err e"
        using run p new Some by (cases "visit_all index (pi_dependencies package) (vis @ [p]) ord") auto
      moreover have "\<forall>v \<in> set (vis @ [p]). \<forall>d \<in> set (pi_dependencies package). (depends index)\<^sup>+\<^sup>+ v d"
        using 1(4) dep by (auto intro: tranclp.trancl_into_trancl)
      ultimately have "failure_reason index (\<lambda>q. \<exists>d \<in> set (pi_dependencies package). (depends index)\<^sup>*\<^sup>* d q) e"
        using 1(1) [OF p new Some] 1(3) by blast
      then show ?thesis by (rule failure_reason_mono) (use dep in \<open>auto intro: converse_rtranclp_into_rtranclp\<close>)
    qed
  qed
next
  case (3 index d ds vis ord)
  show ?case
  proof (cases "visit index d vis ord")
    case (Inl e')
    then have "failure_reason index ((depends index)\<^sup>*\<^sup>* d) e" using 3 by simp
    then show ?thesis by (rule failure_reason_mono) auto
  next
    case (Inr out)
    obtain v r where out: "out = (v, r)" by fastforce
    note I = visit_Ok(1) [OF Inr [unfolded out] 3(4)]
    have "failure_reason index (\<lambda>q. \<exists>d \<in> set ds. (depends index)\<^sup>*\<^sup>* d q) e"
      using 3(2) [OF Inr out [symmetric]] 3(3,5) Inr out I by simp
    then show ?thesis by (rule failure_reason_mono) auto
  qed
qed simp

lemma install_order_closed:
  assumes "install_order index ordered" and "(depends index)\<^sup>*\<^sup>* p q" and "p \<in> set ordered"
  shows "q \<in> set ordered"
  using assms(2,3)
proof induction
  case (step q r)
  then obtain i where "i < length ordered" "ordered ! i = q" by (auto simp: in_set_conv_nth)
  with step(2) assms(1) show ?case by (auto simp: install_order_def dest: in_set_takeD)
qed

lemma install_order_acyclic:
  assumes "install_order index ordered" and "i < length ordered" and "(depends index)\<^sup>+\<^sup>+ (ordered ! i) q"
  shows "q \<in> set (take i ordered)"
  using assms(3)
proof induction
  case (base q)
  then show ?case using assms(1,2) by (auto simp: install_order_def)
next
  case (step q r)
  then obtain j where j: "j < i" "ordered ! j = q" "j < length ordered" using assms(2) by (auto simp: in_set_conv_nth)
  with step(2) assms(1) have "r \<in> set (take j ordered)" by (auto simp: install_order_def)
  then show ?case using j(1) by (auto simp: in_set_conv_nth)
qed

lemma install_order_sound:
  assumes "install_order index ordered" and "q \<in> set ordered"
  shows "find_package index q \<noteq> None" and "\<not> (depends index)\<^sup>+\<^sup>+ q q"
proof -
  obtain i where i: "i < length ordered" "ordered ! i = q" using assms(2) by (auto simp: in_set_conv_nth)
  then show "find_package index q \<noteq> None" using assms(1) by (auto simp: install_order_def)
  have "distinct (take (Suc i) ordered)" using assms(1) by (simp add: install_order_def)
  then have "q \<notin> set (take i ordered)" using i by (simp add: take_Suc_conv_app_nth)
  then show "\<not> (depends index)\<^sup>+\<^sup>+ q q" using install_order_acyclic [OF assms(1) i(1)] i(2) by blast
qed

text \<open>
  C14. Dependency resolution is right in every case, whatever the index. When it succeeds, it lists
  exactly the packages the root needs, directly or through others, each once and after all its own
  dependencies, the root last; then all of them are in the index and none depends on itself. It
  reports a cycle only when a needed package depends on itself, and a missing dependency only when a
  needed name is not in the index.
\<close>

theorem resolve_dependencies_correct:
  "case resolve_dependencies index root of
     Inr ordered \<Rightarrow> install_order index ordered \<and> set ordered = {q. (depends index)\<^sup>*\<^sup>* root q} \<and> last ordered = root
       \<and> {q \<in> set ordered. find_package index q = None \<or> (depends index)\<^sup>+\<^sup>+ q q} = {}
   | Inl e \<Rightarrow> failure_reason index ((depends index)\<^sup>*\<^sup>* root) e"
proof (cases "visit index root [] []")
  case (Inl e)
  then show ?thesis using visit_Err(1) [OF Inl] by (simp add: resolve_dependencies_def install_order_def)
next
  case (Inr out)
  obtain v ordered where out: "out = (v, ordered)" by fastforce
  have "install_order index []" by (simp add: install_order_def)
  note ok = visit_Ok(1) [OF Inr [unfolded out] this]
  have order: "install_order index ordered" using ok by simp
  have "resolve_dependencies index root = Ok ordered" using Inr out by (simp add: resolve_dependencies_def)
  moreover have "set ordered = {q. (depends index)\<^sup>*\<^sup>* root q}" using ok install_order_closed [of index ordered root] by auto
  moreover have "{q \<in> set ordered. find_package index q = None \<or> (depends index)\<^sup>+\<^sup>+ q q} = {}"
    using install_order_sound [OF order] by blast
  moreover note order
  moreover have "last ordered = root" using ok by simp
  ultimately show ?thesis by (simp only: sum.case simp_thms)
qed

end
