(* ===== verification/Pkg_Manager.thy ===== *)
theory Pkg_Manager
  imports Pkg_Resolver Fs_Current Capabilities
begin

text \<open>
  The package manager (\<open>kernel/src/pkg/mod.rs\<close>, \<open>installer.rs\<close>, \<open>registry.rs\<close>): the index, verification
  of downloaded and local bundles, installation and removal.

  The record \<open>pkg_env\<close> holds what an operation takes from outside: the primitives of \<open>War_Pkg\<close>, the
  JSON conversions of \<open>serde_json\<close>, the HTTP client, the tick, and the identity of the caller (the
  current process, the process table and the debug text of a capability). Messages on the serial
  port are not modelled.
\<close>

record package_manager =
  pm_installed :: "installed_package list"
  pm_index :: "package_index option"
  pm_repo_url :: string

record pkg_state =
  pk_os :: os_state
  pk_manager :: package_manager

record ('pk, 'sg) pkg_env =
  en_crypto :: "('pk, 'sg) pkg_crypto"
  en_public_key_hex :: string
  en_bundle_of_json :: "u8 list \<Rightarrow> war_pack_bundle option"
  en_bundle_to_json :: "war_pack_bundle \<Rightarrow> u8 list option"
  en_index_of_json :: "u8 list \<Rightarrow> package_index option"
  en_index_to_json :: "package_index \<Rightarrow> u8 list option"
  en_installed_of_json :: "u8 list \<Rightarrow> installed_package list option"
  en_installed_to_json :: "installed_package list \<Rightarrow> u8 list option"
  en_http_get :: "string \<Rightarrow> u8 list option"
  en_now :: u64
  en_current :: "u32 option"
  en_processes :: process_table
  en_debug :: "capabilities \<Rightarrow> string"

type_synonym 'a pkg_op = "(pkg_state, pkg_error, 'a) op"

record verified_package =
  vp_bundle :: war_pack_bundle
  vp_signed_by :: string
  vp_signature_scheme :: string

definition LOCAL_INDEX_PATH :: string where "LOCAL_INDEX_PATH = ''/var/pkg/index.json''"
definition LOCAL_INSTALLED_PATH :: string where "LOCAL_INSTALLED_PATH = ''/var/pkg/installed.json''"
definition DEFAULT_REPO_URL :: string where "DEFAULT_REPO_URL = ''https://warenterprise.com/packages''"

section \<open>Access to the kernel\<close>

definition exec_current_uid :: "('pk, 'sg) pkg_env \<Rightarrow> session option \<Rightarrow> u16" where
  "exec_current_uid env cs =
    (case en_current env of
       None \<Rightarrow> current_uid cs
     | Some pid \<Rightarrow> (case pt_get pid (en_processes env) of None \<Rightarrow> current_uid cs | Some process \<Rightarrow> pr_uid process))"

definition pkg_fs :: "pkg_state \<Rightarrow> warfs" where
  "pkg_fs st = os_fs (pk_os st)"

definition pkg_log :: "('pk, 'sg) pkg_env \<Rightarrow> audit_event \<Rightarrow> pkg_state \<Rightarrow> pkg_state" where
  "pkg_log env event st = st\<lparr>pk_os := log_event (en_now env) event (pk_os st)\<rparr>"

definition log_op :: "('pk, 'sg) pkg_env \<Rightarrow> audit_event \<Rightarrow> unit pkg_op" where
  "log_op env event st = (Ok (), pkg_log env event st)"

definition read_op :: "string \<Rightarrow> pkg_error \<Rightarrow> u8 list pkg_op" where
  "read_op path e st = (case fs_read path (pkg_fs st) of Inl _ \<Rightarrow> (Err e, st) | Inr bytes \<Rightarrow> (Ok bytes, st))"

definition fs_op :: "(warfs \<Rightarrow> 'a fs_out) \<Rightarrow> (fs_error \<Rightarrow> pkg_error) \<Rightarrow> 'a pkg_op" where
  "fs_op f err st =
    (let out = f (pkg_fs st); st' = st\<lparr>pk_os := put_fs out (pk_os st)\<rparr> in
     case fst out of Inl e \<Rightarrow> (Err (err e), st') | Inr x \<Rightarrow> (Ok x, st'))"

definition write_system_op :: "('pk, 'sg) pkg_env \<Rightarrow> string \<Rightarrow> u8 list \<Rightarrow> unit pkg_op" where
  "write_system_op env path bytes = fs_op (write_system (en_now env) path bytes False) (\<lambda>_. InstallFailed)"

definition ok_op :: "'a option \<Rightarrow> pkg_error \<Rightarrow> 'a pkg_op" where
  "ok_op x e = (case x of None \<Rightarrow> fail_op e | Some y \<Rightarrow> return_op y)"

definition require_pkg_install :: "('pk, 'sg) pkg_env \<Rightarrow> unit pkg_op" where
  "require_pkg_install env st =
    (let (r, events) = session_require (en_debug env) PKG_INSTALL (en_current env) (en_processes env)
           (os_session (pk_os st)) (os_users (pk_os st));
         st' = fold (pkg_log env) events st
     in case r of Inl _ \<Rightarrow> (Err PkgPermissionDenied, st') | Inr _ \<Rightarrow> (Ok (), st'))"

section \<open>Registry\<close>

definition load_local_index :: "('pk, 'sg) pkg_env \<Rightarrow> warfs \<Rightarrow> pkg_error + package_index" where
  "load_local_index env fs =
    (case fs_read LOCAL_INDEX_PATH fs of
       Inl _ \<Rightarrow> Err PackageNotFound
     | Inr data \<Rightarrow> ok_or (en_index_of_json env data) ExtractFailed)"

definition fetch_index :: "('pk, 'sg) pkg_env \<Rightarrow> string \<Rightarrow> pkg_error + package_index" where
  "fetch_index env repo_url =
    (case en_http_get env (repo_url @ ''/index.json'') of
       None \<Rightarrow> Err NetworkError
     | Some body \<Rightarrow> ok_or (en_index_of_json env body) ExtractFailed)"

definition bundle_path :: "string \<Rightarrow> string" where
  "bundle_path name = ''/var/pkg/repo/'' @ name @ ''.warpack''"

definition load_installed :: "('pk, 'sg) pkg_env \<Rightarrow> warfs \<Rightarrow> installed_package list option" where
  "load_installed env fs =
    (case fs_read LOCAL_INSTALLED_PATH fs of Inl _ \<Rightarrow> None | Inr data \<Rightarrow> en_installed_of_json env data)"

definition package_manager_new :: "('pk, 'sg) pkg_env \<Rightarrow> string \<Rightarrow> warfs \<Rightarrow> package_manager" where
  "package_manager_new env repo_url fs = \<lparr>pm_installed = (case load_installed env fs of None \<Rightarrow> [] | Some xs \<Rightarrow> xs),
    pm_index = (case load_local_index env fs of Inl _ \<Rightarrow> None | Inr index \<Rightarrow> Some index), pm_repo_url = repo_url\<rparr>"

definition pkg_update :: "('pk, 'sg) pkg_env \<Rightarrow> unit pkg_op" where
  "pkg_update env = bind_op (require_pkg_install env) (\<lambda>_ st.
    case (case fetch_index env (pm_repo_url (pk_manager st)) of
            Inr index \<Rightarrow> Ok index | Inl _ \<Rightarrow> load_local_index env (pkg_fs st)) of
      Inl e \<Rightarrow> (Err e, st)
    | Inr index \<Rightarrow>
        bind_op (ok_op (en_index_to_json env index) ExtractFailed) (\<lambda>bytes.
        bind_op (write_system_op env LOCAL_INDEX_PATH bytes) (\<lambda>_ st.
          (Ok (), st\<lparr>pk_manager := (pk_manager st)\<lparr>pm_index := Some index\<rparr>\<rparr>))) st)"

definition str_contains :: "string \<Rightarrow> string \<Rightarrow> bool" where
  "str_contains s query \<longleftrightarrow> list_ex (prefix query) (suffixes s)"

definition pkg_search :: "string \<Rightarrow> package_manager \<Rightarrow> package_info list" where
  "pkg_search query manager =
    (let query = map to_ascii_lowercase query in
     case pm_index manager of
       None \<Rightarrow> []
     | Some index \<Rightarrow> filter (\<lambda>package. str_contains (map to_ascii_lowercase (pi_name package)) query
         \<or> str_contains (map to_ascii_lowercase (pi_description package)) query) (px_packages index))"

definition is_installed :: "string \<Rightarrow> package_manager \<Rightarrow> bool" where
  "is_installed name manager = list_ex (\<lambda>package. ip_name package = name) (pm_installed manager)"

definition lookup_package_info :: "string \<Rightarrow> package_manager \<Rightarrow> package_info option" where
  "lookup_package_info name manager =
    (case pm_index manager of None \<Rightarrow> None | Some index \<Rightarrow> find_package index name)"

definition save_installed_list :: "('pk, 'sg) pkg_env \<Rightarrow> unit pkg_op" where
  "save_installed_list env st =
    bind_op (ok_op (en_installed_to_json env (pm_installed (pk_manager st))) ExtractFailed)
      (write_system_op env LOCAL_INSTALLED_PATH) st"

definition fetch_package :: "('pk, 'sg) pkg_env \<Rightarrow> string \<Rightarrow> u8 list pkg_op" where
  "fetch_package env location =
    (if prefix ''/'' location then read_op location DownloadFailed
     else ok_op (en_http_get env location) DownloadFailed)"

section \<open>Verification\<close>

definition map_verify_error :: "verify_error \<Rightarrow> pkg_error" where
  "map_verify_error e = (case e of SignatureMissing \<Rightarrow> UnsignedPackage | _ \<Rightarrow> SignatureInvalid)"

definition verify_error_reason :: "verify_error \<Rightarrow> string" where
  "verify_error_reason e = (case e of
     SignatureMissing \<Rightarrow> ''signature-missing''
   | UnsupportedSignatureScheme \<Rightarrow> ''unsupported-signature-scheme''
   | UnknownTrustRoot \<Rightarrow> ''unknown-trust-root''
   | InvalidPublicKey \<Rightarrow> ''invalid-public-key''
   | InvalidSignatureEncoding \<Rightarrow> ''invalid-signature-encoding''
   | SignatureMismatch \<Rightarrow> ''signature-mismatch''
   | CanonicalEncodingFailed \<Rightarrow> ''canonical-encoding-failed''
   | DuplicatePayload _ \<Rightarrow> ''duplicate-payload''
   | PayloadMissing _ \<Rightarrow> ''payload-missing''
   | UnexpectedPayload _ \<Rightarrow> ''unexpected-payload''
   | PayloadDigestMismatch _ \<Rightarrow> ''payload-digest-mismatch''
   | PayloadSizeMismatch _ \<Rightarrow> ''payload-size-mismatch''
   | FilePayloadMissing _ \<Rightarrow> ''file-payload-missing''
   | FileSizeMismatch _ \<Rightarrow> ''file-size-mismatch'')"

definition verify_bootstrap_bundle :: "('pk, 'sg) pkg_env \<Rightarrow> war_pack_bundle \<Rightarrow> verify_error + unit" where
  "verify_bootstrap_bundle env bundle =
    verify_bundle_with_embedded_root (en_crypto env) (en_public_key_hex env) bundle"

definition log_package_verification ::
  "('pk, 'sg) pkg_env \<Rightarrow> package_info \<Rightarrow> string \<Rightarrow> string \<Rightarrow> pkg_state \<Rightarrow> pkg_state" where
  "log_package_verification env package outcome reason =
    pkg_log env (PackageVerification (pi_name package) (pi_version package) outcome reason)"

definition bundle_manifest :: "war_pack_bundle \<Rightarrow> manifest" where
  "bundle_manifest bundle = sm_manifest (wb_signed_manifest bundle)"

definition verified_of :: "war_pack_bundle \<Rightarrow> verified_package" where
  "verified_of bundle = \<lparr>vp_bundle = bundle,
    vp_signed_by = se_key_id (sm_signature (wb_signed_manifest bundle)),
    vp_signature_scheme = se_scheme (sm_signature (wb_signed_manifest bundle))\<rparr>"

definition verify_package_bytes ::
  "('pk, 'sg) pkg_env \<Rightarrow> package_info \<Rightarrow> u8 list \<Rightarrow> verified_package pkg_op" where
  "verify_package_bytes env package bytes st =
    (if sha256_hex (en_crypto env) bytes \<noteq> pi_sha256 package
     then (Err ChecksumMismatch, log_package_verification env package ''deny'' ''checksum-mismatch'' st)
     else (case en_bundle_of_json env bytes of
         None \<Rightarrow> (Err ExtractFailed, log_package_verification env package ''deny'' ''extract-failed'' st)
       | Some bundle \<Rightarrow>
           (case verify_bootstrap_bundle env bundle of
              Inl error \<Rightarrow> (Err (map_verify_error error),
                log_package_verification env package ''deny'' (verify_error_reason error) st)
            | Inr _ \<Rightarrow>
                let manifest = bundle_manifest bundle in
                if mn_name manifest \<noteq> pi_name package \<or> mn_version manifest \<noteq> pi_version package
                  \<or> mn_description manifest \<noteq> pi_description package
                  \<or> mn_dependencies manifest \<noteq> pi_dependencies package
                then (Err MetadataMismatch, log_package_verification env package ''deny'' ''metadata-mismatch'' st)
                else (Ok (verified_of bundle),
                  log_package_verification env package ''allow'' ''verified'' st))))"

definition verify_local_bundle_bytes :: "('pk, 'sg) pkg_env \<Rightarrow> u8 list \<Rightarrow> verified_package pkg_op" where
  "verify_local_bundle_bytes env bytes st =
    (case en_bundle_of_json env bytes of
       None \<Rightarrow> (Err ExtractFailed,
         pkg_log env (PackageVerification ''<local>'' ''unknown'' ''deny'' ''extract-failed'') st)
     | Some bundle \<Rightarrow>
         let manifest = bundle_manifest bundle in
         (case verify_bootstrap_bundle env bundle of
            Inl error \<Rightarrow> (Err (map_verify_error error), pkg_log env (PackageVerification (mn_name manifest)
              (mn_version manifest) ''deny'' (verify_error_reason error)) st)
          | Inr _ \<Rightarrow> (Ok (verified_of bundle), pkg_log env (PackageVerification (mn_name manifest)
              (mn_version manifest) ''allow'' ''verified'') st)))"

section \<open>Installation\<close>

definition system_delete :: "string \<Rightarrow> unit pkg_op" where
  "system_delete path st =
    (let out = delete_as path 0 Admin (pkg_fs st); st' = st\<lparr>pk_os := put_fs out (pk_os st)\<rparr> in
     case fst out of
       Inl e \<Rightarrow> if e = FileNotFound then (Ok (), st') else (Err InstallFailed, st')
     | Inr _ \<Rightarrow> (Ok (), st'))"

fun remove_stale :: "manifest_file list \<Rightarrow> string list \<Rightarrow> unit pkg_op" where
  "remove_stale next_files [] = return_op ()"
| "remove_stale next_files (path # paths) =
    (if list_all (\<lambda>next. mf_path next \<noteq> path) next_files
     then bind_op (system_delete path) (\<lambda>_. remove_stale next_files paths)
     else remove_stale next_files paths)"

definition install_file :: "('pk, 'sg) pkg_env \<Rightarrow> war_pack_payload list \<Rightarrow> manifest_file \<Rightarrow> unit pkg_op" where
  "install_file env payloads f =
    bind_op (ok_op (find (\<lambda>payload. wp_source payload = mf_source f) payloads) ExtractFailed) (\<lambda>payload.
    bind_op (fs_op (write_as (en_now env) (mf_path f) (as_bytes (wp_contents payload)) 0 Admin perm_system)
        (\<lambda>_. InstallFailed)) (\<lambda>_.
      if mf_executable f then fs_op (chmod_as (mf_path f) 0 Admin ''rwr-'') (\<lambda>_. InstallFailed)
      else return_op ()))"

fun install_files :: "('pk, 'sg) pkg_env \<Rightarrow> war_pack_payload list \<Rightarrow> manifest_file list \<Rightarrow> unit pkg_op" where
  "install_files env payloads [] = return_op ()"
| "install_files env payloads (f # files) =
    bind_op (install_file env payloads f) (\<lambda>_. install_files env payloads files)"

definition find_installed :: "string \<Rightarrow> package_manager \<Rightarrow> installed_package option" where
  "find_installed name manager = find (\<lambda>package. ip_name package = name) (pm_installed manager)"

definition replace_installed :: "installed_package \<Rightarrow> package_manager \<Rightarrow> package_manager" where
  "replace_installed installed manager = manager\<lparr>pm_installed :=
    filter (\<lambda>package. ip_name package \<noteq> ip_name installed) (pm_installed manager) @ [installed]\<rparr>"

definition apply_verified_bundle ::
  "('pk, 'sg) pkg_env \<Rightarrow> verified_package \<Rightarrow> u64 \<Rightarrow> u16 \<Rightarrow> installed_package pkg_op" where
  "apply_verified_bundle env verified bundle_size uid st =
    (let manifest = bundle_manifest (vp_bundle verified);
         installed = \<lparr>ip_name = mn_name manifest, ip_version = mn_version manifest,
           ip_description = mn_description manifest, ip_files = map mf_path (mn_files manifest),
           ip_installed_at = en_now env, ip_size_bytes = bundle_size, ip_signed_by = vp_signed_by verified,
           ip_signature_scheme = vp_signature_scheme verified\<rparr>
     in bind_op (case find_installed (mn_name manifest) (pk_manager st) of
           Some previous \<Rightarrow> remove_stale (mn_files manifest) (ip_files previous)
         | None \<Rightarrow> return_op ()) (\<lambda>_.
        bind_op (install_files env (wb_payloads (vp_bundle verified)) (mn_files manifest)) (\<lambda>_.
        bind_op (\<lambda>st. save_installed_list env
            (st\<lparr>pk_manager := replace_installed installed (pk_manager st)\<rparr>)) (\<lambda>_.
        bind_op (log_op env (PackageInstalled (mn_name manifest) (mn_version manifest) uid)) (\<lambda>_.
          return_op installed)))) st)"

definition installer_install :: "('pk, 'sg) pkg_env \<Rightarrow> package_info \<Rightarrow> unit pkg_op" where
  "installer_install env package st =
    (if is_installed (pi_name package) (pk_manager st) then (Ok (), st)
     else
       bind_op (fetch_package env (pi_download_url package)) (\<lambda>bundle_bytes.
       bind_op (verify_package_bytes env package bundle_bytes) (\<lambda>verified st.
       bind_op (apply_verified_bundle env verified (word_of_nat (length bundle_bytes))
           (exec_current_uid env (os_session (pk_os st)))) (\<lambda>_. return_op ()) st)) st)"

fun delete_all :: "string list \<Rightarrow> unit pkg_op" where
  "delete_all [] = return_op ()"
| "delete_all (path # paths) = bind_op (fs_op (delete_as path 0 Admin) (\<lambda>_. InstallFailed)) (\<lambda>_. delete_all paths)"

definition installer_remove :: "('pk, 'sg) pkg_env \<Rightarrow> string \<Rightarrow> unit pkg_op" where
  "installer_remove env name st =
    bind_op (ok_op (find_installed name (pk_manager st)) PackageNotInstalled) (\<lambda>package.
    bind_op (delete_all (ip_files package)) (\<lambda>_ st.
      save_installed_list env (st\<lparr>pk_manager := (pk_manager st)\<lparr>pm_installed :=
        filter (\<lambda>package. ip_name package \<noteq> name) (pm_installed (pk_manager st))\<rparr>\<rparr>))) st"

section \<open>The manager's commands\<close>

fun install_ordered :: "('pk, 'sg) pkg_env \<Rightarrow> package_index \<Rightarrow> string list \<Rightarrow> unit pkg_op" where
  "install_ordered env index [] = return_op ()"
| "install_ordered env index (name # names) =
    bind_op (ok_op (find_package index name) PackageNotFound) (\<lambda>package.
    bind_op (installer_install env package) (\<lambda>_. install_ordered env index names))"

definition pkg_install :: "('pk, 'sg) pkg_env \<Rightarrow> string \<Rightarrow> unit pkg_op" where
  "pkg_install env name = bind_op (require_pkg_install env) (\<lambda>_ st.
    bind_op (ok_op (pm_index (pk_manager st)) PackageNotFound) (\<lambda>index.
      case resolve_dependencies index name of
        Inl e \<Rightarrow> fail_op e
      | Inr ordered \<Rightarrow> install_ordered env index ordered) st)"

definition pkg_remove :: "('pk, 'sg) pkg_env \<Rightarrow> string \<Rightarrow> unit pkg_op" where
  "pkg_remove env name = bind_op (require_pkg_install env) (\<lambda>_. installer_remove env name)"

definition pkg_verify :: "('pk, 'sg) pkg_env \<Rightarrow> string \<Rightarrow> unit pkg_op" where
  "pkg_verify env name st =
    bind_op (ok_op (lookup_package_info name (pk_manager st)) PackageNotFound) (\<lambda>info.
    bind_op (fetch_package env (pi_download_url info)) (\<lambda>bytes.
    bind_op (verify_package_bytes env info bytes) (\<lambda>_. return_op ()))) st"

section \<open>Start\<close>

fun seed_bundles :: "('pk, 'sg) pkg_env \<Rightarrow> war_pack_bundle list \<Rightarrow> package_info list \<Rightarrow> package_info list pkg_op" where
  "seed_bundles env [] index_packages = return_op index_packages"
| "seed_bundles env (bundle # bundles) index_packages =
    bind_op (ok_op (en_bundle_to_json env bundle) ExtractFailed) (\<lambda>bytes.
      let manifest = bundle_manifest bundle; path = bundle_path (mn_name manifest);
          signature = sm_signature (wb_signed_manifest bundle)
      in bind_op (write_system_op env path bytes) (\<lambda>_.
           seed_bundles env bundles (index_packages @ [\<lparr>pi_name = mn_name manifest,
             pi_version = mn_version manifest, pi_description = mn_description manifest,
             pi_size_bytes = word_of_nat (length bytes), pi_sha256 = sha256_hex (en_crypto env) bytes,
             pi_signed_by = se_key_id signature, pi_signature_scheme = se_scheme signature,
             pi_dependencies = mn_dependencies manifest, pi_download_url = path\<rparr>])))"

definition seed_repository :: "('pk, 'sg) pkg_env \<Rightarrow> war_pack_bundle list \<Rightarrow> unit pkg_op" where
  "seed_repository env packages =
    bind_op (seed_bundles env packages []) (\<lambda>index_packages.
    bind_op (ok_op (en_index_to_json env \<lparr>px_packages = index_packages, px_last_updated = en_now env\<rparr>) ExtractFailed)
      (\<lambda>index_bytes.
    bind_op (write_system_op env LOCAL_INDEX_PATH index_bytes) (\<lambda>_ st.
      case fs_read LOCAL_INSTALLED_PATH (pkg_fs st) of
        Inl _ \<Rightarrow> write_system_op env LOCAL_INSTALLED_PATH (as_bytes ''[]'') st
      | Inr _ \<Rightarrow> (Ok (), st))))"

end
