(* ===== verification/Pkg_Update.thy ===== *)
theory Pkg_Update
  imports Pkg_Manager
begin

text \<open>
  Offline updates (\<open>kernel/src/pkg/update.rs\<close>): a verified bundle is staged or applied, the files it
  touches are captured in a rollback record first, and the update waits for a boot that reaches the
  shell before it can be confirmed. The state lives in a file; the JSON conversions of the state and
  of the rollback record are the record \<open>update_json\<close>.
\<close>

definition UPDATE_STATE_PATH :: string where "UPDATE_STATE_PATH = ''/var/pkg/update-state.json''"
definition STAGED_DIR_PATH :: string where "STAGED_DIR_PATH = ''/var/pkg/staged''"
definition ROLLBACK_DIR_PATH :: string where "ROLLBACK_DIR_PATH = ''/var/pkg/rollback''"

datatype update_phase = Staged | PendingConfirmation | Confirmed | Failed | RolledBack

fun phase_as_str :: "update_phase \<Rightarrow> string" where
  "phase_as_str Staged = ''staged''"
| "phase_as_str PendingConfirmation = ''pending-confirmation''"
| "phase_as_str Confirmed = ''confirmed''"
| "phase_as_str Failed = ''failed''"
| "phase_as_str RolledBack = ''rolled-back''"

record update_transaction =
  ut_package_name :: string
  ut_from_version :: "string option"
  ut_to_version :: string
  ut_source_path :: string
  ut_staged_path :: "string option"
  ut_rollback_path :: string
  ut_phase :: update_phase
  ut_applied_at :: "u64 option"
  ut_confirmed_at :: "u64 option"
  ut_boot_started :: bool
  ut_boot_observed :: bool
  ut_failure_reason :: "string option"
  ut_last_boot_note :: "string option"

record update_state =
  us_schema_version :: u16
  us_recovery_requested :: bool
  us_recovery_reason :: "string option"
  us_current :: "update_transaction option"

record rollback_file_record =
  rf_path :: string
  rf_existed :: bool
  rf_data :: "u8 list"
  rf_owner_uid :: u16
  rf_permissions_mode :: string
  rf_readonly :: bool
  rf_created_at :: u64
  rf_modified_at :: u64

record rollback_record =
  rr_package_name :: string
  rr_to_version :: string
  rr_previous_installed :: "installed_package option"
  rr_files :: "rollback_file_record list"
  rr_captured_at :: u64

record boot_health_report =
  bh_recovery_requested :: bool
  bh_summary :: string

record update_json =
  uj_state_to_json :: "update_state \<Rightarrow> u8 list option"
  uj_state_of_json :: "u8 list \<Rightarrow> update_state option"
  uj_rollback_to_json :: "rollback_record \<Rightarrow> u8 list option"
  uj_rollback_of_json :: "u8 list \<Rightarrow> rollback_record option"

definition update_state_default :: update_state where
  "update_state_default = \<lparr>us_schema_version = 1, us_recovery_requested = False, us_recovery_reason = None, us_current = None\<rparr>"

section \<open>Files of the update state\<close>

definition save_state :: "('pk, 'sg) pkg_env \<Rightarrow> update_json \<Rightarrow> update_state \<Rightarrow> unit pkg_op" where
  "save_state env js state = bind_op (ok_op (uj_state_to_json js state) InstallFailed)
    (write_system_op env UPDATE_STATE_PATH)"

definition load_state :: "update_json \<Rightarrow> warfs \<Rightarrow> pkg_error + update_state" where
  "load_state js fs =
    (case fs_read UPDATE_STATE_PATH fs of
       Inl e \<Rightarrow> if e = FileNotFound then Ok update_state_default else Err InstallFailed
     | Inr bytes \<Rightarrow> ok_or (uj_state_of_json js bytes) StateCorrupted)"

definition load_state_op :: "update_json \<Rightarrow> update_state pkg_op" where
  "load_state_op js st = (load_state js (pkg_fs st), st)"

definition ensure_state_file :: "('pk, 'sg) pkg_env \<Rightarrow> update_json \<Rightarrow> unit pkg_op" where
  "ensure_state_file env js st =
    (case fs_read UPDATE_STATE_PATH (pkg_fs st) of
       Inr _ \<Rightarrow> (Ok (), st)
     | Inl _ \<Rightarrow> save_state env js update_state_default st)"

definition blocks_replacement :: "update_state \<Rightarrow> bool" where
  "blocks_replacement state = (case us_current state of
     None \<Rightarrow> False | Some transaction \<Rightarrow> ut_phase transaction \<in> {PendingConfirmation, Failed})"

definition ensure_state_replaceable :: "update_state \<Rightarrow> unit pkg_op" where
  "ensure_state_replaceable state = (if blocks_replacement state then fail_op UpdateBusy else return_op ())"

definition store_rollback_record ::
  "('pk, 'sg) pkg_env \<Rightarrow> update_json \<Rightarrow> string \<Rightarrow> rollback_record \<Rightarrow> unit pkg_op" where
  "store_rollback_record env js path rollback =
    bind_op (ok_op (uj_rollback_to_json js rollback) InstallFailed) (write_system_op env path)"

definition load_rollback_record :: "update_json \<Rightarrow> string \<Rightarrow> rollback_record pkg_op" where
  "load_rollback_record js path = bind_op (read_op path RollbackUnavailable)
    (\<lambda>bytes. ok_op (uj_rollback_of_json js bytes) RollbackUnavailable)"

definition staged_bundle_path :: "string \<Rightarrow> string \<Rightarrow> string" where
  "staged_bundle_path name version = STAGED_DIR_PATH @ ''/'' @ name @ ''-'' @ version @ ''.warpack''"

definition rollback_record_path :: "string \<Rightarrow> string" where
  "rollback_record_path name = ROLLBACK_DIR_PATH @ ''/'' @ name @ ''.json''"

definition log_update_state ::
  "('pk, 'sg) pkg_env \<Rightarrow> string \<Rightarrow> string \<Rightarrow> string \<Rightarrow> string \<Rightarrow> pkg_state \<Rightarrow> pkg_state" where
  "log_update_state env name version state detail st =
    pkg_log env (SecurityPolicyChanged (''update_state name='' @ name @ '' ver='' @ version @ '' state='' @ state
      @ '' detail='' @ detail) (exec_current_uid env (os_session (pk_os st)))) st"

definition log_recovery_action :: "('pk, 'sg) pkg_env \<Rightarrow> string \<Rightarrow> string \<Rightarrow> pkg_state \<Rightarrow> pkg_state" where
  "log_recovery_action env action detail st =
    pkg_log env (SecurityPolicyChanged (''recovery action='' @ action @ '' detail='' @ detail)
      (exec_current_uid env (os_session (pk_os st)))) st"

definition done_op :: "(pkg_state \<Rightarrow> pkg_state) \<Rightarrow> 'a \<Rightarrow> 'a pkg_op" where
  "done_op log x st = (Ok x, log st)"

definition read_local_bundle :: "string \<Rightarrow> (string \<times> u8 list) pkg_op" where
  "read_local_bundle path st =
    (case read_current path (pk_os st) of Inl _ \<Rightarrow> (Err BundleUnavailable, st) | Inr r \<Rightarrow> (Ok r, st))"

section \<open>Capture and restore\<close>

definition push_unique_path :: "string \<Rightarrow> string list \<Rightarrow> string list" where
  "push_unique_path path paths = (if list_all (\<lambda>existing. existing \<noteq> path) paths then paths @ [path] else paths)"

definition capture_file :: "warfs \<Rightarrow> string \<Rightarrow> rollback_file_record" where
  "capture_file fs path =
    (case stat path fs of
       Inr entry \<Rightarrow> \<lparr>rf_path = path, rf_existed = True, rf_data = fe_data entry, rf_owner_uid = fe_owner_uid entry,
         rf_permissions_mode = mode_string (fe_permissions entry), rf_readonly = fe_readonly entry,
         rf_created_at = fe_created_at entry, rf_modified_at = fe_modified_at entry\<rparr>
     | Inl _ \<Rightarrow> \<lparr>rf_path = path, rf_existed = False, rf_data = [], rf_owner_uid = 0,
         rf_permissions_mode = ''rw--'', rf_readonly = False, rf_created_at = 0, rf_modified_at = 0\<rparr>)"

definition touched_paths :: "manifest \<Rightarrow> installed_package option \<Rightarrow> string list" where
  "touched_paths manifest previous =
    (let paths = fold (\<lambda>f. push_unique_path (mf_path f)) (mn_files manifest) [] in
     case previous of None \<Rightarrow> paths | Some p \<Rightarrow> fold push_unique_path (ip_files p) paths)"

definition capture_rollback_record ::
  "('pk, 'sg) pkg_env \<Rightarrow> manifest \<Rightarrow> installed_package option \<Rightarrow> warfs \<Rightarrow> rollback_record" where
  "capture_rollback_record env manifest previous_installed fs =
    \<lparr>rr_package_name = mn_name manifest, rr_to_version = mn_version manifest,
     rr_previous_installed = previous_installed,
     rr_files = map (capture_file fs) (touched_paths manifest previous_installed), rr_captured_at = en_now env\<rparr>"

definition restore_file :: "rollback_file_record \<Rightarrow> unit pkg_op" where
  "restore_file f st =
    (if rf_existed f
     then (case apply_mode_string (rf_permissions_mode f) (perm_default_for (rf_owner_uid f)) of
         (permissions, False) \<Rightarrow> (Err RollbackUnavailable, st)
       | (permissions, True) \<Rightarrow>
           (case load_file_from_disk (rf_path f) (rf_data f) (rf_owner_uid f) permissions (rf_readonly f)
               (rf_created_at f) (rf_modified_at f) (pkg_fs st) of
              (Inl _, fs') \<Rightarrow> (Err InstallFailed, st\<lparr>pk_os := (pk_os st)\<lparr>os_fs := fs'\<rparr>\<rparr>)
            | (Inr _, fs') \<Rightarrow> (Ok (), st\<lparr>pk_os := (pk_os st)\<lparr>os_fs := fs',
                os_requests := os_requests (pk_os st) @ sync_request (rf_path f) fs'\<rparr>\<rparr>)))
     else system_delete (rf_path f) st)"

fun restore_files :: "rollback_file_record list \<Rightarrow> unit pkg_op" where
  "restore_files [] = return_op ()"
| "restore_files (f # files) = bind_op (restore_file f) (\<lambda>_. restore_files files)"

section \<open>The commands\<close>

definition installed_version_for :: "string \<Rightarrow> package_manager \<Rightarrow> string option" where
  "installed_version_for name manager = map_option ip_version (find_installed name manager)"

definition staged_transaction :: "manifest \<Rightarrow> string option \<Rightarrow> string \<Rightarrow> update_transaction" where
  "staged_transaction manifest from_version source_path = \<lparr>ut_package_name = mn_name manifest,
    ut_from_version = from_version, ut_to_version = mn_version manifest, ut_source_path = source_path,
    ut_staged_path = Some (staged_bundle_path (mn_name manifest) (mn_version manifest)),
    ut_rollback_path = rollback_record_path (mn_name manifest), ut_phase = Staged,
    ut_applied_at = None, ut_confirmed_at = None, ut_boot_started = False, ut_boot_observed = False,
    ut_failure_reason = None, ut_last_boot_note = Some ''offline bundle staged for explicit apply''\<rparr>"

definition stage_bundle_from_path ::
  "('pk, 'sg) pkg_env \<Rightarrow> update_json \<Rightarrow> string \<Rightarrow> update_transaction pkg_op" where
  "stage_bundle_from_path env js path =
    bind_op (require_pkg_install env) (\<lambda>_.
    bind_op (read_local_bundle path) (\<lambda>(resolved, bytes).
    bind_op (verify_local_bundle_bytes env bytes) (\<lambda>verified.
    bind_op (load_state_op js) (\<lambda>state.
    bind_op (ensure_state_replaceable state) (\<lambda>_.
      let manifest = bundle_manifest (vp_bundle verified);
          staged_path = staged_bundle_path (mn_name manifest) (mn_version manifest)
      in bind_op (write_system_op env staged_path bytes) (\<lambda>_ st.
         let transaction = staged_transaction manifest (installed_version_for (mn_name manifest) (pk_manager st)) resolved
         in bind_op (save_state env js (state\<lparr>us_current := Some transaction\<rparr>)) (\<lambda>_.
           done_op (log_update_state env (mn_name manifest) (mn_version manifest) ''staged'' staged_path)
             transaction) st))))))"

definition applied_transaction ::
  "('pk, 'sg) pkg_env \<Rightarrow> manifest \<Rightarrow> installed_package option \<Rightarrow> string \<Rightarrow> string option \<Rightarrow> update_transaction" where
  "applied_transaction env manifest previous_installed source_path staged_override = \<lparr>ut_package_name = mn_name manifest,
    ut_from_version = map_option ip_version previous_installed, ut_to_version = mn_version manifest,
    ut_source_path = source_path,
    ut_staged_path = (case staged_override of Some p \<Rightarrow> Some p
      | None \<Rightarrow> if prefix STAGED_DIR_PATH source_path then Some source_path else None),
    ut_rollback_path = rollback_record_path (mn_name manifest), ut_phase = PendingConfirmation,
    ut_applied_at = Some (en_now env), ut_confirmed_at = None, ut_boot_started = False, ut_boot_observed = False,
    ut_failure_reason = None, ut_last_boot_note = Some ''offline apply completed; awaiting boot confirmation''\<rparr>"

definition apply_verified_bundle_bytes ::
  "('pk, 'sg) pkg_env \<Rightarrow> update_json \<Rightarrow> string \<Rightarrow> u8 list \<Rightarrow> string option \<Rightarrow> update_transaction pkg_op" where
  "apply_verified_bundle_bytes env js source_path bytes staged_override =
    bind_op (load_state_op js) (\<lambda>state.
    bind_op (ensure_state_replaceable state) (\<lambda>_.
    bind_op (verify_local_bundle_bytes env bytes) (\<lambda>verified st.
      let manifest = bundle_manifest (vp_bundle verified);
          previous_installed = find_installed (mn_name manifest) (pk_manager st);
          rollback = capture_rollback_record env manifest previous_installed (pkg_fs st);
          transaction = applied_transaction env manifest previous_installed source_path staged_override
      in bind_op (store_rollback_record env js (rollback_record_path (mn_name manifest)) rollback) (\<lambda>_ st.
         bind_op (apply_verified_bundle env verified (word_of_nat (length bytes))
             (exec_current_uid env (os_session (pk_os st)))) (\<lambda>_.
         bind_op (save_state env js (state\<lparr>us_current := Some transaction, us_recovery_requested := False,
             us_recovery_reason := None\<rparr>)) (\<lambda>_.
           done_op (log_update_state env (mn_name manifest) (mn_version manifest) ''pending-confirmation'' source_path)
             transaction)) st) st)))"

definition apply_bundle_from_path ::
  "('pk, 'sg) pkg_env \<Rightarrow> update_json \<Rightarrow> string \<Rightarrow> update_transaction pkg_op" where
  "apply_bundle_from_path env js path =
    bind_op (require_pkg_install env) (\<lambda>_.
    bind_op (read_local_bundle path) (\<lambda>(resolved, bytes). apply_verified_bundle_bytes env js resolved bytes None))"

definition apply_staged_bundle :: "('pk, 'sg) pkg_env \<Rightarrow> update_json \<Rightarrow> update_transaction pkg_op" where
  "apply_staged_bundle env js =
    bind_op (require_pkg_install env) (\<lambda>_.
    bind_op (load_state_op js) (\<lambda>state.
    bind_op (ok_op (Option.bind (us_current state) ut_staged_path) NoStagedBundle) (\<lambda>staged_path.
    bind_op (read_op staged_path NoStagedBundle) (\<lambda>bytes.
      apply_verified_bundle_bytes env js staged_path bytes (Some staged_path)))))"

definition pending_transaction :: "update_state \<Rightarrow> update_transaction pkg_op" where
  "pending_transaction state = (case us_current state of
     None \<Rightarrow> fail_op NoPendingUpdate
   | Some transaction \<Rightarrow> if ut_phase transaction \<noteq> PendingConfirmation then fail_op NoPendingUpdate
       else return_op transaction)"

definition confirm_pending_update :: "('pk, 'sg) pkg_env \<Rightarrow> update_json \<Rightarrow> update_transaction pkg_op" where
  "confirm_pending_update env js =
    bind_op (require_pkg_install env) (\<lambda>_.
    bind_op (load_state_op js) (\<lambda>state.
    bind_op (pending_transaction state) (\<lambda>transaction.
      if \<not> ut_boot_observed transaction then fail_op BootConfirmationRequired
      else
        let snapshot = transaction\<lparr>ut_phase := Confirmed, ut_confirmed_at := Some (en_now env),
              ut_boot_started := False, ut_boot_observed := False, ut_failure_reason := None,
              ut_last_boot_note := Some ''update confirmed after shell-ready boot''\<rparr>
        in bind_op (save_state env js (state\<lparr>us_current := Some snapshot, us_recovery_requested := False,
              us_recovery_reason := None\<rparr>)) (\<lambda>_.
            done_op (log_update_state env (ut_package_name snapshot) (ut_to_version snapshot) ''confirmed''
              ''boot health acknowledged'') snapshot))))"

definition reject_pending_update ::
  "('pk, 'sg) pkg_env \<Rightarrow> update_json \<Rightarrow> string \<Rightarrow> update_transaction pkg_op" where
  "reject_pending_update env js reason =
    bind_op (require_pkg_install env) (\<lambda>_.
    bind_op (load_state_op js) (\<lambda>state.
    bind_op (pending_transaction state) (\<lambda>transaction.
      let snapshot = transaction\<lparr>ut_phase := Failed, ut_failure_reason := Some reason,
            ut_last_boot_note := Some ''update explicitly rejected''\<rparr>
      in bind_op (save_state env js (state\<lparr>us_current := Some snapshot, us_recovery_requested := True,
            us_recovery_reason := Some ''pending update rejected''\<rparr>)) (\<lambda>_.
          done_op (log_update_state env (ut_package_name snapshot) (ut_to_version snapshot) ''failed'' reason)
            snapshot))))"

definition restore_installed :: "('pk, 'sg) pkg_env \<Rightarrow> rollback_record \<Rightarrow> unit pkg_op" where
  "restore_installed env rollback st =
    (let kept = filter (\<lambda>package. ip_name package \<noteq> rr_package_name rollback) (pm_installed (pk_manager st));
         installed = (case rr_previous_installed rollback of None \<Rightarrow> kept | Some previous \<Rightarrow> kept @ [previous])
     in save_installed_list env (st\<lparr>pk_manager := (pk_manager st)\<lparr>pm_installed := installed\<rparr>\<rparr>))"

definition rollback_current_update :: "('pk, 'sg) pkg_env \<Rightarrow> update_json \<Rightarrow> update_transaction pkg_op" where
  "rollback_current_update env js =
    bind_op (require_pkg_install env) (\<lambda>_.
    bind_op (load_state_op js) (\<lambda>state.
    bind_op (ok_op (us_current state) RollbackUnavailable) (\<lambda>transaction.
    bind_op (load_rollback_record js (ut_rollback_path transaction)) (\<lambda>rollback.
    bind_op (restore_files (rr_files rollback)) (\<lambda>_.
    bind_op (restore_installed env rollback) (\<lambda>_.
      let snapshot = transaction\<lparr>ut_phase := RolledBack, ut_boot_started := False, ut_boot_observed := False,
            ut_confirmed_at := Some (en_now env), ut_failure_reason := None,
            ut_last_boot_note := Some ''rollback restored pre-apply filesystem state''\<rparr>
      in bind_op (save_state env js (state\<lparr>us_current := Some snapshot, us_recovery_requested := False,
            us_recovery_reason := None\<rparr>)) (\<lambda>_.
          done_op (log_update_state env (ut_package_name snapshot) (ut_to_version snapshot) ''rolled-back''
            (ut_rollback_path transaction)) snapshot)))))))"

definition clear_completed_state :: "('pk, 'sg) pkg_env \<Rightarrow> update_json \<Rightarrow> unit pkg_op" where
  "clear_completed_state env js =
    bind_op (require_pkg_install env) (\<lambda>_.
    bind_op (load_state_op js) (\<lambda>state.
      if blocks_replacement state then fail_op UpdateBusy
      else save_state env js (state\<lparr>us_current := None,
        us_recovery_reason := (if us_recovery_requested state then us_recovery_reason state else None)\<rparr>)))"

definition proof_available :: "update_json \<Rightarrow> warfs \<Rightarrow> pkg_error + bool" where
  "proof_available js fs = result_bind (load_state js fs) (\<lambda>state.
    Ok (us_current state = None \<and> \<not> us_recovery_requested state))"

definition request_recovery :: "('pk, 'sg) pkg_env \<Rightarrow> update_json \<Rightarrow> string \<Rightarrow> unit pkg_op" where
  "request_recovery env js reason =
    bind_op (load_state_op js) (\<lambda>state.
    bind_op (save_state env js (state\<lparr>us_recovery_requested := True, us_recovery_reason := Some reason\<rparr>)) (\<lambda>_.
      done_op (log_recovery_action env ''enter'' reason) ()))"

definition clear_recovery_request :: "('pk, 'sg) pkg_env \<Rightarrow> update_json \<Rightarrow> unit pkg_op" where
  "clear_recovery_request env js =
    bind_op (load_state_op js) (\<lambda>state.
      if blocks_replacement state then fail_op RecoveryBlocked
      else bind_op (save_state env js (state\<lparr>us_recovery_requested := False, us_recovery_reason := None\<rparr>)) (\<lambda>_.
        done_op (log_recovery_action env ''resume'' ''recovery request cleared'') ()))"

definition should_enter_recovery :: "update_json \<Rightarrow> warfs \<Rightarrow> bool" where
  "should_enter_recovery js fs = (case load_state js fs of
     Inr state \<Rightarrow> us_recovery_requested state | Inl e \<Rightarrow> e = StateCorrupted)"

definition pkg_init :: "('pk, 'sg) pkg_env \<Rightarrow> update_json \<Rightarrow> war_pack_bundle list \<Rightarrow> unit pkg_op" where
  "pkg_init env js packages =
    bind_op (seed_repository env packages) (\<lambda>_ st.
      ensure_state_file env js (st\<lparr>pk_manager := package_manager_new env DEFAULT_REPO_URL (pkg_fs st)\<rparr>))"

section \<open>Boot\<close>

definition fail_boot :: "string \<Rightarrow> string \<Rightarrow> update_transaction \<Rightarrow> update_state \<Rightarrow> update_state" where
  "fail_boot failure reason transaction state = state\<lparr>
    us_current := Some (transaction\<lparr>ut_phase := Failed, ut_failure_reason := Some failure\<rparr>),
    us_recovery_requested := True, us_recovery_reason := Some reason\<rparr>"

definition boot_step :: "update_transaction \<Rightarrow> update_state \<Rightarrow> update_state \<times> string \<times> string option" where
  "boot_step transaction state =
    (let label = ut_package_name transaction @ '' '' @ ut_to_version transaction in
     case ut_phase transaction of
       PendingConfirmation \<Rightarrow>
         if ut_boot_started transaction \<and> \<not> ut_boot_observed transaction
         then (fail_boot ''post-update boot did not reach shell-ready'' ''post-update boot failed before shell-ready''
             transaction state, label @ '' failed health check before shell-ready; recovery requested'',
           Some ''post-update boot did not reach shell-ready'')
         else if ut_boot_observed transaction
         then (fail_boot ''post-update boot was not confirmed before the next boot'' ''post-update boot was not confirmed''
             transaction state, label @ '' was not confirmed before reboot; recovery requested'',
           Some ''post-update boot was not confirmed before the next boot'')
         else (state\<lparr>us_current := Some (transaction\<lparr>ut_boot_started := True,
             ut_last_boot_note := Some ''boot started; awaiting confirmation''\<rparr>)\<rparr>,
           label @ '' pending confirmation'', None)
     | Staged \<Rightarrow> (state, label @ '' staged for explicit apply'', None)
     | Confirmed \<Rightarrow> (state, label @ '' confirmed'', None)
     | Failed \<Rightarrow> (state\<lparr>us_recovery_requested := True,
           us_recovery_reason := (case us_recovery_reason state of
             None \<Rightarrow> Some ''failed update requires recovery'' | Some r \<Rightarrow> Some r)\<rparr>,
         label @ '' failed and requires recovery'', None)
     | RolledBack \<Rightarrow> (state, label @ '' rolled back'', None))"

definition boot_transition :: "update_state \<Rightarrow> update_state \<times> string \<times> string option" where
  "boot_transition state = (case us_current state of
     None \<Rightarrow> (state, ''idle'', None) | Some transaction \<Rightarrow> boot_step transaction state)"

definition log_boot_failure :: "('pk, 'sg) pkg_env \<Rightarrow> update_state \<Rightarrow> string option \<Rightarrow> pkg_state \<Rightarrow> pkg_state" where
  "log_boot_failure env state failure st = (case (us_current state, failure) of
     (Some transaction, Some detail) \<Rightarrow>
       log_update_state env (ut_package_name transaction) (ut_to_version transaction) ''failed'' detail st
   | _ \<Rightarrow> st)"

definition prepare_boot :: "('pk, 'sg) pkg_env \<Rightarrow> update_json \<Rightarrow> pkg_state \<Rightarrow> boot_health_report \<times> pkg_state" where
  "prepare_boot env js st =
    (let loaded = load_state js (pkg_fs st) in
     if loaded = Err StateCorrupted
     then (\<lparr>bh_recovery_requested = True,
       bh_summary = ''update state metadata is corrupted; recovery mode requested''\<rparr>, st)
     else
       let state = (case loaded of Inr s \<Rightarrow> s | Inl _ \<Rightarrow> update_state_default);
           (state', summary, failure) = boot_transition state
       in (\<lparr>bh_recovery_requested = us_recovery_requested state', bh_summary = summary\<rparr>,
           snd (save_state env js state' (log_boot_failure env state failure st))))"

definition note_shell_ready :: "('pk, 'sg) pkg_env \<Rightarrow> update_json \<Rightarrow> string option pkg_op" where
  "note_shell_ready env js =
    bind_op (load_state_op js) (\<lambda>state.
      case us_current state of
        None \<Rightarrow> return_op None
      | Some transaction \<Rightarrow>
          if ut_phase transaction \<noteq> PendingConfirmation \<or> \<not> ut_boot_started transaction then return_op None
          else if ut_boot_observed transaction then return_op None
          else bind_op (save_state env js (state\<lparr>us_current := Some (transaction\<lparr>ut_boot_observed := True,
              ut_last_boot_note := Some ''shell-ready reached; confirmation required''\<rparr>)\<rparr>)) (\<lambda>_.
            return_op (Some (ut_package_name transaction @ '' '' @ ut_to_version transaction
              @ '' reached shell-ready; confirmation required''))))"

section \<open>Reports\<close>

definition bool_text :: "bool \<Rightarrow> string" where
  "bool_text b = (if b then ''true'' else ''false'')"

definition render_state :: "update_state \<Rightarrow> string" where
  "render_state state = join_with (CHR 0x0A)
    ([''WarPkg Offline Update / Recovery:'', []]
     @ (case us_current state of
          None \<Rightarrow> [''  State:             idle'']
        | Some t \<Rightarrow>
            [''  Package:           '' @ ut_package_name t @ '' '' @ ut_to_version t]
            @ (case ut_from_version t of None \<Rightarrow> [] | Some v \<Rightarrow> [''  Previous version:  '' @ v])
            @ [''  State:             '' @ phase_as_str (ut_phase t), ''  Source:            '' @ ut_source_path t]
            @ (case ut_staged_path t of None \<Rightarrow> [] | Some p \<Rightarrow> [''  Staged bundle:     '' @ p])
            @ [''  Rollback record:   '' @ ut_rollback_path t,
               ''  Boot health:       started='' @ bool_text (ut_boot_started t) @ '' shell-ready=''
                 @ bool_text (ut_boot_observed t)]
            @ (case ut_failure_reason t of None \<Rightarrow> [] | Some r \<Rightarrow> [''  Failure reason:    '' @ r])
            @ (case ut_last_boot_note t of None \<Rightarrow> [] | Some n \<Rightarrow> [''  Last note:         '' @ n]))
     @ [''  Recovery request:  '' @ (if us_recovery_requested state then ''yes'' else ''no'')]
     @ (case us_recovery_reason state of None \<Rightarrow> [] | Some r \<Rightarrow> [''  Recovery reason:   '' @ r]))"

definition status_report :: "update_json \<Rightarrow> warfs \<Rightarrow> string" where
  "status_report js fs = (case load_state js fs of
     Inr state \<Rightarrow> render_state state
   | Inl e \<Rightarrow> if e = StateCorrupted
       then join_with (CHR 0x0A) [''WarPkg Offline Update / Recovery:'', [], ''  State:             metadata-corrupted'',
         [], ''  Recovery request:  yes'', [], ''  Recovery reason:   update state metadata is corrupted'']
       else render_state update_state_default)"

definition short_status :: "update_json \<Rightarrow> warfs \<Rightarrow> string" where
  "short_status js fs = (case load_state js fs of
     Inr state \<Rightarrow>
       (case us_current state of
          Some t \<Rightarrow> ut_package_name t @ '' '' @ ut_to_version t @ '' ('' @ phase_as_str (ut_phase t) @ '')''
            @ (if us_recovery_requested state then '', recovery requested'' else [])
        | None \<Rightarrow> if us_recovery_requested state
            then ''manual recovery requested ('' @ (case us_recovery_reason state of None \<Rightarrow> ''unspecified'' | Some r \<Rightarrow> r) @ '')''
            else ''idle'')
   | Inl e \<Rightarrow> if e = StateCorrupted then ''metadata-corrupted (recovery requested)'' else ''idle'')"

end
