(* ===== verification/Pkg_Update_Props.thy ===== *)
theory Pkg_Update_Props
  imports Pkg_Update
begin

text \<open>
  Properties of offline updates: what an operation of the package manager can change in the file
  system, that a rollback gives back the files from before the update, and the order of events
  behind every state of an update.
\<close>

section \<open>Files an operation can change\<close>

definition target :: "string \<Rightarrow> string set" where
  "target path = {c. canonical_path path = Ok c}"

definition targets :: "string list \<Rightarrow> string set" where
  "targets paths = (\<Union>p\<in>set paths. target p)"

definition stays :: "string set \<Rightarrow> pkg_state \<Rightarrow> pkg_state \<Rightarrow> bool" where
  "stays P st st' \<longleftrightarrow> (fs_wf (pkg_fs st) \<longrightarrow>
    fs_wf (pkg_fs st') \<and> (\<forall>q. q \<notin> P \<longrightarrow> fs_find q (pkg_fs st') = fs_find q (pkg_fs st)))"

definition confined :: "string set \<Rightarrow> 'a pkg_op \<Rightarrow> bool" where
  "confined P m \<longleftrightarrow> (\<forall>st. stays P st (snd (m st)))"

named_theorems confined_intro

lemma targets_simps [simp]:
  "targets [] = {}"
  "targets (p # ps) = target p \<union> targets ps"
  "targets (ps @ qs) = targets ps \<union> targets qs"
  by (auto simp: targets_def)

lemma stays_refl [simp]: "stays P st st"
  by (simp add: stays_def)

lemma stays_same_fs: "pkg_fs st' = pkg_fs st \<Longrightarrow> stays P st st'"
  by (simp add: stays_def)

lemma stays_trans: "stays P a b \<Longrightarrow> stays P b c \<Longrightarrow> stays P a c"
  by (auto simp: stays_def)

lemma stays_mono: "stays P a b \<Longrightarrow> P \<subseteq> Q \<Longrightarrow> stays Q a b"
  by (auto simp: stays_def)

lemma stays_wf: "stays P st st' \<Longrightarrow> fs_wf (pkg_fs st) \<Longrightarrow> fs_wf (pkg_fs st')"
  by (simp add: stays_def)

lemma stays_find: "stays P st st' \<Longrightarrow> fs_wf (pkg_fs st) \<Longrightarrow> q \<notin> P \<Longrightarrow> fs_find q (pkg_fs st') = fs_find q (pkg_fs st)"
  by (simp add: stays_def)

lemma confinedD: "confined P m \<Longrightarrow> m st = (r, st') \<Longrightarrow> stays P st st'"
  unfolding confined_def by (metis snd_conv)

lemma confined_mono: "confined P m \<Longrightarrow> P \<subseteq> Q \<Longrightarrow> confined Q m"
  unfolding confined_def using stays_mono by blast

lemma stays_bind:
  assumes "stays P st (snd (m st))" and "\<And>x st1. m st = (Inr x, st1) \<Longrightarrow> stays P st1 (snd (f x st1))"
  shows "stays P st (snd (bind_op m f st))"
proof (cases "m st")
  case (Pair r st1)
  then show ?thesis using assms stays_trans [of P st st1] by (cases r) (auto simp: bind_op_def)
qed

lemma confined_bind [confined_intro]:
  assumes "confined P m" and "\<And>x. confined P (f x)"
  shows "confined P (bind_op m f)"
  using assms unfolding confined_def by (blast intro: stays_bind)

lemma confined_return [confined_intro]: "confined P (return_op x)"
  and confined_fail [confined_intro]: "confined P (fail_op e)"
  and confined_ok_op [confined_intro]: "confined P (ok_op x' e)"
  by (auto simp: confined_def return_op_def fail_op_def ok_op_def split: option.split)

lemma confined_if [confined_intro]:
  "(b \<Longrightarrow> confined P m) \<Longrightarrow> (\<not> b \<Longrightarrow> confined P n) \<Longrightarrow> confined P (if b then m else n)"
  by simp

lemma pkg_fs_put [simp]: "pkg_fs (st\<lparr>pk_os := put_fs out os\<rparr>) = fst (snd out)"
  by (simp add: pkg_fs_def)

lemma pkg_fs_manager [simp]: "pkg_fs (st\<lparr>pk_manager := m\<rparr>) = pkg_fs st"
  by (simp add: pkg_fs_def)

lemma pkg_log_simps [simp]: "pkg_fs (pkg_log env e st) = pkg_fs st" "pk_manager (pkg_log env e st) = pk_manager st"
  by (simp_all add: pkg_log_def pkg_fs_def)

lemma fold_pkg_log [simp]: "pkg_fs (fold (pkg_log env) es st) = pkg_fs st"
  "pk_manager (fold (pkg_log env) es st) = pk_manager st"
  by (induction es arbitrary: st) simp_all

lemma log_simps [simp]:
  "pkg_fs (log_update_state env a b c d st) = pkg_fs st" "pk_manager (log_update_state env a b c d st) = pk_manager st"
  "pkg_fs (log_recovery_action env a b st) = pkg_fs st" "pk_manager (log_recovery_action env a b st) = pk_manager st"
  by (simp_all add: log_update_state_def log_recovery_action_def)

lemma confined_log [confined_intro]: "confined P (log_op env e)"
  by (simp add: confined_def log_op_def stays_same_fs)

lemma confined_done:
  "(\<And>st. pkg_fs (log st) = pkg_fs st) \<Longrightarrow> confined P (done_op log x)"
  by (simp add: confined_def done_op_def stays_same_fs)

lemma confined_done_log [confined_intro]:
  "confined P (done_op (log_update_state env a b c d) x)" "confined P (done_op (log_recovery_action env a b) x)"
  by (simp_all add: confined_done)

lemma confined_require [confined_intro]: "confined P (require_pkg_install env)"
  by (auto simp: confined_def require_pkg_install_def Let_def stays_same_fs split: prod.split sum.split)

lemma confined_read_op [confined_intro]: "confined P (read_op path e)"
  by (auto simp: confined_def read_op_def split: sum.split)

lemma confined_load_state [confined_intro]: "confined P (load_state_op js)"
  by (simp add: confined_def load_state_op_def)

lemma confined_read_local_bundle [confined_intro]: "confined P (read_local_bundle path)"
  by (auto simp: confined_def read_local_bundle_def split: sum.split)

lemma confined_verify_local [confined_intro]: "confined P (verify_local_bundle_bytes env bytes)"
  by (auto simp: confined_def verify_local_bundle_bytes_def Let_def stays_same_fs split: option.split sum.split)

lemma confined_replaceable [confined_intro]: "confined P (ensure_state_replaceable s)"
  by (simp add: ensure_state_replaceable_def confined_intro)

lemma confined_fs_op:
  assumes "\<And>fs. fs_wf fs \<Longrightarrow> fs_wf (fst (snd (f fs)))"
    and "\<And>fs q. fs_wf fs \<Longrightarrow> q \<notin> P \<Longrightarrow> fs_find q (fst (snd (f fs))) = fs_find q fs"
  shows "confined P (fs_op f err)"
  using assms by (auto simp: confined_def fs_op_def stays_def Let_def split: sum.split)

lemma confined_write_as [confined_intro]:
  assumes "target path \<subseteq> P" shows "confined P (fs_op (write_as now path data u r p) err)"
  using assms
  by (intro confined_fs_op) (auto simp: write_as_def target_def waros_inv intro!: write_internal_owned_frame)

lemma confined_write_system [confined_intro]:
  assumes "target path \<subseteq> P" shows "confined P (write_system_op env path data)"
  using assms unfolding write_system_op_def
  by (intro confined_fs_op) (auto simp: write_system_def target_def waros_inv intro!: write_internal_owned_frame)

lemma chmod_as_frame:
  assumes "canonical_path path \<noteq> Ok q"
  shows "fs_find q (fst (snd (chmod_as path u r mode fs))) = fs_find q fs"
  using chmod_as_outcome [of path u r mode fs] assms by (auto simp: fs_find_fs_find_mut)

lemma delete_as_frame:
  assumes "fs_wf fs" and "canonical_path path \<noteq> Ok q"
  shows "fs_find q (fst (snd (delete_as path u r fs))) = fs_find q fs"
  using delete_as_outcome [of path u r fs] assms by (auto simp: fs_find_remove fs_wf_distinct)

lemma confined_chmod [confined_intro]:
  assumes "target path \<subseteq> P" shows "confined P (fs_op (chmod_as path u r mode) err)"
  using assms by (intro confined_fs_op) (auto simp: target_def waros_inv intro!: chmod_as_frame)

lemma confined_system_delete [confined_intro]:
  assumes "target path \<subseteq> P" shows "confined P (system_delete path)"
  unfolding confined_def
proof
  fix st
  have "\<forall>q. q \<notin> P \<longrightarrow> fs_find q (fst (snd (delete_as path 0 Admin (pkg_fs st)))) = fs_find q (pkg_fs st)"
    if "fs_wf (pkg_fs st)"
    using assms that by (auto simp: target_def intro!: delete_as_frame)
  then show "stays P st (snd (system_delete path st))"
    by (auto simp: system_delete_def Let_def stays_def waros_inv split: sum.split)
qed

lemma confined_remove_stale [confined_intro]:
  "targets paths \<subseteq> P \<Longrightarrow> confined P (remove_stale files paths)"
  by (induction paths) (simp_all add: confined_intro)

lemma confined_install_file [confined_intro]:
  "target (mf_path f) \<subseteq> P \<Longrightarrow> confined P (install_file env payloads f)"
  unfolding install_file_def by (intro confined_intro)

lemma confined_install_files [confined_intro]:
  "targets (map mf_path files) \<subseteq> P \<Longrightarrow> confined P (install_files env payloads files)"
  by (induction files) (simp_all add: confined_intro)

lemma canonical_special:
  "target UPDATE_STATE_PATH = {UPDATE_STATE_PATH}" "target LOCAL_INSTALLED_PATH = {LOCAL_INSTALLED_PATH}"
proof -
  have "canonical_path UPDATE_STATE_PATH = Ok UPDATE_STATE_PATH"
    "canonical_path LOCAL_INSTALLED_PATH = Ok LOCAL_INSTALLED_PATH" by code_simp+
  then show "target UPDATE_STATE_PATH = {UPDATE_STATE_PATH}" "target LOCAL_INSTALLED_PATH = {LOCAL_INSTALLED_PATH}"
    by (auto simp: target_def)
qed

lemma stays_with_manager:
  "stays P (st\<lparr>pk_manager := m\<rparr>) st' \<longleftrightarrow> stays P st st'"
  by (simp add: stays_def)

lemma confined_save_installed [confined_intro]:
  "LOCAL_INSTALLED_PATH \<in> P \<Longrightarrow> confined P (save_installed_list env)"
  unfolding confined_def save_installed_list_def
proof
  fix st :: pkg_state
  assume "LOCAL_INSTALLED_PATH \<in> P"
  then have "confined P (bind_op (ok_op (en_installed_to_json env (pm_installed (pk_manager st))) ExtractFailed)
      (write_system_op env LOCAL_INSTALLED_PATH))"
    by (intro confined_intro) (simp add: canonical_special)
  then show "stays P st (snd (bind_op (ok_op (en_installed_to_json env (pm_installed (pk_manager st))) ExtractFailed)
      (write_system_op env LOCAL_INSTALLED_PATH) st))"
    by (simp add: confined_def)
qed

lemma confined_manager_then:
  "confined P m \<Longrightarrow> confined P (\<lambda>st. m (st\<lparr>pk_manager := f st\<rparr>))"
  unfolding confined_def by (metis stays_with_manager)

lemma confined_save_state [confined_intro]:
  "UPDATE_STATE_PATH \<in> P \<Longrightarrow> confined P (save_state env js s)"
  unfolding save_state_def by (intro confined_intro) (simp add: canonical_special)

text \<open>The paths of a rollback record are the files of the new and of the old version.\<close>

lemma set_push_unique_path [simp]: "set (push_unique_path p ps) = insert p (set ps)"
  by (auto simp: push_unique_path_def list_all_iff)

lemma set_fold_push_unique: "set (fold (\<lambda>x. push_unique_path (f x)) xs ps) = f ` set xs \<union> set ps"
  by (induction xs arbitrary: ps) auto

lemma set_touched_paths:
  "set (touched_paths mf prev) = mf_path ` set (mn_files mf) \<union> (case prev of None \<Rightarrow> {} | Some p \<Rightarrow> set (ip_files p))"
  using set_fold_push_unique [of "\<lambda>x. x"]
  by (auto simp: touched_paths_def Let_def set_fold_push_unique split: option.split)

lemma stays_apply_verified_bundle:
  fixes env :: "('pk, 'sg) pkg_env"
  assumes "mf = bundle_manifest (vp_bundle verified)"
    and "targets (touched_paths mf (find_installed (mn_name mf) (pk_manager st))) \<subseteq> P" and "LOCAL_INSTALLED_PATH \<in> P"
  shows "stays P st (snd (apply_verified_bundle env verified n uid st))"
proof -
  let ?prev = "find_installed (mn_name mf) (pk_manager st)"
  have old: "targets (ip_files p) \<subseteq> P" if "?prev = Some p" for p
    using assms(2) that by (auto simp: targets_def set_touched_paths)
  have new: "targets (map mf_path (mn_files mf)) \<subseteq> P"
    using assms(2) by (auto simp: targets_def set_touched_paths)
  have "confined P (case ?prev of Some p \<Rightarrow> remove_stale (mn_files mf) (ip_files p) | None \<Rightarrow> return_op ())"
    using old by (cases ?prev) (simp_all add: confined_intro)
  then have "confined P (bind_op (case ?prev of Some p \<Rightarrow> remove_stale (mn_files mf) (ip_files p) | None \<Rightarrow> return_op ()) (\<lambda>_.
        bind_op (install_files env ps (mn_files mf)) (\<lambda>_.
        bind_op (\<lambda>st. save_installed_list env (st\<lparr>pk_manager := replace_installed i (pk_manager st)\<rparr>)) (\<lambda>_.
        bind_op (log_op env e) (\<lambda>_. return_op i)))))" for ps i e
    using new assms(3) by (intro confined_intro confined_manager_then)
  then show ?thesis unfolding apply_verified_bundle_def Let_def assms(1) [symmetric] confined_def by blast
qed

section \<open>Restoring captured files\<close>

definition owners_agree :: "warfs \<Rightarrow> bool" where
  "owners_agree fs \<longleftrightarrow> list_all (\<lambda>e. fp_owner_uid (fe_permissions e) = fe_owner_uid e) (fs_files fs)"

lemma stat_find: "stat path fs = (case canonical_path path of Inl e \<Rightarrow> Err e | Inr c \<Rightarrow> ok_or (fs_find c fs) FileNotFound)"
  by (auto simp: stat_def stat_as_def can_read_def ok_or_def split: sum.split option.split)

lemma load_file_from_disk_find:
  assumes "fs_wf fs" and "load_file_from_disk name data own p ro ct mt fs = (Inr u, fs')"
  shows "fs_wf fs' \<and> (\<exists>c. canonical_path name = Ok c \<and>
    (\<forall>q. fs_find q fs' = (if q = c then Some \<lparr>fe_name = c, fe_data = data, fe_created_at = ct, fe_modified_at = mt,
      fe_readonly = ro, fe_owner_uid = own, fe_permissions = p\<lparr>fp_owner_uid := own\<rparr>\<rparr> else fs_find q fs)))"
proof -
  have "fs_wf fs'" using load_file_from_disk_wf [OF assms(1), of name data own p ro ct mt] assms(2) by simp
  moreover have "e\<lparr>fe_data := data, fe_created_at := ct, fe_modified_at := mt, fe_readonly := ro, fe_owner_uid := own,
      fe_permissions := p\<lparr>fp_owner_uid := own\<rparr>\<rparr> = \<lparr>fe_name = c, fe_data = data, fe_created_at = ct,
      fe_modified_at = mt, fe_readonly = ro, fe_owner_uid = own, fe_permissions = p\<lparr>fp_owner_uid := own\<rparr>\<rparr>"
    if "fs_find c fs = Some e" for c e
    using fs_find_name [OF that] by (cases e) simp
  ultimately show ?thesis
    using load_file_from_disk_outcome [of name data own p ro ct mt fs] assms fs_wf_distinct [OF assms(1)]
    by (elim disjE exE conjE)
      (auto simp: fs_find_fs_find_mut fs_find_push_sorted insertable_def)
qed

lemma restore_file_Ok:
  assumes "fs_wf (pkg_fs st)" and "owners_agree fs0" and "restore_file (capture_file fs0 path) st = (Inr u, st')"
  shows "fs_wf (pkg_fs st') \<and> pk_manager st' = pk_manager st \<and>
    (\<forall>q. fs_find q (pkg_fs st') = (if q \<in> target path then fs_find q fs0 else fs_find q (pkg_fs st)))"
proof (cases "stat path fs0")
  case (Inl err)
  then have run: "system_delete path st = (Inr u, st')" using assms(3) by (simp add: restore_file_def capture_file_def)
  have "fs_find q fs0 = None" if "q \<in> target path" for q
    using Inl that by (auto simp: stat_find target_def ok_or_def split: option.splits)
  moreover have "fs_find q (pkg_fs st') = None" if "q \<in> target path" for q
    using run that fs_wf_distinct [OF assms(1)]
    by (auto simp: system_delete_def delete_as_def Let_def target_def fs_find_remove split: option.splits if_splits)
  moreover have "stays (target path) st st'" using confinedD [OF confined_system_delete run] by simp
  moreover have "pk_manager st' = pk_manager st"
    using run by (auto simp: system_delete_def Let_def split: sum.splits if_splits)
  ultimately show ?thesis using assms(1) by (auto simp: stays_def)
next
  case (Inr e)
  then obtain c where c: "canonical_path path = Ok c" "fs_find c fs0 = Some e"
    by (auto simp: stat_find split: sum.splits option.splits)
  have own: "fp_owner_uid (fe_permissions e) = fe_owner_uid e" "fe_name e = c"
    using assms(2) fs_find_name [OF c(2)] by (auto simp: owners_agree_def list_all_iff)
  let ?p = "fe_permissions e\<lparr>fp_owner_uid := fe_owner_uid e\<rparr>"
  have p: "?p = fe_permissions e" using own by simp
  obtain fs' v where load: "load_file_from_disk path (fe_data e) (fe_owner_uid e) ?p (fe_readonly e) (fe_created_at e)
      (fe_modified_at e) (pkg_fs st) = (Inr v, fs')" and st': "pkg_fs st' = fs'" "pk_manager st' = pk_manager st"
    using assms(3) Inr by (auto simp: restore_file_def capture_file_def apply_mode_string_mode_string
        perm_default_for_def pkg_fs_def split: prod.splits sum.splits)
  have "target path = {c}" using c by (auto simp: target_def)
  then show ?thesis
    using load_file_from_disk_find [OF assms(1) load] st' c own p by (auto simp: file_entry.equality)
qed

lemma restore_files_Ok:
  assumes "fs_wf (pkg_fs st)" and "owners_agree fs0" and "restore_files (map (capture_file fs0) paths) st = (Inr u, st')"
  shows "fs_wf (pkg_fs st') \<and> pk_manager st' = pk_manager st \<and>
    (\<forall>q. fs_find q (pkg_fs st') = (if q \<in> targets paths then fs_find q fs0 else fs_find q (pkg_fs st)))"
  using assms
proof (induction paths arbitrary: st)
  case (Cons p ps)
  obtain v st1 where first: "restore_file (capture_file fs0 p) st = (Inr v, st1)"
    and rest: "restore_files (map (capture_file fs0) ps) st1 = (Inr u, st')"
    using Cons.prems(3) by (auto simp: bind_op_Ok)
  note one = restore_file_Ok [OF Cons.prems(1,2) first]
  show ?case using Cons.IH [OF _ Cons.prems(2) rest] one by auto
qed (simp add: return_op_def)

section \<open>The update state as a machine\<close>

text \<open>The JSON conversions read back what they wrote.\<close>

definition codec_ok :: "update_json \<Rightarrow> bool" where
  "codec_ok js \<longleftrightarrow> (\<forall>s b. uj_state_to_json js s = Some b \<longrightarrow> uj_state_of_json js b = Some s)
    \<and> (\<forall>r b. uj_rollback_to_json js r = Some b \<longrightarrow> uj_rollback_of_json js b = Some r)"

lemma write_system_op_outcome:
  assumes "fs_wf (pkg_fs st)" and "write_system_op env path data st = (r, st')"
  shows "case r of Inl _ \<Rightarrow> pkg_fs st' = pkg_fs st | Inr _ \<Rightarrow> fs_read path (pkg_fs st') = Ok data"
proof -
  let ?out = "store_write (en_now env, False) path data (pkg_fs st)"
  have st': "pkg_fs st' = snd ?out" and r: "r = (case fst ?out of Inl _ \<Rightarrow> Err InstallFailed | Inr x \<Rightarrow> Ok x)"
    using assms(2) by (auto simp: write_system_op_def fs_op_def store_write_def Let_def split: sum.splits)
  show ?thesis
  proof (cases "fst ?out")
    case (Inl e)
    then show ?thesis using warfs_store.wr_error st' r by simp
  next
    case (Inr u)
    then show ?thesis using warfs_store.rd_wr_same [OF assms(1)] st' r by simp
  qed
qed

lemma write_system_op_manager: "pk_manager (snd (write_system_op env path data st)) = pk_manager st"
  by (auto simp: write_system_op_def fs_op_def Let_def split: sum.split)

lemma save_state_outcome:
  assumes "codec_ok js" and "fs_wf (pkg_fs st)" and "save_state env js s st = (r, st')"
  shows "fs_wf (pkg_fs st') \<and> (case r of Inl _ \<Rightarrow> pkg_fs st' = pkg_fs st | Inr _ \<Rightarrow> load_state js (pkg_fs st') = Ok s)"
proof -
  have "fs_wf (pkg_fs st')" using confinedD [OF confined_save_state [OF UNIV_I] assms(3)] assms(2) stays_wf by blast
  moreover have "case r of Inl _ \<Rightarrow> pkg_fs st' = pkg_fs st | Inr _ \<Rightarrow> load_state js (pkg_fs st') = Ok s"
  proof (cases "uj_state_to_json js s")
    case None
    then show ?thesis using assms(3) by (auto simp: save_state_def ok_op_def bind_op_def fail_op_def)
  next
    case (Some b)
    then have "write_system_op env UPDATE_STATE_PATH b st = (r, st')"
      using assms(3) by (auto simp: save_state_def ok_op_def bind_op_def return_op_def)
    from write_system_op_outcome [OF assms(2) this] show ?thesis
      using Some assms(1) by (auto simp: load_state_def codec_ok_def split: sum.splits)
  qed
  ultimately show ?thesis by simp
qed

lemma save_state_Ok:
  assumes "codec_ok js" and "fs_wf (pkg_fs st)" and "save_state env js s st = (Inr u, st')"
  shows "fs_wf (pkg_fs st')" and "load_state js (pkg_fs st') = Ok s"
  using save_state_outcome [OF assms] by simp_all

datatype update_event = Stage | Apply | Confirm | Reject | Rollback | Clear | Boot | UnsavedBoot | ShellReady
  | Other

text \<open>
  One event with its effect on the state of the kernel. A boot is an event of its own kind according to
  whether the state file can take the state the boot moves to (there is room, and the file is not
  read-only): \<open>prepare_boot\<close> ignores a failing save. What the boot does to the file is not part of the
  rule; it follows from \<open>prepare_boot\<close>. Everything else that leaves the state file as it is, and the
  requests to enter and to leave recovery, are \<open>Other\<close>.
\<close>

definition state_file_takes :: "('pk, 'sg) pkg_env \<Rightarrow> update_json \<Rightarrow> update_state \<Rightarrow> pkg_state \<Rightarrow> bool" where
  "state_file_takes env js s st \<longleftrightarrow> fst (save_state env js s st) = Ok ()"

inductive update_step :: "update_json \<Rightarrow> ('pk, 'sg) pkg_env \<Rightarrow> update_event \<Rightarrow> pkg_state \<Rightarrow> pkg_state \<Rightarrow> bool"
  for js and env where
  stage: "stage_bundle_from_path env js path st = (Ok t, st') \<Longrightarrow> update_step js env Stage st st'"
| apply_path: "apply_bundle_from_path env js path st = (Ok t, st') \<Longrightarrow> update_step js env Apply st st'"
| apply_staged: "apply_staged_bundle env js st = (Ok t, st') \<Longrightarrow> update_step js env Apply st st'"
| confirm: "confirm_pending_update env js st = (Ok t, st') \<Longrightarrow> update_step js env Confirm st st'"
| reject: "reject_pending_update env js reason st = (Ok t, st') \<Longrightarrow> update_step js env Reject st st'"
| rollback: "rollback_current_update env js st = (Ok t, st') \<Longrightarrow> update_step js env Rollback st st'"
| clear: "clear_completed_state env js st = (Ok u, st') \<Longrightarrow> update_step js env Clear st st'"
| boot: "load_state js (pkg_fs st) = Ok s \<Longrightarrow> state_file_takes env js (fst (boot_transition s)) st \<Longrightarrow>
    prepare_boot env js st = (report, st') \<Longrightarrow> update_step js env Boot st st'"
| boot_unsaved: "load_state js (pkg_fs st) = Ok s \<Longrightarrow> \<not> state_file_takes env js (fst (boot_transition s)) st \<Longrightarrow>
    prepare_boot env js st = (report, st') \<Longrightarrow> update_step js env UnsavedBoot st st'"
| ready: "note_shell_ready env js st = (Ok (Some message), st') \<Longrightarrow> update_step js env ShellReady st st'"
| request: "request_recovery env js reason st = (Ok u, st') \<Longrightarrow> update_step js env Other st st'"
| resume: "clear_recovery_request env js st = (Ok u, st') \<Longrightarrow> update_step js env Other st st'"
| other: "(fs_wf (pkg_fs st) \<Longrightarrow> fs_wf (pkg_fs st')) \<Longrightarrow> load_state js (pkg_fs st') = load_state js (pkg_fs st) \<Longrightarrow>
    update_step js env Other st st'"

text \<open>The same events on the state alone.\<close>

fun machine_step :: "update_event \<Rightarrow> update_state \<Rightarrow> update_state \<Rightarrow> bool" where
  "machine_step Stage s s' \<longleftrightarrow> \<not> blocks_replacement s \<and> (\<exists>t. ut_phase t = Staged \<and> s' = s\<lparr>us_current := Some t\<rparr>)"
| "machine_step Apply s s' \<longleftrightarrow> \<not> blocks_replacement s \<and> (\<exists>t. ut_phase t = PendingConfirmation
    \<and> \<not> ut_boot_started t \<and> \<not> ut_boot_observed t
    \<and> s' = s\<lparr>us_current := Some t, us_recovery_requested := False, us_recovery_reason := None\<rparr>)"
| "machine_step Confirm s s' \<longleftrightarrow> (\<exists>t t'. us_current s = Some t \<and> ut_phase t = PendingConfirmation \<and> ut_boot_observed t
    \<and> us_current s' = Some t' \<and> ut_phase t' = Confirmed)"
| "machine_step Reject s s' \<longleftrightarrow> (\<exists>t t'. us_current s = Some t \<and> ut_phase t = PendingConfirmation
    \<and> us_current s' = Some t' \<and> ut_phase t' = Failed \<and> us_recovery_requested s')"
| "machine_step Rollback s s' \<longleftrightarrow> (\<exists>t t'. us_current s = Some t \<and> us_current s' = Some t' \<and> ut_phase t' = RolledBack)"
| "machine_step Clear s s' \<longleftrightarrow> \<not> blocks_replacement s \<and> us_current s' = None"
| "machine_step Boot s s' \<longleftrightarrow> s' = fst (boot_transition s)"
| "machine_step UnsavedBoot s s' \<longleftrightarrow> s' = s"
| "machine_step ShellReady s s' \<longleftrightarrow> (\<exists>t note. us_current s = Some t \<and> ut_phase t = PendingConfirmation
    \<and> ut_boot_started t \<and> \<not> ut_boot_observed t
    \<and> s' = s\<lparr>us_current := Some (t\<lparr>ut_boot_observed := True, ut_last_boot_note := note\<rparr>)\<rparr>)"
| "machine_step Other s s' \<longleftrightarrow> us_current s' = us_current s
    \<and> (blocks_replacement s \<and> us_recovery_requested s \<longrightarrow> us_recovery_requested s')"

lemma load_state_op_Ok [simp]:
  "load_state_op js st = (Inr s, st') \<longleftrightarrow> load_state js (pkg_fs st) = Inr s \<and> st' = st"
  by (auto simp: load_state_op_def)

lemma ok_op_Ok [simp]: "ok_op x e st = (Inr y, st') \<longleftrightarrow> x = Some y \<and> st' = st"
  by (auto simp: ok_op_def return_op_def fail_op_def split: option.split)

lemma return_op_Ok [simp]: "return_op x st = (Inr y, st') \<longleftrightarrow> x = y \<and> st' = st"
  by (auto simp: return_op_def)

lemma fail_op_Ok [simp]: "fail_op e st \<noteq> (Inr y, st')"
  by (simp add: fail_op_def)

lemma done_op_Ok [simp]: "done_op log x st = (Inr y, st') \<longleftrightarrow> x = y \<and> st' = log st"
  by (auto simp: done_op_def)

lemma ensure_state_replaceable_Ok [simp]:
  "ensure_state_replaceable s st = (Inr u, st') \<longleftrightarrow> \<not> blocks_replacement s \<and> st' = st"
  by (auto simp: ensure_state_replaceable_def)

lemma pending_transaction_Ok [simp]:
  "pending_transaction s st = (Inr t, st') \<longleftrightarrow> us_current s = Some t \<and> ut_phase t = PendingConfirmation \<and> st' = st"
  by (auto simp: pending_transaction_def split: option.split)

lemma require_Ok:
  "require_pkg_install env st = (Inr u, st') \<Longrightarrow> pkg_fs st' = pkg_fs st \<and> pk_manager st' = pk_manager st"
  by (auto simp: require_pkg_install_def Let_def split: prod.splits sum.splits)

lemma read_local_bundle_Ok: "read_local_bundle path st = (Inr r, st') \<Longrightarrow> st' = st"
  by (auto simp: read_local_bundle_def split: sum.splits)

lemma read_op_Ok: "read_op path e st = (Inr r, st') \<longleftrightarrow> fs_read path (pkg_fs st) = Inr r \<and> st' = st"
  by (auto simp: read_op_def split: sum.splits)

lemma verify_local_Ok:
  "verify_local_bundle_bytes env bytes st = (Inr v, st') \<Longrightarrow> pkg_fs st' = pkg_fs st \<and> pk_manager st' = pk_manager st"
  by (auto simp: verify_local_bundle_bytes_def Let_def split: option.splits sum.splits)

section \<open>The operations implement the machine\<close>

definition implements :: "update_json \<Rightarrow> update_event \<Rightarrow> pkg_state \<Rightarrow> pkg_state \<Rightarrow> bool" where
  "implements js ev st st' \<longleftrightarrow> fs_wf (pkg_fs st')
    \<and> (\<exists>s s'. load_state js (pkg_fs st) = Ok s \<and> load_state js (pkg_fs st') = Ok s' \<and> machine_step ev s s')"

lemma implementsI:
  assumes "codec_ok js" and "load_state js (pkg_fs st) = Ok s" and "fs_wf (pkg_fs st1)"
    and "save_state env js s' st1 = (Inr u, st2)" and "pkg_fs st' = pkg_fs st2" and "machine_step ev s s'"
  shows "implements js ev st st'"
  using save_state_Ok [OF assms(1,3,4)] assms(2,5,6) unfolding implements_def by auto

lemma bind_op_OkE:
  assumes "bind_op m f s = (Inr y, s')"
  obtains x s1 where "m s = (Inr x, s1)" "f x s1 = (Inr y, s')"
  using assms by (auto simp: bind_op_Ok)

lemma implements_save:
  assumes "bind_op (save_state env js s') (\<lambda>_. done_op log x) st1 = (Inr y, st')" and "codec_ok js"
    and "\<And>st. pkg_fs (log st) = pkg_fs st" and "fs_wf (pkg_fs st1)" and "load_state js (pkg_fs st) = Ok s"
    and "machine_step ev s s'"
  shows "implements js ev st st'"
  using assms(1)
proof (elim bind_op_OkE)
  fix u st2
  assume "save_state env js s' st1 = (Inr u, st2)" and "done_op log x st2 = (Inr y, st')"
  then show ?thesis using implementsI [OF assms(2,5,4), of env s' u st2 st' ev] assms(3,6) by simp
qed

lemma confirm_implements:
  assumes "codec_ok js" and "fs_wf (pkg_fs st)" and "confirm_pending_update env js st = (Ok t', st')"
  shows "implements js Confirm st st'"
  using assms(3) unfolding confirm_pending_update_def
proof (elim bind_op_OkE, goal_cases)
  case (1 u st1 s st2 t st3)
  then have "pkg_fs st3 = pkg_fs st" "load_state js (pkg_fs st) = Ok s" "us_current s = Some t"
    "ut_phase t = PendingConfirmation" "ut_boot_observed t" by (auto dest!: require_Ok split: if_splits)
  with 1(4) show ?case
    by (simp add: Let_def) (erule implements_save, auto simp: assms)
qed

lemma reject_implements:
  assumes "codec_ok js" and "fs_wf (pkg_fs st)" and "reject_pending_update env js reason st = (Ok t', st')"
  shows "implements js Reject st st'"
  using assms(3) unfolding reject_pending_update_def
proof (elim bind_op_OkE, goal_cases)
  case (1 u st1 s st2 t st3)
  then have "pkg_fs st3 = pkg_fs st" "load_state js (pkg_fs st) = Ok s" "us_current s = Some t"
    "ut_phase t = PendingConfirmation" by (auto dest!: require_Ok)
  with 1(4) show ?case
    by (simp add: Let_def) (erule implements_save, auto simp: assms)
qed

lemma clear_implements:
  assumes "codec_ok js" and "fs_wf (pkg_fs st)" and "clear_completed_state env js st = (Ok u', st')"
  shows "implements js Clear st st'"
  using assms(3) unfolding clear_completed_state_def
proof (elim bind_op_OkE, goal_cases)
  case (1 u st1 s st2)
  then have r: "pkg_fs st2 = pkg_fs st" "load_state js (pkg_fs st) = Ok s" "\<not> blocks_replacement s"
    by (auto dest!: require_Ok split: if_splits)
  then have "save_state env js (s\<lparr>us_current := None,
      us_recovery_reason := if us_recovery_requested s then us_recovery_reason s else None\<rparr>) st2 = (Inr u', st')"
    using 1(3) by simp
  from implementsI [OF assms(1) r(2) _ this, of st' Clear] show ?case using r assms(2) by simp
qed

lemma request_implements:
  assumes "codec_ok js" and "fs_wf (pkg_fs st)" and "request_recovery env js reason st = (Ok u', st')"
  shows "implements js Other st st'"
  using assms(3) unfolding request_recovery_def
proof (elim bind_op_OkE [of "load_state_op js"], goal_cases)
  case (1 s st1)
  then show ?case by (elim implements_save) (simp_all add: assms)
qed

lemma resume_implements:
  assumes "codec_ok js" and "fs_wf (pkg_fs st)" and "clear_recovery_request env js st = (Ok u', st')"
  shows "implements js Other st st'"
  using assms(3) unfolding clear_recovery_request_def
proof (elim bind_op_OkE [of "load_state_op js"], goal_cases)
  case (1 s st1)
  then have r: "st1 = st" "load_state js (pkg_fs st) = Ok s" "\<not> blocks_replacement s" by (auto split: if_splits)
  with 1(2) show ?case by (simp only: if_False) (erule implements_save, auto simp: assms)
qed

lemma ready_implements:
  assumes "codec_ok js" and "fs_wf (pkg_fs st)" and "note_shell_ready env js st = (Ok (Some message), st')"
  shows "implements js ShellReady st st'"
  using assms(3) unfolding note_shell_ready_def
proof (elim bind_op_OkE [of "load_state_op js"], goal_cases)
  case (1 s st1)
  then obtain t where r: "st1 = st" "load_state js (pkg_fs st) = Ok s" "us_current s = Some t"
    "ut_phase t = PendingConfirmation" "ut_boot_started t" "\<not> ut_boot_observed t"
    by (auto split: option.splits if_splits)
  let ?s' = "s\<lparr>us_current := Some (t\<lparr>ut_boot_observed := True,
      ut_last_boot_note := Some ''shell-ready reached; confirmation required''\<rparr>)\<rparr>"
  have "bind_op (save_state env js ?s') (\<lambda>_. return_op (Some (ut_package_name t @ '' '' @ ut_to_version t
      @ '' reached shell-ready; confirmation required''))) st = (Inr (Some message), st')"
    using 1(2) r(3-6) unfolding r(1) by (simp only: option.case if_False if_True simp_thms)
  then obtain u st2 where save: "save_state env js ?s' st = (Inr u, st2)"
    and "return_op (Some (ut_package_name t @ '' '' @ ut_to_version t
      @ '' reached shell-ready; confirmation required'')) st2 = (Inr (Some message) :: pkg_error + string option, st')"
    by (rule bind_op_OkE)
  then have "st' = st2" by simp
  moreover have "machine_step ShellReady s ?s'" using r(3-6) by auto
  ultimately show ?case using implementsI [OF assms(1) r(2) assms(2) save, of st' ShellReady] by blast
qed

lemma staged_transaction_phase: "ut_phase (staged_transaction mf v src) = Staged"
  by (simp add: staged_transaction_def)

lemma applied_transaction_phase:
  "ut_phase (applied_transaction env mf prev src so) = PendingConfirmation"
  "\<not> ut_boot_started (applied_transaction env mf prev src so)"
  "\<not> ut_boot_observed (applied_transaction env mf prev src so)"
  "ut_rollback_path (applied_transaction env mf prev src so) = rollback_record_path (mn_name mf)"
  by (simp_all add: applied_transaction_def)

lemma stage_implements:
  assumes "codec_ok js" and "fs_wf (pkg_fs st)" and "stage_bundle_from_path env js path st = (Ok t', st')"
  shows "implements js Stage st st'"
proof -
  obtain u st1 resolved bytes st2 v st3 s where pre: "require_pkg_install env st = (Inr u, st1)"
    "read_local_bundle path st1 = (Inr (resolved, bytes), st2)" "verify_local_bundle_bytes env bytes st2 = (Inr v, st3)"
    "load_state js (pkg_fs st3) = Inr s" "\<not> blocks_replacement s"
    and rest: "(let manifest = bundle_manifest (vp_bundle v);
          staged_path = staged_bundle_path (mn_name manifest) (mn_version manifest)
      in bind_op (write_system_op env staged_path bytes) (\<lambda>_ st.
         let transaction = staged_transaction manifest (installed_version_for (mn_name manifest) (pk_manager st)) resolved
         in bind_op (save_state env js (s\<lparr>us_current := Some transaction\<rparr>)) (\<lambda>_.
           done_op (log_update_state env (mn_name manifest) (mn_version manifest) ''staged'' staged_path)
             transaction) st)) st3 = (Inr t', st')"
    using assms(3) unfolding stage_bundle_from_path_def
    by (elim bind_op_OkE [of "require_pkg_install _"] bind_op_OkE [of "read_local_bundle _"]) (auto simp: bind_op_Ok)
  have same: "pkg_fs st3 = pkg_fs st" using pre by (auto dest!: require_Ok read_local_bundle_Ok verify_local_Ok)
  from rest [unfolded Let_def] show ?thesis
  proof (rule bind_op_OkE)
    fix w st4
    assume written: "write_system_op env (staged_bundle_path (mn_name (bundle_manifest (vp_bundle v)))
        (mn_version (bundle_manifest (vp_bundle v)))) bytes st3 = (Inr w, st4)"
    have wf: "fs_wf (pkg_fs st4)"
      using confinedD [OF confined_write_system [OF subset_UNIV] written] same assms(2) stays_wf by fastforce
    assume "bind_op (save_state env js (s\<lparr>us_current := Some (staged_transaction (bundle_manifest (vp_bundle v))
        (installed_version_for (mn_name (bundle_manifest (vp_bundle v))) (pk_manager st4)) resolved)\<rparr>)) (\<lambda>_.
        done_op (log_update_state env (mn_name (bundle_manifest (vp_bundle v))) (mn_version (bundle_manifest (vp_bundle v)))
          ''staged'' (staged_bundle_path (mn_name (bundle_manifest (vp_bundle v))) (mn_version (bundle_manifest (vp_bundle v)))))
          (staged_transaction (bundle_manifest (vp_bundle v))
            (installed_version_for (mn_name (bundle_manifest (vp_bundle v))) (pk_manager st4)) resolved)) st4 = (Inr t', st')"
    then show ?thesis
      using implements_save [OF _ assms(1) _ wf, of env _ _ _ _ st' st s Stage] pre(4,5) same
        machine_step.simps(1) [of s] staged_transaction_phase
      by (metis log_simps(1))
  qed
qed

lemma apply_verified_bundle_bytes_OkE:
  assumes "apply_verified_bundle_bytes env js source_path bytes staged_override st = (Ok t', st')"
  obtains s v mf prev st1 u st2 n uid i st3 w st4 where "load_state js (pkg_fs st) = Ok s" "\<not> blocks_replacement s"
    "verify_local_bundle_bytes env bytes st = (Inr v, st1)"
    "mf = bundle_manifest (vp_bundle v)" "prev = find_installed (mn_name mf) (pk_manager st)"
    "pkg_fs st1 = pkg_fs st" "pk_manager st1 = pk_manager st"
    "store_rollback_record env js (rollback_record_path (mn_name mf)) (capture_rollback_record env mf prev (pkg_fs st)) st1
      = (Inr u, st2)"
    "apply_verified_bundle env v n uid st2 = (Inr i, st3)"
    "save_state env js (s\<lparr>us_current := Some t', us_recovery_requested := False, us_recovery_reason := None\<rparr>) st3 = (Inr w, st4)"
    "t' = applied_transaction env mf prev source_path staged_override"
    "pkg_fs st' = pkg_fs st4" "pk_manager st' = pk_manager st4"
proof -
  obtain s v st1 where pre: "load_state js (pkg_fs st) = Inr s" "\<not> blocks_replacement s"
    "verify_local_bundle_bytes env bytes st = (Inr v, st1)"
    and rest: "(let manifest = bundle_manifest (vp_bundle v);
          previous_installed = find_installed (mn_name manifest) (pk_manager st1);
          rollback = capture_rollback_record env manifest previous_installed (pkg_fs st1);
          transaction = applied_transaction env manifest previous_installed source_path staged_override
      in bind_op (store_rollback_record env js (rollback_record_path (mn_name manifest)) rollback) (\<lambda>_ st.
         bind_op (apply_verified_bundle env v (word_of_nat (length bytes))
             (exec_current_uid env (os_session (pk_os st)))) (\<lambda>_.
         bind_op (save_state env js (s\<lparr>us_current := Some transaction, us_recovery_requested := False,
             us_recovery_reason := None\<rparr>)) (\<lambda>_.
           done_op (log_update_state env (mn_name manifest) (mn_version manifest) ''pending-confirmation'' source_path)
             transaction)) st) st1) = (Inr t', st')"
    using assms unfolding apply_verified_bundle_bytes_def
    by (elim bind_op_OkE [of "load_state_op _"] bind_op_OkE [of "ensure_state_replaceable _"]
        bind_op_OkE [of "verify_local_bundle_bytes _ _"]) auto
  have same: "pkg_fs st1 = pkg_fs st" "pk_manager st1 = pk_manager st" using verify_local_Ok [OF pre(3)] by simp_all
  from rest [unfolded Let_def] show ?thesis
    by (elim bind_op_OkE) (rule that [OF pre refl refl same], simp_all add: same)
qed

lemma apply_implements:
  assumes "codec_ok js" and "fs_wf (pkg_fs st)"
    and "apply_verified_bundle_bytes env js source_path bytes staged_override st = (Ok t', st')"
  shows "implements js Apply st st'"
proof -
  from assms(3) obtain s v mf prev st1 u st2 n uid i st3 w st4 where r: "load_state js (pkg_fs st) = Ok s"
    "\<not> blocks_replacement s" "pkg_fs st1 = pkg_fs st"
    and store: "store_rollback_record env js (rollback_record_path (mn_name mf))
      (capture_rollback_record env mf prev (pkg_fs st)) st1 = (Inr u, st2)"
    and app: "apply_verified_bundle env v n uid st2 = (Inr i, st3)"
    and save: "save_state env js (s\<lparr>us_current := Some t', us_recovery_requested := False,
      us_recovery_reason := None\<rparr>) st3 = (Inr w, st4)"
    and t': "t' = applied_transaction env mf prev source_path staged_override" and st': "pkg_fs st' = pkg_fs st4"
    by (rule apply_verified_bundle_bytes_OkE)
  have keep: "confined UNIV (store_rollback_record env js (rollback_record_path (mn_name mf))
      (capture_rollback_record env mf prev (pkg_fs st)))"
    unfolding store_rollback_record_def by (intro confined_intro subset_UNIV)
  have "fs_wf (pkg_fs st2)" using confinedD [OF keep store] r(3) assms(2) stays_wf by fastforce
  then have "fs_wf (pkg_fs st3)"
    using stays_apply_verified_bundle [OF refl subset_UNIV UNIV_I, of st2 env v n uid] app stays_wf by fastforce
  moreover have "machine_step Apply s (s\<lparr>us_current := Some t', us_recovery_requested := False, us_recovery_reason := None\<rparr>)"
    unfolding machine_step.simps using r(2) applied_transaction_phase t' by blast
  ultimately show ?thesis using implementsI [OF assms(1) r(1) _ save st'] by blast
qed

lemma confined_restore_file [confined_intro]: "confined UNIV (restore_file f)"
proof (cases "rf_existed f")
  case True
  then show ?thesis
    using load_file_from_disk_wf
    by (auto simp: confined_def stays_def restore_file_def pkg_fs_def split: prod.splits sum.splits bool.splits)
      (metis snd_conv)+
next
  case False
  then have "restore_file f = system_delete (rf_path f)" by (auto simp: restore_file_def)
  then show ?thesis by (simp add: confined_intro)
qed

lemma confined_restore_files [confined_intro]: "confined UNIV (restore_files files)"
  by (induction files) (simp_all add: confined_intro)

lemma restore_installed_via:
  "\<exists>f. restore_installed env r = (\<lambda>st. save_installed_list env (st\<lparr>pk_manager := f st\<rparr>))"
  by (auto simp: restore_installed_def Let_def fun_eq_iff)

lemma confined_restore_installed [confined_intro]:
  assumes "LOCAL_INSTALLED_PATH \<in> P" shows "confined P (restore_installed env r)"
proof -
  obtain f where "restore_installed env r = (\<lambda>st. save_installed_list env (st\<lparr>pk_manager := f st\<rparr>))"
    using restore_installed_via by blast
  then show ?thesis using assms by (simp add: confined_manager_then confined_intro)
qed

lemma load_rollback_record_Ok:
  "load_rollback_record js path st = (Inr r, st') \<longleftrightarrow>
    (\<exists>bytes. fs_read path (pkg_fs st) = Ok bytes \<and> uj_rollback_of_json js bytes = Some r) \<and> st' = st"
  by (auto simp: load_rollback_record_def bind_op_Ok read_op_Ok)

lemma rollback_OkE:
  assumes "rollback_current_update env js st = (Ok t', st')"
  obtains st1 s t bytes r u st2 u' st3 w st4 where "pkg_fs st1 = pkg_fs st" "pk_manager st1 = pk_manager st"
    "load_state js (pkg_fs st) = Ok s" "us_current s = Some t" "fs_read (ut_rollback_path t) (pkg_fs st) = Ok bytes"
    "uj_rollback_of_json js bytes = Some r" "restore_files (rr_files r) st1 = (Inr u, st2)"
    "restore_installed env r st2 = (Inr u', st3)"
    "save_state env js (s\<lparr>us_current := Some t', us_recovery_requested := False, us_recovery_reason := None\<rparr>) st3 = (Inr w, st4)"
    "ut_phase t' = RolledBack" "pkg_fs st' = pkg_fs st4" "pk_manager st' = pk_manager st4"
proof -
  show ?thesis
    using assms [unfolded rollback_current_update_def Let_def]
  proof (elim bind_op_OkE, goal_cases)
    case (1 u0 st1 s st1a t st1b r st1c u st2 u' st3 w st4)
    note same = require_Ok [OF 1(1)]
    obtain bytes where "fs_read (ut_rollback_path t) (pkg_fs st1) = Ok bytes" "uj_rollback_of_json js bytes = Some r"
      and st: "st1a = st1" "st1b = st1" "st1c = st1"
      using 1(2-4) by (auto simp: load_rollback_record_Ok)
    moreover have "ut_phase t' = RolledBack" using 1(8) by auto
    ultimately show ?case
      using that [of st1 s t bytes r u st2 u' st3 w st4] 1(2,3,5-8) same st by simp
  qed
qed

lemma rollback_implements:
  assumes "codec_ok js" and "fs_wf (pkg_fs st)" and "rollback_current_update env js st = (Ok t', st')"
  shows "implements js Rollback st st'"
proof -
  from assms(3) obtain st1 s t r u st2 u' st3 w st4 where q: "pkg_fs st1 = pkg_fs st"
    "load_state js (pkg_fs st) = Ok s" "us_current s = Some t" "ut_phase t' = RolledBack"
    and restore: "restore_files (rr_files r) st1 = (Inr u, st2)" and list: "restore_installed env r st2 = (Inr u', st3)"
    and save: "save_state env js (s\<lparr>us_current := Some t', us_recovery_requested := False,
      us_recovery_reason := None\<rparr>) st3 = (Inr w, st4)" and st': "pkg_fs st' = pkg_fs st4"
    by (rule rollback_OkE)
  have "fs_wf (pkg_fs st2)" using confinedD [OF confined_restore_files restore] q(1) assms(2) stays_wf by fastforce
  then have "fs_wf (pkg_fs st3)" using confinedD [OF confined_restore_installed [OF UNIV_I] list] stays_wf by blast
  moreover have "machine_step Rollback s (s\<lparr>us_current := Some t', us_recovery_requested := False,
      us_recovery_reason := None\<rparr>)"
    unfolding machine_step.simps using q(3,4) by simp
  ultimately show ?thesis using implementsI [OF assms(1) q(2) _ save st'] by blast
qed

lemma save_state_result:
  "pkg_fs st1 = pkg_fs st \<Longrightarrow> fst (save_state env js s st1) = fst (save_state env js s st)"
  by (cases "uj_state_to_json js s")
    (auto simp: save_state_def ok_op_def bind_op_def fail_op_def return_op_def write_system_op_def fs_op_def Let_def
      split: sum.split)

lemma prepare_boot_state:
  assumes "codec_ok js" and "fs_wf (pkg_fs st)" and "load_state js (pkg_fs st) = Ok s"
    and "prepare_boot env js st = (report, st')"
  shows "fs_wf (pkg_fs st')" and "load_state js (pkg_fs st')
      = Ok (if state_file_takes env js (fst (boot_transition s)) st then fst (boot_transition s) else s)"
proof -
  obtain s' summary failure where tr: "boot_transition s = (s', summary, failure)" by (metis prod_cases3)
  define st1 where "st1 = log_boot_failure env s failure st"
  have same: "pkg_fs st1 = pkg_fs st" by (simp add: st1_def log_boot_failure_def split: option.split)
  obtain r where save: "save_state env js s' st1 = (r, st')"
    using assms(3,4) by (cases "save_state env js s' st1") (simp add: prepare_boot_def tr st1_def Let_def)
  then have r: "state_file_takes env js s' st \<longleftrightarrow> r = Ok ()"
    using save_state_result [OF same, of env js s'] by (simp add: state_file_takes_def)
  note out = save_state_outcome [OF assms(1) _ save, unfolded same, OF assms(2)]
  show "fs_wf (pkg_fs st')" using out by simp
  show "load_state js (pkg_fs st')
      = Ok (if state_file_takes env js (fst (boot_transition s)) st then fst (boot_transition s) else s)"
    using out r assms(3) by (cases r) (simp_all add: tr)
qed

lemma update_step_implements:
  assumes "update_step js env ev st st'" and "codec_ok js" and "fs_wf (pkg_fs st)" and "load_state js (pkg_fs st) = Ok s"
  shows "implements js ev st st'"
  using assms
proof (induction rule: update_step.induct)
  case (apply_path path st t st')
  from apply_path(1) obtain u st1 resolved bytes st2 where pre: "require_pkg_install env st = (Inr u, st1)"
    "read_local_bundle path st1 = (Inr (resolved, bytes), st2)"
    and app: "apply_verified_bundle_bytes env js resolved bytes None st2 = (Inr t, st')"
    unfolding apply_bundle_from_path_def by (elim bind_op_OkE) auto
  have same: "pkg_fs st2 = pkg_fs st" using pre by (auto dest!: require_Ok read_local_bundle_Ok)
  with apply_implements [OF apply_path(2) _ app] apply_path(3) show ?case by (simp add: implements_def)
next
  case (apply_staged st t st')
  from apply_staged(1) obtain u st1 path bytes where pre: "require_pkg_install env st = (Inr u, st1)"
    and app: "apply_verified_bundle_bytes env js path bytes (Some path) st1 = (Inr t, st')"
    unfolding apply_staged_bundle_def by (elim bind_op_OkE) (auto simp: read_op_Ok)
  with apply_implements [OF apply_staged(2) _ app] apply_staged(3) require_Ok [OF pre] show ?case
    by (simp add: implements_def)
next
  case (boot st s report st')
  from prepare_boot_state [OF boot(4,5,1,3)] boot(1,2) show ?case by (simp add: implements_def)
next
  case (boot_unsaved st s report st')
  from prepare_boot_state [OF boot_unsaved(4,5,1,3)] boot_unsaved(1,2) show ?case by (simp add: implements_def)
next
  case (other st st')
  then show ?case by (auto simp: implements_def)
qed (blast intro: stage_implements confirm_implements reject_implements rollback_implements clear_implements
    ready_implements request_implements resume_implements)+

section \<open>The history behind a state\<close>

inductive update_run :: "update_json \<Rightarrow> pkg_state \<Rightarrow> (('pk, 'sg) pkg_env \<times> update_event) list \<Rightarrow> pkg_state \<Rightarrow> bool"
  for js st0 where
  start: "update_run js st0 [] st0"
| event: "update_run js st0 evs st \<Longrightarrow> update_step js env ev st st' \<Longrightarrow> update_run js st0 (evs @ [(env, ev)]) st'"

definition history :: "('a \<times> update_event) list \<Rightarrow> update_event list" where
  "history evs = filter (\<lambda>ev. ev \<noteq> Other \<and> ev \<noteq> UnsavedBoot) (map snd evs)"

definition ends_with :: "update_event list set \<Rightarrow> update_event list \<Rightarrow> bool" where
  "ends_with W h \<longleftrightarrow> (\<exists>w\<in>W. \<exists>n. suffix (w @ replicate n Boot) h)"

definition failure_words :: "update_event list set" where
  "failure_words = {[Apply, Reject], [Apply, Boot, Reject], [Apply, Boot, ShellReady, Reject],
     [Apply, Boot, Boot], [Apply, Boot, ShellReady, Boot]}"

fun explained :: "update_transaction \<Rightarrow> update_phase \<Rightarrow> bool \<Rightarrow> update_event list \<Rightarrow> bool" where
  "explained t Staged recovery h \<longleftrightarrow> ends_with {[Stage]} h"
| "explained t PendingConfirmation recovery h \<longleftrightarrow>
    suffix (Apply # (if ut_boot_started t then [Boot] else []) @ (if ut_boot_observed t then [ShellReady] else [])) h
    \<and> (ut_boot_observed t \<longrightarrow> ut_boot_started t)"
| "explained t Confirmed recovery h \<longleftrightarrow> ends_with {[Apply, Boot, ShellReady, Confirm]} h"
| "explained t Failed recovery h \<longleftrightarrow> recovery \<and> ends_with failure_words h"
| "explained t RolledBack recovery h \<longleftrightarrow> ends_with {[Rollback]} h"

definition state_explained :: "update_state \<Rightarrow> update_event list \<Rightarrow> bool" where
  "state_explained s h \<longleftrightarrow> (case us_current s of None \<Rightarrow> True
    | Some t \<Rightarrow> explained t (ut_phase t) (us_recovery_requested s) h)"

lemma ends_with_now: "w \<in> W \<Longrightarrow> suffix w h \<Longrightarrow> ends_with W h"
  unfolding ends_with_def by (intro bexI [of _ w] exI [of _ 0]) simp_all

lemma suffix_now: "suffix w h \<Longrightarrow> suffix (w @ [ev]) (h @ [ev])"
  by simp

lemma ends_with_boot: "ends_with W h \<Longrightarrow> ends_with W (h @ [Boot])"
proof -
  assume "ends_with W h"
  then obtain w n where w: "w \<in> W" "suffix (w @ replicate n Boot) h" by (auto simp: ends_with_def)
  then have "suffix ((w @ replicate n Boot) @ [Boot]) (h @ [Boot])" by (simp only: suffix_now)
  then have "suffix (w @ replicate (Suc n) Boot) (h @ [Boot])" by (simp add: replicate_append_same)
  with w(1) show ?thesis unfolding ends_with_def by blast
qed

lemma boot_explained:
  assumes "state_explained s h" shows "state_explained (fst (boot_transition s)) (h @ [Boot])"
proof (cases "us_current s")
  case None
  then show ?thesis by (simp add: boot_transition_def state_explained_def)
next
  case (Some t)
  note ex = assms [unfolded state_explained_def Some option.case]
  show ?thesis
  proof (cases "ut_phase t")
    case PendingConfirmation
    then have pending: "suffix (Apply # (if ut_boot_started t then [Boot] else [])
        @ (if ut_boot_observed t then [ShellReady] else [])) h" "ut_boot_observed t \<longrightarrow> ut_boot_started t"
      using ex by simp_all
    consider "\<not> ut_boot_started t" "\<not> ut_boot_observed t" | "ut_boot_started t" "\<not> ut_boot_observed t"
      | "ut_boot_started t" "ut_boot_observed t" using pending(2) by blast
    then show ?thesis
    proof cases
      case 1
      then have "suffix [Apply, Boot] (h @ [Boot])" using suffix_now [OF pending(1), of Boot] by simp
      then show ?thesis using Some PendingConfirmation 1 by (simp add: boot_transition_def boot_step_def state_explained_def)
    next
      case 2
      then have "suffix [Apply, Boot, Boot] (h @ [Boot])" using suffix_now [OF pending(1), of Boot] by simp
      then have "ends_with failure_words (h @ [Boot])" by (rule ends_with_now [rotated]) (simp add: failure_words_def)
      then show ?thesis using Some PendingConfirmation 2
        by (simp add: boot_transition_def boot_step_def fail_boot_def state_explained_def)
    next
      case 3
      then have "suffix [Apply, Boot, ShellReady, Boot] (h @ [Boot])" using suffix_now [OF pending(1), of Boot] by simp
      then have "ends_with failure_words (h @ [Boot])" by (rule ends_with_now [rotated]) (simp add: failure_words_def)
      then show ?thesis using Some PendingConfirmation 3
        by (simp add: boot_transition_def boot_step_def fail_boot_def state_explained_def)
    qed
  qed (use ex Some in \<open>simp_all add: boot_transition_def boot_step_def state_explained_def ends_with_boot\<close>)
qed

lemma pending_explained:
  assumes "state_explained s h" and "us_current s = Some t" and "ut_phase t = PendingConfirmation"
  shows "suffix (Apply # (if ut_boot_started t then [Boot] else []) @ (if ut_boot_observed t then [ShellReady] else [])) h"
    and "ut_boot_observed t \<Longrightarrow> ut_boot_started t"
  using assms by (simp_all add: state_explained_def)

lemma confirm_explained:
  assumes "state_explained s h" and "machine_step Confirm s s'" shows "state_explained s' (h @ [Confirm])"
proof -
  obtain t t' where m: "us_current s = Some t" "ut_phase t = PendingConfirmation" "ut_boot_observed t"
    "us_current s' = Some t'" "ut_phase t' = Confirmed" using assms(2) by auto
  note p = pending_explained [OF assms(1) m(1,2)]
  have "suffix [Apply, Boot, ShellReady, Confirm] (h @ [Confirm])"
    using suffix_now [OF p(1), of Confirm] p(2) m(3) by simp
  then show ?thesis using m by (simp add: state_explained_def ends_with_now)
qed

lemma reject_explained:
  assumes "state_explained s h" and "machine_step Reject s s'" shows "state_explained s' (h @ [Reject])"
proof -
  obtain t t' where m: "us_current s = Some t" "ut_phase t = PendingConfirmation"
    "us_current s' = Some t'" "ut_phase t' = Failed" "us_recovery_requested s'" using assms(2) by auto
  note p = pending_explained [OF assms(1) m(1,2)]
  have "suffix (Apply # (if ut_boot_started t then [Boot] else []) @ (if ut_boot_observed t then [ShellReady] else []) @ [Reject])
      (h @ [Reject])"
    using suffix_now [OF p(1), of Reject] by simp
  then have "ends_with failure_words (h @ [Reject])"
    by (rule ends_with_now [rotated]) (use p(2) in \<open>auto simp: failure_words_def\<close>)
  then show ?thesis using m by (simp add: state_explained_def)
qed

lemma ready_explained:
  assumes "state_explained s h" and "machine_step ShellReady s s'" shows "state_explained s' (h @ [ShellReady])"
proof -
  obtain t n where m: "us_current s = Some t" "ut_phase t = PendingConfirmation" "ut_boot_started t"
    "\<not> ut_boot_observed t" "s' = s\<lparr>us_current := Some (t\<lparr>ut_boot_observed := True, ut_last_boot_note := n\<rparr>)\<rparr>"
    using assms(2) by auto
  have "suffix [Apply, Boot, ShellReady] (h @ [ShellReady])"
    using suffix_now [OF pending_explained(1) [OF assms(1) m(1,2)], of ShellReady] m(3,4) by simp
  then show ?thesis using m by (simp add: state_explained_def)
qed

lemma other_explained:
  assumes "state_explained s h" and "machine_step Other s s'" shows "state_explained s' h"
proof (cases "us_current s")
  case (Some t)
  then show ?thesis using assms by (cases "ut_phase t") (auto simp: state_explained_def blocks_replacement_def)
qed (use assms in \<open>simp add: state_explained_def\<close>)

lemma machine_explained:
  assumes "state_explained s h" and "machine_step ev s s'"
  shows "state_explained s' (if ev = Other \<or> ev = UnsavedBoot then h else h @ [ev])"
proof (cases ev)
  case Boot
  then show ?thesis using assms boot_explained by simp
qed (use assms confirm_explained reject_explained ready_explained other_explained in
    \<open>auto simp: state_explained_def ends_with_now\<close>)

lemma update_run_explained:
  assumes "update_run js st0 evs st" and "codec_ok js" and "fs_wf (pkg_fs st0)"
    and "load_state js (pkg_fs st0) = Ok s0" and "us_current s0 = None"
  shows "fs_wf (pkg_fs st) \<and> (\<exists>s. load_state js (pkg_fs st) = Ok s \<and> state_explained s (history evs))"
  using assms(1)
proof induction
  case start
  then show ?case using assms(3-5) by (simp add: state_explained_def)
next
  case (event evs st env ev st')
  then obtain s where s: "fs_wf (pkg_fs st)" "load_state js (pkg_fs st) = Ok s" "state_explained s (history evs)" by blast
  from update_step_implements [OF event(2) assms(2) s(1,2)]
  obtain s' where "fs_wf (pkg_fs st')" "load_state js (pkg_fs st') = Ok s'" "machine_step ev s s'"
    using s(2) by (auto simp: implements_def)
  moreover have "history (evs @ [(env, ev)])
      = (if ev = Other \<or> ev = UnsavedBoot then history evs else history evs @ [ev])"
    by (simp add: history_def)
  ultimately show ?case using machine_explained [OF s(3)] by auto
qed

section \<open>Rollback\<close>

lemma canonical_loop_prefix: "canonical_loop cs first acc = Inr r \<Longrightarrow> prefix acc r"
  by (induction cs first acc rule: canonical_loop.induct)
    (auto split: if_splits dest: append_prefixD)

lemma trim_rollback_path: "trim (rollback_record_path name) = rollback_record_path name"
proof -
  have "trim_start (rollback_record_path name) = rollback_record_path name"
    unfolding trim_start_def
    by (subst trim_with.simps) (simp add: ws_at_def ws_encodings_def rollback_record_path_def ROLLBACK_DIR_PATH_def)
  moreover have "trim_end (rollback_record_path name) = rollback_record_path name"
    unfolding trim_end_def
    by (subst trim_with.simps) (simp add: ws_at_def ws_encodings_def rollback_record_path_def)
  ultimately show ?thesis by (simp add: trim_def)
qed

lemma rollback_path_canonical:
  assumes "canonical_path (rollback_record_path name) = Inr c"
  shows "prefix ''/var/pkg/rollback'' c"
proof -
  let ?rest = "split_on (CHR ''/'') (name @ ''.json'')"
  have "split_on (CHR ''/'') (rollback_record_path name) = [] # ''var'' # ''pkg'' # ''rollback'' # ?rest"
    by (simp add: rollback_record_path_def ROLLBACK_DIR_PATH_def split: list.split)
  then have "canonical_loop ([] # ''var'' # ''pkg'' # ''rollback'' # ?rest) True ''/'' = Inr c"
    using assms unfolding canonical_path_def trim_rollback_path
    by (auto simp: Let_def rollback_record_path_def ROLLBACK_DIR_PATH_def split: if_splits)
  moreover have "validate_canonical_component ''var'' = Inr ()" "validate_canonical_component ''pkg'' = Inr ()"
    "validate_canonical_component ''rollback'' = Inr ()" by code_simp+
  ultimately have "canonical_loop ?rest False ''/var/pkg/rollback'' = Inr c" by simp
  then show ?thesis by (rule canonical_loop_prefix)
qed

lemma rollback_path_apart:
  "target (rollback_record_path name) \<inter> {UPDATE_STATE_PATH, LOCAL_INSTALLED_PATH} = {}"
  using rollback_path_canonical [of name]
  by (auto simp: target_def UPDATE_STATE_PATH_def LOCAL_INSTALLED_PATH_def)

lemma stays_read:
  assumes "stays P st st'" and "fs_wf (pkg_fs st)" and "target path \<inter> P = {}"
  shows "fs_read path (pkg_fs st') = fs_read path (pkg_fs st)"
proof (cases "canonical_path path")
  case (Inr c)
  then have "fs_find c (pkg_fs st') = fs_find c (pkg_fs st)"
    using assms by (intro stays_find) (auto simp: target_def)
  then show ?thesis using Inr by (simp add: fs_read_def read_as_def)
qed (simp add: fs_read_def read_as_def)

lemma verify_local_bundle: "verify_local_bundle_bytes env bytes st = (Inr v, st') \<Longrightarrow> en_bundle_of_json env bytes = Some (vp_bundle v)"
  by (auto simp: verify_local_bundle_bytes_def Let_def verified_of_def split: option.splits sum.splits)

text \<open>After a successful application the rollback record on disk is the capture of the files before it.\<close>

lemma applied_record:
  fixes st :: pkg_state
  assumes "codec_ok js" and "fs_wf (pkg_fs st)"
    and app: "apply_verified_bundle_bytes env js src bytes so st = (Ok t, st1)"
    and "en_bundle_of_json env bytes = Some b" and "mf = bundle_manifest b"
    and "prev = find_installed (mn_name mf) (pk_manager st)"
    and apart: "target (rollback_record_path (mn_name mf)) \<inter> targets (touched_paths mf prev) = {}"
  shows "ut_rollback_path t = rollback_record_path (mn_name mf) \<and>
    (\<exists>data. fs_read (ut_rollback_path t) (pkg_fs st1) = Ok data
      \<and> uj_rollback_of_json js data = Some (capture_rollback_record env mf prev (pkg_fs st)))"
proof -
  let ?rp = "rollback_record_path (mn_name mf)" and ?r = "capture_rollback_record env mf prev (pkg_fs st)"
  from app obtain s v mf' prev' sta u stb n uid i stc w std where v: "verify_local_bundle_bytes env bytes st = (Inr v, sta)"
    and mf': "mf' = bundle_manifest (vp_bundle v)" and prev': "prev' = find_installed (mn_name mf') (pk_manager st)"
    and fs: "pkg_fs sta = pkg_fs st" "pk_manager sta = pk_manager st"
    and store: "store_rollback_record env js (rollback_record_path (mn_name mf')) (capture_rollback_record env mf' prev' (pkg_fs st)) sta = (Inr u, stb)"
    and app': "apply_verified_bundle env v n uid stb = (Inr i, stc)"
    and save: "save_state env js (s\<lparr>us_current := Some t, us_recovery_requested := False, us_recovery_reason := None\<rparr>) stc = (Inr w, std)"
    and t: "t = applied_transaction env mf' prev' src so" and st1: "pkg_fs st1 = pkg_fs std"
    by (rule apply_verified_bundle_bytes_OkE)
  have eq: "mf' = mf" "prev' = prev" using verify_local_bundle [OF v] assms(4-6) mf' prev' by simp_all
  obtain data where data: "uj_rollback_to_json js ?r = Some data" "write_system_op env ?rp data sta = (Inr u, stb)"
    using store unfolding store_rollback_record_def eq by (auto simp: bind_op_Ok)
  have wf: "fs_wf (pkg_fs sta)" using fs assms(2) by simp
  have read: "fs_read ?rp (pkg_fs stb) = Ok data" using write_system_op_outcome [OF wf data(2)] by simp
  have wfb: "fs_wf (pkg_fs stb)" using confinedD [OF confined_write_system [OF subset_refl] data(2)] wf stays_wf by blast
  have manager: "pk_manager stb = pk_manager st" using write_system_op_manager [of env ?rp data sta] data(2) fs by simp
  let ?P = "targets (touched_paths mf prev) \<union> {LOCAL_INSTALLED_PATH}"
  have "targets (touched_paths mf (find_installed (mn_name mf) (pk_manager stb))) \<subseteq> ?P"
    unfolding manager assms(6) [symmetric] by (rule Un_upper1)
  from stays_apply_verified_bundle [OF mf' [unfolded eq] this UnI2 [OF singletonI], of env n uid]
  have c: "stays ?P stb stc" unfolding app' snd_conv .
  have "target ?rp \<inter> ?P = {}" "target ?rp \<inter> {UPDATE_STATE_PATH} = {}"
    using apart rollback_path_apart [of "mn_name mf"] by (simp_all add: Int_Un_distrib)
  note away = this
  have d: "stays {UPDATE_STATE_PATH} stc std" by (rule confinedD [OF confined_save_state [OF singletonI] save])
  have "fs_read ?rp (pkg_fs std) = Ok data"
    unfolding stays_read [OF d stays_wf [OF c wfb] away(2)] stays_read [OF c wfb away(1)] by (rule read)
  moreover have "uj_rollback_of_json js data = Some ?r" using data(1) assms(1) by (simp add: codec_ok_def)
  ultimately show ?thesis using st1 t eq applied_transaction_phase(4) by metis
qed

lemma save_installed_manager: "pk_manager (snd (save_installed_list env st)) = pk_manager st"
  by (simp add: write_system_op_manager save_installed_list_def bind_op_def ok_op_def fail_op_def return_op_def split: option.split)

lemma restore_installed_Ok:
  assumes "restore_installed env r st = (Inr u, st')"
  shows "pm_installed (pk_manager st') = filter (\<lambda>p. ip_name p \<noteq> rr_package_name r) (pm_installed (pk_manager st))
    @ (case rr_previous_installed r of None \<Rightarrow> [] | Some p \<Rightarrow> [p])"
proof -
  have "pk_manager st' = pk_manager (snd (restore_installed env r st))" using assms by simp
  also have "\<dots> = (pk_manager st)\<lparr>pm_installed := filter (\<lambda>p. ip_name p \<noteq> rr_package_name r) (pm_installed (pk_manager st))
    @ (case rr_previous_installed r of None \<Rightarrow> [] | Some p \<Rightarrow> [p])\<rparr>"
    by (simp add: restore_installed_def save_installed_manager Let_def split: option.split)
  finally show ?thesis by simp
qed

lemma save_state_manager: "pk_manager (snd (save_state env js s st)) = pk_manager st"
  by (simp add: write_system_op_manager save_state_def bind_op_def ok_op_def fail_op_def return_op_def split: option.split)

lemma find_installed_name: "find_installed name m = Some p \<Longrightarrow> ip_name p = name"
  by (auto simp: find_installed_def find_Some_iff)

lemma find_filter_other: "find (\<lambda>p. ip_name p = name) (filter (\<lambda>p. ip_name p \<noteq> name) ps @ qs) = find (\<lambda>p. ip_name p = name) qs"
  by (induction ps) auto

text \<open>
  C9. Rollback. An update is applied, and later the files of the system may change in any way that
  keeps its rollback record and its entry in the state file. A rollback that succeeds then gives
  every file that the old or the new version of the package lists its content, owner, permissions
  and times from before the update (a file that did not exist is gone again), changes no other file
  except its own two records, and restores the entry of the package in the list of installed
  packages. The package must not list its own rollback record as a file.
\<close>

theorem rollback_undoes_update:
  assumes "codec_ok js" and "fs_wf (pkg_fs st)" and "owners_agree (pkg_fs st)"
    and "apply_verified_bundle_bytes env js src bytes so st = (Ok t, st1)"
    and "en_bundle_of_json env bytes = Some b" and "mf = bundle_manifest b"
    and "prev = find_installed (mn_name mf) (pk_manager st)"
    and "target (rollback_record_path (mn_name mf)) \<inter> targets (touched_paths mf prev) = {}"
    and "fs_wf (pkg_fs st2)" and "fs_read (ut_rollback_path t) (pkg_fs st2) = fs_read (ut_rollback_path t) (pkg_fs st1)"
    and "load_state js (pkg_fs st2) = Ok s2" and "us_current s2 = Some t2" and "ut_rollback_path t2 = ut_rollback_path t"
    and "rollback_current_update env' js st2 = (Ok t3, st3)" and "q \<notin> {UPDATE_STATE_PATH, LOCAL_INSTALLED_PATH}"
  shows "fs_find q (pkg_fs st3) = (if q \<in> targets (touched_paths mf prev) then fs_find q (pkg_fs st) else fs_find q (pkg_fs st2))
    \<and> find_installed (mn_name mf) (pk_manager st3) = prev \<and> ut_phase t3 = RolledBack"
proof -
  let ?r = "capture_rollback_record env mf prev (pkg_fs st)"
  from assms(14) obtain sta s' t' data r u stb u' stc w std where same: "pkg_fs sta = pkg_fs st2"
    and cur: "load_state js (pkg_fs st2) = Ok s'" "us_current s' = Some t'"
    and data: "fs_read (ut_rollback_path t') (pkg_fs st2) = Ok data" "uj_rollback_of_json js data = Some r"
    and restore: "restore_files (rr_files r) sta = (Inr u, stb)" and installed: "restore_installed env' r stb = (Inr u', stc)"
    and save: "save_state env' js (s'\<lparr>us_current := Some t3, us_recovery_requested := False, us_recovery_reason := None\<rparr>) stc = (Inr w, std)"
    and t3: "ut_phase t3 = RolledBack" and st3: "pkg_fs st3 = pkg_fs std" "pk_manager st3 = pk_manager std"
    by (rule rollback_OkE)
  have "t' = t2" using cur assms(11,12) by simp
  then have r: "r = ?r" using applied_record [OF assms(1,2,4-8)] assms(10,13) data by auto
  have wf: "fs_wf (pkg_fs sta)" using same assms(9) by simp
  have files: "restore_files (map (capture_file (pkg_fs st)) (touched_paths mf prev)) sta = (Inr u, stb)"
    using restore r by (simp add: capture_rollback_record_def)
  note b = restore_files_Ok [OF wf assms(3) files]
  have c: "stays {LOCAL_INSTALLED_PATH} stb stc" by (rule confinedD [OF confined_restore_installed [OF singletonI] installed])
  have d: "stays {UPDATE_STATE_PATH} stc std" by (rule confinedD [OF confined_save_state [OF singletonI] save])
  have "fs_find q (pkg_fs std) = fs_find q (pkg_fs stb)"
    using stays_find [OF d stays_wf [OF c], of q] stays_find [OF c, of q] b assms(15) by simp
  moreover have "pk_manager std = pk_manager stc" using save_state_manager [of env' js _ stc] save by (metis snd_conv)
  then have "find_installed (mn_name mf) (pk_manager st3) = prev"
    using restore_installed_Ok [OF installed] st3(2) assms(7) find_installed_name [of "mn_name mf" "pk_manager st"]
    unfolding r
    by (cases "find_installed (mn_name mf) (pk_manager st)")
      (simp_all add: find_installed_def [of _ "pk_manager stc"] capture_rollback_record_def find_filter_other find_None_iff)
  ultimately show ?thesis using b same st3(1) t3 by simp
qed


section \<open>A file system with room\<close>

definition fs_roomy :: "nat \<Rightarrow> nat \<Rightarrow> warfs \<Rightarrow> bool" where
  "fs_roomy k n fs \<longleftrightarrow> fs_wf fs \<and> used_space fs + k \<le> TOTAL_CAPACITY \<and> length (fs_files fs) + n \<le> MAX_FILES
    \<and> list_all (\<lambda>e. \<not> fe_readonly e) (fs_files fs)"

lemma fs_roomy_found: "fs_roomy k n fs \<Longrightarrow> fs_find c fs = Some e \<Longrightarrow> \<not> fe_readonly e"
  by (auto simp: fs_roomy_def list_all_iff dest: fs_find_name)

lemma fs_roomy_write_Ok:
  assumes "fs_roomy (k + length data) (Suc n) fs" and "canonical_path path = Ok c" and "c \<noteq> ''/''"
    and "length data \<le> MAX_FILE_SIZE"
  shows "fst (write_internal_owned now path data u Admin p ro fs) = Ok ()"
proof -
  have "used_without_target c fs \<le> used_space fs"
    using assms(1) used_space_split [of fs c] used_without_absent [of c fs]
    by (cases "fs_find c fs") (auto simp: fs_roomy_def fs_wf_distinct)
  then have "\<not> TOTAL_CAPACITY < usize_sat_add (used_without_target c fs) (length data)"
    using assms(1) by (simp add: fs_roomy_def)
  moreover have "\<not> fs_max_files fs \<le> length (fs_files fs)" using assms(1) by (auto simp: fs_roomy_def fs_wf_def)
  ultimately show ?thesis
    using assms(2-4) fs_roomy_found [OF assms(1)]
    by (auto simp: write_internal_owned_def can_write_def Let_def split: option.split)
qed

lemma fs_roomy_write:
  assumes "fs_roomy (k + length data) (Suc n) fs" and "canonical_path path = Ok c" and "c \<noteq> ''/''"
    and "length data \<le> MAX_FILE_SIZE"
  shows "fs_roomy k n (fst (snd (write_internal_owned now path data u Admin p False fs)))"
proof -
  let ?out = "write_internal_owned now path data u Admin p False fs"
  have ok: "fst ?out = Ok ()" by (rule fs_roomy_write_Ok [OF assms])
  have wf: "fs_wf fs" "distinct_names fs" using assms(1) by (auto simp: fs_roomy_def)
  have "fs_wf (fst (snd ?out))" using wf by (simp add: waros_inv)
  moreover have "used_space (fst (snd ?out)) + k \<le> TOTAL_CAPACITY
    \<and> length (fs_files (fst (snd ?out))) + n \<le> MAX_FILES \<and> list_all (\<lambda>e. \<not> fe_readonly e) (fs_files (fst (snd ?out)))"
    using write_internal_owned_outcome [of now path data u Admin p False fs] ok assms(1)
  proof (elim disjE exE conjE, goal_cases)
    case (2 c e)
    have "\<not> fe_readonly x" if "x \<in> set (fs_files (fs_find_mut c (\<lambda>e. e\<lparr>fe_data := data, fe_modified_at := now, fe_readonly := False\<rparr>) fs))" for x
      using that set_update_first_subset [of "\<lambda>e. fe_name e = c" _ "fs_files fs"] assms(1)
      by (fastforce simp: fs_find_mut_def fs_roomy_def list_all_iff)
    then show ?case
      using 2 wf used_space_fs_find_mut [OF wf(2), of c] used_space_split [OF wf(2), of c]
      by (simp add: Let_def fs_roomy_def list_all_iff) (simp add: fs_find_mut_def)
  next
    case (3 c)
    then show ?case
      by (simp add: Let_def fs_roomy_def push_sorted_def used_space_def list_all_iff)
  qed simp
  ultimately show ?thesis by (simp add: fs_roomy_def)
qed

definition roomy :: "nat \<Rightarrow> nat \<Rightarrow> pkg_state \<Rightarrow> bool" where
  "roomy k n st \<longleftrightarrow> fs_roomy k n (pkg_fs st) \<and> os_session (pk_os st) = None
    \<and> os_users (pk_os st) = \<lparr>db_users = [], db_next_uid = 1\<rparr>"

lemma fs_op_write_roomy:
  assumes "roomy (k + length data) (Suc n) st" and "canonical_path path = Ok c" and "c \<noteq> ''/''"
    and "length data \<le> MAX_FILE_SIZE"
  shows "\<exists>st'. fs_op (write_internal_owned now path data u Admin p False) err st = (Ok (), st') \<and> roomy k n st'
    \<and> pk_manager st' = pk_manager st"
  using fs_roomy_write_Ok [of k data n "pkg_fs st" path c now u p False] fs_roomy_write [of k data n "pkg_fs st" path c now u p] assms
  by (simp add: fs_op_def Let_def roomy_def)

lemma write_system_op_roomy:
  assumes "roomy (k + length data) (Suc n) st" and "canonical_path path = Ok c" and "c \<noteq> ''/''"
    and "length data \<le> MAX_FILE_SIZE"
  shows "\<exists>st'. write_system_op env path data st = (Ok (), st') \<and> roomy k n st' \<and> pk_manager st' = pk_manager st"
  unfolding write_system_op_def write_system_def by (rule fs_op_write_roomy [OF assms])

lemma save_state_roomy:
  assumes "roomy (k + length data) (Suc n) st" and "uj_state_to_json js s = Some data" and "length data \<le> MAX_FILE_SIZE"
  shows "\<exists>st'. save_state env js s st = (Ok (), st') \<and> roomy k n st'"
proof -
  have "canonical_path UPDATE_STATE_PATH = Ok UPDATE_STATE_PATH" "UPDATE_STATE_PATH \<noteq> ''/''" by code_simp+
  from write_system_op_roomy [OF assms(1) this assms(3), of env] show ?thesis
    using assms(2) by (auto simp: save_state_def bind_op_def return_op_def ok_op_def)
qed


lemma roomy_log [simp]: "roomy k n (pkg_log env e st) = roomy k n st"
  by (simp add: roomy_def pkg_log_def pkg_fs_def)

lemma roomy_update_log [simp]: "roomy k n (log_update_state env a b c d st) = roomy k n st"
  by (simp add: log_update_state_def)

lemma roomy_manager [simp]: "roomy k n (st\<lparr>pk_manager := m\<rparr>) = roomy k n st"
  by (simp add: roomy_def pkg_fs_def)

definition plain_crypto :: "(u8 list, u8 list) pkg_crypto" where
  "plain_crypto = \<lparr>api_sha256 = (\<lambda>_. []), api_sha3_256 = (\<lambda>_. []), api_manifest_json = (\<lambda>_ _. Some []),
    api_decode_key = Some, api_decode_signature = Some, api_verify = (\<lambda>_ _ _. True), api_sign = (\<lambda>_ _. None)\<rparr>"

definition plain_bundle :: war_pack_bundle where
  "plain_bundle = \<lparr>wb_signed_manifest = \<lparr>sm_manifest = sample_manifest,
    sm_payloads = payload_digests plain_crypto sample_payloads,
    sm_signature = \<lparr>se_scheme = WARPKG_SIGNATURE_SCHEME, se_key_id = WARPKG_BOOTSTRAP_KEY_ID, se_signature = ''00''\<rparr>\<rparr>,
    wb_payloads = sample_payloads\<rparr>"

definition sample_env :: "(u8 list, u8 list) pkg_env" where
  "sample_env = \<lparr>en_crypto = plain_crypto, en_public_key_hex = [],
    en_bundle_of_json = (\<lambda>bytes. if bytes = [1] then Some plain_bundle else None), en_bundle_to_json = (\<lambda>_. None),
    en_index_of_json = (\<lambda>_. None), en_index_to_json = (\<lambda>_. None), en_installed_of_json = (\<lambda>_. None),
    en_installed_to_json = (\<lambda>_. Some [2]), en_http_get = (\<lambda>_. None), en_now = 5, en_current = None,
    en_processes = process_table_new, en_debug = (\<lambda>_. [])\<rparr>"

definition sample_pkg :: pkg_state where
  "sample_pkg = \<lparr>pk_os = \<lparr>os_fs = \<lparr>fs_files = [\<lparr>fe_name = ''/b'', fe_data = [1], fe_created_at = 1, fe_modified_at = 1,
      fe_readonly = False, fe_owner_uid = 0, fe_permissions = perm_system\<rparr>], fs_max_files = MAX_FILES\<rparr>,
    os_users = \<lparr>db_users = [], db_next_uid = 1\<rparr>, os_session = None, os_audit = audit_logger_new, os_requests = []\<rparr>,
    pk_manager = \<lparr>pm_installed = [], pm_index = None, pm_repo_url = []\<rparr>\<rparr>"

definition with_transaction :: "(update_transaction \<Rightarrow> update_transaction) \<Rightarrow> update_state \<Rightarrow> update_state" where
  "with_transaction f s = s\<lparr>us_current := map_option f (us_current s)\<rparr>"

definition sample_applied :: update_state where
  "sample_applied = update_state_default\<lparr>us_current := Some (applied_transaction sample_env sample_manifest None ''/b'' None),
    us_recovery_requested := False, us_recovery_reason := None\<rparr>"

definition sample_booted :: update_state where
  "sample_booted = fst (boot_transition sample_applied)"

definition sample_ready :: update_state where
  "sample_ready = with_transaction (\<lambda>t. t\<lparr>ut_boot_observed := True,
    ut_last_boot_note := Some ''shell-ready reached; confirmation required''\<rparr>) sample_booted"

definition sample_confirmed :: update_state where
  "sample_confirmed = (with_transaction (\<lambda>t. t\<lparr>ut_phase := Confirmed, ut_confirmed_at := Some (en_now sample_env),
    ut_boot_started := False, ut_boot_observed := False, ut_failure_reason := None,
    ut_last_boot_note := Some ''update confirmed after shell-ready boot''\<rparr>) sample_ready)
    \<lparr>us_recovery_requested := False, us_recovery_reason := None\<rparr>"

definition sample_rolled_back :: update_state where
  "sample_rolled_back = (with_transaction (\<lambda>t. t\<lparr>ut_phase := RolledBack, ut_boot_started := False,
    ut_boot_observed := False, ut_confirmed_at := Some (en_now sample_env), ut_failure_reason := None,
    ut_last_boot_note := Some ''rollback restored pre-apply filesystem state''\<rparr>) sample_applied)
    \<lparr>us_recovery_requested := False, us_recovery_reason := None\<rparr>"

definition sample_record :: rollback_record where
  "sample_record = capture_rollback_record sample_env sample_manifest None (pkg_fs sample_pkg)"

definition table_json :: "(update_state \<times> u8 list) list \<Rightarrow> (rollback_record \<times> u8 list) list \<Rightarrow> update_json" where
  "table_json states records = \<lparr>uj_state_to_json = map_of states, uj_state_of_json = map_of (map prod.swap states),
    uj_rollback_to_json = map_of records, uj_rollback_of_json = map_of (map prod.swap records)\<rparr>"

definition sample_js :: update_json where
  "sample_js = table_json [(sample_applied, [3]), (sample_booted, [4]), (sample_ready, [5]), (sample_rolled_back, [6]),
    (sample_confirmed, [8])] [(sample_record, [7])]"

lemma map_of_swap: "distinct (map snd xs) \<Longrightarrow> map_of xs x = Some y \<Longrightarrow> map_of (map prod.swap xs) y = Some x"
  by (intro map_of_is_SomeI) (auto simp: comp_def dest: map_of_SomeD)

lemma sample_codec: "codec_ok sample_js"
proof -
  have "distinct (map snd [(sample_applied, [3]), (sample_booted, [4]), (sample_ready, [5]), (sample_rolled_back, [6 :: u8]),
    (sample_confirmed, [8])])"
    "distinct (map snd [(sample_record, [7 :: u8])])" by simp_all
  from this [THEN map_of_swap] show ?thesis unfolding codec_ok_def sample_js_def table_json_def by simp
qed

lemma sample_roomy: "roomy 100 10 sample_pkg"
proof -
  have "is_canonical ''/b''" unfolding is_canonical_def by code_simp
  then show ?thesis
    by (simp add: roomy_def fs_roomy_def sample_pkg_def pkg_fs_def fs_wf_def distinct_names_def used_space_def
        TOTAL_CAPACITY_def MAX_FILES_def MAX_FILE_SIZE_def entry_ok_def)
qed

lemma sample_require: "roomy k n st \<Longrightarrow> require_pkg_install sample_env st = (Ok (), st)"
proof -
  have "session_require (en_debug sample_env) PKG_INSTALL (en_current sample_env) (en_processes sample_env) None
      \<lparr>db_users = [], db_next_uid = 1\<rparr> = (Ok (), [])" by code_simp
  then show "roomy k n st \<Longrightarrow> ?thesis" by (simp add: require_pkg_install_def roomy_def)
qed

lemma sample_verify: "verify_local_bundle_bytes sample_env [1] st =
  (Ok (verified_of plain_bundle), pkg_log sample_env (PackageVerification ''hello'' ''1.0.0'' ''allow'' ''verified'') st)"
proof -
  have "verify_bootstrap_bundle sample_env plain_bundle = Ok ()" by code_simp
  then show ?thesis by (simp add: verify_local_bundle_bytes_def sample_env_def plain_bundle_def bundle_manifest_def sample_manifest_def Let_def)
qed

lemma sample_state_to_json:
  "uj_state_to_json sample_js sample_applied = Some [3]"
  "uj_rollback_to_json sample_js sample_record = Some [7]"
  by (simp_all add: sample_js_def table_json_def)

lemma sample_apply_bundle:
  assumes "roomy 99 9 st" and "pk_manager st = pk_manager sample_pkg"
  shows "\<exists>i st'. apply_verified_bundle sample_env (verified_of plain_bundle) m uid st = (Ok i, st') \<and> roomy 96 7 st'"
proof -
  have mf: "bundle_manifest (vp_bundle (verified_of plain_bundle)) = sample_manifest"
    and pl: "wb_payloads (vp_bundle (verified_of plain_bundle)) = sample_payloads"
    by (simp_all add: verified_of_def plain_bundle_def bundle_manifest_def)
  have path: "canonical_path ''/usr/share/hello.txt'' = Ok ''/usr/share/hello.txt''" by code_simp
  obtain st1 where install: "fs_op (write_as (en_now sample_env) ''/usr/share/hello.txt'' (as_bytes ''hi'') 0 Admin perm_system)
      (\<lambda>_. InstallFailed) st = (Ok (), st1)" and st1: "roomy 97 8 st1" "pk_manager st1 = pk_manager st"
    using fs_op_write_roomy [of 97 "as_bytes ''hi''" 8 st, OF _ path, of "en_now sample_env" 0 perm_system "\<lambda>_. InstallFailed"] assms(1)
    unfolding write_as_def by (auto simp: as_bytes_def MAX_FILE_SIZE_def)
  then have files: "install_files sample_env sample_payloads (mn_files sample_manifest) st = (Ok (), st1)"
    by (simp add: sample_manifest_def sample_payloads_def install_file_def bind_op_def ok_op_def return_op_def)
  have inst: "canonical_path LOCAL_INSTALLED_PATH = Ok LOCAL_INSTALLED_PATH" "LOCAL_INSTALLED_PATH \<noteq> ''/''" by code_simp+
  have "\<exists>st2. save_installed_list sample_env (st1\<lparr>pk_manager := mm\<rparr>) = (Ok (), st2) \<and> roomy 96 7 st2" for mm
    using write_system_op_roomy [of 96 "[2]" 7 "st1\<lparr>pk_manager := mm\<rparr>", OF _ inst, of sample_env] st1(1)
    by (auto simp: save_installed_list_def bind_op_def ok_op_def return_op_def sample_env_def MAX_FILE_SIZE_def)
  then obtain f where f: "save_installed_list sample_env (st1\<lparr>pk_manager := mm\<rparr>) = (Ok (), f mm)" "roomy 96 7 (f mm)" for mm
    by metis
  have none: "find_installed (mn_name sample_manifest) (pk_manager st) = None"
    using assms(2) by (simp add: sample_pkg_def find_installed_def)
  show ?thesis
    unfolding apply_verified_bundle_def mf pl none Let_def
    by (simp add: bind_op_def return_op_def files f log_op_def)
qed

lemma sample_load: "load_state sample_js (pkg_fs sample_pkg) = Ok update_state_default"
proof -
  have "canonical_path UPDATE_STATE_PATH = Ok UPDATE_STATE_PATH" by code_simp
  then show ?thesis
    by (simp add: load_state_def fs_read_def read_as_def sample_pkg_def pkg_fs_def fs_find_def UPDATE_STATE_PATH_def)
qed

lemma bind_op_step: "m st = (Inr x, st1) \<Longrightarrow> bind_op m f st = f x st1"
  by (simp add: bind_op_def)

lemma sample_apply:
  "\<exists>st1. apply_verified_bundle_bytes sample_env sample_js ''/b'' [1] None sample_pkg
    = (Ok (applied_transaction sample_env sample_manifest None ''/b'' None), st1) \<and> roomy 95 6 st1
    \<and> load_state sample_js (pkg_fs st1) = Ok sample_applied"
proof -
  have mf: "bundle_manifest (vp_bundle (verified_of plain_bundle)) = sample_manifest"
    by (simp add: verified_of_def plain_bundle_def bundle_manifest_def)
  define sta where "sta = pkg_log sample_env (PackageVerification ''hello'' ''1.0.0'' ''allow'' ''verified'') sample_pkg"
  have sta: "roomy 100 10 sta" "pkg_fs sta = pkg_fs sample_pkg" "pk_manager sta = pk_manager sample_pkg"
    using sample_roomy by (simp_all add: sta_def)
  have none: "find_installed (mn_name sample_manifest) (pk_manager sta) = None"
    unfolding sta(3) by (simp add: sample_pkg_def find_installed_def)
  have path: "canonical_path (rollback_record_path (mn_name sample_manifest)) = Ok (rollback_record_path (mn_name sample_manifest))"
    "rollback_record_path (mn_name sample_manifest) \<noteq> ''/''" by code_simp+
  obtain stb where b: "store_rollback_record sample_env sample_js (rollback_record_path (mn_name sample_manifest)) sample_record sta = (Ok (), stb)"
    "roomy 99 9 stb" "pk_manager stb = pk_manager sample_pkg"
    using write_system_op_roomy [of 99 "[7]" 9 sta, OF _ path, of sample_env] sta(1,3) sample_state_to_json(2)
    by (auto simp: store_rollback_record_def bind_op_def ok_op_def return_op_def MAX_FILE_SIZE_def)
  obtain i stc where c: "apply_verified_bundle sample_env (verified_of plain_bundle) (word_of_nat (length [1 :: u8]))
      (exec_current_uid sample_env (os_session (pk_os stb))) stb = (Ok i, stc)" "roomy 96 7 stc"
    using sample_apply_bundle [OF b(2,3)] by blast
  obtain std where d: "save_state sample_env sample_js sample_applied stc = (Ok (), std)" "roomy 95 6 std"
    using save_state_roomy [of 95 "[3]" 6 stc sample_js sample_applied sample_env] c(2) sample_state_to_json(1)
    by (auto simp: MAX_FILE_SIZE_def)
  have ls: "load_state_op sample_js sample_pkg = (Inr update_state_default, sample_pkg)"
    and rep: "ensure_state_replaceable update_state_default sample_pkg = (Inr (), sample_pkg)"
    and ver: "verify_local_bundle_bytes sample_env [1] sample_pkg = (Inr (verified_of plain_bundle), sta)"
    using sample_load by (simp_all add: blocks_replacement_def update_state_default_def sample_verify sta_def)
  have "apply_verified_bundle_bytes sample_env sample_js ''/b'' [1] None sample_pkg = 
      (Ok (applied_transaction sample_env sample_manifest None ''/b'' None),
       log_update_state sample_env (mn_name sample_manifest) (mn_version sample_manifest) ''pending-confirmation'' ''/b'' std)"
    unfolding apply_verified_bundle_bytes_def bind_op_step [of "load_state_op _", OF ls]
      bind_op_step [of "ensure_state_replaceable _", OF rep] bind_op_step [of "verify_local_bundle_bytes _ _", OF ver]
      Let_def mf none sta(2) sample_record_def [symmetric] bind_op_step [of "store_rollback_record _ _ _ _", OF b(1)]
      bind_op_step [of "apply_verified_bundle _ _ _ _", OF c(1)]
      bind_op_step [of "save_state _ _ _", OF d(1) [unfolded sample_applied_def]]
    by (simp add: done_op_def)
  moreover have "load_state sample_js (pkg_fs std) = Ok sample_applied"
    using save_state_Ok(2) [OF sample_codec _ d(1)] c(2) by (simp add: roomy_def fs_roomy_def)
  ultimately show ?thesis using d(2) by simp
qed

lemma sample_read_bundle: "read_local_bundle ''/b'' sample_pkg = (Ok (''/b'', [1]), sample_pkg)"
proof -
  have "is_canonical ''/b''" unfolding is_canonical_def by code_simp
  with resolve_path_absolute [OF this, of None] show ?thesis
    by (simp add: read_local_bundle_def read_current_def sample_pkg_def can_access_path_def current_user_def
        current_uid_def current_role_def read_as_def fs_find_def is_canonical_def can_read_def Let_def)
qed

lemma sample_distinct:
  "sample_applied \<noteq> sample_booted" "sample_applied \<noteq> sample_ready" "sample_booted \<noteq> sample_ready"
  "sample_applied \<noteq> sample_confirmed" "sample_booted \<noteq> sample_confirmed" "sample_ready \<noteq> sample_confirmed"
  "sample_rolled_back \<noteq> sample_applied" "sample_rolled_back \<noteq> sample_booted" "sample_rolled_back \<noteq> sample_ready"
  "sample_rolled_back \<noteq> sample_confirmed"
  by code_simp+

lemma sample_encodings:
  "uj_state_to_json sample_js sample_booted = Some [4]" "uj_state_to_json sample_js sample_ready = Some [5]"
  "uj_state_to_json sample_js sample_rolled_back = Some [6]" "uj_state_to_json sample_js sample_confirmed = Some [8]"
  using sample_distinct by (simp_all add: sample_js_def table_json_def)

lemma sample_booted_step:
  assumes "roomy 95 6 st" and "load_state sample_js (pkg_fs st) = Ok sample_applied"
  shows "\<exists>report st'. prepare_boot sample_env sample_js st = (report, st') \<and> roomy 94 5 st'
    \<and> load_state sample_js (pkg_fs st') = Ok sample_booted \<and> state_file_takes sample_env sample_js sample_booted st"
proof -
  obtain summary where step: "boot_transition sample_applied = (sample_booted, summary, None)"
    by (auto simp: sample_booted_def boot_transition_def sample_applied_def boot_step_def applied_transaction_def Let_def)
  obtain st' where st': "save_state sample_env sample_js sample_booted st = (Ok (), st')" "roomy 94 5 st'"
    using save_state_roomy [of 94 "[4]" 5 st, OF _ sample_encodings(1), of sample_env] assms(1) by (auto simp: MAX_FILE_SIZE_def)
  have "load_state sample_js (pkg_fs st') = Ok sample_booted"
    using save_state_Ok(2) [OF sample_codec _ st'(1)] assms(1) by (simp add: roomy_def fs_roomy_def)
  then show ?thesis
    using st' by (simp add: prepare_boot_def assms(2) step log_boot_failure_def state_file_takes_def Let_def
        split: option.split)
qed

lemma sample_ready_step:
  assumes "roomy 94 5 st" and "load_state sample_js (pkg_fs st) = Ok sample_booted"
  shows "\<exists>message st'. note_shell_ready sample_env sample_js st = (Ok (Some message), st') \<and> roomy 93 4 st'
    \<and> load_state sample_js (pkg_fs st') = Ok sample_ready"
proof -
  obtain t where t: "us_current sample_booted = Some t" "ut_phase t = PendingConfirmation" "ut_boot_started t" "\<not> ut_boot_observed t"
    by (simp add: sample_booted_def boot_transition_def sample_applied_def boot_step_def applied_transaction_def Let_def)
  obtain st' where st': "save_state sample_env sample_js sample_ready st = (Ok (), st')" "roomy 93 4 st'"
    using save_state_roomy [of 93 "[5]" 4 st, OF _ sample_encodings(2), of sample_env] assms(1) by (auto simp: MAX_FILE_SIZE_def)
  have "load_state sample_js (pkg_fs st') = Ok sample_ready"
    using save_state_Ok(2) [OF sample_codec _ st'(1)] assms(1) by (simp add: roomy_def fs_roomy_def)
  then show ?thesis
    using st' t unfolding sample_ready_def with_transaction_def
    by (simp add: note_shell_ready_def bind_op_def load_state_op_def assms(2) return_op_def)
qed

lemma sample_confirm_step:
  assumes "roomy 93 4 st" and "load_state sample_js (pkg_fs st) = Ok sample_ready"
  shows "\<exists>t st'. confirm_pending_update sample_env sample_js st = (Ok t, st')"
proof -
  obtain t where t: "us_current sample_ready = Some t" "ut_phase t = PendingConfirmation" "ut_boot_observed t"
    by (simp add: sample_ready_def with_transaction_def sample_booted_def boot_transition_def sample_applied_def boot_step_def
        applied_transaction_def Let_def)
  obtain st' where "save_state sample_env sample_js sample_confirmed st = (Ok (), st')"
    using save_state_roomy [of 92 "[8]" 3 st, OF _ sample_encodings(4), of sample_env] assms(1) by (auto simp: MAX_FILE_SIZE_def)
  then show ?thesis
    using t unfolding sample_confirmed_def with_transaction_def
    by (simp add: confirm_pending_update_def bind_op_def sample_require [OF assms(1)] load_state_op_def assms(2)
        pending_transaction_def return_op_def done_op_def Let_def)
qed


lemma fs_roomy_delete:
  assumes "fs_roomy k n fs" and "canonical_path path = Ok c"
  shows "fst (delete_as path u Admin fs) \<in> {Ok (), Err FileNotFound} \<and> fs_roomy k n (fst (snd (delete_as path u Admin fs)))"
proof (cases "fs_find c fs")
  case None
  then show ?thesis using assms by (simp add: delete_as_def)
next
  case (Some e)
  have wf: "fs_wf (fst (snd (delete_as path u Admin fs)))" using assms(1) by (simp add: fs_roomy_def waros_inv)
  have del: "delete_as path u Admin fs = (Ok (), fs\<lparr>fs_files := remove_first (\<lambda>e. fe_name e = c) (fs_files fs)\<rparr>, [DeletePath c])"
    using Some assms fs_roomy_found [OF assms(1) Some] by (simp add: delete_as_def)
  have "used_without_target c fs \<le> used_space fs"
    using used_space_split [OF fs_wf_distinct Some] assms(1) by (simp add: fs_roomy_def)
  moreover have "length (filter (\<lambda>e. fe_name e \<noteq> c) (fs_files fs)) + n \<le> MAX_FILES"
    using assms(1) length_filter_le [of "\<lambda>e. fe_name e \<noteq> c" "fs_files fs"] unfolding fs_roomy_def by linarith
  ultimately show ?thesis
    using wf assms(1) unfolding del
    by (auto simp: fs_roomy_def fs_wf_def distinct_names_def remove_first_filter used_space_def used_without_target_def list_all_iff)
qed

lemma system_delete_roomy:
  assumes "roomy k n st" and "canonical_path path = Ok c"
  shows "\<exists>st'. system_delete path st = (Ok (), st') \<and> roomy k n st'"
  using fs_roomy_delete [of k n "pkg_fs st" path c 0] assms
  by (auto simp: roomy_def system_delete_def Let_def split: sum.split)

lemma sample_rollback_step:
  assumes "roomy 95 6 st" and "load_state sample_js (pkg_fs st) = Ok sample_applied"
    and "load_rollback_record sample_js (rollback_record_path (mn_name sample_manifest)) st = (Ok sample_record, st)"
  shows "\<exists>t st'. rollback_current_update sample_env sample_js st = (Ok t, st')"
proof -
  let ?t = "applied_transaction sample_env sample_manifest None ''/b'' None"
  have cur: "us_current sample_applied = Some ?t" "ut_rollback_path ?t = rollback_record_path (mn_name sample_manifest)"
    by (simp_all add: sample_applied_def applied_transaction_phase)
  have path: "canonical_path ''/usr/share/hello.txt'' = Ok ''/usr/share/hello.txt''" by code_simp
  have "touched_paths sample_manifest None = [''/usr/share/hello.txt'']"
    by (simp add: touched_paths_def sample_manifest_def push_unique_path_def)
  then have files: "rr_files sample_record = [capture_file (pkg_fs sample_pkg) ''/usr/share/hello.txt'']"
    by (simp add: sample_record_def capture_rollback_record_def)
  have "\<not> rf_existed (capture_file (pkg_fs sample_pkg) ''/usr/share/hello.txt'')"
    using path by (simp add: capture_file_def stat_find sample_pkg_def pkg_fs_def fs_find_def)
  moreover have "rf_path (capture_file (pkg_fs sample_pkg) ''/usr/share/hello.txt'') = ''/usr/share/hello.txt''"
    by (simp add: capture_file_def split: sum.split)
  ultimately obtain st1 where st1: "restore_files (rr_files sample_record) st = (Ok (), st1)" "roomy 95 6 st1"
    using system_delete_roomy [OF assms(1) path] by (auto simp: files restore_file_def bind_op_def return_op_def)
  have inst: "canonical_path LOCAL_INSTALLED_PATH = Ok LOCAL_INSTALLED_PATH" "LOCAL_INSTALLED_PATH \<noteq> ''/''" by code_simp+
  have "\<exists>st2. save_installed_list sample_env (st1\<lparr>pk_manager := m\<rparr>) = (Ok (), st2) \<and> roomy 94 5 st2" for m
    using write_system_op_roomy [of 94 "[2]" 5 "st1\<lparr>pk_manager := m\<rparr>", OF _ inst, of sample_env] st1(2)
    by (auto simp: save_installed_list_def bind_op_def ok_op_def return_op_def sample_env_def MAX_FILE_SIZE_def)
  then obtain st2 where st2: "restore_installed sample_env sample_record st1 = (Ok (), st2)" "roomy 94 5 st2"
    unfolding restore_installed_def Let_def by blast
  obtain st3 where "save_state sample_env sample_js sample_rolled_back st2 = (Ok (), st3)"
    using save_state_roomy [of 93 "[6]" 4 st2, OF _ sample_encodings(3), of sample_env] st2(2) by (auto simp: MAX_FILE_SIZE_def)
  then show ?thesis
    unfolding rollback_current_update_def bind_op_step [of "require_pkg_install _", OF sample_require [OF assms(1)]]
    by (simp add: bind_op_def load_state_op_def assms(2,3) cur ok_op_def return_op_def st1(1) st2(1) done_op_def Let_def
        sample_rolled_back_def with_transaction_def)
qed

theorem rollback_undoes_update_witness:
  "\<exists>st1 st3 t t3. apply_verified_bundle_bytes sample_env sample_js ''/b'' [1] None sample_pkg = (Ok t, st1)
    \<and> rollback_current_update sample_env sample_js st1 = (Ok t3, st3)
    \<and> fs_find ''/usr/share/hello.txt'' (pkg_fs st3) = None \<and> ut_phase t3 = RolledBack"
proof -
  let ?t = "applied_transaction sample_env sample_manifest None ''/b'' None"
  obtain st1 where 1: "apply_verified_bundle_bytes sample_env sample_js ''/b'' [1] None sample_pkg = (Ok ?t, st1)"
    "roomy 95 6 st1" "load_state sample_js (pkg_fs st1) = Ok sample_applied" using sample_apply by blast
  have wf: "fs_wf (pkg_fs sample_pkg)" "fs_wf (pkg_fs st1)" using sample_roomy 1(2) by (simp_all add: roomy_def fs_roomy_def)
  have own: "owners_agree (pkg_fs sample_pkg)" by (simp add: owners_agree_def sample_pkg_def pkg_fs_def perm_system_def)
  have b: "en_bundle_of_json sample_env [1] = Some plain_bundle" by (simp add: sample_env_def)
  have mf: "sample_manifest = bundle_manifest plain_bundle" by (simp add: plain_bundle_def bundle_manifest_def)
  have prev: "None = find_installed (mn_name sample_manifest) (pk_manager sample_pkg)"
    by (simp add: sample_pkg_def find_installed_def)
  have paths: "canonical_path ''/usr/share/hello.txt'' = Ok ''/usr/share/hello.txt''"
    "canonical_path (rollback_record_path (mn_name sample_manifest)) = Ok (rollback_record_path (mn_name sample_manifest))"
    "rollback_record_path (mn_name sample_manifest) \<noteq> ''/usr/share/hello.txt''" by code_simp+
  have touched: "touched_paths sample_manifest None = [''/usr/share/hello.txt'']"
    by (simp add: touched_paths_def sample_manifest_def push_unique_path_def)
  have apart: "target (rollback_record_path (mn_name sample_manifest)) \<inter> targets (touched_paths sample_manifest None) = {}"
    using paths by (simp add: touched target_def)
  have cur: "us_current sample_applied = Some ?t" by (simp add: sample_applied_def)
  have "load_rollback_record sample_js (rollback_record_path (mn_name sample_manifest)) st1 = (Ok sample_record, st1)"
    using applied_record [OF sample_codec wf(1) 1(1) b mf prev apart]
    by (auto simp: load_rollback_record_Ok sample_record_def applied_transaction_phase)
  then obtain t3 st3 where 3: "rollback_current_update sample_env sample_js st1 = (Ok t3, st3)"
    using sample_rollback_step [OF 1(2,3)] by blast
  have "''/usr/share/hello.txt'' \<notin> {UPDATE_STATE_PATH, LOCAL_INSTALLED_PATH}"
    by (simp add: UPDATE_STATE_PATH_def LOCAL_INSTALLED_PATH_def)
  from rollback_undoes_update [OF sample_codec wf(1) own 1(1) b mf prev apart wf(2) refl 1(3) cur refl 3 this]
  have "fs_find ''/usr/share/hello.txt'' (pkg_fs st3) = fs_find ''/usr/share/hello.txt'' (pkg_fs sample_pkg)" "ut_phase t3 = RolledBack"
    using paths(1) by (simp_all add: touched target_def)
  moreover have "fs_find ''/usr/share/hello.txt'' (pkg_fs sample_pkg) = None"
    by (simp add: sample_pkg_def pkg_fs_def fs_find_def)
  ultimately show ?thesis using 1(1) 3 by auto
qed
end
