(* ===== verification/Quantum_Gate.thy ===== *)
theory Quantum_Gate
  imports Rust_Str Complex_Main
begin

text \<open>
  Complex numbers and gates of the quantum SDK (\<open>crates/waros-quantum/src/complex.rs\<close> and
  \<open>gate.rs\<close>).

  Arithmetic on \<open>f64\<close> is a record \<open>f64_ops\<close> that every definition takes as its first argument
  \<open>F\<close>: the accuracy of \<open>sin\<close>, \<open>cos\<close> and \<open>powi\<close> is not specified by the language, so no
  particular rounding is fixed here. A theorem about all \<open>F\<close> holds for IEEE arithmetic; the
  theorems on unitarity are about \<open>exact_ops\<close>, the arithmetic of the real numbers.
\<close>

section \<open>Floating point\<close>

record 'f f64_ops =
  f_lit :: "rat \<Rightarrow> 'f"
  f_add :: "'f \<Rightarrow> 'f \<Rightarrow> 'f"
  f_sub :: "'f \<Rightarrow> 'f \<Rightarrow> 'f"
  f_mul :: "'f \<Rightarrow> 'f \<Rightarrow> 'f"
  f_div :: "'f \<Rightarrow> 'f \<Rightarrow> 'f"
  f_neg :: "'f \<Rightarrow> 'f"
  f_abs :: "'f \<Rightarrow> 'f"
  f_sqrt :: "'f \<Rightarrow> 'f"
  f_sin :: "'f \<Rightarrow> 'f"
  f_cos :: "'f \<Rightarrow> 'f"
  f_powi :: "'f \<Rightarrow> nat \<Rightarrow> 'f"
  f_pi :: "'f"
  f_frac_1_sqrt_2 :: "'f"
  f_le :: "'f \<Rightarrow> 'f \<Rightarrow> bool"
  f_lt :: "'f \<Rightarrow> 'f \<Rightarrow> bool"
  f_fmt :: "nat \<Rightarrow> 'f \<Rightarrow> string"
  f_parse :: "string \<Rightarrow> 'f option"

text \<open>\<open>f_fmt k x\<close> is \<open>format!("{x:.k}")\<close>, and \<open>f_parse\<close> is \<open>str::parse::<f64>\<close>. Exact arithmetic
  takes both as arguments.\<close>

definition exact_ops :: "(nat \<Rightarrow> real \<Rightarrow> string) \<Rightarrow> (string \<Rightarrow> real option) \<Rightarrow> real f64_ops" where
  "exact_ops fmt parse =
    \<lparr>f_lit = of_rat, f_add = (+), f_sub = (-), f_mul = (*), f_div = (/), f_neg = uminus,
     f_abs = abs, f_sqrt = sqrt, f_sin = sin, f_cos = cos, f_powi = power, f_pi = pi,
     f_frac_1_sqrt_2 = 1 / sqrt 2, f_le = (\<le>), f_lt = (<), f_fmt = fmt, f_parse = parse\<rparr>"

lemma exact_ops_sel [simp]:
  "f_lit (exact_ops fmt parse) = of_rat" "f_add (exact_ops fmt parse) = (+)"
  "f_sub (exact_ops fmt parse) = (-)" "f_mul (exact_ops fmt parse) = (*)"
  "f_div (exact_ops fmt parse) = (/)" "f_neg (exact_ops fmt parse) = uminus"
  "f_abs (exact_ops fmt parse) = abs" "f_sqrt (exact_ops fmt parse) = sqrt"
  "f_sin (exact_ops fmt parse) = sin" "f_cos (exact_ops fmt parse) = cos"
  "f_powi (exact_ops fmt parse) = power" "f_pi (exact_ops fmt parse) = pi"
  "f_frac_1_sqrt_2 (exact_ops fmt parse) = 1 / sqrt 2" "f_le (exact_ops fmt parse) = (\<le>)"
  "f_lt (exact_ops fmt parse) = (<)" "f_fmt (exact_ops fmt parse) = fmt"
  "f_parse (exact_ops fmt parse) = parse"
  by (simp_all add: exact_ops_def)

section \<open>Complex numbers\<close>

record 'f cpx =
  cre :: "'f"
  cim :: "'f"

definition cnew :: "'f \<Rightarrow> 'f \<Rightarrow> 'f cpx" where
  "cnew re im = \<lparr>cre = re, cim = im\<rparr>"

definition c_zero :: "'f f64_ops \<Rightarrow> 'f cpx" where
  "c_zero F = cnew (f_lit F 0) (f_lit F 0)"

definition c_one :: "'f f64_ops \<Rightarrow> 'f cpx" where
  "c_one F = cnew (f_lit F 1) (f_lit F 0)"

definition c_i :: "'f f64_ops \<Rightarrow> 'f cpx" where
  "c_i F = cnew (f_lit F 0) (f_lit F 1)"

definition norm_sq :: "'f f64_ops \<Rightarrow> 'f cpx \<Rightarrow> 'f" where
  "norm_sq F a = f_add F (f_mul F (cre a) (cre a)) (f_mul F (cim a) (cim a))"

definition c_conj :: "'f f64_ops \<Rightarrow> 'f cpx \<Rightarrow> 'f cpx" where
  "c_conj F a = cnew (cre a) (f_neg F (cim a))"

definition from_polar :: "'f f64_ops \<Rightarrow> 'f \<Rightarrow> 'f \<Rightarrow> 'f cpx" where
  "from_polar F r theta = cnew (f_mul F r (f_cos F theta)) (f_mul F r (f_sin F theta))"

definition c_add :: "'f f64_ops \<Rightarrow> 'f cpx \<Rightarrow> 'f cpx \<Rightarrow> 'f cpx" where
  "c_add F a b = cnew (f_add F (cre a) (cre b)) (f_add F (cim a) (cim b))"

definition c_mul :: "'f f64_ops \<Rightarrow> 'f cpx \<Rightarrow> 'f cpx \<Rightarrow> 'f cpx" where
  "c_mul F a b = cnew (f_sub F (f_mul F (cre a) (cre b)) (f_mul F (cim a) (cim b)))
    (f_add F (f_mul F (cre a) (cim b)) (f_mul F (cim a) (cre b)))"

definition c_scale :: "'f f64_ops \<Rightarrow> 'f cpx \<Rightarrow> 'f \<Rightarrow> 'f cpx" where
  "c_scale F a k = cnew (f_mul F (cre a) k) (f_mul F (cim a) k)"

definition c_neg :: "'f f64_ops \<Rightarrow> 'f cpx \<Rightarrow> 'f cpx" where
  "c_neg F a = cnew (f_neg F (cre a)) (f_neg F (cim a))"

lemma cnew_sel [simp]: "cre (cnew a b) = a" "cim (cnew a b) = b"
  by (simp_all add: cnew_def)

lemma cnew_eq [simp]: "cnew a b = cnew c d \<longleftrightarrow> a = c \<and> b = d"
  by (simp add: cnew_def)

lemma cpx_cases: obtains a b where "z = cnew a b"
  by (metis cnew_def cpx.surjective old.unit.exhaust)

section \<open>Gates\<close>

record 'f gate =
  gate_name :: string
  matrix :: "'f cpx list"
  gate_width :: nat

definition single :: "string \<Rightarrow> 'f cpx list list \<Rightarrow> 'f gate" where
  "single name m = \<lparr>gate_name = name, matrix = concat m, gate_width = 1\<rparr>"

definition two_qubit :: "string \<Rightarrow> 'f cpx list list \<Rightarrow> 'f gate" where
  "two_qubit name m = \<lparr>gate_name = name, matrix = concat m, gate_width = 2\<rparr>"

text \<open>Indexing outside the matrix panics, which is \<open>None\<close>.\<close>

definition gate_get :: "'f gate \<Rightarrow> nat \<Rightarrow> nat \<Rightarrow> 'f cpx option" where
  "gate_get g row col =
    (let i = row * 2 ^ gate_width g + col in
     if i < length (matrix g) then Some (matrix g ! i) else None)"

definition entry :: "'f gate \<Rightarrow> nat \<Rightarrow> nat \<Rightarrow> 'f cpx" where
  "entry g row col = matrix g ! (row * 2 ^ gate_width g + col)"

definition gate_shape :: "'f gate \<Rightarrow> bool" where
  "gate_shape g \<longleftrightarrow> length (matrix g) = 2 ^ gate_width g * 2 ^ gate_width g"

text \<open>\<open>dagger\<close> allocates a matrix of the same length and stores the transposed entries.\<close>

definition dagger :: "'f f64_ops \<Rightarrow> 'f gate \<Rightarrow> 'f gate" where
  "dagger F g =
    (let dim = 2 ^ gate_width g in
     \<lparr>gate_name = gate_name g @ ''^dagger'',
      matrix = concat (map (\<lambda>row. map (\<lambda>col. c_conj F (entry g col row)) [0..<dim]) [0..<dim]),
      gate_width = gate_width g\<rparr>)"

definition gate_x :: "'f f64_ops \<Rightarrow> 'f gate" where
  "gate_x F = (let (z, i) = (c_zero F, c_one F) in single ''X'' [[z, i], [i, z]])"

definition gate_y :: "'f f64_ops \<Rightarrow> 'f gate" where
  "gate_y F = (let z = c_zero F in
     single ''Y'' [[z, cnew (f_lit F 0) (f_neg F (f_lit F 1))], [cnew (f_lit F 0) (f_lit F 1), z]])"

definition gate_z :: "'f f64_ops \<Rightarrow> 'f gate" where
  "gate_z F = (let (z, i) = (c_zero F, c_one F) in single ''Z'' [[i, z], [z, c_neg F i]])"

definition gate_h :: "'f f64_ops \<Rightarrow> 'f gate" where
  "gate_h F = (let s = cnew (f_frac_1_sqrt_2 F) (f_lit F 0) in
     single ''H'' [[s, s], [s, c_neg F s]])"

definition gate_s :: "'f f64_ops \<Rightarrow> 'f gate" where
  "gate_s F = (let (z, i) = (c_zero F, c_one F) in single ''S'' [[i, z], [z, c_i F]])"

definition gate_sdg :: "'f f64_ops \<Rightarrow> 'f gate" where
  "gate_sdg F = (let (z, i) = (c_zero F, c_one F) in
     single ''Sdg'' [[i, z], [z, cnew (f_lit F 0) (f_neg F (f_lit F 1))]])"

definition gate_t :: "'f f64_ops \<Rightarrow> 'f gate" where
  "gate_t F = (let (z, i) = (c_zero F, c_one F) in
     single ''T'' [[i, z], [z, from_polar F (f_lit F 1) (f_div F (f_pi F) (f_lit F 4))]])"

definition gate_tdg :: "'f f64_ops \<Rightarrow> 'f gate" where
  "gate_tdg F = (let (z, i) = (c_zero F, c_one F) in
     single ''Tdg'' [[i, z], [z, from_polar F (f_lit F 1) (f_div F (f_neg F (f_pi F)) (f_lit F 4))]])"

definition half :: "'f f64_ops \<Rightarrow> 'f \<Rightarrow> 'f" where
  "half F theta = f_div F theta (f_lit F 2)"

definition gate_rx :: "'f f64_ops \<Rightarrow> 'f \<Rightarrow> 'f gate" where
  "gate_rx F theta =
    (let c = cnew (f_cos F (half F theta)) (f_lit F 0);
         s = cnew (f_lit F 0) (f_neg F (f_sin F (half F theta))) in
     single (''Rx('' @ f_fmt F 3 theta @ '')'') [[c, s], [s, c]])"

definition gate_ry :: "'f f64_ops \<Rightarrow> 'f \<Rightarrow> 'f gate" where
  "gate_ry F theta =
    (let c = cnew (f_cos F (half F theta)) (f_lit F 0);
         s = cnew (f_sin F (half F theta)) (f_lit F 0) in
     single (''Ry('' @ f_fmt F 3 theta @ '')'') [[c, c_neg F s], [s, c]])"

definition gate_rz :: "'f f64_ops \<Rightarrow> 'f \<Rightarrow> 'f gate" where
  "gate_rz F theta =
    (let z = c_zero F in
     single (''Rz('' @ f_fmt F 3 theta @ '')'')
       [[from_polar F (f_lit F 1) (half F (f_neg F theta)), z],
        [z, from_polar F (f_lit F 1) (half F theta)]])"

definition gate_sx :: "'f f64_ops \<Rightarrow> 'f gate" where
  "gate_sx F =
    (let a = cnew (f_lit F (1 / 2)) (f_lit F (1 / 2));
         b = cnew (f_lit F (1 / 2)) (f_neg F (f_lit F (1 / 2))) in
     single ''SX'' [[a, b], [b, a]])"

definition gate_u3 :: "'f f64_ops \<Rightarrow> 'f \<Rightarrow> 'f \<Rightarrow> 'f \<Rightarrow> 'f gate" where
  "gate_u3 F theta phi lam =
    (let ct = f_cos F (half F theta); st = f_sin F (half F theta) in
     single (''U3('' @ f_fmt F 3 theta @ '','' @ f_fmt F 3 phi @ '','' @ f_fmt F 3 lam @ '')'')
       [[cnew ct (f_lit F 0), from_polar F (f_neg F st) lam],
        [from_polar F st phi, from_polar F ct (f_add F phi lam)]])"

definition gate_cnot :: "'f f64_ops \<Rightarrow> 'f gate" where
  "gate_cnot F = (let (z, i) = (c_zero F, c_one F) in
     two_qubit ''CNOT'' [[i, z, z, z], [z, i, z, z], [z, z, z, i], [z, z, i, z]])"

definition gate_cz :: "'f f64_ops \<Rightarrow> 'f gate" where
  "gate_cz F = (let (z, i) = (c_zero F, c_one F) in
     two_qubit ''CZ'' [[i, z, z, z], [z, i, z, z], [z, z, i, z], [z, z, z, c_neg F i]])"

definition gate_swap :: "'f f64_ops \<Rightarrow> 'f gate" where
  "gate_swap F = (let (z, i) = (c_zero F, c_one F) in
     two_qubit ''SWAP'' [[i, z, z, z], [z, z, i, z], [z, i, z, z], [z, z, z, i]])"

definition gate_cy :: "'f f64_ops \<Rightarrow> 'f gate" where
  "gate_cy F = (let (z, i) = (c_zero F, c_one F) in
     two_qubit ''CY'' [[i, z, z, z], [z, i, z, z],
       [z, z, z, cnew (f_lit F 0) (f_neg F (f_lit F 1))],
       [z, z, cnew (f_lit F 0) (f_lit F 1), z]])"

definition gate_rzz :: "'f f64_ops \<Rightarrow> 'f \<Rightarrow> 'f gate" where
  "gate_rzz F theta =
    (let z = c_zero F; p1 = from_polar F (f_lit F 1) (half F (f_neg F theta));
         p2 = from_polar F (f_lit F 1) (half F theta) in
     two_qubit (''Rzz('' @ f_fmt F 3 theta @ '')'')
       [[p1, z, z, z], [z, p2, z, z], [z, z, p2, z], [z, z, z, p1]])"

definition i32_max :: nat where
  "i32_max = 2 ^ 31 - 1"

definition gate_crk :: "'f f64_ops \<Rightarrow> nat \<Rightarrow> 'f gate" where
  "gate_crk F k =
    (let exponent = (if k \<le> i32_max then k else i32_max);
         angle = f_div F (f_mul F (f_lit F 2) (f_pi F)) (f_powi F (f_lit F 2) exponent);
         (z, i) = (c_zero F, c_one F) in
     two_qubit (''CR'' @ show_nat k)
       [[i, z, z, z], [z, i, z, z], [z, z, i, z], [z, z, z, from_polar F (f_lit F 1) angle]])"

lemmas gate_defs = gate_x_def gate_y_def gate_z_def gate_h_def gate_s_def gate_sdg_def gate_t_def
  gate_tdg_def gate_rx_def gate_ry_def gate_rz_def gate_sx_def gate_u3_def gate_cnot_def
  gate_cz_def gate_swap_def gate_cy_def gate_rzz_def gate_crk_def

text \<open>Every gate of the library has a square matrix of its width.\<close>

definition gate_ok :: "nat \<Rightarrow> 'f gate \<Rightarrow> bool" where
  "gate_ok n g \<longleftrightarrow> gate_width g = n \<and> gate_shape g"

lemma gate_ok_1q [simp, intro]:
  "gate_ok 1 (gate_x F)" "gate_ok 1 (gate_y F)" "gate_ok 1 (gate_z F)" "gate_ok 1 (gate_h F)"
  "gate_ok 1 (gate_s F)" "gate_ok 1 (gate_sdg F)" "gate_ok 1 (gate_t F)" "gate_ok 1 (gate_tdg F)"
  "gate_ok 1 (gate_rx F a)" "gate_ok 1 (gate_ry F a)" "gate_ok 1 (gate_rz F a)"
  "gate_ok 1 (gate_sx F)" "gate_ok 1 (gate_u3 F a b c)"
  by (simp_all add: gate_ok_def gate_shape_def gate_defs single_def Let_def)

lemma gate_ok_2q [simp, intro]:
  "gate_ok 2 (gate_cnot F)" "gate_ok 2 (gate_cz F)" "gate_ok 2 (gate_swap F)"
  "gate_ok 2 (gate_cy F)" "gate_ok 2 (gate_rzz F a)" "gate_ok 2 (gate_crk F k)"
  by (simp_all add: gate_ok_def gate_shape_def gate_defs two_qubit_def Let_def)

lemma gate_ok_dagger [simp]: "gate_ok n g \<Longrightarrow> gate_ok n (dagger F g)"
  by (simp add: gate_ok_def gate_shape_def dagger_def Let_def length_concat comp_def sum_list_triv)

lemma gate_get_shape:
  assumes "gate_ok n g" "row < 2 ^ n" "col < 2 ^ n"
  shows "gate_get g row col = Some (entry g row col)"
proof -
  have "row * 2 ^ n + col < row * 2 ^ n + 2 ^ n" using assms(3) by simp
  also have "\<dots> = Suc row * 2 ^ n" by simp
  also have "\<dots> \<le> 2 ^ n * 2 ^ n" using assms(2) by (intro mult_le_mono1) simp
  finally show ?thesis
    using assms(1) by (simp add: gate_get_def entry_def gate_ok_def gate_shape_def Let_def)
qed

end
