(* ===== verification/Op_Loops.thy ===== *)
theory Op_Loops
  imports Waros_Prelude
begin

text \<open>
  Loops over the fallible operations of the prelude and the rules by which an invariant passes
  through them: \<open>check_op\<close> is a call that only reads the state, \<open>for_op\<close> is a \<open>for\<close> loop whose
  body may leave with \<open>?\<close>, and \<open>op_keeps P m\<close> says that \<open>m\<close> leaves a state of \<open>P\<close> in \<open>P\<close>, both
  when it succeeds and when it fails.
\<close>

named_theorems keeps_intro \<open>rules for op_keeps\<close>

definition check_op :: "('s \<Rightarrow> 'e + 'a) \<Rightarrow> ('s, 'e, 'a) op" where
  "check_op f s = (f s, s)"

definition modify_op :: "('s \<Rightarrow> 's) \<Rightarrow> ('s, 'e, unit) op" where
  "modify_op f s = (Ok (), f s)"

abbreviation then_op :: "('s, 'e, 'a) op \<Rightarrow> ('s, 'e, 'b) op \<Rightarrow> ('s, 'e, 'b) op" where
  "then_op m k \<equiv> bind_op m (\<lambda>_. k)"

primrec for_op :: "('x \<Rightarrow> ('s, 'e, unit) op) \<Rightarrow> 'x list \<Rightarrow> ('s, 'e, unit) op" where
  "for_op body [] = return_op ()"
| "for_op body (x # xs) = then_op (body x) (for_op body xs)"

definition op_keeps :: "('s \<Rightarrow> bool) \<Rightarrow> ('s, 'e, 'a) op \<Rightarrow> bool" where
  "op_keeps P m \<longleftrightarrow> (\<forall>s. P s \<longrightarrow> P (snd (m s)))"

lemma op_keepsD: "op_keeps P m \<Longrightarrow> P s \<Longrightarrow> P (snd (m s))"
  by (simp add: op_keeps_def)

lemma op_keeps_return [keeps_intro]: "op_keeps P (return_op x)"
  by (simp add: op_keeps_def return_op_def)

lemma op_keeps_check [keeps_intro]: "op_keeps P (check_op f)"
  by (simp add: op_keeps_def check_op_def)

lemma op_keeps_bind [keeps_intro]:
  "op_keeps P m \<Longrightarrow> (\<And>x. op_keeps P (k x)) \<Longrightarrow> op_keeps P (bind_op m k)"
  by (auto simp: op_keeps_def bind_op_def split: prod.splits sum.splits)

lemma op_keeps_for [keeps_intro]:
  "(\<And>x. x \<in> set xs \<Longrightarrow> op_keeps P (body x)) \<Longrightarrow> op_keeps P (for_op body xs)"
  by (induction xs) (auto intro: keeps_intro)

text \<open>An operation that checks before it changes the state: the change only has to keep the
  invariant of states that pass the check.\<close>

lemma op_keeps_guarded:
  assumes "\<And>s x. P s \<Longrightarrow> f s = Ok x \<Longrightarrow> P (g s)"
  shows "op_keeps P (then_op (check_op f) (modify_op g))"
  using assms by (auto simp: op_keeps_def bind_op_def check_op_def modify_op_def split: sum.splits)

lemma for_op_Ok:
  assumes "\<And>x s. x \<in> set xs \<Longrightarrow> P s \<Longrightarrow> fst (body x s) = Ok () \<and> P (snd (body x s))" and "P s"
  shows "fst (for_op body xs s) = Ok () \<and> P (snd (for_op body xs s))"
  using assms
proof (induction xs arbitrary: s)
  case (Cons x xs)
  have "fst (body x s) = Ok ()" "P (snd (body x s))" using Cons.prems by simp_all
  then obtain s1 where "body x s = (Ok (), s1)" "P s1" by (metis prod.collapse)
  then show ?case using Cons.IH [of s1] Cons.prems(1) by (simp add: bind_op_def)
qed (simp add: return_op_def)

end
