(* ===== verification/Quantum_Circuit.thy ===== *)
theory Quantum_Circuit
  imports Quantum_Gate Op_Loops
begin

text \<open>
  Circuits of the quantum SDK (\<open>crates/waros-quantum/src/circuit.rs\<close> and
  \<open>circuit/extensions.rs\<close>): the builder operations, the well-formedness they promise to the
  simulators, composition of circuits, and the depth.

  A method that takes \<open>&mut self\<close> is an operation on the circuit; the \<open>&mut Self\<close> it returns for
  chaining is dropped. Counters of classical bits wrap at 64 bits, as \<open>usize\<close> does in a
  release build.
\<close>

section \<open>Data\<close>

datatype waros_error =
    ZeroQubits
  | QubitOutOfRange nat nat
  | SameQubit nat nat
  | TooManyQubits nat nat
  | CircuitQubitMismatch nat nat
  | InvalidQubitMapping nat nat
  | InsufficientMemory nat nat
  | InvalidShots u32
  | NumericalInstability string
  | SimulationError string
  | NetworkError string
  | APIError string
  | AuthError string
  | HardwareError string
  | Timeout string
  | ParseError string
  | IOError string

datatype 'f instruction =
    GateOp "'f gate" "nat list"
  | ConditionalGate "nat list" nat "'f gate" "nat list"
  | Measure nat nat
  | Barrier "nat list"

record 'f circuit =
  num_qubits :: nat
  num_classical_bits :: nat
  instructions :: "'f instruction list"

type_synonym ('f, 'a) circuit_op = "('f circuit, waros_error, 'a) op"

definition MAX_QUBITS :: nat where
  "MAX_QUBITS = 128"

definition usize_wrap :: "nat \<Rightarrow> nat" where
  "usize_wrap n = n mod 2 ^ 64"

section \<open>Construction and validation\<close>

definition circuit_new :: "nat \<Rightarrow> waros_error + 'f circuit" where
  "circuit_new n =
    (if n = 0 then Err ZeroQubits
     else if n > MAX_QUBITS then Err (TooManyQubits n MAX_QUBITS)
     else Ok \<lparr>num_qubits = n, num_classical_bits = 0, instructions = []\<rparr>)"

definition with_classical_bits :: "nat \<Rightarrow> nat \<Rightarrow> waros_error + 'f circuit" where
  "with_classical_bits n k =
    result_bind (circuit_new n) (\<lambda>c. Ok (c\<lparr>num_classical_bits := k\<rparr>))"

fun is_gate :: "'f instruction \<Rightarrow> bool" where
  "is_gate (GateOp g ts) = True"
| "is_gate (ConditionalGate bs v g ts) = True"
| "is_gate (Measure q b) = False"
| "is_gate (Barrier qs) = False"

definition gate_count :: "'f circuit \<Rightarrow> nat" where
  "gate_count c = length (filter is_gate (instructions c))"

definition validate_qubit :: "nat \<Rightarrow> 'f circuit \<Rightarrow> waros_error + unit" where
  "validate_qubit q c = (if q \<ge> num_qubits c then Err (QubitOutOfRange q (num_qubits c)) else Ok ())"

definition validate_pair :: "nat \<Rightarrow> nat \<Rightarrow> 'f circuit \<Rightarrow> waros_error + unit" where
  "validate_pair q0 q1 c =
    result_bind (validate_qubit q0 c) (\<lambda>_.
    result_bind (validate_qubit q1 c) (\<lambda>_.
    if q0 = q1 then Err (SameQubit q0 q1) else Ok ()))"

definition validate_triple :: "nat \<Rightarrow> nat \<Rightarrow> nat \<Rightarrow> 'f circuit \<Rightarrow> waros_error + unit" where
  "validate_triple q0 q1 q2 c =
    result_bind (validate_qubit q0 c) (\<lambda>_.
    result_bind (validate_qubit q1 c) (\<lambda>_.
    result_bind (validate_qubit q2 c) (\<lambda>_.
    if q0 = q1 \<or> q0 = q2 then Err (SameQubit q0 (max q1 q2))
    else if q1 = q2 then Err (SameQubit q1 q2) else Ok ())))"

fun validate_distinct_qubits :: "nat list \<Rightarrow> 'f circuit \<Rightarrow> waros_error + unit" where
  "validate_distinct_qubits [] c = Ok ()"
| "validate_distinct_qubits (q # qs) c =
    result_bind (validate_qubit q c) (\<lambda>_.
    if q \<in> set qs then Err (SameQubit q q) else validate_distinct_qubits qs c)"

definition ensure_classical_bits :: "nat \<Rightarrow> 'f circuit \<Rightarrow> 'f circuit" where
  "ensure_classical_bits required c =
    c\<lparr>num_classical_bits := max (num_classical_bits c) required\<rparr>"

fun validate_classical_bits :: "nat list \<Rightarrow> 'f circuit \<Rightarrow> waros_error + unit" where
  "validate_classical_bits [] c = Ok ()"
| "validate_classical_bits (b # bs) c =
    (if b \<ge> num_classical_bits c then
       Err (SimulationError (''classical bit '' @ show_nat b @ '' out of range (circuit has '' @
         show_nat (num_classical_bits c) @ '' classical bits)''))
     else validate_classical_bits bs c)"

definition push_instruction :: "'f instruction \<Rightarrow> 'f circuit \<Rightarrow> 'f circuit" where
  "push_instruction i c = c\<lparr>instructions := instructions c @ [i]\<rparr>"

definition push_op :: "'f instruction \<Rightarrow> ('f, unit) circuit_op" where
  "push_op i = modify_op (push_instruction i)"

section \<open>Builder operations\<close>

definition add1 :: "'f gate \<Rightarrow> nat \<Rightarrow> ('f, unit) circuit_op" where
  "add1 g q = then_op (check_op (validate_qubit q)) (push_op (GateOp g [q]))"

definition add2 :: "'f gate \<Rightarrow> nat \<Rightarrow> nat \<Rightarrow> ('f, unit) circuit_op" where
  "add2 g q0 q1 = then_op (check_op (validate_pair q0 q1)) (push_op (GateOp g [q0, q1]))"

definition expects_targets :: "'f gate \<Rightarrow> nat list \<Rightarrow> waros_error" where
  "expects_targets g ts = SimulationError (''gate '' @ [CHR 39] @ gate_name g @ [CHR 39] @ '' expects ''
    @ show_nat (gate_width g) @ '' targets, got '' @ show_nat (length ts))"

definition custom_gate :: "'f gate \<Rightarrow> nat list \<Rightarrow> ('f, unit) circuit_op" where
  "custom_gate g ts =
    (if gate_width g \<noteq> length ts then fail_op (expects_targets g ts)
     else if \<not> (1 \<le> gate_width g \<and> gate_width g \<le> 2) then
       fail_op (SimulationError (''gate '' @ [CHR 39] @ gate_name g @ [CHR 39] @ '' uses unsupported width '' @
         show_nat (gate_width g)))
     else then_op (check_op (validate_distinct_qubits ts)) (push_op (GateOp g ts)))"

definition conditional_gate ::
  "nat list \<Rightarrow> nat \<Rightarrow> 'f gate \<Rightarrow> nat list \<Rightarrow> ('f, unit) circuit_op" where
  "conditional_gate bits v g ts =
    (if bits = [] then
       fail_op (SimulationError ''conditional gates require at least one classical bit'')
     else then_op (check_op (validate_classical_bits bits))
       (if gate_width g \<noteq> length ts then fail_op (expects_targets g ts)
        else then_op (check_op (validate_distinct_qubits ts))
          (push_op (ConditionalGate bits v g ts))))"

definition circ_h :: "'f f64_ops \<Rightarrow> nat \<Rightarrow> ('f, unit) circuit_op" where
  "circ_h F q = add1 (gate_h F) q"

definition circ_x :: "'f f64_ops \<Rightarrow> nat \<Rightarrow> ('f, unit) circuit_op" where
  "circ_x F q = add1 (gate_x F) q"

definition circ_y :: "'f f64_ops \<Rightarrow> nat \<Rightarrow> ('f, unit) circuit_op" where
  "circ_y F q = add1 (gate_y F) q"

definition circ_z :: "'f f64_ops \<Rightarrow> nat \<Rightarrow> ('f, unit) circuit_op" where
  "circ_z F q = add1 (gate_z F) q"

definition circ_s :: "'f f64_ops \<Rightarrow> nat \<Rightarrow> ('f, unit) circuit_op" where
  "circ_s F q = add1 (gate_s F) q"

definition circ_sdg :: "'f f64_ops \<Rightarrow> nat \<Rightarrow> ('f, unit) circuit_op" where
  "circ_sdg F q = add1 (gate_sdg F) q"

definition circ_t :: "'f f64_ops \<Rightarrow> nat \<Rightarrow> ('f, unit) circuit_op" where
  "circ_t F q = add1 (gate_t F) q"

definition circ_tdg :: "'f f64_ops \<Rightarrow> nat \<Rightarrow> ('f, unit) circuit_op" where
  "circ_tdg F q = add1 (gate_tdg F) q"

definition circ_rx :: "'f f64_ops \<Rightarrow> nat \<Rightarrow> 'f \<Rightarrow> ('f, unit) circuit_op" where
  "circ_rx F q theta = add1 (gate_rx F theta) q"

definition circ_ry :: "'f f64_ops \<Rightarrow> nat \<Rightarrow> 'f \<Rightarrow> ('f, unit) circuit_op" where
  "circ_ry F q theta = add1 (gate_ry F theta) q"

definition circ_rz :: "'f f64_ops \<Rightarrow> nat \<Rightarrow> 'f \<Rightarrow> ('f, unit) circuit_op" where
  "circ_rz F q theta = add1 (gate_rz F theta) q"

definition circ_sx :: "'f f64_ops \<Rightarrow> nat \<Rightarrow> ('f, unit) circuit_op" where
  "circ_sx F q = add1 (gate_sx F) q"

definition circ_u3 :: "'f f64_ops \<Rightarrow> nat \<Rightarrow> 'f \<Rightarrow> 'f \<Rightarrow> 'f \<Rightarrow> ('f, unit) circuit_op" where
  "circ_u3 F q theta phi lam = add1 (gate_u3 F theta phi lam) q"

definition circ_cnot :: "'f f64_ops \<Rightarrow> nat \<Rightarrow> nat \<Rightarrow> ('f, unit) circuit_op" where
  "circ_cnot F c t = add2 (gate_cnot F) c t"

definition circ_cz :: "'f f64_ops \<Rightarrow> nat \<Rightarrow> nat \<Rightarrow> ('f, unit) circuit_op" where
  "circ_cz F q0 q1 = add2 (gate_cz F) q0 q1"

definition circ_cy :: "'f f64_ops \<Rightarrow> nat \<Rightarrow> nat \<Rightarrow> ('f, unit) circuit_op" where
  "circ_cy F q0 q1 = add2 (gate_cy F) q0 q1"

definition circ_swap :: "'f f64_ops \<Rightarrow> nat \<Rightarrow> nat \<Rightarrow> ('f, unit) circuit_op" where
  "circ_swap F q0 q1 = add2 (gate_swap F) q0 q1"

definition circ_rzz :: "'f f64_ops \<Rightarrow> nat \<Rightarrow> nat \<Rightarrow> 'f \<Rightarrow> ('f, unit) circuit_op" where
  "circ_rzz F q0 q1 theta = add2 (gate_rzz F theta) q0 q1"

definition toffoli :: "'f f64_ops \<Rightarrow> nat \<Rightarrow> nat \<Rightarrow> nat \<Rightarrow> ('f, unit) circuit_op" where
  "toffoli F c0 c1 t =
    then_op (check_op (validate_triple c0 c1 t))
     (for_op (\<lambda>m. m)
       [circ_h F t, circ_cnot F c1 t, circ_tdg F t, circ_cnot F c0 t, circ_t F t, circ_cnot F c1 t,
        circ_tdg F t, circ_cnot F c0 t, circ_t F c1, circ_t F t, circ_h F t, circ_cnot F c0 c1,
        circ_t F c0, circ_tdg F c1, circ_cnot F c0 c1])"

definition measure_push :: "nat \<Rightarrow> 'f circuit \<Rightarrow> 'f circuit" where
  "measure_push q c =
    push_instruction (Measure q (num_classical_bits c))
      (c\<lparr>num_classical_bits := usize_wrap (num_classical_bits c + 1)\<rparr>)"

definition circ_measure :: "nat \<Rightarrow> ('f, nat) circuit_op" where
  "circ_measure q =
    then_op (check_op (validate_qubit q)) (\<lambda>c. (Ok (num_classical_bits c), measure_push q c))"

definition measure_into :: "nat \<Rightarrow> nat \<Rightarrow> ('f, unit) circuit_op" where
  "measure_into q b =
    then_op (check_op (validate_qubit q))
      (modify_op (\<lambda>c. push_instruction (Measure q b) (ensure_classical_bits (usize_wrap (b + 1)) c)))"

definition measure_all :: "('f, unit) circuit_op" where
  "measure_all c = for_op (\<lambda>q. then_op (circ_measure q) (return_op ())) [0..<num_qubits c] c"

definition barrier :: "nat list \<Rightarrow> ('f, unit) circuit_op" where
  "barrier qs = then_op (check_op (validate_distinct_qubits qs)) (push_op (Barrier qs))"

definition barrier_all :: "'f circuit \<Rightarrow> 'f circuit" where
  "barrier_all c = push_instruction (Barrier [0..<num_qubits c]) c"


section \<open>Extensions: Fourier transforms, composition and depth\<close>

text \<open>The optional mapping of qubits; indexing outside it panics, which \<open>append_instruction\<close>
  is only called without (\<open>other\<close> has as many qubits as the mapping).\<close>

definition map_qubit :: "nat list option \<Rightarrow> nat \<Rightarrow> nat" where
  "map_qubit mapping q = (case mapping of None \<Rightarrow> q | Some m \<Rightarrow> m ! q)"

definition bits_required :: "nat list \<Rightarrow> nat" where
  "bits_required bits = (if bits = [] then 0 else usize_wrap (Max (set bits) + 1))"

fun append_instruction :: "nat list option \<Rightarrow> 'f instruction \<Rightarrow> ('f, unit) circuit_op" where
  "append_instruction m (GateOp g ts) = push_op (GateOp g (map (map_qubit m) ts))"
| "append_instruction m (ConditionalGate bits v g ts) =
    then_op (modify_op (ensure_classical_bits (bits_required bits)))
      (push_op (ConditionalGate bits v g (map (map_qubit m) ts)))"
| "append_instruction m (Measure q b) = then_op (circ_measure (map_qubit m q)) (return_op ())"
| "append_instruction m (Barrier qs) = push_op (Barrier (map (map_qubit m) qs))"

definition circ_crk :: "'f f64_ops \<Rightarrow> nat \<Rightarrow> nat \<Rightarrow> nat \<Rightarrow> ('f, unit) circuit_op" where
  "circ_crk F c t k = add2 (gate_crk F k) c t"

definition swap_ends :: "'f f64_ops \<Rightarrow> nat list \<Rightarrow> ('f, unit) circuit_op" where
  "swap_ends F qs =
    for_op (\<lambda>i. circ_swap F (qs ! i) (qs ! (length qs - i - 1))) [0..<length qs div 2]"

definition qft :: "'f f64_ops \<Rightarrow> nat list \<Rightarrow> ('f, unit) circuit_op" where
  "qft F qs =
    then_op (check_op (validate_distinct_qubits qs))
    (then_op
      (for_op (\<lambda>i. then_op (circ_h F (qs ! i))
         (for_op (\<lambda>j. circ_crk F (qs ! j) (qs ! i) (j - i + 1)) [i + 1..<length qs]))
       [0..<length qs])
      (swap_ends F qs))"

definition iqft :: "'f f64_ops \<Rightarrow> nat list \<Rightarrow> ('f, unit) circuit_op" where
  "iqft F qs =
    then_op (check_op (validate_distinct_qubits qs))
    (then_op (swap_ends F qs)
      (for_op (\<lambda>i. then_op
         (for_op (\<lambda>j. add2 (dagger F (gate_crk F (j - i + 1))) (qs ! j) (qs ! i))
           (rev [i + 1..<length qs]))
         (circ_h F (qs ! i)))
       (rev [0..<length qs])))"

definition circ_append :: "'f circuit \<Rightarrow> ('f, unit) circuit_op" where
  "circ_append other c =
    (if num_qubits c \<noteq> num_qubits other
     then fail_op (CircuitQubitMismatch (num_qubits c) (num_qubits other)) c
     else for_op (append_instruction None) (instructions other) c)"

definition circ_compose :: "'f circuit \<Rightarrow> nat list \<Rightarrow> ('f, unit) circuit_op" where
  "circ_compose other mapping =
    (if length mapping \<noteq> num_qubits other
     then fail_op (InvalidQubitMapping (length mapping) (num_qubits other))
     else then_op (check_op (validate_distinct_qubits mapping))
       (for_op (append_instruction (Some mapping)) (instructions other)))"

fun instruction_targets :: "'f instruction \<Rightarrow> nat list option" where
  "instruction_targets (GateOp g ts) = Some ts"
| "instruction_targets (ConditionalGate bits v g ts) = Some ts"
| "instruction_targets (Measure q b) = None"
| "instruction_targets (Barrier qs) = None"

definition depth_step :: "'f instruction \<Rightarrow> nat list \<times> nat \<Rightarrow> nat list \<times> nat" where
  "depth_step i = (\<lambda>(layers, max_depth).
    case instruction_targets i of
      None \<Rightarrow> (layers, max_depth)
    | Some ts \<Rightarrow>
        let layer = foldl max 0 (map (\<lambda>t. layers ! t) ts) + 1 in
        (fold (\<lambda>t ls. ls[t := layer]) ts layers, max max_depth layer))"

definition depth :: "'f circuit \<Rightarrow> nat" where
  "depth c = snd (fold depth_step (instructions c) (replicate (num_qubits c) 0, 0))"

end
