(* ===== verification/Quantum_Circuit_Props.thy ===== *)
theory Quantum_Circuit_Props
  imports Quantum_Circuit
begin

text \<open>
  Two invariants of circuits. The first, \<open>instr_accepted\<close>, is what the checks of the builder give:
  every circuit a client can make has it. The second, \<open>instr_ok\<close>, is what the simulators rely on when
  they index state vectors by the targets of a gate and a classical register by the bits of a
  measurement. The builder does not check all of it (the matrix of a custom gate, the width of a
  conditional gate, the end of the range of classical bits), and \<open>runnable\<close> is the difference.
  The rules for the operations that push library gates are proved once for both, in a locale.
\<close>

section \<open>Well-formedness\<close>

definition targets_ok :: "nat \<Rightarrow> nat list \<Rightarrow> bool" where
  "targets_ok n ts \<longleftrightarrow> distinct ts \<and> (\<forall>t\<in>set ts. t < n)"

fun instr_ok :: "nat \<Rightarrow> nat \<Rightarrow> 'f instruction \<Rightarrow> bool" where
  "instr_ok n k (GateOp g ts) \<longleftrightarrow>
    targets_ok n ts \<and> gate_ok (length ts) g \<and> 1 \<le> length ts \<and> length ts \<le> 2"
| "instr_ok n k (ConditionalGate bits v g ts) \<longleftrightarrow>
    bits \<noteq> [] \<and> (\<forall>b\<in>set bits. b < k) \<and>
    targets_ok n ts \<and> gate_ok (length ts) g \<and> 1 \<le> length ts \<and> length ts \<le> 2"
| "instr_ok n k (Measure q b) \<longleftrightarrow> q < n \<and> b < k"
| "instr_ok n k (Barrier qs) \<longleftrightarrow> targets_ok n qs"

definition circuit_ok :: "'f circuit \<Rightarrow> bool" where
  "circuit_ok c \<longleftrightarrow> 0 < num_qubits c \<and> num_qubits c \<le> MAX_QUBITS \<and>
    num_classical_bits c < 2 ^ 64 \<and>
    (\<forall>i\<in>set (instructions c). instr_ok (num_qubits c) (num_classical_bits c) i)"

text \<open>What the builder checks of an instruction, and what the simulators need beyond it.\<close>

fun instr_accepted :: "nat \<Rightarrow> 'f instruction \<Rightarrow> bool" where
  "instr_accepted n (GateOp g ts) \<longleftrightarrow>
    targets_ok n ts \<and> gate_width g = length ts \<and> 1 \<le> length ts \<and> length ts \<le> 2"
| "instr_accepted n (ConditionalGate bits v g ts) \<longleftrightarrow>
    bits \<noteq> [] \<and> targets_ok n ts \<and> gate_width g = length ts"
| "instr_accepted n (Measure q b) \<longleftrightarrow> q < n"
| "instr_accepted n (Barrier qs) \<longleftrightarrow> targets_ok n qs"

fun instr_runnable :: "nat \<Rightarrow> 'f instruction \<Rightarrow> bool" where
  "instr_runnable k (GateOp g ts) \<longleftrightarrow> gate_shape g"
| "instr_runnable k (ConditionalGate bits v g ts) \<longleftrightarrow>
    (\<forall>b\<in>set bits. b < k) \<and> gate_shape g \<and> 1 \<le> length ts \<and> length ts \<le> 2"
| "instr_runnable k (Measure q b) \<longleftrightarrow> b < k"
| "instr_runnable k (Barrier qs) \<longleftrightarrow> True"

definition runnable :: "'f circuit \<Rightarrow> bool" where
  "runnable c \<longleftrightarrow> list_all (instr_runnable (num_classical_bits c)) (instructions c)"

lemma instr_ok_iff: "instr_ok n k i \<longleftrightarrow> instr_accepted n i \<and> instr_runnable k i"
  by (cases i) (auto simp: gate_ok_def)

lemma instr_ok_mono: "instr_ok n k i \<Longrightarrow> k \<le> k' \<Longrightarrow> instr_ok n k' i"
  by (cases i) (auto dest: less_le_trans)

text \<open>The state of the builder: \<open>circuit_inv I n\<close> holds of the circuits on \<open>n\<close> qubits whose instructions
  satisfy \<open>I\<close>.\<close>

definition circuit_inv :: "(nat \<Rightarrow> nat \<Rightarrow> 'f instruction \<Rightarrow> bool) \<Rightarrow> nat \<Rightarrow> 'f circuit \<Rightarrow> bool" where
  "circuit_inv I n c \<longleftrightarrow> num_qubits c = n \<and> 0 < n \<and> n \<le> MAX_QUBITS \<and> num_classical_bits c < 2 ^ 64 \<and>
    (\<forall>i\<in>set (instructions c). I n (num_classical_bits c) i)"

abbreviation builder_ok :: "nat \<Rightarrow> 'f circuit \<Rightarrow> bool" where
  "builder_ok \<equiv> circuit_inv instr_ok"

abbreviation accepted_ok :: "nat \<Rightarrow> 'f circuit \<Rightarrow> bool" where
  "accepted_ok \<equiv> circuit_inv (\<lambda>n k. instr_accepted n)"

lemma builder_ok_iff: "builder_ok n c \<longleftrightarrow> circuit_ok c \<and> num_qubits c = n"
  by (auto simp: circuit_inv_def circuit_ok_def)

lemma accepted_runnable_ok: "accepted_ok n c \<Longrightarrow> runnable c \<Longrightarrow> circuit_ok c"
  by (auto simp: circuit_inv_def circuit_ok_def runnable_def list_all_iff instr_ok_iff)

lemma circuit_ok_runnable: "circuit_ok c \<Longrightarrow> runnable c"
  by (auto simp: circuit_ok_def runnable_def list_all_iff instr_ok_iff)

lemma push_instruction_sel [simp]:
  "num_qubits (push_instruction i c) = num_qubits c"
  "num_classical_bits (push_instruction i c) = num_classical_bits c"
  "instructions (push_instruction i c) = instructions c @ [i]"
  by (simp_all add: push_instruction_def)

lemma circuit_inv_push [intro]:
  "circuit_inv I n c \<Longrightarrow> I n (num_classical_bits c) i \<Longrightarrow> circuit_inv I n (push_instruction i c)"
  by (auto simp: circuit_inv_def)

section \<open>Validation\<close>

lemma validate_qubit_Ok [simp]: "validate_qubit q c = Ok u \<longleftrightarrow> q < num_qubits c"
  by (simp add: validate_qubit_def)

lemma validate_pair_Ok [simp]:
  "validate_pair q0 q1 c = Ok u \<longleftrightarrow> q0 < num_qubits c \<and> q1 < num_qubits c \<and> q0 \<noteq> q1"
  by (simp add: validate_pair_def)

lemma validate_triple_Ok [simp]:
  "validate_triple q0 q1 q2 c = Ok u \<longleftrightarrow> targets_ok (num_qubits c) [q0, q1, q2]"
  by (auto simp: validate_triple_def targets_ok_def)

lemma validate_distinct_qubits_Ok [simp]:
  "validate_distinct_qubits qs c = Ok u \<longleftrightarrow> targets_ok (num_qubits c) qs"
  by (induction qs) (auto simp: targets_ok_def)

lemma validate_classical_bits_Ok [simp]:
  "validate_classical_bits bs c = Ok u \<longleftrightarrow> (\<forall>b\<in>set bs. b < num_classical_bits c)"
  by (induction bs) auto

section \<open>Operations that keep it\<close>

lemma push_op_guarded:
  assumes "\<And>c. circuit_inv I n c \<Longrightarrow> f c = Ok () \<Longrightarrow> I n (num_classical_bits c) i"
  shows "op_keeps (circuit_inv I n) (then_op (check_op f) (push_op i))"
  unfolding push_op_def by (rule op_keeps_guarded) (use assms in auto)

lemma op_keeps_fail [keeps_intro]: "op_keeps P (fail_op e)"
  by (simp add: op_keeps_def fail_op_def)

lemmas builder_1q_defs = circ_h_def circ_x_def circ_y_def circ_z_def circ_s_def circ_sdg_def
  circ_t_def circ_tdg_def circ_rx_def circ_ry_def circ_rz_def circ_sx_def circ_u3_def

lemmas builder_2q_defs = circ_cnot_def circ_cz_def circ_cy_def circ_swap_def circ_rzz_def
  circ_crk_def

locale instruction_invariant =
  fixes I :: "nat \<Rightarrow> nat \<Rightarrow> 'f instruction \<Rightarrow> bool"
  assumes I_mono: "I n k i \<Longrightarrow> k \<le> k' \<Longrightarrow> I n k' i"
    and I_gate: "targets_ok n ts \<Longrightarrow> gate_ok (length ts) g \<Longrightarrow> 1 \<le> length ts \<Longrightarrow> length ts \<le> 2 \<Longrightarrow>
      I n k (GateOp g ts)"
    and I_barrier: "targets_ok n qs \<Longrightarrow> I n k (Barrier qs)"
begin

lemma ensure_keeps: "circuit_inv I n c \<Longrightarrow> k < 2 ^ 64 \<Longrightarrow> circuit_inv I n (ensure_classical_bits k c)"
  by (auto simp: circuit_inv_def ensure_classical_bits_def intro: I_mono)

lemma add1_keeps [keeps_intro]: "gate_ok 1 g \<Longrightarrow> op_keeps (circuit_inv I n) (add1 g q)"
  unfolding add1_def by (rule push_op_guarded) (auto simp: circuit_inv_def targets_ok_def intro!: I_gate)

lemma add2_keeps [keeps_intro]: "gate_ok 2 g \<Longrightarrow> op_keeps (circuit_inv I n) (add2 g q0 q1)"
  unfolding add2_def
  by (rule push_op_guarded) (auto simp: circuit_inv_def targets_ok_def numeral_2_eq_2 intro!: I_gate)

lemma barrier_keeps [keeps_intro]: "op_keeps (circuit_inv I n) (barrier qs)"
  unfolding barrier_def by (rule push_op_guarded) (auto simp: circuit_inv_def intro!: I_barrier)

lemma barrier_all_keeps: "circuit_inv I n c \<Longrightarrow> circuit_inv I n (barrier_all c)"
  unfolding barrier_all_def
  by (rule circuit_inv_push) (auto simp: circuit_inv_def targets_ok_def intro!: I_barrier)

lemma builder_1q_keeps [keeps_intro]:
  "op_keeps (circuit_inv I n) (circ_h F q)" "op_keeps (circuit_inv I n) (circ_x F q)"
  "op_keeps (circuit_inv I n) (circ_y F q)" "op_keeps (circuit_inv I n) (circ_z F q)"
  "op_keeps (circuit_inv I n) (circ_s F q)" "op_keeps (circuit_inv I n) (circ_sdg F q)"
  "op_keeps (circuit_inv I n) (circ_t F q)" "op_keeps (circuit_inv I n) (circ_tdg F q)"
  "op_keeps (circuit_inv I n) (circ_rx F q a)" "op_keeps (circuit_inv I n) (circ_ry F q a)"
  "op_keeps (circuit_inv I n) (circ_rz F q a)" "op_keeps (circuit_inv I n) (circ_sx F q)"
  "op_keeps (circuit_inv I n) (circ_u3 F q a b c)"
  unfolding builder_1q_defs by (intro keeps_intro gate_ok_1q)+

lemma builder_2q_keeps [keeps_intro]:
  "op_keeps (circuit_inv I n) (circ_cnot F q r)" "op_keeps (circuit_inv I n) (circ_cz F q r)"
  "op_keeps (circuit_inv I n) (circ_cy F q r)" "op_keeps (circuit_inv I n) (circ_swap F q r)"
  "op_keeps (circuit_inv I n) (circ_rzz F q r a)" "op_keeps (circuit_inv I n) (circ_crk F q r k)"
  unfolding builder_2q_defs by (intro keeps_intro gate_ok_2q)+

lemma toffoli_keeps [keeps_intro]: "op_keeps (circuit_inv I n) (toffoli F a b t)"
  unfolding toffoli_def by (intro keeps_intro) (auto intro: keeps_intro)

lemma swap_ends_keeps [keeps_intro]: "op_keeps (circuit_inv I n) (swap_ends F qs)"
  unfolding swap_ends_def by (intro keeps_intro)

lemma qft_keeps [keeps_intro]: "op_keeps (circuit_inv I n) (qft F qs)"
  unfolding qft_def by (intro keeps_intro)

lemma iqft_keeps [keeps_intro]: "op_keeps (circuit_inv I n) (iqft F qs)"
  unfolding iqft_def by (intro keeps_intro gate_ok_dagger gate_ok_2q)

end

interpretation ok: instruction_invariant instr_ok
  by unfold_locales (auto intro: instr_ok_mono)

interpretation acc: instruction_invariant "\<lambda>n k. instr_accepted n"
  by unfold_locales (auto simp: gate_ok_def)

section \<open>Gates of the client\<close>

lemma custom_gate_keeps:
  "gate_shape g \<Longrightarrow> op_keeps (builder_ok n) (custom_gate g ts)"
  unfolding custom_gate_def
  by (auto intro!: push_op_guarded keeps_intro simp: circuit_inv_def gate_ok_def)

lemma custom_gate_accepted: "op_keeps (accepted_ok n) (custom_gate g ts)"
  unfolding custom_gate_def
  by (auto intro!: push_op_guarded keeps_intro simp: circuit_inv_def)

lemma conditional_gate_keeps:
  assumes "gate_shape g" "1 \<le> gate_width g" "gate_width g \<le> 2"
  shows "op_keeps (builder_ok n) (conditional_gate bits v g ts)"
  using assms
  by (auto simp: conditional_gate_def op_keeps_def bind_op_def check_op_def push_op_def
      modify_op_def fail_op_def gate_ok_def circuit_inv_def split: sum.splits)

lemma conditional_gate_accepted: "op_keeps (accepted_ok n) (conditional_gate bits v g ts)"
  by (auto simp: conditional_gate_def op_keeps_def bind_op_def check_op_def push_op_def
      modify_op_def fail_op_def circuit_inv_def split: sum.splits)

section \<open>Measurements\<close>

lemma measure_push_ok:
  assumes "builder_ok n c" "q < n" "num_classical_bits c + 1 < 2 ^ 64"
  shows "builder_ok n (measure_push q c) \<and>
    num_classical_bits (measure_push q c) = num_classical_bits c + 1"
  using assms
  by (auto simp: measure_push_def circuit_inv_def usize_wrap_def intro: instr_ok_mono)

lemma circ_measure_eq:
  "circ_measure q c = (if q < num_qubits c then (Ok (num_classical_bits c), measure_push q c)
    else (Err (QubitOutOfRange q (num_qubits c)), c))"
  by (simp add: circ_measure_def bind_op_def check_op_def validate_qubit_def)

lemma circ_measure_ok:
  assumes "builder_ok n c" "num_classical_bits c + 1 < 2 ^ 64"
  shows "builder_ok n (snd (circ_measure q c)) \<and>
    num_classical_bits (snd (circ_measure q c)) \<le> num_classical_bits c + 1"
  using assms measure_push_ok [OF assms(1) _ assms(2), of q]
  by (auto simp: circ_measure_eq circuit_inv_def)

lemma measure_into_ok:
  assumes "builder_ok n c" "b + 1 < 2 ^ 64"
  shows "builder_ok n (snd (measure_into q b c))"
  using assms circuit_inv_push [OF ok.ensure_keeps [OF assms(1), of "b + 1"], of "Measure q b"]
  by (auto simp: measure_into_def bind_op_def check_op_def modify_op_def usize_wrap_def
      circuit_inv_def ensure_classical_bits_def split: sum.splits)

text \<open>A list of instructions appended to a circuit: each measurement takes a fresh classical bit,
  and each condition makes its bits exist.\<close>

definition bits_bound :: "'f instruction list \<Rightarrow> nat" where
  "bits_bound is = length (filter (\<lambda>i. case i of Measure q b \<Rightarrow> True | _ \<Rightarrow> False) is)"

definition mapping_ok :: "nat \<Rightarrow> nat \<Rightarrow> nat list option \<Rightarrow> bool" where
  "mapping_ok n n' m \<longleftrightarrow> (case m of None \<Rightarrow> n' = n | Some qs \<Rightarrow> length qs = n' \<and> targets_ok n qs)"

lemma map_qubit_targets:
  assumes "mapping_ok n n' m" "targets_ok n' ts"
  shows "targets_ok n (map (map_qubit m) ts)"
  using assms
  by (auto simp: mapping_ok_def targets_ok_def map_qubit_def distinct_map inj_on_def
      nth_eq_iff_index_eq split: option.splits)

lemma map_qubit_less: "mapping_ok n n' m \<Longrightarrow> q < n' \<Longrightarrow> map_qubit m q < n"
  by (auto simp: mapping_ok_def targets_ok_def map_qubit_def split: option.splits)

lemma bits_required_le:
  assumes "bits \<noteq> []" "\<forall>b\<in>set bits. b < k" "k < 2 ^ 64"
  shows "bits_required bits \<le> k" and "\<forall>b\<in>set bits. b < bits_required bits"
proof -
  have "Max (set bits) < k" using assms(1,2) by simp
  then have "(Max (set bits) + 1) mod 2 ^ 64 = Max (set bits) + 1"
    using assms(3) by (intro mod_less) linarith
  then have *: "bits_required bits = Max (set bits) + 1"
    using assms(1) by (simp add: bits_required_def usize_wrap_def)
  show "bits_required bits \<le> k" using * \<open>Max (set bits) < k\<close> by simp
  show "\<forall>b\<in>set bits. b < bits_required bits" using * by (simp add: less_Suc_eq_le)
qed

lemma append_instruction_ok:
  assumes "builder_ok n c" "mapping_ok n n' m" "instr_ok n' k i" "k < 2 ^ 64"
    and "max (num_classical_bits c) k + bits_bound [i] < 2 ^ 64"
  shows "builder_ok n (snd (append_instruction m i c)) \<and> fst (append_instruction m i c) = Ok () \<and>
    max (num_classical_bits (snd (append_instruction m i c))) k
      \<le> max (num_classical_bits c) k + bits_bound [i]"
proof (cases i)
  case (GateOp g ts)
  with assms(1,3) map_qubit_targets [OF assms(2), of ts] show ?thesis
    by (auto simp: push_op_def modify_op_def bits_bound_def)
next
  case (ConditionalGate bits v g ts)
  then have b: "bits_required bits \<le> k" "\<forall>b\<in>set bits. b < bits_required bits"
    using bits_required_le [of bits k] assms(3,4) by simp_all
  have "bits_required bits < 2 ^ 64" using b(1) assms(4) by linarith
  then have "builder_ok n (ensure_classical_bits (bits_required bits) c)" using assms(1) by (rule ok.ensure_keeps [rotated])
  then show ?thesis
    using ConditionalGate assms(3) b map_qubit_targets [OF assms(2), of ts]
    by (auto simp: push_op_def modify_op_def bits_bound_def bind_op_def ensure_classical_bits_def
        less_max_iff_disj)
next
  case (Measure q b)
  have "map_qubit m q < n" using Measure assms(3) map_qubit_less [OF assms(2)] by simp
  moreover have "num_classical_bits c + 1 < 2 ^ 64"
    using assms(5) Measure by (simp add: bits_bound_def)
  ultimately show ?thesis
    using Measure measure_push_ok [OF assms(1)] assms(1)
    by (auto simp: circ_measure_eq bind_op_def return_op_def bits_bound_def builder_ok_iff)
next
  case (Barrier qs)
  with assms(1,3) map_qubit_targets [OF assms(2), of qs] show ?thesis
    by (auto simp: push_op_def modify_op_def bits_bound_def)
qed

lemma bits_bound_Cons: "bits_bound (i # is) = bits_bound [i] + bits_bound is"
  by (simp add: bits_bound_def)

lemma append_instructions_ok:
  assumes "builder_ok n c" "mapping_ok n n' m" "\<forall>i\<in>set is. instr_ok n' k i" "k < 2 ^ 64"
    and "max (num_classical_bits c) k + bits_bound is < 2 ^ 64"
  shows "builder_ok n (snd (for_op (append_instruction m) is c)) \<and>
    fst (for_op (append_instruction m) is c) = Ok ()"
  using assms
proof (induction "is" arbitrary: c)
  case (Cons i "is")
  have 1: "builder_ok n (snd (append_instruction m i c)) \<and>
      fst (append_instruction m i c) = Ok () \<and>
      max (num_classical_bits (snd (append_instruction m i c))) k
        \<le> max (num_classical_bits c) k + bits_bound [i]"
    using Cons.prems by (intro append_instruction_ok [of n c n' m]) (auto simp: bits_bound_Cons [of i "is"])
  then obtain c1 where c1: "append_instruction m i c = (Ok (), c1)" by (metis prod.collapse)
  have "max (num_classical_bits c1) k + bits_bound is < 2 ^ 64"
    using 1 Cons.prems(5) unfolding c1 snd_conv bits_bound_Cons [of i "is"] by linarith
  then show ?case using Cons.IH [of c1] Cons.prems 1 by (simp add: c1 bind_op_def)
qed (simp add: return_op_def)

lemma measure_all_ok:
  fixes c :: "'f circuit"
  assumes "builder_ok n c" "num_classical_bits c + num_qubits c < 2 ^ 64"
  shows "builder_ok n (snd (measure_all c)) \<and> fst (measure_all c) = Ok ()"
proof -
  have m: "for_op (\<lambda>q. then_op (circ_measure q) (return_op ())) qs
      = for_op (append_instruction None) (map (\<lambda>q. Measure q 0 :: 'f instruction) qs)" for qs
    by (induction qs) (simp_all add: map_qubit_def)
  have "bits_bound (map (\<lambda>q. Measure q 0 :: 'f instruction) qs) = length qs" for qs
    by (induction qs) (simp_all add: bits_bound_def)
  moreover have n: "num_qubits c = n" "n \<le> MAX_QUBITS"
    using assms(1) by (auto simp: circuit_inv_def)
  ultimately have "max (num_classical_bits c) 1 +
      bits_bound (map (\<lambda>q. Measure q 0 :: 'f instruction) [0..<n]) < 2 ^ 64"
    using assms(2) by (simp add: max_def MAX_QUBITS_def)
  then show ?thesis
    using append_instructions_ok [OF assms(1), of n None "map (\<lambda>q. Measure q 0) [0..<n]" 1] n(1)
    by (simp add: measure_all_def m mapping_ok_def)
qed

section \<open>Circuits the builder makes\<close>

text \<open>Every circuit a client can make: the constructors and every method of the builder, called in any
  order and with any arguments. A call that fails gives the circuit
  it leaves behind.\<close>

inductive built :: "'f f64_ops \<Rightarrow> 'f circuit \<Rightarrow> bool" for F where
  built_new: "circuit_new n = Ok c \<Longrightarrow> built F c"
| built_bits: "with_classical_bits n k = Ok c \<Longrightarrow> k < 2 ^ 64 \<Longrightarrow> built F c"
| built_h: "built F c \<Longrightarrow> built F (snd (circ_h F q c))"
| built_x: "built F c \<Longrightarrow> built F (snd (circ_x F q c))"
| built_y: "built F c \<Longrightarrow> built F (snd (circ_y F q c))"
| built_z: "built F c \<Longrightarrow> built F (snd (circ_z F q c))"
| built_s: "built F c \<Longrightarrow> built F (snd (circ_s F q c))"
| built_sdg: "built F c \<Longrightarrow> built F (snd (circ_sdg F q c))"
| built_t: "built F c \<Longrightarrow> built F (snd (circ_t F q c))"
| built_tdg: "built F c \<Longrightarrow> built F (snd (circ_tdg F q c))"
| built_rx: "built F c \<Longrightarrow> built F (snd (circ_rx F q a c))"
| built_ry: "built F c \<Longrightarrow> built F (snd (circ_ry F q a c))"
| built_rz: "built F c \<Longrightarrow> built F (snd (circ_rz F q a c))"
| built_sx: "built F c \<Longrightarrow> built F (snd (circ_sx F q c))"
| built_u3: "built F c \<Longrightarrow> built F (snd (circ_u3 F q a b d c))"
| built_cnot: "built F c \<Longrightarrow> built F (snd (circ_cnot F q r c))"
| built_cz: "built F c \<Longrightarrow> built F (snd (circ_cz F q r c))"
| built_cy: "built F c \<Longrightarrow> built F (snd (circ_cy F q r c))"
| built_swap: "built F c \<Longrightarrow> built F (snd (circ_swap F q r c))"
| built_rzz: "built F c \<Longrightarrow> built F (snd (circ_rzz F q r a c))"
| built_crk: "built F c \<Longrightarrow> built F (snd (circ_crk F q r k c))"
| built_toffoli: "built F c \<Longrightarrow> built F (snd (toffoli F q r t c))"
| built_qft: "built F c \<Longrightarrow> built F (snd (qft F qs c))"
| built_iqft: "built F c \<Longrightarrow> built F (snd (iqft F qs c))"
| built_barrier: "built F c \<Longrightarrow> built F (snd (barrier qs c))"
| built_barrier_all: "built F c \<Longrightarrow> built F (barrier_all c)"
| built_custom: "built F c \<Longrightarrow> built F (snd (custom_gate g ts c))"
| built_conditional: "built F c \<Longrightarrow> built F (snd (conditional_gate bits v g ts c))"
| built_measure: "built F c \<Longrightarrow> built F (snd (circ_measure q c))"
| built_measure_into: "built F c \<Longrightarrow> b < 2 ^ 64 \<Longrightarrow> built F (snd (measure_into q b c))"
| built_measure_all: "built F c \<Longrightarrow> built F (snd (measure_all c))"
| built_append: "built F c \<Longrightarrow> built F other \<Longrightarrow>
    built F (snd (circ_append other c))"
| built_compose: "built F c \<Longrightarrow> built F other \<Longrightarrow>
    built F (snd (circ_compose other mapping c))"

lemma accepted_step:
  assumes "op_keeps (accepted_ok (num_qubits c)) m" "accepted_ok (num_qubits c) c"
  shows "accepted_ok (num_qubits (snd (m c))) (snd (m c))"
  using op_keepsD [OF assms] by (auto simp: circuit_inv_def)

lemma measure_push_accepted: "accepted_ok n c \<Longrightarrow> q < n \<Longrightarrow> accepted_ok n (measure_push q c)"
  by (auto simp: circuit_inv_def measure_push_def usize_wrap_def)

lemma circ_measure_accepted: "op_keeps (accepted_ok n) (circ_measure q)"
  using measure_push_accepted by (auto simp: op_keeps_def circ_measure_eq circuit_inv_def)

lemma ensure_accepted: "accepted_ok n c \<Longrightarrow> accepted_ok n (ensure_classical_bits (usize_wrap k) c)"
  by (rule acc.ensure_keeps) (simp_all add: usize_wrap_def)

lemma measure_into_accepted: "op_keeps (accepted_ok n) (measure_into q b)"
  using ensure_accepted [of n _ "b + 1"]
  by (auto simp: op_keeps_def measure_into_def bind_op_def check_op_def modify_op_def circuit_inv_def
      split: sum.splits)

lemma measure_all_accepted: "accepted_ok n c \<Longrightarrow> accepted_ok n (snd (measure_all c))"
  unfolding measure_all_def
  by (rule op_keepsD) (intro keeps_intro circ_measure_accepted)

lemma append_instruction_accepted:
  assumes "mapping_ok n n' m" "instr_accepted n' i"
  shows "op_keeps (accepted_ok n) (append_instruction m i)"
proof (cases i)
  case (GateOp g ts)
  with assms map_qubit_targets [OF assms(1), of ts] show ?thesis
    by (auto simp: op_keeps_def push_op_def modify_op_def)
next
  case (ConditionalGate bits v g ts)
  have "bits_required bits = usize_wrap (bits_required bits)"
    by (simp add: bits_required_def usize_wrap_def)
  then have "accepted_ok n (ensure_classical_bits (bits_required bits) c)" if "accepted_ok n c" for c :: "'a circuit"
    using ensure_accepted [OF that] by metis
  with ConditionalGate assms map_qubit_targets [OF assms(1), of ts] show ?thesis
    by (auto simp: op_keeps_def push_op_def modify_op_def bind_op_def)
next
  case (Measure q b)
  then show ?thesis by (auto intro!: keeps_intro circ_measure_accepted)
next
  case (Barrier qs)
  with assms map_qubit_targets [OF assms(1), of qs] show ?thesis
    by (auto simp: op_keeps_def push_op_def modify_op_def)
qed

lemma append_accepted:
  assumes "accepted_ok n c" "accepted_ok n' other" "mapping_ok n n' m"
  shows "accepted_ok n (snd (for_op (append_instruction m) (instructions other) c))"
proof -
  have "op_keeps (accepted_ok n) (for_op (append_instruction m) (instructions other))"
    by (rule op_keeps_for, rule append_instruction_accepted [OF assms(3)])
      (use assms(2) in \<open>auto simp: circuit_inv_def\<close>)
  then show ?thesis using assms(1) by (rule op_keepsD)
qed

lemma built_accepted: "built F c \<Longrightarrow> accepted_ok (num_qubits c) c"
proof (induction rule: built.induct)
  case (built_new n c)
  then show ?case by (auto simp: circuit_new_def circuit_inv_def split: if_splits)
next
  case (built_bits n k c)
  then show ?case
    by (auto simp: with_classical_bits_def circuit_new_def circuit_inv_def split: if_splits)
next
  case (built_barrier_all c)
  then show ?case using acc.barrier_all_keeps [of "num_qubits c" c] by (simp add: circuit_inv_def)
next
  case (built_measure_all c)
  then show ?case using measure_all_accepted [of "num_qubits c" c] by (auto simp: circuit_inv_def)
next
  case (built_append c other)
  then have "accepted_ok (num_qubits c) (snd (circ_append other c))"
    using append_accepted [of "num_qubits c" c "num_qubits other" other None]
    by (auto simp: circ_append_def fail_op_def mapping_ok_def)
  then show ?case by (auto simp: circuit_inv_def)
next
  case (built_compose c other mapping)
  then have "accepted_ok (num_qubits c) (snd (circ_compose other mapping c))"
    using append_accepted [of "num_qubits c" c "num_qubits other" other "Some mapping"]
    by (auto simp: circ_compose_def fail_op_def mapping_ok_def bind_op_def check_op_def
        split: sum.splits)
  then show ?case by (auto simp: circuit_inv_def)
qed (auto intro!: accepted_step keeps_intro custom_gate_accepted conditional_gate_accepted
    circ_measure_accepted measure_into_accepted)

lemma built_ok: "built F c \<Longrightarrow> runnable c \<Longrightarrow> circuit_ok c"
  by (rule accepted_runnable_ok [OF built_accepted])

section \<open>Calls with arguments in range\<close>

text \<open>The calls whose arguments stay within what the simulators handle: custom and conditional gates of
  one or two qubits with a full matrix, and fewer than \<open>2^64\<close> classical bits. The circuits they
  make are runnable.\<close>

inductive built_in_range :: "'f f64_ops \<Rightarrow> 'f circuit \<Rightarrow> bool" for F where
  in_range_new: "circuit_new n = Ok c \<Longrightarrow> built_in_range F c"
| in_range_bits: "with_classical_bits n k = Ok c \<Longrightarrow> k < 2 ^ 64 \<Longrightarrow> built_in_range F c"
| in_range_h: "built_in_range F c \<Longrightarrow> built_in_range F (snd (circ_h F q c))"
| in_range_x: "built_in_range F c \<Longrightarrow> built_in_range F (snd (circ_x F q c))"
| in_range_y: "built_in_range F c \<Longrightarrow> built_in_range F (snd (circ_y F q c))"
| in_range_z: "built_in_range F c \<Longrightarrow> built_in_range F (snd (circ_z F q c))"
| in_range_s: "built_in_range F c \<Longrightarrow> built_in_range F (snd (circ_s F q c))"
| in_range_sdg: "built_in_range F c \<Longrightarrow> built_in_range F (snd (circ_sdg F q c))"
| in_range_t: "built_in_range F c \<Longrightarrow> built_in_range F (snd (circ_t F q c))"
| in_range_tdg: "built_in_range F c \<Longrightarrow> built_in_range F (snd (circ_tdg F q c))"
| in_range_rx: "built_in_range F c \<Longrightarrow> built_in_range F (snd (circ_rx F q a c))"
| in_range_ry: "built_in_range F c \<Longrightarrow> built_in_range F (snd (circ_ry F q a c))"
| in_range_rz: "built_in_range F c \<Longrightarrow> built_in_range F (snd (circ_rz F q a c))"
| in_range_sx: "built_in_range F c \<Longrightarrow> built_in_range F (snd (circ_sx F q c))"
| in_range_u3: "built_in_range F c \<Longrightarrow> built_in_range F (snd (circ_u3 F q a b d c))"
| in_range_cnot: "built_in_range F c \<Longrightarrow> built_in_range F (snd (circ_cnot F q r c))"
| in_range_cz: "built_in_range F c \<Longrightarrow> built_in_range F (snd (circ_cz F q r c))"
| in_range_cy: "built_in_range F c \<Longrightarrow> built_in_range F (snd (circ_cy F q r c))"
| in_range_swap: "built_in_range F c \<Longrightarrow> built_in_range F (snd (circ_swap F q r c))"
| in_range_rzz: "built_in_range F c \<Longrightarrow> built_in_range F (snd (circ_rzz F q r a c))"
| in_range_crk: "built_in_range F c \<Longrightarrow> built_in_range F (snd (circ_crk F q r k c))"
| in_range_toffoli: "built_in_range F c \<Longrightarrow> built_in_range F (snd (toffoli F q r t c))"
| in_range_qft: "built_in_range F c \<Longrightarrow> built_in_range F (snd (qft F qs c))"
| in_range_iqft: "built_in_range F c \<Longrightarrow> built_in_range F (snd (iqft F qs c))"
| in_range_barrier: "built_in_range F c \<Longrightarrow> built_in_range F (snd (barrier qs c))"
| in_range_barrier_all: "built_in_range F c \<Longrightarrow> built_in_range F (barrier_all c)"
| in_range_custom: "built_in_range F c \<Longrightarrow> gate_shape g \<Longrightarrow> built_in_range F (snd (custom_gate g ts c))"
| in_range_conditional: "built_in_range F c \<Longrightarrow> gate_shape g \<Longrightarrow> 1 \<le> gate_width g \<Longrightarrow> gate_width g \<le> 2 \<Longrightarrow>
    built_in_range F (snd (conditional_gate bits v g ts c))"
| in_range_measure: "built_in_range F c \<Longrightarrow> num_classical_bits c + 1 < 2 ^ 64 \<Longrightarrow>
    built_in_range F (snd (circ_measure q c))"
| in_range_measure_into: "built_in_range F c \<Longrightarrow> b + 1 < 2 ^ 64 \<Longrightarrow> built_in_range F (snd (measure_into q b c))"
| in_range_measure_all: "built_in_range F c \<Longrightarrow> num_classical_bits c + num_qubits c < 2 ^ 64 \<Longrightarrow>
    built_in_range F (snd (measure_all c))"
| in_range_append: "built_in_range F c \<Longrightarrow> built_in_range F other \<Longrightarrow>
    max (num_classical_bits c) (num_classical_bits other) + bits_bound (instructions other) < 2 ^ 64 \<Longrightarrow>
    built_in_range F (snd (circ_append other c))"
| in_range_compose: "built_in_range F c \<Longrightarrow> built_in_range F other \<Longrightarrow>
    max (num_classical_bits c) (num_classical_bits other) + bits_bound (instructions other) < 2 ^ 64 \<Longrightarrow>
    built_in_range F (snd (circ_compose other mapping c))"

lemma builder_step:
  assumes "op_keeps (builder_ok (num_qubits c)) m" "circuit_ok c"
  shows "circuit_ok (snd (m c))"
  using op_keepsD [OF assms(1), of c] assms(2) by (simp add: builder_ok_iff)

lemma circuit_new_ok: "circuit_new n = Ok c \<Longrightarrow> circuit_ok c"
  by (auto simp: circuit_new_def circuit_ok_def split: if_splits)

lemma append_step:
  assumes "circuit_ok c" "circuit_ok other" "mapping_ok (num_qubits c) (num_qubits other) m"
    and "max (num_classical_bits c) (num_classical_bits other) + bits_bound (instructions other) < 2 ^ 64"
  shows "circuit_ok (snd (for_op (append_instruction m) (instructions other) c))"
proof -
  have "builder_ok (num_qubits c) c" using assms(1) by (simp add: builder_ok_iff)
  moreover have "\<forall>i\<in>set (instructions other). instr_ok (num_qubits other) (num_classical_bits other) i"
    and "num_classical_bits other < 2 ^ 64"
    using assms(2) by (auto simp: circuit_ok_def)
  ultimately show ?thesis
    using append_instructions_ok [OF _ assms(3) _ _ assms(4)] by (simp add: builder_ok_iff)
qed

lemma circ_append_ok:
  assumes "circuit_ok c" "circuit_ok other"
    and "max (num_classical_bits c) (num_classical_bits other) + bits_bound (instructions other) < 2 ^ 64"
  shows "circuit_ok (snd (circ_append other c))"
  using assms append_step [OF assms(1,2) _ assms(3), of None]
  by (simp add: circ_append_def fail_op_def mapping_ok_def)

lemma circ_compose_ok:
  assumes "circuit_ok c" "circuit_ok other"
    and "max (num_classical_bits c) (num_classical_bits other) + bits_bound (instructions other) < 2 ^ 64"
  shows "circuit_ok (snd (circ_compose other mapping c))"
  using assms append_step [OF assms(1,2) _ assms(3), of "Some mapping"]
  by (auto simp: circ_compose_def fail_op_def mapping_ok_def bind_op_def check_op_def
      split: sum.splits)

lemma built_in_range_ok: "built_in_range F c \<Longrightarrow> circuit_ok c"
proof (induction rule: built_in_range.induct)
  case (in_range_bits n k c)
  then show ?case
    by (auto simp: with_classical_bits_def circuit_new_def circuit_ok_def split: if_splits)
next
  case (in_range_measure c q)
  then show ?case using circ_measure_ok [of "num_qubits c" c q] by (simp add: builder_ok_iff)
next
  case (in_range_measure_into c b q)
  then show ?case using measure_into_ok [of "num_qubits c" c b q] by (simp add: builder_ok_iff)
next
  case (in_range_measure_all c)
  then show ?case using measure_all_ok [of "num_qubits c" c] by (simp add: builder_ok_iff)
next
  case (in_range_barrier_all c)
  then show ?case using ok.barrier_all_keeps [of "num_qubits c" c] by (simp add: builder_ok_iff)
next
  case (in_range_append c other)
  show ?case by (rule circ_append_ok [OF in_range_append.IH in_range_append.hyps(3)])
next
  case (in_range_compose c other mapping)
  show ?case by (rule circ_compose_ok [OF in_range_compose.IH in_range_compose.hyps(3)])
qed (auto intro!: builder_step keeps_intro custom_gate_keeps conditional_gate_keeps
    intro: circuit_new_ok)

lemma built_in_range_built: "built_in_range F c \<Longrightarrow> built F c"
  by (induction rule: built_in_range.induct) (auto intro: built.intros)

lemma built_in_range_runnable: "built_in_range F c \<Longrightarrow> built F c \<and> runnable c"
  by (simp add: built_in_range_built circuit_ok_runnable built_in_range_ok)

end
