(* ===== verification/State_Vector.thy ===== *)
theory State_Vector
  imports Quantum_Circuit_Props "HOL-Library.Monad_Syntax"
begin

text \<open>
  The state-vector simulator (\<open>crates/waros-quantum/src/simulator/statevector.rs\<close>): both storage
  layouts, application of gates to blocks of amplitudes, in sequence or in parallel, measurement,
  and sampling.

  A panic (an index out of range, \<open>unreachable!\<close>, a chunk size of zero) is \<open>None\<close>. Shifts of a
  \<open>usize\<close> take their amount modulo 64, as they do in a release build, where the debug assertions
  on the norm are compiled out. A parallel loop runs its body once per chunk, in the order given
  by the argument \<open>sched\<close>: \<open>sched n\<close> lists the numbers of the \<open>n\<close> chunks as they are taken. The
  random generator is the stream of the numbers it draws, and \<open>alloc n\<close> tells whether the
  allocator can provide \<open>n\<close> bytes.
\<close>

section \<open>Loops that may panic\<close>

primrec for_opt :: "('x \<Rightarrow> 's \<Rightarrow> 's option) \<Rightarrow> 'x list \<Rightarrow> 's \<Rightarrow> 's option" where
  "for_opt body [] s = Some s"
| "for_opt body (x # xs) s = (case body x s of None \<Rightarrow> None | Some s' \<Rightarrow> for_opt body xs s')"

primrec map_opt :: "('x \<Rightarrow> 'y option) \<Rightarrow> 'x list \<Rightarrow> 'y list option" where
  "map_opt f [] = Some []"
| "map_opt f (x # xs) = (case f x of None \<Rightarrow> None | Some y \<Rightarrow> map_option ((#) y) (map_opt f xs))"

definition idx :: "'a list \<Rightarrow> nat \<Rightarrow> 'a option" where
  "idx xs i = (if i < length xs then Some (xs ! i) else None)"

definition shl1 :: "nat \<Rightarrow> nat" where
  "shl1 n = 2 ^ (n mod 64)"

definition chunks_exact :: "nat \<Rightarrow> 'a list \<Rightarrow> 'a list list" where
  "chunks_exact b xs = map (\<lambda>k. take b (drop (k * b) xs)) [0..<length xs div b]"

definition chunks_rest :: "nat \<Rightarrow> 'a list \<Rightarrow> 'a list" where
  "chunks_rest b xs = drop (length xs div b * b) xs"

definition each_block ::
  "(nat \<Rightarrow> nat list) \<Rightarrow> bool \<Rightarrow> ('b \<Rightarrow> 'b option) \<Rightarrow> 'b list \<Rightarrow> 'b list option" where
  "each_block sched par f bs =
    (if par then
       for_opt (\<lambda>k bs. map_option (\<lambda>b. bs[k := b]) (f (bs ! k))) (sched (length bs)) bs
     else map_opt f bs)"

section \<open>States\<close>

record 'f state_vector_soa =
  real_part :: "'f list"
  imag_part :: "'f list"

definition soa_probabilities :: "'f f64_ops \<Rightarrow> 'f state_vector_soa \<Rightarrow> 'f list" where
  "soa_probabilities F s =
    map (\<lambda>(r, i). f_add F (f_mul F r r) (f_mul F i i)) (zip (real_part s) (imag_part s))"

definition into_aos :: "'f state_vector_soa \<Rightarrow> 'f cpx list" where
  "into_aos s = map (\<lambda>(r, i). cnew r i) (zip (real_part s) (imag_part s))"

definition isize_max :: nat where
  "isize_max = 2 ^ 63 - 1"

definition try_reserve_exact :: "(nat \<Rightarrow> bool) \<Rightarrow> nat \<Rightarrow> nat \<Rightarrow> bool" where
  "try_reserve_exact alloc d elem \<longleftrightarrow> d * elem \<le> isize_max \<and> alloc (d * elem)"

definition zero_state :: "'f f64_ops \<Rightarrow> (nat \<Rightarrow> bool) \<Rightarrow> nat \<Rightarrow> waros_error + 'f cpx list" where
  "zero_state F alloc n =
    (let d = shl1 n; required_bytes = usize_wrap (d * 16) in
     if \<not> try_reserve_exact alloc d 16 then Err (InsufficientMemory n required_bytes)
     else Ok ((replicate d (c_zero F))[0 := c_one F]))"

definition zero_state_soa ::
  "'f f64_ops \<Rightarrow> (nat \<Rightarrow> bool) \<Rightarrow> nat \<Rightarrow> waros_error + 'f state_vector_soa" where
  "zero_state_soa F alloc n =
    (let d = shl1 n; required_bytes = usize_wrap (d * 16) in
     if \<not> try_reserve_exact alloc d 8 then Err (InsufficientMemory n required_bytes)
     else Ok \<lparr>real_part = (replicate d (f_lit F 0))[0 := f_lit F 1],
              imag_part = replicate d (f_lit F 0)\<rparr>)"

section \<open>Application of a gate\<close>

subsection \<open>Blocks of complex amplitudes\<close>

definition row2 :: "'f f64_ops \<Rightarrow> 'f gate \<Rightarrow> nat \<Rightarrow> 'f cpx \<Rightarrow> 'f cpx \<Rightarrow> 'f cpx option" where
  "row2 F g r a0 a1 = do {
     m0 \<leftarrow> gate_get g r 0; m1 \<leftarrow> gate_get g r 1;
     Some (c_add F (c_mul F m0 a0) (c_mul F m1 a1)) }"

definition step_1q :: "'f f64_ops \<Rightarrow> nat \<Rightarrow> 'f gate \<Rightarrow> nat \<Rightarrow> 'f cpx list \<Rightarrow> 'f cpx list option" where
  "step_1q F msk g base block = do {
     let pair_index = base OR msk;
     a0 \<leftarrow> idx block base; a1 \<leftarrow> idx block pair_index;
     r0 \<leftarrow> row2 F g 0 a0 a1; r1 \<leftarrow> row2 F g 1 a0 a1;
     Some (block[base := r0, pair_index := r1]) }"

definition apply_1q_block ::
  "'f f64_ops \<Rightarrow> nat \<Rightarrow> 'f gate \<Rightarrow> 'f cpx list \<Rightarrow> 'f cpx list option" where
  "apply_1q_block F msk g block = for_opt (step_1q F msk g) [0..<msk] block"

definition orbit2 :: "nat \<Rightarrow> nat \<Rightarrow> nat \<Rightarrow> nat list" where
  "orbit2 msk0 msk1 base = [base, base OR msk1, base OR msk0, base OR msk0 OR msk1]"

definition row4 :: "'f f64_ops \<Rightarrow> 'f gate \<Rightarrow> 'f cpx list \<Rightarrow> nat \<Rightarrow> 'f cpx option" where
  "row4 F g amps r = do {
     m0 \<leftarrow> gate_get g r 0; m1 \<leftarrow> gate_get g r 1; m2 \<leftarrow> gate_get g r 2; m3 \<leftarrow> gate_get g r 3;
     Some (c_add F (c_add F (c_add F (c_mul F m0 (amps ! 0)) (c_mul F m1 (amps ! 1)))
       (c_mul F m2 (amps ! 2))) (c_mul F m3 (amps ! 3))) }"

definition step_2q ::
  "'f f64_ops \<Rightarrow> nat \<Rightarrow> nat \<Rightarrow> 'f gate \<Rightarrow> nat \<Rightarrow> 'f cpx list \<Rightarrow> 'f cpx list option" where
  "step_2q F msk0 msk1 g base block =
    (if base AND msk0 \<noteq> 0 \<or> base AND msk1 \<noteq> 0 then Some block
     else do {
       let indices = orbit2 msk0 msk1 base;
       amps \<leftarrow> map_opt (idx block) indices;
       for_opt (\<lambda>r block. map_option (\<lambda>v. block[indices ! r := v]) (row4 F g amps r)) [0..<4] block })"

definition apply_2q_block ::
  "'f f64_ops \<Rightarrow> nat \<Rightarrow> nat \<Rightarrow> 'f gate \<Rightarrow> 'f cpx list \<Rightarrow> 'f cpx list option" where
  "apply_2q_block F q0 q1 g block =
    for_opt (step_2q F (shl1 q0) (shl1 q1) g) [0..<length block] block"

subsection \<open>Blocks of real and imaginary parts\<close>

definition mul_complex_pair :: "'f f64_ops \<Rightarrow> 'f cpx \<Rightarrow> 'f \<times> 'f \<Rightarrow> 'f \<times> 'f" where
  "mul_complex_pair F lhs rhs =
    (f_sub F (f_mul F (cre lhs) (fst rhs)) (f_mul F (cim lhs) (snd rhs)),
     f_add F (f_mul F (cre lhs) (snd rhs)) (f_mul F (cim lhs) (fst rhs)))"

definition add_complex_pairs :: "'f f64_ops \<Rightarrow> 'f \<times> 'f \<Rightarrow> 'f \<times> 'f \<Rightarrow> 'f \<times> 'f" where
  "add_complex_pairs F lhs rhs = (f_add F (fst lhs) (fst rhs), f_add F (snd lhs) (snd rhs))"

definition idx_pair :: "'f list \<times> 'f list \<Rightarrow> nat \<Rightarrow> ('f \<times> 'f) option" where
  "idx_pair b i = do { r \<leftarrow> idx (fst b) i; im \<leftarrow> idx (snd b) i; Some (r, im) }"

definition store_pair :: "nat \<Rightarrow> 'f \<times> 'f \<Rightarrow> 'f list \<times> 'f list \<Rightarrow> 'f list \<times> 'f list" where
  "store_pair i v b = ((fst b)[i := fst v], (snd b)[i := snd v])"

definition step_1q_soa ::
  "'f f64_ops \<Rightarrow> nat \<Rightarrow> 'f cpx \<times> 'f cpx \<times> 'f cpx \<times> 'f cpx \<Rightarrow> nat \<Rightarrow> 'f list \<times> 'f list \<Rightarrow>
    ('f list \<times> 'f list) option" where
  "step_1q_soa F msk = (\<lambda>(m00, m01, m10, m11) base block. do {
     let pair_index = base OR msk;
     a0 \<leftarrow> idx_pair block base; a1 \<leftarrow> idx_pair block pair_index;
     let row_zero = add_complex_pairs F (mul_complex_pair F m00 a0) (mul_complex_pair F m01 a1);
     let row_one = add_complex_pairs F (mul_complex_pair F m10 a0) (mul_complex_pair F m11 a1);
     Some (store_pair pair_index row_one (store_pair base row_zero block)) })"

definition apply_1q_block_soa ::
  "'f f64_ops \<Rightarrow> nat \<Rightarrow> 'f gate \<Rightarrow> 'f list \<times> 'f list \<Rightarrow> ('f list \<times> 'f list) option" where
  "apply_1q_block_soa F msk g block = do {
     m00 \<leftarrow> gate_get g 0 0; m01 \<leftarrow> gate_get g 0 1; m10 \<leftarrow> gate_get g 1 0; m11 \<leftarrow> gate_get g 1 1;
     for_opt (step_1q_soa F msk (m00, m01, m10, m11)) [0..<msk] block }"

definition row4_soa :: "'f f64_ops \<Rightarrow> 'f gate \<Rightarrow> ('f \<times> 'f) list \<Rightarrow> nat \<Rightarrow> ('f \<times> 'f) option" where
  "row4_soa F g amps r = do {
     m0 \<leftarrow> gate_get g r 0; m1 \<leftarrow> gate_get g r 1; m2 \<leftarrow> gate_get g r 2; m3 \<leftarrow> gate_get g r 3;
     Some (add_complex_pairs F
       (add_complex_pairs F (mul_complex_pair F m0 (amps ! 0)) (mul_complex_pair F m1 (amps ! 1)))
       (add_complex_pairs F (mul_complex_pair F m2 (amps ! 2)) (mul_complex_pair F m3 (amps ! 3)))) }"

definition step_2q_soa ::
  "'f f64_ops \<Rightarrow> nat \<Rightarrow> nat \<Rightarrow> 'f gate \<Rightarrow> nat \<Rightarrow> 'f list \<times> 'f list \<Rightarrow> ('f list \<times> 'f list) option" where
  "step_2q_soa F msk0 msk1 g base block =
    (if base AND msk0 \<noteq> 0 \<or> base AND msk1 \<noteq> 0 then Some block
     else do {
       let indices = orbit2 msk0 msk1 base;
       amps \<leftarrow> map_opt (idx_pair block) indices;
       for_opt (\<lambda>r block. map_option (\<lambda>v. store_pair (indices ! r) v block) (row4_soa F g amps r))
         [0..<4] block })"

definition apply_2q_block_soa ::
  "'f f64_ops \<Rightarrow> nat \<Rightarrow> nat \<Rightarrow> 'f gate \<Rightarrow> 'f list \<times> 'f list \<Rightarrow> ('f list \<times> 'f list) option" where
  "apply_2q_block_soa F q0 q1 g block =
    for_opt (step_2q_soa F (shl1 q0) (shl1 q1) g) [0..<length (fst block)] block"

subsection \<open>Whole states\<close>

definition on_chunks ::
  "(nat \<Rightarrow> nat list) \<Rightarrow> bool \<Rightarrow> nat \<Rightarrow> ('a list \<Rightarrow> 'a list option) \<Rightarrow> 'a list \<Rightarrow> 'a list option" where
  "on_chunks sched par b f xs =
    (if b = 0 then None
     else map_option (\<lambda>bs. concat bs @ chunks_rest b xs)
       (each_block sched par f (chunks_exact b xs)))"

definition on_chunks_soa ::
  "(nat \<Rightarrow> nat list) \<Rightarrow> bool \<Rightarrow> nat \<Rightarrow> ('f list \<times> 'f list \<Rightarrow> ('f list \<times> 'f list) option) \<Rightarrow>
    'f state_vector_soa \<Rightarrow> 'f state_vector_soa option" where
  "on_chunks_soa sched par b f s =
    (if b = 0 then None
     else map_option (\<lambda>bs.
         \<lparr>real_part = concat (map fst bs) @ chunks_rest b (real_part s),
          imag_part = concat (map snd bs) @ chunks_rest b (imag_part s)\<rparr>)
       (each_block sched par f
         (zip (chunks_exact b (real_part s)) (chunks_exact b (imag_part s)))))"

definition apply_1q ::
  "'f f64_ops \<Rightarrow> (nat \<Rightarrow> nat list) \<Rightarrow> bool \<Rightarrow> nat \<Rightarrow> 'f gate \<Rightarrow> 'f cpx list \<Rightarrow> 'f cpx list option" where
  "apply_1q F sched par target g state =
    (let msk = shl1 target; block_size = usize_wrap (msk * 2) in
     on_chunks sched par block_size (apply_1q_block F msk g) state)"

definition apply_1q_soa ::
  "'f f64_ops \<Rightarrow> (nat \<Rightarrow> nat list) \<Rightarrow> bool \<Rightarrow> nat \<Rightarrow> 'f gate \<Rightarrow> 'f state_vector_soa \<Rightarrow>
    'f state_vector_soa option" where
  "apply_1q_soa F sched par target g state =
    (let msk = shl1 target; block_size = usize_wrap (msk * 2) in
     on_chunks_soa sched par block_size (apply_1q_block_soa F msk g) state)"

definition apply_2q ::
  "'f f64_ops \<Rightarrow> (nat \<Rightarrow> nat list) \<Rightarrow> bool \<Rightarrow> nat \<Rightarrow> nat \<Rightarrow> 'f gate \<Rightarrow> 'f cpx list \<Rightarrow>
    'f cpx list option" where
  "apply_2q F sched par q0 q1 g state =
    on_chunks sched par (shl1 (max q0 q1 + 1)) (apply_2q_block F q0 q1 g) state"

definition apply_2q_soa ::
  "'f f64_ops \<Rightarrow> (nat \<Rightarrow> nat list) \<Rightarrow> bool \<Rightarrow> nat \<Rightarrow> nat \<Rightarrow> 'f gate \<Rightarrow> 'f state_vector_soa \<Rightarrow>
    'f state_vector_soa option" where
  "apply_2q_soa F sched par q0 q1 g state =
    on_chunks_soa sched par (shl1 (max q0 q1 + 1)) (apply_2q_block_soa F q0 q1 g) state"

definition apply_gate ::
  "'f f64_ops \<Rightarrow> (nat \<Rightarrow> nat list) \<Rightarrow> bool \<Rightarrow> nat list \<Rightarrow> 'f gate \<Rightarrow> 'f cpx list \<Rightarrow> 'f cpx list option" where
  "apply_gate F sched par ts g state =
    (if gate_width g = 1 then do {
       t \<leftarrow> idx ts 0; apply_1q F sched par t g state }
     else if gate_width g = 2 then do {
       t0 \<leftarrow> idx ts 0; t1 \<leftarrow> idx ts 1; apply_2q F sched par t0 t1 g state }
     else None)"

definition apply_gate_soa ::
  "'f f64_ops \<Rightarrow> (nat \<Rightarrow> nat list) \<Rightarrow> bool \<Rightarrow> nat list \<Rightarrow> 'f gate \<Rightarrow> 'f state_vector_soa \<Rightarrow>
    'f state_vector_soa option" where
  "apply_gate_soa F sched par ts g state =
    (if gate_width g = 1 then do {
       t \<leftarrow> idx ts 0; apply_1q_soa F sched par t g state }
     else if gate_width g = 2 then do {
       t0 \<leftarrow> idx ts 0; t1 \<leftarrow> idx ts 1; apply_2q_soa F sched par t0 t1 g state }
     else None)"

definition apply_gate_sequence ::
  "'f f64_ops \<Rightarrow> (nat \<Rightarrow> nat list) \<Rightarrow> bool \<Rightarrow> 'f instruction list \<Rightarrow> 'f cpx list \<Rightarrow> 'f cpx list option" where
  "apply_gate_sequence F sched par =
    for_opt (\<lambda>i state. case i of GateOp g ts \<Rightarrow> apply_gate F sched par ts g state
      | _ \<Rightarrow> Some state)"

definition apply_gate_sequence_soa ::
  "'f f64_ops \<Rightarrow> (nat \<Rightarrow> nat list) \<Rightarrow> bool \<Rightarrow> 'f instruction list \<Rightarrow> 'f state_vector_soa \<Rightarrow>
    'f state_vector_soa option" where
  "apply_gate_sequence_soa F sched par =
    for_opt (\<lambda>i state. case i of GateOp g ts \<Rightarrow> apply_gate_soa F sched par ts g state
      | _ \<Rightarrow> Some state)"

section \<open>Measurement and sampling\<close>

definition f_sum :: "'f f64_ops \<Rightarrow> 'f list \<Rightarrow> 'f" where
  "f_sum F xs = foldl (f_add F) (f_lit F 0) xs"

definition probability_one :: "'f f64_ops \<Rightarrow> 'f cpx list \<Rightarrow> nat \<Rightarrow> 'f" where
  "probability_one F state q =
    f_sum F (map (\<lambda>(i, a). norm_sq F a)
      (filter (\<lambda>(i, a). i AND shl1 q \<noteq> 0) (enumerate 0 state)))"

definition probability_zero :: "'f f64_ops \<Rightarrow> 'f cpx list \<Rightarrow> nat \<Rightarrow> 'f" where
  "probability_zero F state q = f_sub F (f_lit F 1) (probability_one F state q)"

definition clamp01 :: "'f f64_ops \<Rightarrow> 'f \<Rightarrow> 'f" where
  "clamp01 F x = (if f_lt F x (f_lit F 0) then f_lit F 0
    else if f_lt F (f_lit F 1) x then f_lit F 1 else x)"

definition MEASUREMENT_EPSILON :: rat where
  "MEASUREMENT_EPSILON = 1 / 10 ^ 15"

definition collapse :: "'f f64_ops \<Rightarrow> nat \<Rightarrow> bool \<Rightarrow> 'f \<Rightarrow> 'f cpx list \<Rightarrow> 'f cpx list" where
  "collapse F q outcome nrm state =
    map (\<lambda>(i, a). if (i AND shl1 q \<noteq> 0) = outcome then c_scale F a (f_div F (f_lit F 1) nrm)
      else c_zero F) (enumerate 0 state)"

text \<open>\<open>measure_qubit\<close> draws one number from the generator. The outcome 1 is \<open>True\<close>.\<close>

definition measure_qubit ::
  "'f f64_ops \<Rightarrow> nat \<Rightarrow> 'f \<Rightarrow> 'f cpx list \<Rightarrow> waros_error + (bool \<times> 'f cpx list)" where
  "measure_qubit F q draw state =
    (let p0 = clamp01 F (probability_zero F state q);
         outcome = f_le F p0 draw;
         kept = (if outcome then f_sub F (f_lit F 1) p0 else p0) in
     if f_le F kept (f_lit F MEASUREMENT_EPSILON)
     then Err (NumericalInstability ''collapsing a near-zero measurement branch'')
     else Ok (outcome, collapse F q outcome (f_sqrt F kept) state))"

fun mid_circuit :: "bool \<Rightarrow> 'f instruction list \<Rightarrow> bool" where
  "mid_circuit saw [] = False"
| "mid_circuit saw (Measure q b # is) = mid_circuit True is"
| "mid_circuit saw (ConditionalGate bs v g ts # is) = True"
| "mid_circuit saw (GateOp g ts # is) = (saw \<or> mid_circuit saw is)"
| "mid_circuit saw (Barrier qs # is) = mid_circuit saw is"

definition has_mid_circuit_measurement :: "'f circuit \<Rightarrow> bool" where
  "has_mid_circuit_measurement c = mid_circuit False (instructions c)"

fun sample_loop :: "'f f64_ops \<Rightarrow> 'f \<Rightarrow> nat \<Rightarrow> 'f \<Rightarrow> 'f list \<Rightarrow> nat" where
  "sample_loop F draw i cumulative [] = i - 1"
| "sample_loop F draw i cumulative (p # ps) =
    (let cumulative = f_add F cumulative p in
     if f_lt F draw cumulative then i else sample_loop F draw (i + 1) cumulative ps)"

definition sample :: "'f f64_ops \<Rightarrow> 'f list \<Rightarrow> 'f \<Rightarrow> nat" where
  "sample F probabilities draw = sample_loop F draw 0 (f_lit F 0) probabilities"

definition bit_char :: "nat \<Rightarrow> nat \<Rightarrow> char" where
  "bit_char index q = (if drop_bit (q mod 64) index AND 1 = 1 then CHR ''1'' else CHR ''0'')"

definition basis_state_string :: "nat \<Rightarrow> nat \<Rightarrow> string" where
  "basis_state_string index n = map (bit_char index) [0..<n]"

end
