(* ===== verification/State_Vector_Props.thy ===== *)
theory State_Vector_Props
  imports State_Vector
begin

text \<open>
  Gate application in blocks against the textbook definition: the new amplitude of a basis state
  is the row of the matrix chosen by the target bits of its index, applied to the amplitudes of
  the indices that differ in those bits only. The in-place loops, the blocks, and the order in which
  a parallel run takes the blocks make no difference, and neither does the storage layout as long
  as addition is associative.
\<close>

section \<open>Loops\<close>

lemma for_opt_append:
  "for_opt f (xs @ ys) s = (case for_opt f xs s of None \<Rightarrow> None | Some s' \<Rightarrow> for_opt f ys s')"
  by (induction xs arbitrary: s) (auto split: option.splits)

lemma for_opt_pure:
  assumes "\<And>x s. x \<in> set xs \<Longrightarrow> P s \<Longrightarrow> f x s = Some (g x s) \<and> P (g x s)" "P s"
  shows "for_opt f xs s = Some (fold g xs s) \<and> P (fold g xs s)"
  using assms by (induction xs arbitrary: s) auto

lemma for_opt_skip:
  assumes "\<And>x s. x \<in> set xs \<Longrightarrow> \<not> keep x \<Longrightarrow> f x s = Some s"
  shows "for_opt f xs s = for_opt f (filter keep xs) s"
  using assms by (induction xs arbitrary: s) (auto split: option.splits)

lemma map_opt_Some: "(\<And>x. x \<in> set xs \<Longrightarrow> f x = Some (g x)) \<Longrightarrow> map_opt f xs = Some (map g xs)"
  by (induction xs) auto

lemma map_opt_eq_Some:
  "map_opt f xs = Some ys \<longleftrightarrow> length ys = length xs \<and> (\<forall>i<length xs. f (xs ! i) = Some (ys ! i))"
proof (induction xs arbitrary: ys)
  case (Cons x xs)
  then show ?case
    by (cases ys) (auto split: option.splits simp: less_Suc_eq_0_disj)
qed auto

text \<open>A kernel updates a block in place: from each base it rewrites the positions of an orbit, with
  values that depend on that orbit only. As orbits do not meet, the loop over all bases computes the
  new values from the old block.\<close>

locale block_kernel =
  fixes orbit :: "nat \<Rightarrow> nat set"
    and new :: "'a list \<Rightarrow> nat \<Rightarrow> 'a"
    and step :: "nat \<Rightarrow> 'a list \<Rightarrow> 'a list"
    and root :: "nat \<Rightarrow> nat"
  assumes length_step: "length (step b xs) = length xs"
    and nth_step: "root b = b \<Longrightarrow> p < length xs \<Longrightarrow>
      step b xs ! p = (if p \<in> orbit b then new xs p else xs ! p)"
    and orbit_root: "root b = b \<Longrightarrow> p \<in> orbit b \<longleftrightarrow> root p = b"
    and new_cong: "(\<And>r. r \<in> orbit (root p) \<Longrightarrow> xs ! r = ys ! r) \<Longrightarrow> new xs p = new ys p"
begin

lemma length_loop [simp]: "length (fold step bs xs) = length xs"
  by (induction bs arbitrary: xs) (simp_all add: length_step)

lemma nth_loop:
  assumes "distinct bs" "\<forall>b\<in>set bs. root b = b" "p < length xs"
    and "\<forall>b\<in>set bs. \<forall>r\<in>orbit b. r < length xs"
  shows "fold step bs xs ! p = (if root p \<in> set bs then new xs p else xs ! p)"
  using assms
proof (induction bs arbitrary: xs)
  case (Cons b bs)
  have b: "root b = b" using Cons.prems by simp
  have IH: "fold step bs (step b xs) ! p =
      (if root p \<in> set bs then new (step b xs) p else step b xs ! p)"
    using Cons.IH [of "step b xs"] Cons.prems by (simp add: length_step)
  show ?case
  proof (cases "root p \<in> set bs")
    case True
    then have ne: "root p \<noteq> b" using Cons.prems(1) by auto
    have "step b xs ! r = xs ! r" if "r \<in> orbit (root p)" for r
    proof -
      have "root r = root p" using orbit_root [of "root p" r] True Cons.prems(2) that by auto
      then have "r \<notin> orbit b" using orbit_root [OF b] ne by simp
      moreover have "r < length xs" using Cons.prems(4) True that by auto
      ultimately show ?thesis using nth_step [OF b] by simp
    qed
    then have "new (step b xs) p = new xs p" by (rule new_cong)
    with True show ?thesis using IH by simp
  next
    case False
    then show ?thesis
      using IH nth_step [OF b Cons.prems(3)] orbit_root [OF b, of p] by auto
  qed
qed simp

lemma loop_eq:
  assumes "distinct bs" "\<forall>b\<in>set bs. root b = b" "\<forall>b\<in>set bs. \<forall>r\<in>orbit b. r < length xs"
    and "\<forall>p<length xs. root p \<in> set bs"
  shows "fold step bs xs = map (new xs) [0..<length xs]"
  using nth_loop [OF assms(1,2) _ assms(3)] assms(4) by (intro nth_equalityI) simp_all

end

section \<open>Bits of an index\<close>

lemma exp_nat_or: "b OR 2 ^ t = set_bit t (b :: nat)"
  by (simp add: set_bit_eq_or)

lemmas bit_nat_simps = bit_unset_bit_iff bit_set_bit_iff bit_or_iff bit_and_iff bit_exp_iff

lemma bit_nat_eqI: "(\<And>k. bit a k \<longleftrightarrow> bit b k) \<Longrightarrow> a = (b :: nat)"
  by (rule bit_eqI) simp

lemma unset_bit_idle: "unset_bit t (b :: nat) = b \<longleftrightarrow> \<not> bit b t"
proof
  assume "unset_bit t b = b"
  then have "bit (unset_bit t b) t = bit b t" by simp
  then show "\<not> bit b t" by (simp add: bit_nat_simps)
qed (auto intro!: bit_nat_eqI simp: bit_nat_simps)

lemma and_exp_eq_0: "b AND 2 ^ t = 0 \<longleftrightarrow> \<not> bit (b :: nat) t"
proof
  assume "b AND 2 ^ t = 0"
  then have "bit (b AND 2 ^ t) t = bit (0 :: nat) t" by simp
  then show "\<not> bit b t" by (simp add: bit_nat_simps)
qed (auto intro!: bit_nat_eqI simp: bit_nat_simps)

lemma set_unset_bit: "set_bit t (unset_bit t p) = (if bit p t then p else set_bit t (p :: nat))"
  by (auto intro!: bit_nat_eqI simp: bit_nat_simps)

lemma unset_set_bit: "unset_bit t (set_bit t p) = unset_bit t (p :: nat)"
  by (auto intro!: bit_nat_eqI simp: bit_nat_simps)

lemma orbit1_root:
  assumes "unset_bit t b = (b :: nat)"
  shows "p \<in> {b, set_bit t b} \<longleftrightarrow> unset_bit t p = b"
proof
  assume "p \<in> {b, set_bit t b}"
  then show "unset_bit t p = b" using assms by (auto simp: unset_set_bit)
next
  assume "unset_bit t p = b"
  then show "p \<in> {b, set_bit t b}"
    by (cases "bit p t") (auto simp: set_unset_bit, metis unset_bit_idle)
qed

definition root2 :: "nat \<Rightarrow> nat \<Rightarrow> nat \<Rightarrow> nat" where
  "root2 q0 q1 p = unset_bit q0 (unset_bit q1 p)"

lemma bit_root2: "bit (root2 q0 q1 p) k \<longleftrightarrow> bit p k \<and> k \<noteq> q0 \<and> k \<noteq> q1"
  by (auto simp: root2_def bit_nat_simps)

lemma root2_idle: "root2 q0 q1 b = b \<longleftrightarrow> \<not> bit b q0 \<and> \<not> bit b q1"
proof
  assume "root2 q0 q1 b = b"
  then show "\<not> bit b q0 \<and> \<not> bit b q1" by (metis bit_root2)
qed (auto intro!: bit_nat_eqI simp: bit_root2)

lemma orbit2_bits:
  "orbit2 (2 ^ q0) (2 ^ q1) b = [b, set_bit q1 b, set_bit q0 b, set_bit q1 (set_bit q0 b)]"
  by (auto simp: orbit2_def exp_nat_or intro!: bit_nat_eqI simp: bit_nat_simps)

lemma orbit2_root:
  assumes "root2 q0 q1 b = b"
  shows "p \<in> set (orbit2 (2 ^ q0) (2 ^ q1) b) \<longleftrightarrow> root2 q0 q1 p = b"
proof
  assume "p \<in> set (orbit2 (2 ^ q0) (2 ^ q1) b)"
  then show "root2 q0 q1 p = b"
    using assms by (auto simp: orbit2_bits root2_idle intro!: bit_nat_eqI simp: bit_root2 bit_nat_simps)
next
  assume "root2 q0 q1 p = b"
  then have k: "bit b k \<longleftrightarrow> bit p k \<and> k \<noteq> q0 \<and> k \<noteq> q1" for k using bit_root2 by blast
  have "p = (if bit p q1 then set_bit q1 else (\<lambda>x. x)) ((if bit p q0 then set_bit q0 else (\<lambda>x. x)) b)"
    by (auto intro!: bit_nat_eqI simp: bit_nat_simps k)
  then show "p \<in> set (orbit2 (2 ^ q0) (2 ^ q1) b)"
    by (auto simp: orbit2_bits split: if_splits)
qed

text \<open>Bits below \<open>m\<close> belong to the position inside a block of \<open>2 ^ m\<close> amplitudes, the others to the
  number of the block.\<close>

lemma less_exp_bits: "j < 2 ^ m \<longleftrightarrow> (\<forall>k\<ge>m. \<not> bit (j :: nat) k)"
proof -
  have "j < 2 ^ m \<longleftrightarrow> take_bit m j = j" by (simp add: take_bit_nat_eq_self_iff)
  also have "\<dots> \<longleftrightarrow> (\<forall>k\<ge>m. \<not> bit j k)"
    by (metis (no_types) bit_nat_eqI bit_take_bit_iff not_le)
  finally show ?thesis .
qed

lemma bit_block:
  assumes "j < 2 ^ m"
  shows "bit (k * 2 ^ m + j :: nat) t \<longleftrightarrow> (if t < m then bit j t else bit k (t - m))"
proof -
  have j: "\<forall>k\<ge>m. \<not> bit j k" using assms less_exp_bits by blast
  then have "push_bit m k + j = push_bit m k OR j"
    by (intro disjunctive_add) (metis bit_push_bit_iff)
  then have "k * 2 ^ m + j = push_bit m k OR j" by (simp add: push_bit_eq_mult)
  then show ?thesis using j by (auto simp: bit_or_iff bit_push_bit_iff)
qed

lemma set_bit_block: "j < 2 ^ m \<Longrightarrow> t < m \<Longrightarrow> set_bit t j < (2 ^ m :: nat)"
  by (auto simp: less_exp_bits bit_nat_simps)

lemma unset_bit_block: "j < 2 ^ m \<Longrightarrow> unset_bit t j < (2 ^ m :: nat)"
  by (auto simp: less_exp_bits bit_nat_simps)

section \<open>The two kernels\<close>

definition pure_row2 :: "'f f64_ops \<Rightarrow> 'f gate \<Rightarrow> nat \<Rightarrow> 'f cpx \<Rightarrow> 'f cpx \<Rightarrow> 'f cpx" where
  "pure_row2 F g r a0 a1 = c_add F (c_mul F (entry g r 0) a0) (c_mul F (entry g r 1) a1)"

definition pure_1q :: "'f f64_ops \<Rightarrow> nat \<Rightarrow> 'f gate \<Rightarrow> nat \<Rightarrow> 'f cpx list \<Rightarrow> 'f cpx list" where
  "pure_1q F t g b xs =
    xs[b := pure_row2 F g 0 (xs ! b) (xs ! set_bit t b),
       set_bit t b := pure_row2 F g 1 (xs ! b) (xs ! set_bit t b)]"

definition new_1q :: "'f f64_ops \<Rightarrow> nat \<Rightarrow> 'f gate \<Rightarrow> 'f cpx list \<Rightarrow> nat \<Rightarrow> 'f cpx" where
  "new_1q F t g xs p = (let b = unset_bit t p in
    pure_row2 F g (of_bool (bit p t)) (xs ! b) (xs ! set_bit t b))"

text \<open>The order in which the four products of a row are added is an argument \<open>sm\<close>.\<close>

type_synonym 'f sum4 = "'f cpx \<Rightarrow> 'f cpx \<Rightarrow> 'f cpx \<Rightarrow> 'f cpx \<Rightarrow> 'f cpx"

definition sum_left :: "'f f64_ops \<Rightarrow> 'f sum4" where
  "sum_left F a b c d = c_add F (c_add F (c_add F a b) c) d"

definition sum_pairs :: "'f f64_ops \<Rightarrow> 'f sum4" where
  "sum_pairs F a b c d = c_add F (c_add F a b) (c_add F c d)"

definition pure_row4 :: "'f f64_ops \<Rightarrow> 'f sum4 \<Rightarrow> 'f gate \<Rightarrow> 'f cpx list \<Rightarrow> nat \<Rightarrow> 'f cpx" where
  "pure_row4 F sm g amps r =
    sm (c_mul F (entry g r 0) (amps ! 0)) (c_mul F (entry g r 1) (amps ! 1))
      (c_mul F (entry g r 2) (amps ! 2)) (c_mul F (entry g r 3) (amps ! 3))"

definition pure_2q :: "'f f64_ops \<Rightarrow> 'f sum4 \<Rightarrow> nat \<Rightarrow> nat \<Rightarrow> 'f gate \<Rightarrow> nat \<Rightarrow> 'f cpx list \<Rightarrow> 'f cpx list" where
  "pure_2q F sm q0 q1 g b xs =
    (let ix = orbit2 (2 ^ q0) (2 ^ q1) b; amps = map ((!) xs) ix in
     xs[ix ! 0 := pure_row4 F sm g amps 0, ix ! 1 := pure_row4 F sm g amps 1,
        ix ! 2 := pure_row4 F sm g amps 2, ix ! 3 := pure_row4 F sm g amps 3])"

text \<open>The amplitude at \<open>p\<close> after a gate on two qubits: the row that the bits of \<open>p\<close> at the targets select,
  against the four amplitudes whose index differs from \<open>p\<close> in those bits only.\<close>

definition new_2q :: "'f f64_ops \<Rightarrow> 'f sum4 \<Rightarrow> nat \<Rightarrow> nat \<Rightarrow> 'f gate \<Rightarrow> 'f cpx list \<Rightarrow> nat \<Rightarrow> 'f cpx" where
  "new_2q F sm q0 q1 g xs p = (let b = unset_bit q0 (unset_bit q1 p) in
    pure_row4 F sm g [xs ! b, xs ! set_bit q1 b, xs ! set_bit q0 b, xs ! set_bit q1 (set_bit q0 b)]
      (2 * of_bool (bit p q0) + of_bool (bit p q1)))"

lemma new_2q_via_orbit:
  "new_2q F sm q0 q1 g xs p =
    pure_row4 F sm g (map ((!) xs) (orbit2 (2 ^ q0) (2 ^ q1) (root2 q0 q1 p)))
      (2 * of_bool (bit p q0) + of_bool (bit p q1))"
  by (simp add: new_2q_def orbit2_bits root2_def Let_def)

lemma set_bit_neq: "\<not> bit b t \<Longrightarrow> set_bit t b \<noteq> (b :: nat)"
  by (metis bit_set_bit_iff possible_bit_nat)

interpretation k1: block_kernel "\<lambda>b. {b, set_bit t b}" "new_1q F t g" "pure_1q F t g" "unset_bit t"
  for F t g
proof unfold_locales
  fix b p :: nat and xs :: "'a cpx list"
  assume b: "unset_bit t b = b" and p: "p < length xs"
  then have "\<not> bit b t" by (simp add: unset_bit_idle)
  then have "b \<noteq> set_bit t b" "unset_bit t (set_bit t b) = b" "bit (set_bit t b) t"
    using set_bit_neq [of b t] b by (auto simp: unset_set_bit bit_nat_simps)
  then show "pure_1q F t g b xs ! p = (if p \<in> {b, set_bit t b} then new_1q F t g xs p else xs ! p)"
    using p b \<open>\<not> bit b t\<close> by (auto simp: pure_1q_def new_1q_def Let_def nth_list_update)
next
  fix b p :: nat
  assume "unset_bit t b = b"
  then show "p \<in> {b, set_bit t b} \<longleftrightarrow> unset_bit t p = b" by (rule orbit1_root)
qed (simp_all add: pure_1q_def new_1q_def Let_def)

lemma orbit2_distinct:
  assumes "root2 q0 q1 b = b"
  shows "set_bit q0 b \<noteq> b" "set_bit q1 b \<noteq> b" "set_bit q1 (set_bit q0 b) \<noteq> b"
    "q0 \<noteq> q1 \<Longrightarrow> set_bit q0 b \<noteq> set_bit q1 b"
    "q0 \<noteq> q1 \<Longrightarrow> set_bit q1 (set_bit q0 b) \<noteq> set_bit q0 b"
    "q0 \<noteq> q1 \<Longrightarrow> set_bit q1 (set_bit q0 b) \<noteq> set_bit q1 b"
  using assms
  by (metis (no_types) bit_set_bit_iff possible_bit_nat root2_idle)+

lemma set_bit_idem: "set_bit q (set_bit q b) = set_bit q (b :: nat)"
  by (auto intro!: bit_nat_eqI simp: bit_nat_simps)

interpretation k2: block_kernel "\<lambda>b. set (orbit2 (2 ^ q0) (2 ^ q1) b)" "new_2q F sm q0 q1 g"
  "pure_2q F sm q0 q1 g" "root2 q0 q1"
  for F sm q0 q1 g
proof unfold_locales
  fix b p :: nat and xs :: "'a cpx list"
  assume b: "root2 q0 q1 b = b" and p: "p < length xs"
  then have nb: "\<not> bit b q0" "\<not> bit b q1" by (simp_all add: root2_idle)
  have r: "p \<in> set (orbit2 (2 ^ q0) (2 ^ q1) b) \<Longrightarrow> root2 q0 q1 p = b"
    using orbit2_root [OF b] by blast
  show "pure_2q F sm q0 q1 g b xs ! p =
      (if p \<in> set (orbit2 (2 ^ q0) (2 ^ q1) b) then new_2q F sm q0 q1 g xs p else xs ! p)"
  proof (cases "p \<in> set (orbit2 (2 ^ q0) (2 ^ q1) b)")
    case True
    then have "new_2q F sm q0 q1 g xs p = pure_row4 F sm g (map ((!) xs) (orbit2 (2 ^ q0) (2 ^ q1) b))
        (2 * of_bool (bit p q0) + of_bool (bit p q1))"
      by (simp add: new_2q_via_orbit r)
    then show ?thesis
      using True p nb orbit2_distinct [OF b]
      by (cases "q0 = q1")
        (auto simp: pure_2q_def Let_def orbit2_bits nth_list_update bit_nat_simps set_bit_idem)
  qed (auto simp: pure_2q_def Let_def orbit2_bits nth_list_update)
next
  fix p and xs ys :: "'a cpx list"
  assume "\<And>r. r \<in> set (orbit2 (2 ^ q0) (2 ^ q1) (root2 q0 q1 p)) \<Longrightarrow> xs ! r = ys ! r"
  then show "new_2q F sm q0 q1 g xs p = new_2q F sm q0 q1 g ys p"
    by (simp add: new_2q_via_orbit cong: map_cong)
next
  fix b p :: nat
  assume "root2 q0 q1 b = b"
  then show "p \<in> set (orbit2 (2 ^ q0) (2 ^ q1) b) \<longleftrightarrow> root2 q0 q1 p = b" by (rule orbit2_root)
qed (simp add: pure_2q_def Let_def)

section \<open>Blocks\<close>

lemma row2_pure: "gate_ok 1 g \<Longrightarrow> r < 2 \<Longrightarrow> row2 F g r a0 a1 = Some (pure_row2 F g r a0 a1)"
  by (simp add: row2_def pure_row2_def gate_get_shape [of 1])

lemma row4_pure: "gate_ok 2 g \<Longrightarrow> r < 4 \<Longrightarrow> row4 F g amps r = Some (pure_row4 F (sum_left F) g amps r)"
  by (simp add: row4_def pure_row4_def sum_left_def gate_get_shape [of 2])

lemma step_1q_pure:
  assumes "gate_ok 1 g" "b < 2 ^ t" "length xs = 2 ^ Suc t"
  shows "step_1q F (2 ^ t) g b xs = Some (pure_1q F t g b xs)"
proof -
  have "b < 2 ^ Suc t" "set_bit t b < 2 ^ Suc t"
    using assms(2) set_bit_block [of b "Suc t" t] by simp_all
  then show ?thesis
    using assms by (simp add: step_1q_def pure_1q_def exp_nat_or idx_def row2_pure Let_def)
qed

lemma apply_1q_block_eq:
  assumes "gate_ok 1 g" "length xs = 2 ^ Suc t"
  shows "apply_1q_block F (2 ^ t) g xs = Some (map (new_1q F t g xs) [0..<length xs])"
proof -
  have "for_opt (step_1q F (2 ^ t) g) [0..<2 ^ t] xs = Some (fold (pure_1q F t g) [0..<2 ^ t] xs)"
    using for_opt_pure [of "[0..<2 ^ t]" "\<lambda>ys. length ys = 2 ^ Suc t" "step_1q F (2 ^ t) g"
        "pure_1q F t g" xs] assms
    by (simp add: step_1q_pure k1.length_step)
  also have "fold (pure_1q F t g) [0..<2 ^ t] xs = map (new_1q F t g xs) [0..<length xs]"
  proof (rule k1.loop_eq)
    show "\<forall>b\<in>set [0..<2 ^ t]. unset_bit t b = b"
      by (simp add: unset_bit_idle less_exp_bits)
    show "\<forall>b\<in>set [0..<2 ^ t]. \<forall>r\<in>{b, set_bit t b}. r < length xs"
      using set_bit_block [of _ "Suc t" t] assms(2) by auto
    show "\<forall>p<length xs. unset_bit t p \<in> set [0..<2 ^ t]"
      by (auto simp: assms(2) less_exp_bits bit_nat_simps simp del: power_Suc)
        (metis Suc_leI le_neq_implies_less)
  qed simp
  finally show ?thesis by (simp add: apply_1q_block_def)
qed

lemma orbit2_block:
  assumes "b < 2 ^ m" "q0 < m" "q1 < m" "p \<in> set (orbit2 (2 ^ q0) (2 ^ q1) b)"
  shows "p < 2 ^ m"
  using assms by (auto simp: orbit2_bits intro!: set_bit_block)

lemma step_2q_pure:
  assumes "gate_ok 2 g" "b < 2 ^ m" "length xs = 2 ^ m" "q0 < m" "q1 < m" "root2 q0 q1 b = b"
  shows "step_2q F (2 ^ q0) (2 ^ q1) g b xs = Some (pure_2q F (sum_left F) q0 q1 g b xs)"
proof -
  have "map_opt (idx xs) (orbit2 (2 ^ q0) (2 ^ q1) b) = Some (map ((!) xs) (orbit2 (2 ^ q0) (2 ^ q1) b))"
    using orbit2_block [OF assms(2,4,5)] assms(3) by (intro map_opt_Some) (simp add: idx_def)
  moreover have "[0..<4] = [0, 1, 2, 3 :: nat]" by (simp add: upt_rec)
  moreover have "b AND 2 ^ q0 = 0" "b AND 2 ^ q1 = 0"
    using assms(6) by (simp_all add: root2_idle and_exp_eq_0)
  ultimately show ?thesis
    using assms(1) by (simp add: step_2q_def pure_2q_def Let_def row4_pure)
qed

lemma fold_pure_2q:
  assumes "q0 < m" "q1 < m" "length xs = 2 ^ m"
  shows "fold (pure_2q F sm q0 q1 g) (filter (\<lambda>b. root2 q0 q1 b = b) [0..<2 ^ m]) xs
    = map (new_2q F sm q0 q1 g xs) [0..<length xs]"
proof (rule k2.loop_eq)
  let ?bs = "filter (\<lambda>b. root2 q0 q1 b = b) [0..<2 ^ m]"
  show "\<forall>b\<in>set ?bs. \<forall>r\<in>set (orbit2 (2 ^ q0) (2 ^ q1) b). r < length xs"
    using orbit2_block assms by auto
  show "\<forall>p<length xs. root2 q0 q1 p \<in> set ?bs"
    by (auto simp: assms(3) less_exp_bits bit_root2 root2_idle)
qed simp_all

lemma apply_2q_block_eq:
  assumes "gate_ok 2 g" "length xs = 2 ^ m" "q0 < m" "q1 < m" "m < 64"
  shows "apply_2q_block F q0 q1 g xs = Some (map (new_2q F (sum_left F) q0 q1 g xs) [0..<length xs])"
proof -
  let ?bs = "filter (\<lambda>b. root2 q0 q1 b = b) [0..<2 ^ m]"
  have "for_opt (step_2q F (2 ^ q0) (2 ^ q1) g) [0..<2 ^ m] xs
      = for_opt (step_2q F (2 ^ q0) (2 ^ q1) g) ?bs xs"
    by (rule for_opt_skip) (auto simp: step_2q_def root2_idle and_exp_eq_0)
  also have "\<dots> = Some (fold (pure_2q F (sum_left F) q0 q1 g) ?bs xs)"
    using for_opt_pure [of ?bs "\<lambda>ys. length ys = 2 ^ m" "step_2q F (2 ^ q0) (2 ^ q1) g"
        "pure_2q F (sum_left F) q0 q1 g" xs] step_2q_pure [OF assms(1) _ _ assms(3,4)] assms(2)
    by (simp add: k2.length_step)
  also have "fold (pure_2q F (sum_left F) q0 q1 g) ?bs xs = map (new_2q F (sum_left F) q0 q1 g xs) [0..<length xs]"
    by (rule fold_pure_2q [OF assms(3,4,2)])
  finally show ?thesis using assms(2-5) by (simp add: apply_2q_block_def shl1_def)
qed

section \<open>Order of the blocks\<close>

definition schedule_ok :: "(nat \<Rightarrow> nat list) \<Rightarrow> bool" where
  "schedule_ok sched \<longleftrightarrow> (\<forall>n. mset (sched n) = mset [0..<n])"

lemma for_opt_blocks:
  assumes "\<forall>b\<in>set bs. f b = Some (g b)" "distinct ks" "\<forall>k\<in>set ks. k < length bs"
  shows "for_opt (\<lambda>k bs. map_option (\<lambda>b. bs[k := b]) (f (bs ! k))) ks bs
    = Some (map (\<lambda>k. if k \<in> set ks then g (bs ! k) else bs ! k) [0..<length bs])"
  using assms(2,3)
proof (induction ks rule: rev_induct)
  case (snoc k ks)
  then have "f (bs ! k) = Some (g (bs ! k))" using assms(1) by simp
  with snoc show ?case
    by (auto simp: for_opt_append intro!: nth_equalityI simp: nth_list_update)
qed (simp add: map_nth)

lemma each_block_eq:
  assumes "schedule_ok sched" "\<forall>b\<in>set bs. f b = Some (g b)"
  shows "each_block sched par f bs = Some (map g bs)"
proof (cases par)
  case True
  have m: "mset (sched (length bs)) = mset [0..<length bs]"
    using assms(1) by (simp add: schedule_ok_def)
  then have "distinct (sched (length bs))" "set (sched (length bs)) = {0..<length bs}"
    using mset_eq_imp_distinct_iff [OF m] mset_eq_setD [OF m] by simp_all
  then show ?thesis
    using True for_opt_blocks [OF assms(2), of "sched (length bs)"]
    by (auto simp: each_block_def intro!: nth_equalityI)
qed (use assms(2) in \<open>simp add: each_block_def map_opt_Some\<close>)

section \<open>Whole states\<close>

lemma concat_blocks:
  "concat (map (\<lambda>k. map (\<lambda>j. h (k * B + j)) [0..<B]) [0..<K]) = map h [0..<K * B]"
proof (induction K)
  case (Suc K)
  have "[0..<Suc K * B] = [0..<K * B] @ [K * B..<K * B + B]"
    using upt_add_eq_append [of 0 "K * B" B] by (simp add: add.commute)
  also have "[K * B..<K * B + B] = map (\<lambda>j. K * B + j) [0..<B]"
    using map_add_upt [of "K * B" B] by (simp add: add.commute)
  finally have "map h [0..<Suc K * B] = map h [0..<K * B] @ map (\<lambda>j. h (K * B + j)) [0..<B]"
    by simp
  with Suc show ?case by simp
qed simp

definition block_local :: "nat \<Rightarrow> ('a list \<Rightarrow> nat \<Rightarrow> 'b) \<Rightarrow> bool" where
  "block_local m new \<longleftrightarrow> (\<forall>xs k j. j < 2 ^ m \<longrightarrow> k * 2 ^ m + 2 ^ m \<le> length xs \<longrightarrow>
    new (take (2 ^ m) (drop (k * 2 ^ m) xs)) j = new xs (k * 2 ^ m + j))"

lemma chunks_exact_exp:
  assumes "length xs = 2 ^ n" "m \<le> n"
  shows "chunks_exact (2 ^ m) xs = map (\<lambda>k. take (2 ^ m) (drop (k * 2 ^ m) xs)) [0..<2 ^ (n - m)]"
    and "chunks_rest (2 ^ m) xs = []"
    and "k < 2 ^ (n - m) \<Longrightarrow> k * 2 ^ m + 2 ^ m \<le> length xs"
proof -
  have d: "length xs div 2 ^ m = 2 ^ (n - m)" using assms by (simp add: power_diff)
  then show "chunks_exact (2 ^ m) xs = map (\<lambda>k. take (2 ^ m) (drop (k * 2 ^ m) xs)) [0..<2 ^ (n - m)]"
    by (simp add: chunks_exact_def)
  have e: "2 ^ (n - m) * 2 ^ m = length xs"
    using assms by (simp flip: power_add)
  then show "chunks_rest (2 ^ m) xs = []" by (simp add: chunks_rest_def d)
  show "k < 2 ^ (n - m) \<Longrightarrow> k * 2 ^ m + 2 ^ m \<le> length xs"
    unfolding e [symmetric] using mult_le_mono1 [of "Suc k" "2 ^ (n - m)" "2 ^ m"] by simp
qed

lemma on_chunks_eq:
  assumes "schedule_ok sched" "block_local m new" "length xs = 2 ^ n" "m \<le> n"
    and "\<And>bs. length bs = 2 ^ m \<Longrightarrow> f bs = Some (map (new bs) [0..<2 ^ m])"
  shows "on_chunks sched par (2 ^ m) f xs = Some (map (new xs) [0..<2 ^ n])"
proof -
  note ce = chunks_exact_exp [OF assms(3,4)]
  have "each_block sched par f (chunks_exact (2 ^ m) xs)
      = Some (map (\<lambda>bs. map (new bs) [0..<2 ^ m]) (chunks_exact (2 ^ m) xs))"
  proof (rule each_block_eq [OF assms(1)])
    show "\<forall>bs\<in>set (chunks_exact (2 ^ m) xs). f bs = Some (map (new bs) [0..<2 ^ m])"
    proof
      fix bs
      assume "bs \<in> set (chunks_exact (2 ^ m) xs)"
      then obtain k where "k < 2 ^ (n - m)" "bs = take (2 ^ m) (drop (k * 2 ^ m) xs)"
        by (auto simp: ce(1))
      then have "length bs = 2 ^ m" using ce(3) [of k] by simp
      then show "f bs = Some (map (new bs) [0..<2 ^ m])" by (rule assms(5))
    qed
  qed
  moreover have "map (\<lambda>bs. map (new bs) [0..<2 ^ m]) (chunks_exact (2 ^ m) xs)
      = map (\<lambda>k. map (\<lambda>j. new xs (k * 2 ^ m + j)) [0..<2 ^ m]) [0..<2 ^ (n - m)]"
    using assms(2) ce(3) by (simp add: ce(1) block_local_def)
  ultimately show ?thesis
    using assms(4) by (simp add: on_chunks_def concat_blocks ce(2) flip: power_add)
qed

lemma unset_bit_shift:
  "j < 2 ^ m \<Longrightarrow> t < m \<Longrightarrow> unset_bit t (k * 2 ^ m + j) = k * 2 ^ m + unset_bit t (j :: nat)"
  using bit_block [of j m k] bit_block [OF unset_bit_block, of j m k t]
  by (auto intro!: bit_nat_eqI simp: bit_unset_bit_iff)

lemma set_bit_shift:
  "j < 2 ^ m \<Longrightarrow> t < m \<Longrightarrow> set_bit t (k * 2 ^ m + j) = k * 2 ^ m + set_bit t (j :: nat)"
  using bit_block [of j m k] bit_block [OF set_bit_block, of j m t k]
  by (auto intro!: bit_nat_eqI simp: bit_set_bit_iff)

lemma nth_block:
  "i < 2 ^ m \<Longrightarrow> k * 2 ^ m + 2 ^ m \<le> length xs \<Longrightarrow>
    take (2 ^ m) (drop (k * 2 ^ m) xs) ! i = xs ! (k * 2 ^ m + i)"
  by simp

lemma new_1q_local: "t < m \<Longrightarrow> block_local m (new_1q F t g)"
  by (simp add: block_local_def new_1q_def Let_def unset_bit_shift set_bit_shift bit_block
      unset_bit_block set_bit_block)

lemma new_2q_local: "q0 < m \<Longrightarrow> q1 < m \<Longrightarrow> block_local m (new_2q F sm q0 q1 g)"
  by (simp add: block_local_def new_2q_via_orbit root2_def orbit2_bits unset_bit_shift set_bit_shift
      bit_block unset_bit_block set_bit_block)

lemma apply_1q_eq:
  assumes "schedule_ok sched" "gate_ok 1 g" "length xs = 2 ^ n" "t < n" "n < 64"
  shows "apply_1q F sched par t g xs = Some (map (new_1q F t g xs) [0..<2 ^ n])"
proof -
  have "(2 :: nat) ^ Suc t < 2 ^ 64" using assms(4,5) by (intro power_strict_increasing) simp_all
  then have "usize_wrap (shl1 t * 2) = 2 ^ Suc t" "shl1 t = 2 ^ t"
    using assms(4,5) by (simp_all add: usize_wrap_def shl1_def mult.commute)
  moreover have "on_chunks sched par (2 ^ Suc t) (apply_1q_block F (2 ^ t) g) xs
      = Some (map (new_1q F t g xs) [0..<2 ^ n])"
    using apply_1q_block_eq [OF assms(2)] assms(4)
    by (intro on_chunks_eq [OF assms(1) new_1q_local assms(3)]) simp_all
  ultimately show ?thesis by (simp add: apply_1q_def Let_def)
qed

lemma apply_2q_eq:
  assumes "schedule_ok sched" "gate_ok 2 g" "length xs = 2 ^ n" "q0 < n" "q1 < n" "n < 64"
  shows "apply_2q F sched par q0 q1 g xs = Some (map (new_2q F (sum_left F) q0 q1 g xs) [0..<2 ^ n])"
proof -
  let ?m = "max q0 q1 + 1"
  have m: "q0 < ?m" "q1 < ?m" "?m \<le> n" "?m < 64" using assms(4-6) by auto
  then have "shl1 ?m = 2 ^ ?m" by (simp add: shl1_def)
  moreover have "on_chunks sched par (2 ^ ?m) (apply_2q_block F q0 q1 g) xs
      = Some (map (new_2q F (sum_left F) q0 q1 g xs) [0..<2 ^ n])"
    by (rule on_chunks_eq [OF assms(1) new_2q_local [OF m(1,2)] assms(3) m(3)])
      (use apply_2q_block_eq [OF assms(2) _ m(1,2,4)] in simp)
  ultimately show ?thesis by (simp add: apply_2q_def)
qed

text \<open>The textbook action of a gate, in terms of whole states.\<close>

definition gate_action :: "'f f64_ops \<Rightarrow> 'f sum4 \<Rightarrow> 'f gate \<Rightarrow> nat list \<Rightarrow> 'f cpx list \<Rightarrow> 'f cpx list" where
  "gate_action F sm g ts xs =
    map (if length ts = 1 then new_1q F (ts ! 0) g xs else new_2q F sm (ts ! 0) (ts ! 1) g xs)
      [0..<length xs]"

lemma apply_gate_eq:
  assumes "schedule_ok sched" "instr_ok n k (GateOp g ts)" "length xs = 2 ^ n" "n < 64"
  shows "apply_gate F sched par ts g xs = Some (gate_action F (sum_left F) g ts xs)"
proof -
  have t: "gate_ok (length ts) g" "length ts = 1 \<or> length ts = 2" "\<forall>t\<in>set ts. t < n"
    using assms(2) by (auto simp: targets_ok_def)
  from t(2) show ?thesis
  proof
    assume "length ts = 1"
    then show ?thesis
      using t assms(4) apply_1q_eq [OF assms(1) _ assms(3), of g "ts ! 0" F par]
      by (simp add: apply_gate_def gate_action_def gate_ok_def idx_def assms(3))
  next
    assume "length ts = 2"
    then show ?thesis
      using t assms(4) apply_2q_eq [OF assms(1) _ assms(3), of g "ts ! 0" "ts ! 1" F par]
      by (simp add: apply_gate_def gate_action_def gate_ok_def idx_def assms(3))
  qed
qed

definition instr_action :: "'f f64_ops \<Rightarrow> 'f sum4 \<Rightarrow> 'f instruction \<Rightarrow> 'f cpx list \<Rightarrow> 'f cpx list" where
  "instr_action F sm i xs = (case i of GateOp g ts \<Rightarrow> gate_action F sm g ts xs | _ \<Rightarrow> xs)"

lemma length_instr_action [simp]: "length (instr_action F sm i xs) = length xs"
  by (simp add: instr_action_def gate_action_def split: instruction.splits)

lemma apply_gate_sequence_eq:
  assumes "schedule_ok sched" "\<forall>i\<in>set is. instr_ok n k i" "length xs = 2 ^ n" "n < 64"
  shows "apply_gate_sequence F sched par is xs = Some (fold (instr_action F (sum_left F)) is xs)"
proof -
  have "(case i of GateOp g ts \<Rightarrow> apply_gate F sched par ts g s | _ \<Rightarrow> Some s) = Some (instr_action F (sum_left F) i s)"
    if "i \<in> set is" "length s = 2 ^ n" for i s
  proof -
    have "instr_ok n k i" using that(1) assms(2) by blast
    then show ?thesis
      using apply_gate_eq [OF assms(1) _ that(2) assms(4)]
      by (auto simp: instr_action_def split: instruction.splits)
  qed
  then show ?thesis
    using for_opt_pure [of "is" "\<lambda>s. length s = 2 ^ n" _ "instr_action F (sum_left F)" xs] assms(3)
    by (simp add: apply_gate_sequence_def)
qed

end
