(* ===== verification/State_Vector_Layout.thy ===== *)
theory State_Vector_Layout
  imports State_Vector_Props
begin

text \<open>
  The struct-of-arrays layout of the state vector against the array of complex amplitudes. Both
  compute the same products; for a two-qubit gate they add the four products in a different order
  (\<open>sum_left\<close> and \<open>sum_pairs\<close>), so the layouts agree when addition is associative.
\<close>

definition zipc :: "'f list \<times> 'f list \<Rightarrow> 'f cpx list" where
  "zipc b = map2 cnew (fst b) (snd b)"

definition pair_c :: "'f \<times> 'f \<Rightarrow> 'f cpx" where
  "pair_c v = cnew (fst v) (snd v)"

definition same_len :: "nat \<Rightarrow> 'f list \<times> 'f list \<Rightarrow> bool" where
  "same_len n b \<longleftrightarrow> length (fst b) = n \<and> length (snd b) = n"

definition add_assoc :: "'f f64_ops \<Rightarrow> bool" where
  "add_assoc F \<longleftrightarrow> (\<forall>a b c. f_add F (f_add F a b) c = f_add F a (f_add F b c))"

lemma length_zipc [simp]: "same_len n b \<Longrightarrow> length (zipc b) = n"
  by (simp add: same_len_def zipc_def)

lemma into_aos_zipc: "into_aos s = zipc (real_part s, imag_part s)"
  by (simp add: into_aos_def zipc_def)

lemma store_pair_zipc:
  "same_len n b \<Longrightarrow> zipc (store_pair i v b) = (zipc b)[i := pair_c v]"
  by (auto simp: zipc_def store_pair_def pair_c_def same_len_def map_update zip_update
      case_prod_beta)

lemma store_pair_len [simp]: "same_len n (store_pair i v b) \<longleftrightarrow> same_len n b"
  by (simp add: same_len_def store_pair_def)

lemma idx_pair_zipc:
  "same_len n b \<Longrightarrow> i < n \<Longrightarrow>
    idx_pair b i = Some (fst b ! i, snd b ! i) \<and> zipc b ! i = pair_c (fst b ! i, snd b ! i)"
  by (simp add: idx_pair_def idx_def same_len_def zipc_def pair_c_def)

lemma pair_c_mul: "pair_c (mul_complex_pair F m v) = c_mul F m (pair_c v)"
  by (simp add: pair_c_def mul_complex_pair_def c_mul_def)

lemma pair_c_add: "pair_c (add_complex_pairs F v w) = c_add F (pair_c v) (pair_c w)"
  by (simp add: pair_c_def add_complex_pairs_def c_add_def)

lemma sum_pairs_assoc: "add_assoc F \<Longrightarrow> sum_pairs F = sum_left F"
  by (intro ext) (simp add: sum_pairs_def sum_left_def c_add_def add_assoc_def)

section \<open>Steps\<close>

text \<open>\<open>soa_refines n f xs'\<close>: the result \<open>f\<close> of a step on arrays of length \<open>n\<close> holds \<open>xs'\<close>.\<close>

definition soa_refines :: "nat \<Rightarrow> ('f list \<times> 'f list) option \<Rightarrow> 'f cpx list \<Rightarrow> bool" where
  "soa_refines n r xs' \<longleftrightarrow> (\<exists>b'. r = Some b' \<and> same_len n b' \<and> zipc b' = xs')"

lemma soa_refines_for:
  assumes "\<And>x b. x \<in> set xs \<Longrightarrow> same_len n b \<Longrightarrow> soa_refines n (f x b) (g x (zipc b))" "same_len n b"
  shows "soa_refines n (for_opt f xs b) (fold g xs (zipc b))"
  using assms
proof (induction xs arbitrary: b)
  case (Cons x xs)
  have "soa_refines n (f x b) (g x (zipc b))" by (rule Cons.prems(1)) (simp_all add: Cons.prems(2))
  then obtain b1 where b1: "f x b = Some b1" "same_len n b1" "zipc b1 = g x (zipc b)"
    unfolding soa_refines_def by blast
  have "soa_refines n (for_opt f xs b1) (fold g xs (zipc b1))"
    using Cons.IH [of b1] Cons.prems(1) b1(2) by simp
  with b1 show ?case by simp
qed (auto simp: soa_refines_def)

lemma step_1q_soa_refines:
  assumes "b < 2 ^ t" "same_len (2 ^ Suc t) s"
  shows "soa_refines (2 ^ Suc t)
    (step_1q_soa F (2 ^ t) (entry g 0 0, entry g 0 1, entry g 1 0, entry g 1 1) b s)
    (pure_1q F t g b (zipc s))"
proof -
  have "b < 2 ^ Suc t" "set_bit t b < 2 ^ Suc t"
    using assms(1) set_bit_block [of b "Suc t" t] by simp_all
  note i = idx_pair_zipc [OF assms(2) this(1)] idx_pair_zipc [OF assms(2) this(2)]
  show ?thesis
    using assms(2) i
    by (simp add: step_1q_soa_def soa_refines_def exp_nat_or Let_def store_pair_zipc pure_1q_def
        pure_row2_def pair_c_mul pair_c_add)
qed

definition soa_row :: "'f f64_ops \<Rightarrow> 'f gate \<Rightarrow> ('f \<times> 'f) list \<Rightarrow> nat \<Rightarrow> 'f \<times> 'f" where
  "soa_row F g amps r = add_complex_pairs F
    (add_complex_pairs F (mul_complex_pair F (entry g r 0) (amps ! 0)) (mul_complex_pair F (entry g r 1) (amps ! 1)))
    (add_complex_pairs F (mul_complex_pair F (entry g r 2) (amps ! 2)) (mul_complex_pair F (entry g r 3) (amps ! 3)))"

lemma row4_soa_eq: "gate_ok 2 g \<Longrightarrow> r < 4 \<Longrightarrow> row4_soa F g amps r = Some (soa_row F g amps r)"
  by (simp add: row4_soa_def soa_row_def gate_get_shape [of 2])

lemma pair_c_soa_row:
  assumes "length amps = 4"
  shows "pair_c (soa_row F g amps r) = pure_row4 F (sum_pairs F) g (map pair_c amps) r"
  unfolding soa_row_def pure_row4_def sum_pairs_def pair_c_add pair_c_mul using assms by simp

lemma step_2q_soa_eq:
  assumes "gate_ok 2 g" "b < 2 ^ m" "same_len (2 ^ m) s" "q0 < m" "q1 < m" "root2 q0 q1 b = b"
    and "ix = orbit2 (2 ^ q0) (2 ^ q1) b" "amps = map (\<lambda>i. (fst s ! i, snd s ! i)) ix"
  shows "step_2q_soa F (2 ^ q0) (2 ^ q1) g b s
    = Some (store_pair (ix ! 3) (soa_row F g amps 3) (store_pair (ix ! 2) (soa_row F g amps 2)
        (store_pair (ix ! 1) (soa_row F g amps 1) (store_pair (ix ! 0) (soa_row F g amps 0) s))))"
proof -
  have "map_opt (idx_pair s) ix = Some amps"
    unfolding assms(8) using orbit2_block [OF assms(2,4,5)] idx_pair_zipc [OF assms(3)]
    by (intro map_opt_Some) (simp add: assms(7))
  moreover have "[0..<4] = [0, 1, 2, 3 :: nat]" by (simp add: upt_rec)
  moreover have "b AND 2 ^ q0 = 0" "b AND 2 ^ q1 = 0"
    using assms(6) by (simp_all add: root2_idle and_exp_eq_0)
  ultimately show ?thesis
    using assms(1) by (simp add: step_2q_soa_def Let_def row4_soa_eq flip: assms(7))
qed

lemma step_2q_soa_refines:
  assumes "gate_ok 2 g" "b < 2 ^ m" "same_len (2 ^ m) s" "q0 < m" "q1 < m" "root2 q0 q1 b = b"
  shows "soa_refines (2 ^ m) (step_2q_soa F (2 ^ q0) (2 ^ q1) g b s)
    (pure_2q F (sum_pairs F) q0 q1 g b (zipc s))"
proof -
  define ix where "ix = orbit2 (2 ^ q0) (2 ^ q1) b"
  define amps where "amps = map (\<lambda>i. (fst s ! i, snd s ! i)) ix"
  have l: "length ix = 4" by (simp add: ix_def orbit2_def)
  have la: "length amps = 4" by (simp add: amps_def l)
  have "map ((!) (zipc s)) ix = map pair_c amps"
    using orbit2_block [OF assms(2,4,5)] idx_pair_zipc [OF assms(3)] by (simp add: amps_def ix_def)
  then have p: "pure_2q F (sum_pairs F) q0 q1 g b (zipc s) =
      (zipc s)[ix ! 0 := pair_c (soa_row F g amps 0), ix ! 1 := pair_c (soa_row F g amps 1),
        ix ! 2 := pair_c (soa_row F g amps 2), ix ! 3 := pair_c (soa_row F g amps 3)]"
    unfolding pure_2q_def Let_def ix_def [symmetric] pair_c_soa_row [OF la] by (rule arg_cong)
  have z: "zipc (store_pair (ix ! 3) v3 (store_pair (ix ! 2) v2 (store_pair (ix ! 1) v1
      (store_pair (ix ! 0) v0 s)))) =
      (zipc s)[ix ! 0 := pair_c v0, ix ! 1 := pair_c v1, ix ! 2 := pair_c v2, ix ! 3 := pair_c v3]"
    for v0 v1 v2 v3
    using assms(3) by (simp add: store_pair_zipc [of "2 ^ m"])
  show ?thesis
    unfolding step_2q_soa_eq [OF assms ix_def amps_def] soa_refines_def p
    using assms(3) z by simp
qed

lemma apply_1q_block_soa_refines:
  assumes "gate_ok 1 g" "same_len (2 ^ Suc t) s"
  shows "soa_refines (2 ^ Suc t) (apply_1q_block_soa F (2 ^ t) g s)
    (map (new_1q F t g (zipc s)) [0..<2 ^ Suc t])"
proof -
  have "Some (fold (pure_1q F t g) [0..<2 ^ t] (zipc s)) = apply_1q_block F (2 ^ t) g (zipc s)"
    using for_opt_pure [of "[0..<2 ^ t]" "\<lambda>ys. length ys = 2 ^ Suc t" "step_1q F (2 ^ t) g"
        "pure_1q F t g" "zipc s"] assms
    by (simp add: step_1q_pure k1.length_step apply_1q_block_def)
  also have "\<dots> = Some (map (new_1q F t g (zipc s)) [0..<2 ^ Suc t])"
    using apply_1q_block_eq [OF assms(1), of "zipc s" t F] assms(2) by simp
  finally have "fold (pure_1q F t g) [0..<2 ^ t] (zipc s) = map (new_1q F t g (zipc s)) [0..<2 ^ Suc t]"
    by simp
  moreover have "soa_refines (2 ^ Suc t)
      (for_opt (step_1q_soa F (2 ^ t) (entry g 0 0, entry g 0 1, entry g 1 0, entry g 1 1)) [0..<2 ^ t] s)
      (fold (pure_1q F t g) [0..<2 ^ t] (zipc s))"
  proof (rule soa_refines_for [OF _ assms(2)])
    fix x b
    assume "x \<in> set [0..<2 ^ t]" "same_len (2 ^ Suc t) (b :: 'a list \<times> 'a list)"
    then show "soa_refines (2 ^ Suc t)
        (step_1q_soa F (2 ^ t) (entry g 0 0, entry g 0 1, entry g 1 0, entry g 1 1) x b)
        (pure_1q F t g x (zipc b))"
      by (intro step_1q_soa_refines) simp_all
  qed
  ultimately show ?thesis
    using assms(1) by (simp add: apply_1q_block_soa_def gate_get_shape [of 1])
qed

lemma apply_2q_block_soa_refines:
  assumes "gate_ok 2 g" "same_len (2 ^ m) s" "q0 < m" "q1 < m" "m < 64"
  shows "soa_refines (2 ^ m) (apply_2q_block_soa F q0 q1 g s)
    (map (new_2q F (sum_pairs F) q0 q1 g (zipc s)) [0..<2 ^ m])"
proof -
  let ?bs = "filter (\<lambda>b. root2 q0 q1 b = b) [0..<2 ^ m]"
  have "for_opt (step_2q_soa F (2 ^ q0) (2 ^ q1) g) [0..<2 ^ m] s
      = for_opt (step_2q_soa F (2 ^ q0) (2 ^ q1) g) ?bs s"
    by (rule for_opt_skip) (auto simp: step_2q_soa_def root2_idle and_exp_eq_0)
  moreover have "soa_refines (2 ^ m) (for_opt (step_2q_soa F (2 ^ q0) (2 ^ q1) g) ?bs s)
      (fold (pure_2q F (sum_pairs F) q0 q1 g) ?bs (zipc s))"
  proof (rule soa_refines_for [OF _ assms(2)])
    fix x b
    assume "x \<in> set ?bs" "same_len (2 ^ m) (b :: 'a list \<times> 'a list)"
    then show "soa_refines (2 ^ m) (step_2q_soa F (2 ^ q0) (2 ^ q1) g x b) (pure_2q F (sum_pairs F) q0 q1 g x (zipc b))"
      using assms(3,4) by (intro step_2q_soa_refines [OF assms(1)]) simp_all
  qed
  moreover have "fold (pure_2q F (sum_pairs F) q0 q1 g) ?bs (zipc s) = map (new_2q F (sum_pairs F) q0 q1 g (zipc s)) [0..<2 ^ m]"
    using fold_pure_2q [OF assms(3,4), of "zipc s" F "sum_pairs F" g] assms(2) by simp
  ultimately show ?thesis
    using assms(2-5) by (simp add: apply_2q_block_soa_def shl1_def same_len_def)
qed

section \<open>Whole states\<close>

lemma zipc_chunks:
  assumes "same_len n b"
  shows "chunks_exact B (zipc b) = map zipc (zip (chunks_exact B (fst b)) (chunks_exact B (snd b)))"
  using assms
  by (auto simp: chunks_exact_def same_len_def zipc_def take_map drop_map take_zip drop_zip
      intro!: nth_equalityI)

lemma zipc_concat:
  assumes "\<forall>b\<in>set bs. same_len n b"
  shows "zipc (concat (map fst bs), concat (map snd bs)) = concat (map zipc bs)"
  using assms by (induction bs) (simp_all add: zipc_def same_len_def)

lemma concat_len:
  assumes "\<forall>b\<in>set bs. same_len n b"
  shows "same_len (length bs * n) (concat (map fst bs), concat (map snd bs))"
  using assms by (induction bs) (simp_all add: same_len_def)

definition soa_parts :: "'f state_vector_soa \<Rightarrow> 'f list \<times> 'f list" where
  "soa_parts s = (real_part s, imag_part s)"

lemma on_chunks_soa_eq:
  assumes "schedule_ok sched" "block_local m new" "same_len (2 ^ n) (soa_parts s)" "m \<le> n"
    and "\<And>b. same_len (2 ^ m) b \<Longrightarrow> soa_refines (2 ^ m) (f b) (map (new (zipc b)) [0..<2 ^ m])"
  shows "\<exists>s'. on_chunks_soa sched par (2 ^ m) f s = Some s' \<and> same_len (2 ^ n) (soa_parts s') \<and>
    into_aos s' = map (new (into_aos s)) [0..<2 ^ n]"
proof -
  let ?r = "real_part s" and ?i = "imag_part s" and ?g = "\<lambda>b. the (f b)"
  let ?bs = "zip (chunks_exact (2 ^ m) ?r) (chunks_exact (2 ^ m) ?i)"
  have l: "length ?r = 2 ^ n" "length ?i = 2 ^ n"
    using assms(3) by (simp_all add: same_len_def soa_parts_def)
  note cr = chunks_exact_exp [OF l(1) assms(4)] and ci = chunks_exact_exp [OF l(2) assms(4)]
  have lb: "same_len (2 ^ m) b" if "b \<in> set ?bs" for b
  proof -
    from that obtain k where k: "k < 2 ^ (n - m)"
      and b: "b = (take (2 ^ m) (drop (k * 2 ^ m) ?r), take (2 ^ m) (drop (k * 2 ^ m) ?i))"
      by (auto simp: cr(1) ci(1) set_zip)
    show ?thesis using cr(3) [OF k] ci(3) [OF k] by (simp add: b same_len_def)
  qed
  have g: "f b = Some (?g b) \<and> same_len (2 ^ m) (?g b) \<and> zipc (?g b) = map (new (zipc b)) [0..<2 ^ m]"
    if "b \<in> set ?bs" for b
    using assms(5) [OF lb [OF that]] by (auto simp: soa_refines_def)
  let ?gs = "map ?g ?bs"
  have e: "each_block sched par f ?bs = Some ?gs"
    by (rule each_block_eq [OF assms(1)]) (use g in blast)
  have gl: "\<forall>b\<in>set ?gs. same_len (2 ^ m) b" using g by auto
  have lbs: "length ?bs = 2 ^ (n - m)" by (simp add: cr(1) ci(1))
  let ?s' = "\<lparr>real_part = concat (map fst ?gs), imag_part = concat (map snd ?gs)\<rparr>"
  have "on_chunks_soa sched par (2 ^ m) f s = Some ?s'"
    by (simp add: on_chunks_soa_def e cr(2) ci(2))
  moreover have "same_len (2 ^ n) (soa_parts ?s')"
    using concat_len [OF gl] lbs assms(4) by (simp add: soa_parts_def flip: power_add)
  moreover have "into_aos ?s' = concat (map (\<lambda>b. map (new (zipc b)) [0..<2 ^ m]) ?bs)"
    using zipc_concat [OF gl] g by (simp add: into_aos_zipc comp_def cong: map_cong)
  moreover have "\<dots> = map (new (into_aos s)) [0..<2 ^ n]"
  proof -
    have "Some (concat (map (\<lambda>b. map (new (zipc b)) [0..<2 ^ m]) ?bs))
        = on_chunks sched par (2 ^ m) (\<lambda>b. Some (map (new b) [0..<2 ^ m])) (into_aos s)"
      using each_block_eq [OF assms(1), of "chunks_exact (2 ^ m) (into_aos s)"
          "\<lambda>b. Some (map (new b) [0..<2 ^ m])" "\<lambda>b. map (new b) [0..<2 ^ m]" par]
        zipc_chunks [OF assms(3), of "2 ^ m"]
        chunks_exact_exp(2) [of "into_aos s" n m] assms(3,4)
      by (simp add: on_chunks_def into_aos_zipc soa_parts_def comp_def)
    also have "\<dots> = Some (map (new (into_aos s)) [0..<2 ^ n])"
      using assms(3) by (intro on_chunks_eq [OF assms(1,2) _ assms(4)])
        (simp_all add: into_aos_zipc soa_parts_def)
    finally show ?thesis by simp
  qed
  ultimately show ?thesis by metis
qed

lemma apply_gate_soa_eq:
  assumes "schedule_ok sched" "instr_ok n k (GateOp g ts)" "same_len (2 ^ n) (soa_parts s)" "n < 64"
  shows "\<exists>s'. apply_gate_soa F sched par ts g s = Some s' \<and> same_len (2 ^ n) (soa_parts s') \<and>
    into_aos s' = gate_action F (sum_pairs F) g ts (into_aos s)"
proof -
  have t: "gate_ok (length ts) g" "length ts = 1 \<or> length ts = 2" "\<forall>t\<in>set ts. t < n"
    using assms(2) by (auto simp: targets_ok_def)
  have la: "length (into_aos s) = 2 ^ n" using assms(3) by (simp add: into_aos_zipc soa_parts_def)
  from t(2) show ?thesis
  proof
    assume l: "length ts = 1"
    let ?t = "ts ! 0"
    have tn: "?t < n" "gate_ok 1 g" using t l by simp_all
    have "(2 :: nat) ^ Suc ?t < 2 ^ 64" using tn assms(4) by (intro power_strict_increasing) simp_all
    then have "usize_wrap (shl1 ?t * 2) = 2 ^ Suc ?t" "shl1 ?t = 2 ^ ?t"
      using tn assms(4) by (simp_all add: usize_wrap_def shl1_def mult.commute)
    moreover have "\<exists>s'. on_chunks_soa sched par (2 ^ Suc ?t) (apply_1q_block_soa F (2 ^ ?t) g) s = Some s' \<and>
        same_len (2 ^ n) (soa_parts s') \<and> into_aos s' = map (new_1q F ?t g (into_aos s)) [0..<2 ^ n]"
      using tn by (intro on_chunks_soa_eq [OF assms(1) new_1q_local assms(3)]
          apply_1q_block_soa_refines) simp_all
    ultimately show ?thesis
      using l tn(2) la by (simp add: apply_gate_soa_def apply_1q_soa_def gate_action_def gate_ok_def
          idx_def Let_def)
  next
    assume l: "length ts = 2"
    let ?m = "max (ts ! 0) (ts ! 1) + 1"
    have tn: "ts ! 0 < n" "ts ! 1 < n" "gate_ok 2 g" using t l by simp_all
    have m: "ts ! 0 < ?m" "ts ! 1 < ?m" "?m \<le> n" "?m < 64" using tn assms(4) by auto
    then have "shl1 ?m = 2 ^ ?m" by (simp add: shl1_def)
    moreover have "\<exists>s'. on_chunks_soa sched par (2 ^ ?m) (apply_2q_block_soa F (ts ! 0) (ts ! 1) g) s = Some s' \<and>
        same_len (2 ^ n) (soa_parts s') \<and>
        into_aos s' = map (new_2q F (sum_pairs F) (ts ! 0) (ts ! 1) g (into_aos s)) [0..<2 ^ n]"
      by (rule on_chunks_soa_eq [OF assms(1) new_2q_local [OF m(1,2)] assms(3) m(3)])
        (rule apply_2q_block_soa_refines [OF tn(3) _ m(1,2,4)])
    ultimately show ?thesis
      using l tn(3) la by (simp add: apply_gate_soa_def apply_2q_soa_def gate_action_def gate_ok_def
          idx_def)
  qed
qed

lemma apply_gate_sequence_soa_eq:
  assumes "schedule_ok sched" "\<forall>i\<in>set is. instr_ok n k i" "same_len (2 ^ n) (soa_parts s)" "n < 64"
  shows "\<exists>s'. apply_gate_sequence_soa F sched par is s = Some s' \<and>
    into_aos s' = fold (instr_action F (sum_pairs F)) is (into_aos s)"
  using assms(2,3)
proof (induction "is" arbitrary: s)
  case (Cons i "is")
  have "\<exists>s1. (case i of GateOp g ts \<Rightarrow> apply_gate_soa F sched par ts g s | _ \<Rightarrow> Some s) = Some s1 \<and>
      same_len (2 ^ n) (soa_parts s1) \<and> into_aos s1 = instr_action F (sum_pairs F) i (into_aos s)"
    using apply_gate_soa_eq [OF assms(1) _ Cons.prems(2) assms(4), of k _ _ _ par] Cons.prems
    by (cases i) (simp_all add: instr_action_def)
  then obtain s1 where s1:
      "(case i of GateOp g ts \<Rightarrow> apply_gate_soa F sched par ts g s | _ \<Rightarrow> Some s) = Some s1"
      "same_len (2 ^ n) (soa_parts s1)" "into_aos s1 = instr_action F (sum_pairs F) i (into_aos s)" by blast
  show ?case
    using Cons.IH [OF _ s1(2)] Cons.prems(1) s1(1,3)
    by (simp add: apply_gate_sequence_soa_def)
qed (simp add: apply_gate_sequence_soa_def)

end
