(* ===== verification/Quantum_Simulator.thy ===== *)
theory Quantum_Simulator
  imports State_Vector_Layout
begin

text \<open>
  The simulator of the quantum SDK: noise models (\<open>crates/waros-quantum/src/noise.rs\<close>), the results
  of a run (\<open>result.rs\<close>), single shots with measurement and noise
  (\<open>simulator/trajectory.rs\<close>) and the choice between sampling and shots (\<open>simulator/mod.rs\<close>).

  The random generator of the \<open>rand\<close> crate is a record of two operations on a state of type
  \<open>'r\<close>. An operation that may panic or fail returns \<open>None\<close> for a panic and an error or a value
  otherwise. The tensor-network backend is not modelled: \<open>simulator_run\<close> takes its run as an
  argument.
\<close>

section \<open>Noise models\<close>

datatype 'f noise_channel =
    Depolarizing 'f
  | AmplitudeDamping 'f
  | PhaseDamping 'f
  | BitFlip 'f
  | PhaseFlip 'f
  | ReadoutError 'f

fun is_effective :: "'f f64_ops \<Rightarrow> 'f noise_channel \<Rightarrow> bool" where
  "is_effective F (Depolarizing p) = f_lt F (f_lit F 0) p"
| "is_effective F (BitFlip p) = f_lt F (f_lit F 0) p"
| "is_effective F (PhaseFlip p) = f_lt F (f_lit F 0) p"
| "is_effective F (ReadoutError p) = f_lt F (f_lit F 0) p"
| "is_effective F (AmplitudeDamping g) = f_lt F (f_lit F 0) g"
| "is_effective F (PhaseDamping l) = f_lt F (f_lit F 0) l"

record 'f noise_model =
  single_qubit_noise :: "'f noise_channel list"
  two_qubit_noise :: "'f noise_channel list"
  measurement_noise :: "'f noise_channel list"
  idle_noise :: "'f noise_channel list"

definition noise_ideal :: "'f noise_model" where
  "noise_ideal = \<lparr>single_qubit_noise = [], two_qubit_noise = [], measurement_noise = [], idle_noise = []\<rparr>"

definition noise_uniform :: "'f f64_ops \<Rightarrow> 'f \<Rightarrow> 'f \<Rightarrow> 'f \<Rightarrow> 'f noise_model" where
  "noise_uniform F single_q_error two_q_error readout_error =
    \<lparr>single_qubit_noise = [Depolarizing (clamp01 F single_q_error)],
     two_qubit_noise = [Depolarizing (clamp01 F two_q_error)],
     measurement_noise = [ReadoutError (clamp01 F readout_error)],
     idle_noise = []\<rparr>"

definition is_ideal :: "'f f64_ops \<Rightarrow> 'f noise_model \<Rightarrow> bool" where
  "is_ideal F m = list_all (\<lambda>c. \<not> is_effective F c)
    (concat [single_qubit_noise m, two_qubit_noise m, measurement_noise m, idle_noise m])"

section \<open>Random numbers, failures and panics\<close>

record ('f, 'r) rng_ops =
  gen_f64 :: "'r \<Rightarrow> 'f \<times> 'r"
  gen_range3 :: "'r \<Rightarrow> nat \<times> 'r"

type_synonym ('r, 'a) run = "'r \<Rightarrow> (waros_error + 'a \<times> 'r) option"

definition run_return :: "'a \<Rightarrow> ('r, 'a) run" where
  "run_return x r = Some (Ok (x, r))"

definition run_fail :: "waros_error \<Rightarrow> ('r, 'a) run" where
  "run_fail e r = Some (Err e)"

definition run_bind :: "('r, 'a) run \<Rightarrow> ('a \<Rightarrow> ('r, 'b) run) \<Rightarrow> ('r, 'b) run" where
  "run_bind m k r = (case m r of None \<Rightarrow> None | Some (Inl e) \<Rightarrow> Some (Err e) | Some (Inr (x, r')) \<Rightarrow> k x r')"

definition run_opt :: "'a option \<Rightarrow> ('r, 'a) run" where
  "run_opt x r = map_option (\<lambda>y. Ok (y, r)) x"

definition run_result :: "waros_error + 'a \<Rightarrow> ('r, 'a) run" where
  "run_result x r = Some (result_bind x (\<lambda>y. Ok (y, r)))"

definition run_gen :: "('r \<Rightarrow> 'a \<times> 'r) \<Rightarrow> ('r, 'a) run" where
  "run_gen g r = Some (Ok (g r))"

primrec run_fold :: "('x \<Rightarrow> 's \<Rightarrow> ('r, 's) run) \<Rightarrow> 'x list \<Rightarrow> 's \<Rightarrow> ('r, 's) run" where
  "run_fold body [] s = run_return s"
| "run_fold body (x # xs) s = run_bind (body x s) (run_fold body xs)"

section \<open>Noise\<close>

definition apply_measurement_noise ::
  "'f f64_ops \<Rightarrow> ('f, 'r) rng_ops \<Rightarrow> 'f noise_model option \<Rightarrow> bool \<Rightarrow> ('r, bool) run" where
  "apply_measurement_noise F R noise outcome =
    (case noise of
       None \<Rightarrow> run_return outcome
     | Some m \<Rightarrow> run_fold (\<lambda>c noisy.
         case c of
           ReadoutError p \<Rightarrow> run_bind (run_gen (gen_f64 R)) (\<lambda>d.
             run_return (if f_lt F d (clamp01 F p) then \<not> noisy else noisy))
         | BitFlip p \<Rightarrow> run_bind (run_gen (gen_f64 R)) (\<lambda>d.
             run_return (if f_lt F d (clamp01 F p) then \<not> noisy else noisy))
         | Depolarizing p \<Rightarrow> run_bind (run_gen (gen_f64 R)) (\<lambda>d.
             if f_lt F d (clamp01 F p)
             then run_bind (run_gen (gen_f64 R)) (\<lambda>d2. run_return (f_le F (f_lit F (1 / 2)) d2))
             else run_return noisy)
         | _ \<Rightarrow> run_return noisy) (measurement_noise m) outcome)"

definition TRAJECTORY_EPSILON :: rat where
  "TRAJECTORY_EPSILON = 1 / 10 ^ 15"

definition jump_step :: "'f f64_ops \<Rightarrow> nat \<Rightarrow> 'f \<Rightarrow> nat \<Rightarrow> 'f cpx list \<Rightarrow> 'f cpx list option" where
  "jump_step F msk inv_norm base state =
    (if base AND msk \<noteq> 0 then Some state
     else do {
       excited \<leftarrow> idx state (base OR msk);
       Some (state[base := c_scale F excited inv_norm, base OR msk := c_zero F]) })"

definition no_jump_step ::
  "'f f64_ops \<Rightarrow> nat \<Rightarrow> 'f \<Rightarrow> 'f \<Rightarrow> nat \<Rightarrow> 'f cpx list \<Rightarrow> 'f cpx list option" where
  "no_jump_step F msk inv_norm damping base state =
    (if base AND msk \<noteq> 0 then Some state
     else do {
       a0 \<leftarrow> idx state base;
       a1 \<leftarrow> idx state (base OR msk);
       Some (state[base := c_scale F a0 inv_norm,
                   base OR msk := c_scale F a1 (f_mul F damping inv_norm)]) })"

definition apply_amplitude_damping ::
  "'f f64_ops \<Rightarrow> ('f, 'r) rng_ops \<Rightarrow> nat \<Rightarrow> 'f \<Rightarrow> 'f cpx list \<Rightarrow> ('r, 'f cpx list) run" where
  "apply_amplitude_damping F R q gamma0 state =
    (let gamma = clamp01 F gamma0 in
     if f_le F gamma (f_lit F TRAJECTORY_EPSILON) then run_return state
     else
       let p1 = clamp01 F (probability_one F state q);
           jump = clamp01 F (f_mul F gamma p1);
           msk = shl1 q in
       run_bind (run_gen (gen_f64 R)) (\<lambda>d.
       if f_lt F d jump then
         if f_le F p1 (f_lit F TRAJECTORY_EPSILON) then run_return state
         else run_opt (for_opt (jump_step F msk (f_div F (f_lit F 1) (f_sqrt F p1)))
           [0..<length state] state)
       else
         let no_jump = f_sub F (f_lit F 1) jump in
         if f_le F no_jump (f_lit F TRAJECTORY_EPSILON)
         then run_fail (NumericalInstability ''amplitude damping normalization collapsed'')
         else run_opt (for_opt (no_jump_step F msk (f_div F (f_lit F 1) (f_sqrt F no_jump))
             (f_sqrt F (f_sub F (f_lit F 1) gamma))) [0..<length state] state)))"

definition clamp_half :: "'f f64_ops \<Rightarrow> 'f \<Rightarrow> 'f" where
  "clamp_half F x = (if f_lt F x (f_lit F 0) then f_lit F 0
    else if f_lt F (f_lit F (1 / 2)) x then f_lit F (1 / 2) else x)"

text \<open>A Pauli error with the given probability.\<close>

definition flip_with ::
  "'f f64_ops \<Rightarrow> ('f, 'r) rng_ops \<Rightarrow> (nat \<Rightarrow> nat list) \<Rightarrow> bool \<Rightarrow> nat \<Rightarrow> 'f \<Rightarrow> 'f gate \<Rightarrow> 'f cpx list \<Rightarrow>
    ('r, 'f cpx list) run" where
  "flip_with F R sched par q p g state =
    run_bind (run_gen (gen_f64 R)) (\<lambda>d.
      if f_lt F d p then run_opt (apply_1q F sched par q g state) else run_return state)"

definition apply_channel ::
  "'f f64_ops \<Rightarrow> ('f, 'r) rng_ops \<Rightarrow> (nat \<Rightarrow> nat list) \<Rightarrow> bool \<Rightarrow> nat \<Rightarrow> 'f noise_channel \<Rightarrow> 'f cpx list \<Rightarrow>
    ('r, 'f cpx list) run" where
  "apply_channel F R sched par q c state =
    (case c of
       Depolarizing p \<Rightarrow>
         run_bind (run_gen (gen_f64 R)) (\<lambda>d.
           if f_lt F d (clamp01 F p) then
             run_bind (run_gen (gen_range3 R)) (\<lambda>k.
               run_opt (apply_1q F sched par q
                 (if k = 0 then gate_x F else if k = 1 then gate_y F else gate_z F) state))
           else run_return state)
     | AmplitudeDamping g \<Rightarrow> apply_amplitude_damping F R q g state
     | PhaseDamping l \<Rightarrow>
         flip_with F R sched par q (clamp_half F (f_mul F (clamp01 F l) (f_lit F (1 / 2)))) (gate_z F) state
     | BitFlip p \<Rightarrow> flip_with F R sched par q (clamp01 F p) (gate_x F) state
     | PhaseFlip p \<Rightarrow> flip_with F R sched par q (clamp01 F p) (gate_z F) state
     | ReadoutError p \<Rightarrow> run_return state)"

definition apply_channels_to_qubit ::
  "'f f64_ops \<Rightarrow> ('f, 'r) rng_ops \<Rightarrow> (nat \<Rightarrow> nat list) \<Rightarrow> bool \<Rightarrow> 'f noise_channel list \<Rightarrow> nat \<Rightarrow>
    'f cpx list \<Rightarrow> ('r, 'f cpx list) run" where
  "apply_channels_to_qubit F R sched par channels q =
    run_fold (apply_channel F R sched par q) channels"

section \<open>One shot\<close>

definition noisy_gate ::
  "'f f64_ops \<Rightarrow> ('f, 'r) rng_ops \<Rightarrow> (nat \<Rightarrow> nat list) \<Rightarrow> bool \<Rightarrow> 'f noise_model option \<Rightarrow> 'f gate \<Rightarrow> nat list \<Rightarrow>
    'f cpx list \<Rightarrow> ('r, 'f cpx list) run" where
  "noisy_gate F R sched par noise g ts state =
    run_bind (run_opt (apply_gate F sched par ts g state)) (\<lambda>state.
      case noise of
        None \<Rightarrow> run_return state
      | Some m \<Rightarrow>
          run_fold (apply_channels_to_qubit F R sched par
            (if gate_width g = 1 then single_qubit_noise m else two_qubit_noise m)) ts state)"

text \<open>\<open>usize::from(..) << offset\<close> takes the offset modulo 64.\<close>

definition read_classical_register :: "nat list \<Rightarrow> bool list \<Rightarrow> nat option" where
  "read_classical_register register bits =
    for_opt (\<lambda>(offset, b) v. map_option (\<lambda>x. v OR (if x then shl1 offset else 0)) (idx bits b))
      (enumerate 0 register) 0"

definition shot_step ::
  "'f f64_ops \<Rightarrow> ('f, 'r) rng_ops \<Rightarrow> (nat \<Rightarrow> nat list) \<Rightarrow> bool \<Rightarrow> 'f noise_model option \<Rightarrow>
    'f instruction \<Rightarrow> 'f cpx list \<times> bool list \<Rightarrow> ('r, 'f cpx list \<times> bool list) run" where
  "shot_step F R sched par noise i = (\<lambda>(state, bits).
    case i of
      GateOp g ts \<Rightarrow>
        run_bind (noisy_gate F R sched par noise g ts state) (\<lambda>state. run_return (state, bits))
    | ConditionalGate register v g ts \<Rightarrow>
        run_bind (run_opt (read_classical_register register bits)) (\<lambda>x.
          if x = v then
            run_bind (noisy_gate F R sched par noise g ts state) (\<lambda>state. run_return (state, bits))
          else run_return (state, bits))
    | Measure q b \<Rightarrow>
        run_bind (run_gen (gen_f64 R)) (\<lambda>d.
        run_bind (run_result (measure_qubit F q d state)) (\<lambda>(measured, state).
        run_bind (apply_measurement_noise F R noise measured) (\<lambda>bit.
        run_opt (if b < length bits then Some (state, bits[b := bit]) else None))))
    | Barrier qs \<Rightarrow>
        (case noise of
           None \<Rightarrow> run_return (state, bits)
         | Some m \<Rightarrow>
             run_bind (run_fold (apply_channels_to_qubit F R sched par (idle_noise m)) qs state)
               (\<lambda>state. run_return (state, bits))))"

text \<open>The classical register of a shot: a vector of more than \<open>isize::MAX\<close> bytes panics (capacity
  overflow).\<close>

definition classical_register :: "'f circuit \<Rightarrow> bool list option" where
  "classical_register c =
    (if num_classical_bits c > isize_max then None else Some (replicate (num_classical_bits c) False))"

definition run_single_shot ::
  "'f f64_ops \<Rightarrow> ('f, 'r) rng_ops \<Rightarrow> (nat \<Rightarrow> nat list) \<Rightarrow> (nat \<Rightarrow> bool) \<Rightarrow> bool \<Rightarrow>
    'f noise_model option \<Rightarrow> 'f circuit \<Rightarrow> ('r, string) run" where
  "run_single_shot F R sched alloc par noise c =
    run_bind (run_result (zero_state F alloc (num_qubits c))) (\<lambda>state.
    run_bind (run_opt (classical_register c)) (\<lambda>bits.
    run_bind (run_fold (shot_step F R sched par noise) (instructions c) (state, bits)) (\<lambda>(state, bits).
    run_return (map (\<lambda>b. if b then CHR ''1'' else CHR ''0'') bits))))"

section \<open>Results and runs\<close>

type_synonym counts = "string \<rightharpoonup> u32"

record quantum_result =
  result_qubits :: nat
  total_shots :: u32
  result_counts :: counts

definition count_shot :: "string \<Rightarrow> counts \<Rightarrow> counts" where
  "count_shot k m = m(k \<mapsto> (case m k of None \<Rightarrow> 0 | Some n \<Rightarrow> n) + 1)"

definition run_shot_mode ::
  "'f f64_ops \<Rightarrow> ('f, 'r) rng_ops \<Rightarrow> (nat \<Rightarrow> nat list) \<Rightarrow> (nat \<Rightarrow> bool) \<Rightarrow> bool \<Rightarrow>
    'f noise_model option \<Rightarrow> 'f circuit \<Rightarrow> u32 \<Rightarrow> ('r, quantum_result) run" where
  "run_shot_mode F R sched alloc par noise c shots =
    run_bind (run_fold (\<lambda>_ counts.
        run_bind (run_single_shot F R sched alloc par noise c) (\<lambda>s. run_return (count_shot s counts)))
      [0..<unat shots] Map.empty) (\<lambda>counts.
    run_return \<lparr>result_qubits = num_classical_bits c, total_shots = shots, result_counts = counts\<rparr>)"

datatype backend = StateVector | MPS nat | Auto

datatype state_vector_layout = AoS | SoA

record 'f simulator =
  parallel_gates :: bool
  sim_backend :: backend
  sim_layout :: state_vector_layout
  sim_noise :: "'f noise_model"

definition PARALLEL_QUBIT_THRESHOLD :: nat where
  "PARALLEL_QUBIT_THRESHOLD = 16"

definition parallel_for :: "'f simulator \<Rightarrow> nat \<Rightarrow> bool" where
  "parallel_for S n \<longleftrightarrow> parallel_gates S \<and> n \<ge> PARALLEL_QUBIT_THRESHOLD"

definition effective_backend :: "'f simulator \<Rightarrow> nat \<Rightarrow> backend" where
  "effective_backend S n =
    (case sim_backend S of Auto \<Rightarrow> if n > 20 then MPS 64 else StateVector | b \<Rightarrow> b)"

definition final_state ::
  "'f f64_ops \<Rightarrow> (nat \<Rightarrow> nat list) \<Rightarrow> (nat \<Rightarrow> bool) \<Rightarrow> 'f simulator \<Rightarrow> 'f circuit \<Rightarrow>
    (waros_error + 'f cpx list) option" where
  "final_state F sched alloc S c =
    (let n = num_qubits c in
     case sim_layout S of
       AoS \<Rightarrow> (case zero_state F alloc n of
           Inl e \<Rightarrow> Some (Err e)
         | Inr s \<Rightarrow> map_option Ok (apply_gate_sequence F sched (parallel_for S n) (instructions c) s))
     | SoA \<Rightarrow> (case zero_state_soa F alloc n of
           Inl e \<Rightarrow> Some (Err e)
         | Inr s \<Rightarrow> map_option (\<lambda>s. Ok (into_aos s))
             (apply_gate_sequence_soa F sched (parallel_for S n) (instructions c) s)))"

definition simulator_statevector ::
  "'f f64_ops \<Rightarrow> (nat \<Rightarrow> nat list) \<Rightarrow> (nat \<Rightarrow> bool) \<Rightarrow>
    ('f circuit \<Rightarrow> nat \<Rightarrow> (waros_error + 'f cpx list) option) \<Rightarrow> 'f simulator \<Rightarrow> 'f circuit \<Rightarrow>
    (waros_error + 'f cpx list) option" where
  "simulator_statevector F sched alloc mps S c =
    (if \<not> is_ideal F (sim_noise S) then
       Some (Err (SimulationError ''statevector is unavailable when noise is enabled''))
     else if has_mid_circuit_measurement c then
       Some (Err (SimulationError
         ''statevector is unavailable for circuits with mid-circuit measurements''))
     else case effective_backend S (num_qubits c) of
         StateVector \<Rightarrow> final_state F sched alloc S c
       | MPS d \<Rightarrow> mps c d
       | Auto \<Rightarrow> None)"

definition state_probabilities ::
  "'f f64_ops \<Rightarrow> (nat \<Rightarrow> nat list) \<Rightarrow> (nat \<Rightarrow> bool) \<Rightarrow> 'f simulator \<Rightarrow> 'f circuit \<Rightarrow>
    (waros_error + 'f list) option" where
  "state_probabilities F sched alloc S c =
    (let n = num_qubits c in
     case sim_layout S of
       AoS \<Rightarrow> (case zero_state F alloc n of
           Inl e \<Rightarrow> Some (Err e)
         | Inr s \<Rightarrow> map_option (\<lambda>s. Ok (map (norm_sq F) s))
             (apply_gate_sequence F sched (parallel_for S n) (instructions c) s))
     | SoA \<Rightarrow> (case zero_state_soa F alloc n of
           Inl e \<Rightarrow> Some (Err e)
         | Inr s \<Rightarrow> map_option (\<lambda>s. Ok (soa_probabilities F s))
             (apply_gate_sequence_soa F sched (parallel_for S n) (instructions c) s)))"

fun measured_qubit :: "'f instruction \<Rightarrow> nat option" where
  "measured_qubit (Measure q b) = Some q"
| "measured_qubit _ = None"

definition measured_qubits :: "'f circuit \<Rightarrow> nat list" where
  "measured_qubits c = List.map_filter measured_qubit (instructions c)"

definition sampled_string :: "'f circuit \<Rightarrow> nat \<Rightarrow> string" where
  "sampled_string c index =
    (if measured_qubits c = [] then basis_state_string index (num_qubits c)
     else map (bit_char index) (measured_qubits c))"

definition output_qubits :: "'f circuit \<Rightarrow> nat" where
  "output_qubits c = (if measured_qubits c = [] then num_qubits c else length (measured_qubits c))"

definition run_sample_mode ::
  "'f f64_ops \<Rightarrow> ('f, 'r) rng_ops \<Rightarrow> (nat \<Rightarrow> nat list) \<Rightarrow> (nat \<Rightarrow> bool) \<Rightarrow> 'f simulator \<Rightarrow>
    'f circuit \<Rightarrow> u32 \<Rightarrow> ('r, quantum_result) run" where
  "run_sample_mode F R sched alloc S c shots = (\<lambda>r.
    case state_probabilities F sched alloc S c of
      None \<Rightarrow> None
    | Some (Inl e) \<Rightarrow> Some (Err e)
    | Some (Inr probabilities) \<Rightarrow>
        run_bind (run_fold (\<lambda>_ counts. run_bind (run_gen (gen_f64 R)) (\<lambda>d.
            run_return (count_shot (sampled_string c (sample F probabilities d)) counts)))
          [0..<unat shots] Map.empty) (\<lambda>counts.
        run_return \<lparr>result_qubits = output_qubits c, total_shots = shots, result_counts = counts\<rparr>) r)"

definition simulator_run ::
  "'f f64_ops \<Rightarrow> ('f, 'r) rng_ops \<Rightarrow> (nat \<Rightarrow> nat list) \<Rightarrow> (nat \<Rightarrow> bool) \<Rightarrow>
    ('f circuit \<Rightarrow> u32 \<Rightarrow> nat \<Rightarrow> ('r, quantum_result) run) \<Rightarrow>
    'f simulator \<Rightarrow> 'f circuit \<Rightarrow> u32 \<Rightarrow> ('r, quantum_result) run" where
  "simulator_run F R sched alloc mps S c shots =
    (if shots = 0 then run_fail (InvalidShots shots)
     else
       let n = num_qubits c; noise = sim_noise S in
       case effective_backend S n of
         StateVector \<Rightarrow>
           if \<not> is_ideal F noise \<or> has_mid_circuit_measurement c then
             run_shot_mode F R sched alloc (parallel_for S n)
               (if is_ideal F noise then None else Some noise) c shots
           else run_sample_mode F R sched alloc S c shots
       | MPS d \<Rightarrow> mps c shots d
       | Auto \<Rightarrow> (\<lambda>r. None))"

end
