(* ===== verification/Quantum_Simulator_Props.thy ===== *)
theory Quantum_Simulator_Props
  imports Quantum_Simulator
begin

text \<open>
  Soundness of the simulator for the runnable circuits of the builder below 64 qubits: a run does not
  panic, it fails only for lack of memory or a numerical collapse, and its counts add up to the number
  of shots. The last section shows what happens to wider circuits.
\<close>

named_theorems run_intro \<open>rules for run_ok\<close>

section \<open>Runs that do not panic\<close>

fun sim_error :: "waros_error \<Rightarrow> bool" where
  "sim_error (InsufficientMemory n b) = True"
| "sim_error (NumericalInstability w) = True"
| "sim_error e = False"

definition run_ok :: "('a \<Rightarrow> bool) \<Rightarrow> ('r, 'a) run \<Rightarrow> bool" where
  "run_ok P m \<longleftrightarrow> (\<forall>r. case m r of None \<Rightarrow> False | Some (Inl e) \<Rightarrow> sim_error e | Some (Inr (x, r')) \<Rightarrow> P x)"

lemma run_ok_return [run_intro]: "P x \<Longrightarrow> run_ok P (run_return x)"
  by (simp add: run_ok_def run_return_def)

lemma run_ok_fail [run_intro]: "sim_error e \<Longrightarrow> run_ok P (run_fail e)"
  by (simp add: run_ok_def run_fail_def)

lemma run_ok_gen: "run_ok (\<lambda>_. True) (run_gen g)"
  by (simp add: run_ok_def run_gen_def split: prod.splits)

lemma run_ok_opt [run_intro]: "\<exists>y. x = Some y \<and> P y \<Longrightarrow> run_ok P (run_opt x)"
  by (auto simp: run_ok_def run_opt_def)

lemma run_ok_result:
  "(\<And>e. x = Err e \<Longrightarrow> sim_error e) \<Longrightarrow> (\<And>y. x = Ok y \<Longrightarrow> P y) \<Longrightarrow> run_ok P (run_result x)"
  by (cases x) (simp_all add: run_ok_def run_result_def)

lemma run_ok_bind:
  assumes "run_ok Q m" "\<And>x. Q x \<Longrightarrow> run_ok P (k x)"
  shows "run_ok P (run_bind m k)"
  unfolding run_ok_def
proof
  fix r
  have m: "case m r of None \<Rightarrow> False | Some (Inl e) \<Rightarrow> sim_error e | Some (Inr (x, r')) \<Rightarrow> Q x"
    using assms(1) by (simp add: run_ok_def)
  have k: "case k x r' of None \<Rightarrow> False | Some (Inl e) \<Rightarrow> sim_error e | Some (Inr (y, r')) \<Rightarrow> P y"
    if "Q x" for x r'
    using assms(2) [OF that] by (simp add: run_ok_def)
  show "case run_bind m k r of None \<Rightarrow> False | Some (Inl e) \<Rightarrow> sim_error e | Some (Inr (x, r')) \<Rightarrow> P x"
  proof (cases "m r")
    case (Some res)
    with m k show ?thesis by (cases res) (auto simp: run_bind_def)
  qed (use m in simp)
qed

lemma run_ok_gen_bind [run_intro]:
  "(\<And>x. run_ok P (k x)) \<Longrightarrow> run_ok P (run_bind (run_gen g) k)"
  using run_ok_bind [OF run_ok_gen, of P k g] by simp

lemma run_ok_fold:
  assumes "P s" "\<And>x s. x \<in> set xs \<Longrightarrow> P s \<Longrightarrow> run_ok P (body x s)"
  shows "run_ok P (run_fold body xs s)"
  using assms by (induction xs arbitrary: s) (auto intro: run_intro run_ok_bind)

lemma run_ok_if [run_intro]:
  "(b \<Longrightarrow> run_ok P m) \<Longrightarrow> (\<not> b \<Longrightarrow> run_ok P k) \<Longrightarrow> run_ok P (if b then m else k)"
  by simp

section \<open>Noise and measurement\<close>

text \<open>All operations of a shot keep the number of amplitudes.\<close>

abbreviation amplitudes :: "nat \<Rightarrow> 'f cpx list \<Rightarrow> bool" where
  "amplitudes n s \<equiv> length s = 2 ^ n"

lemma apply_1q_run_ok:
  assumes "schedule_ok sched" "gate_ok 1 g" "amplitudes n s" "q < n" "n < 64"
  shows "run_ok (amplitudes n) (run_opt (apply_1q F sched par q g s))"
  using apply_1q_eq [OF assms] by (auto intro: run_intro)

lemma shl1_exp: "n < 64 \<Longrightarrow> shl1 n = 2 ^ n"
  by (simp add: shl1_def)

lemma for_opt_amplitudes:
  assumes "amplitudes n s" "\<And>b s. b < 2 ^ n \<Longrightarrow> amplitudes n s \<Longrightarrow> \<exists>s'. f b s = Some s' \<and> amplitudes n s'"
  shows "\<exists>s'. for_opt f [0..<length s] s = Some s' \<and> amplitudes n s'"
proof -
  have "f b s = Some (the (f b s)) \<and> amplitudes n (the (f b s))"
    if "b \<in> set [0..<2 ^ n]" "amplitudes n s" for b s
    using assms(2) [of b s] that by auto
  then show ?thesis
    using for_opt_pure [of "[0..<2 ^ n]" "amplitudes n" f "\<lambda>b s. the (f b s)" s] assms(1) by auto
qed

lemma damping_steps:
  assumes "q < n" "b < 2 ^ n" "amplitudes n s"
  shows "\<exists>s'. jump_step F (2 ^ q) i b s = Some s' \<and> amplitudes n s'"
    and "\<exists>s'. no_jump_step F (2 ^ q) i d b s = Some s' \<and> amplitudes n s'"
  using assms set_bit_block [OF assms(2,1)]
  by (simp_all add: jump_step_def no_jump_step_def idx_def exp_nat_or)

lemma apply_amplitude_damping_ok:
  assumes "amplitudes n s" "q < n" "n < 64"
  shows "run_ok (amplitudes n) (apply_amplitude_damping F R q g s)"
proof -
  have "shl1 q = 2 ^ q" using assms by (simp add: shl1_exp)
  then show ?thesis
    unfolding apply_amplitude_damping_def Let_def
    using for_opt_amplitudes [OF assms(1) damping_steps(1) [OF assms(2)]]
      for_opt_amplitudes [OF assms(1) damping_steps(2) [OF assms(2)]] assms(1)
    by (intro run_intro) simp_all
qed

lemma flip_with_ok:
  assumes "schedule_ok sched" "gate_ok 1 g" "amplitudes n s" "q < n" "n < 64"
  shows "run_ok (amplitudes n) (flip_with F R sched par q p g s)"
  unfolding flip_with_def using assms by (intro run_intro apply_1q_eq apply_1q_run_ok) simp_all

lemma apply_channel_ok:
  assumes "schedule_ok sched" "amplitudes n s" "q < n" "n < 64"
  shows "run_ok (amplitudes n) (apply_channel F R sched par q c s)"
proof (cases c)
  case (Depolarizing p)
  have "gate_ok 1 (if k = 0 then gate_x F else if k = 1 then gate_y F else gate_z F)" for k :: nat
    by (simp del: One_nat_def)
  from apply_1q_eq [OF assms(1) this assms(2-4)] show ?thesis
    unfolding apply_channel_def Depolarizing noise_channel.case using assms(2)
    by (intro run_intro) simp_all
qed (use assms in \<open>simp_all del: One_nat_def
    add: apply_channel_def apply_amplitude_damping_ok flip_with_ok run_ok_return\<close>)

lemma apply_channels_ok:
  assumes "schedule_ok sched" "amplitudes n s" "q < n" "n < 64"
  shows "run_ok (amplitudes n) (apply_channels_to_qubit F R sched par cs q s)"
  unfolding apply_channels_to_qubit_def
  by (rule run_ok_fold) (use assms apply_channel_ok in auto)

lemma apply_measurement_noise_ok:
  "run_ok (\<lambda>_. True) (apply_measurement_noise F R noise b)"
  unfolding apply_measurement_noise_def
  by (cases noise) (auto intro!: run_intro run_ok_fold split: noise_channel.splits)

lemma noisy_gate_ok:
  assumes "schedule_ok sched" "instr_ok n k (GateOp g ts)" "amplitudes n s" "n < 64"
  shows "run_ok (amplitudes n) (noisy_gate F R sched par noise g ts s)"
  unfolding noisy_gate_def
proof (rule run_ok_bind)
  have "amplitudes n (gate_action F (sum_left F) g ts s)"
    using assms(3) by (simp add: gate_action_def)
  then show "run_ok (amplitudes n) (run_opt (apply_gate F sched par ts g s))"
    using apply_gate_eq [OF assms] by (auto intro: run_intro)
  fix s'
  assume "amplitudes n (s' :: 'a cpx list)"
  moreover have "\<forall>t\<in>set ts. t < n" using assms(2) by (simp add: targets_ok_def)
  ultimately show "run_ok (amplitudes n) (case noise of None \<Rightarrow> run_return s'
      | Some m \<Rightarrow> run_fold (apply_channels_to_qubit F R sched par
          (if gate_width g = 1 then single_qubit_noise m else two_qubit_noise m)) ts s')"
    using assms(1,4) by (cases noise) (auto intro!: run_intro run_ok_fold apply_channels_ok)
qed

lemma measure_qubit_ok:
  assumes "amplitudes n s"
  shows "run_ok (\<lambda>(b, s'). amplitudes n s') (run_result (measure_qubit F q d s))"
  by (rule run_ok_result)
    (use assms in \<open>auto simp: measure_qubit_def Let_def collapse_def split: if_splits\<close>)

lemma read_classical_register_ok:
  assumes "\<forall>b\<in>set register. b < length bits"
  shows "\<exists>v. read_classical_register register bits = Some v"
proof -
  have "\<exists>v. for_opt (\<lambda>(offset, b) v. map_option (\<lambda>x. v OR (if x then shl1 offset else 0)) (idx bits b))
      (enumerate k register) v0 = Some v" for k v0
    using assms by (induction register arbitrary: k v0) (simp_all add: idx_def)
  then show ?thesis by (simp add: read_classical_register_def)
qed

section \<open>Shots\<close>

definition shot_state :: "nat \<Rightarrow> nat \<Rightarrow> 'f cpx list \<times> bool list \<Rightarrow> bool" where
  "shot_state n k s \<longleftrightarrow> amplitudes n (fst s) \<and> length (snd s) = k"

lemma shot_step_ok:
  assumes "schedule_ok sched" "instr_ok n k i" "shot_state n k s" "n < 64"
  shows "run_ok (shot_state n k) (shot_step F R sched par noise i s)"
proof -
  obtain state bits where s: "s = (state, bits)" "amplitudes n state" "length bits = k"
    using assms(3) by (cases s) (simp add: shot_state_def)
  have gate: "run_ok (shot_state n k) (run_bind (noisy_gate F R sched par noise g ts state)
      (\<lambda>state. run_return (state, bits)))" if "instr_ok n k (GateOp g ts)" for g ts
    by (rule run_ok_bind [OF noisy_gate_ok [OF assms(1) that s(2) assms(4)]])
      (simp add: run_ok_return shot_state_def s(3))
  show ?thesis
  proof (cases i)
    case (GateOp g ts)
    then show ?thesis using gate assms(2) by (simp add: shot_step_def s(1))
  next
    case (ConditionalGate register v g ts)
    then obtain x where "read_classical_register register bits = Some x"
      using read_classical_register_ok [of register bits] assms(2) s(3) by auto
    moreover have "instr_ok n k (GateOp g ts)" using assms(2) ConditionalGate by simp
    ultimately show ?thesis
      using gate s by (simp add: shot_step_def ConditionalGate run_opt_def run_bind_def
          run_ok_def run_return_def shot_state_def)
  next
    case (Measure q b)
    then have "b < length bits" using assms(2) s(3) by simp
    then show ?thesis
      unfolding s(1) Measure shot_step_def prod.case instruction.case
      by (intro run_ok_gen_bind run_ok_bind [OF measure_qubit_ok [OF s(2)]])
        (auto intro!: run_ok_bind [OF apply_measurement_noise_ok] run_intro simp: shot_state_def s(3))
  next
    case (Barrier qs)
    then have "\<forall>q\<in>set qs. q < n" using assms(2) by (simp add: targets_ok_def)
    then have "run_ok (amplitudes n) (run_fold (apply_channels_to_qubit F R sched par cs) qs state)" for cs
      using assms(1,4) s(2) by (intro run_ok_fold) (auto intro!: apply_channels_ok)
    then have "run_ok (shot_state n k) (run_bind (run_fold
        (apply_channels_to_qubit F R sched par cs) qs state) (\<lambda>state. run_return (state, bits)))" for cs
      by (rule run_ok_bind) (simp add: run_ok_return shot_state_def s(3))
    then show ?thesis
      unfolding s(1) Barrier shot_step_def prod.case instruction.case
      by (cases noise) (auto intro: run_ok_return simp: shot_state_def s(2,3))
  qed
qed

lemma zero_state_ok:
  "n < 64 \<Longrightarrow> run_ok (amplitudes n) (run_result (zero_state F alloc n))"
  by (rule run_ok_result) (auto simp: zero_state_def Let_def shl1_exp split: if_splits)

lemma classical_register_fits:
  "num_classical_bits c \<le> isize_max \<Longrightarrow>
    run_bind (run_opt (classical_register c)) k = k (replicate (num_classical_bits c) False)"
  by (intro ext) (simp add: classical_register_def run_bind_def run_opt_def)

lemma run_single_shot_ok:
  assumes "schedule_ok sched" "circuit_ok c" "num_qubits c < 64" "num_classical_bits c \<le> isize_max"
  shows "run_ok (\<lambda>s. length s = num_classical_bits c) (run_single_shot F R sched alloc par noise c)"
  unfolding run_single_shot_def
proof (rule run_ok_bind [OF zero_state_ok [OF assms(3)]])
  fix s
  assume s: "amplitudes (num_qubits c) (s :: 'a cpx list)"
  have "run_ok (shot_state (num_qubits c) (num_classical_bits c))
      (run_fold (shot_step F R sched par noise) (instructions c) (s, replicate (num_classical_bits c) False))"
    using assms s by (intro run_ok_fold) (auto simp: shot_state_def circuit_ok_def intro: shot_step_ok)
  then have "run_ok (\<lambda>s. length s = num_classical_bits c)
      (run_bind (run_fold (shot_step F R sched par noise) (instructions c)
        (s, replicate (num_classical_bits c) False))
      (\<lambda>(state, bits). run_return (map (\<lambda>b. if b then CHR ''1'' else CHR ''0'') bits)))"
    by (rule run_ok_bind) (auto intro: run_intro simp: shot_state_def)
  then show "run_ok (\<lambda>s. length s = num_classical_bits c)
      (run_bind (run_opt (classical_register c)) (\<lambda>bits.
       run_bind (run_fold (shot_step F R sched par noise) (instructions c) (s, bits))
      (\<lambda>(state, bits). run_return (map (\<lambda>b. if b then CHR ''1'' else CHR ''0'') bits))))"
    unfolding classical_register_fits [OF assms(4)] .
qed

section \<open>Counts\<close>

definition counted :: "nat \<Rightarrow> nat \<Rightarrow> counts \<Rightarrow> bool" where
  "counted width n m \<longleftrightarrow> finite (dom m) \<and> (\<Sum>k\<in>dom m. unat (the (m k))) = n \<and>
    (\<forall>k\<in>dom m. length k = width)"

lemma counted_empty: "counted w 0 Map.empty"
  by (simp add: counted_def)

lemma counted_shot:
  assumes "counted w n m" "length k = w" "n + 1 < 2 ^ 32"
  shows "counted w (n + 1) (count_shot k m)"
proof -
  let ?f = "\<lambda>k. unat (the (m k))" and ?v = "case m k of None \<Rightarrow> 0 | Some x \<Rightarrow> unat x"
  have fin: "finite (dom m)" and sum: "sum ?f (dom m) = n" using assms(1) by (auto simp: counted_def)
  have "?v \<le> n"
    using sum member_le_sum [of k "dom m" ?f] fin by (auto split: option.splits simp: domI)
  then have "unat ((case m k of None \<Rightarrow> 0 | Some x \<Rightarrow> x) + 1 :: u32) = ?v + 1"
    using assms(3) by (subst unat_add_no_wrap) (auto split: option.splits)
  then have "sum (\<lambda>j. unat (the (count_shot k m j))) (insert k (dom m))
      = ?v + 1 + sum ?f (dom m - {k})"
    using fin by (simp add: count_shot_def sum.insert_remove)
  also have "sum ?f (dom m - {k}) = n - ?v"
    using fin sum by (auto simp: sum_diff1_nat split: option.splits)
  finally have "sum (\<lambda>j. unat (the (count_shot k m j))) (insert k (dom m)) = n + 1"
    using \<open>?v \<le> n\<close> by simp
  then show ?thesis
    using assms(1,2) by (simp add: counted_def count_shot_def)
qed

definition result_ok :: "u32 \<Rightarrow> quantum_result \<Rightarrow> bool" where
  "result_ok shots res \<longleftrightarrow> total_shots res = shots \<and>
    counted (result_qubits res) (unat shots) (result_counts res)"

lemma unat_u32_less: "unat (x :: u32) < 2 ^ 32"
  using unsigned_less [of x] by simp

lemma run_ok_counts:
  assumes "\<And>m. run_ok (\<lambda>k. length k = w) (shot m)" "N < 2 ^ 32"
  shows "run_ok (counted w N) (run_fold (\<lambda>i m. run_bind (shot i) (\<lambda>k. run_return (count_shot k m)))
    [0..<N] Map.empty)"
proof -
  have "run_ok (counted w (n + length xs)) (run_fold (\<lambda>i m. run_bind (shot i)
      (\<lambda>k. run_return (count_shot k m))) xs m)"
    if "counted w n m" "n + length xs < 2 ^ 32" for n m xs
    using that
  proof (induction xs arbitrary: n m)
    case (Cons x xs)
    have "run_ok (counted w (n + 1)) (run_bind (shot x) (\<lambda>k. run_return (count_shot k m)))"
      using Cons.prems by (intro run_ok_bind [OF assms(1)] run_intro counted_shot) simp_all
    then show ?case
      using Cons.IH [of "n + 1"] Cons.prems by (auto intro: run_ok_bind)
  qed (simp add: run_ok_return)
  from this [OF counted_empty, of "[0..<N]"] show ?thesis using assms(2) by simp
qed

section \<open>Runs\<close>

lemma zero_state_soa_parts:
  "n < 64 \<Longrightarrow> zero_state_soa F alloc n = Ok s \<Longrightarrow> same_len (2 ^ n) (soa_parts s)"
  by (auto simp: zero_state_soa_def Let_def shl1_exp same_len_def soa_parts_def split: if_splits)

lemma state_probabilities_ok:
  assumes "schedule_ok sched" "circuit_ok c" "num_qubits c < 64"
  shows "\<exists>res. state_probabilities F sched alloc S c = Some res \<and> (\<forall>e. res = Err e \<longrightarrow> sim_error e)"
proof (cases "sim_layout S")
  case AoS
  show ?thesis
  proof (cases "zero_state F alloc (num_qubits c)")
    case (Inl e)
    then have "sim_error e" by (auto simp: zero_state_def Let_def split: if_splits)
    then show ?thesis using AoS Inl by (simp add: state_probabilities_def Let_def)
  next
    case (Inr s)
    then have "length s = 2 ^ num_qubits c"
      using assms(3) by (auto simp: zero_state_def Let_def shl1_exp split: if_splits)
    then show ?thesis
      using AoS Inr apply_gate_sequence_eq [OF assms(1) _ _ assms(3), of "instructions c"
          "num_classical_bits c" s F "parallel_for S (num_qubits c)"] assms(2)
      by (simp add: state_probabilities_def Let_def circuit_ok_def)
  qed
next
  case SoA
  show ?thesis
  proof (cases "zero_state_soa F alloc (num_qubits c)")
    case (Inl e)
    then have "sim_error e" by (auto simp: zero_state_soa_def Let_def split: if_splits)
    then show ?thesis using SoA Inl by (simp add: state_probabilities_def Let_def)
  next
    case (Inr s)
    obtain s' where "apply_gate_sequence_soa F sched (parallel_for S (num_qubits c)) (instructions c) s = Some s'"
      using apply_gate_sequence_soa_eq [OF assms(1) _ zero_state_soa_parts [OF assms(3) Inr] assms(3)]
        assms(2) by (fastforce simp: circuit_ok_def)
    then show ?thesis using SoA Inr by (simp add: state_probabilities_def Let_def)
  qed
qed

lemma length_sampled_string: "length (sampled_string c i) = output_qubits c"
  by (simp add: sampled_string_def output_qubits_def basis_state_string_def)

lemma run_sample_mode_ok:
  assumes "schedule_ok sched" "circuit_ok c" "num_qubits c < 64"
  shows "run_ok (result_ok shots) (run_sample_mode F R sched alloc S c shots)"
proof -
  obtain res where res: "state_probabilities F sched alloc S c = Some res" "\<forall>e. res = Err e \<longrightarrow> sim_error e"
    using state_probabilities_ok [OF assms] by blast
  show ?thesis
  proof (cases res)
    case (Inl e)
    then show ?thesis using res by (simp add: run_sample_mode_def run_ok_def)
  next
    case (Inr ps)
    let ?shot = "\<lambda>_. run_bind (run_gen (gen_f64 R)) (\<lambda>d. run_return (sampled_string c (sample F ps d)))"
    have shot: "run_ok (\<lambda>k. length k = output_qubits c) (?shot i)" for i :: nat
      by (intro run_intro) (simp add: length_sampled_string)
    have eq: "run_bind (?shot i) (\<lambda>k. run_return (count_shot k m)) =
        run_bind (run_gen (gen_f64 R)) (\<lambda>d. run_return (count_shot (sampled_string c (sample F ps d)) m))"
      for i :: nat and m
      by (rule ext) (simp add: run_bind_def run_gen_def run_return_def split: prod.splits)
    have "run_ok (result_ok shots) (run_bind (run_fold (\<lambda>i m. run_bind (?shot i)
        (\<lambda>k. run_return (count_shot k m))) [0..<unat shots] Map.empty) (\<lambda>counts.
        run_return \<lparr>result_qubits = output_qubits c, total_shots = shots, result_counts = counts\<rparr>))"
      by (rule run_ok_bind [OF run_ok_counts [OF shot unat_u32_less]])
        (simp add: run_ok_return result_ok_def)
    then show ?thesis unfolding eq by (simp add: run_sample_mode_def res(1) Inr)
  qed
qed

lemma run_shot_mode_ok:
  assumes "schedule_ok sched" "circuit_ok c" "num_qubits c < 64" "num_classical_bits c \<le> isize_max"
  shows "run_ok (result_ok shots) (run_shot_mode F R sched alloc par noise c shots)"
  unfolding run_shot_mode_def
  by (rule run_ok_bind [OF run_ok_counts [OF run_single_shot_ok [OF assms] unat_u32_less]])
    (simp add: run_ok_return result_ok_def)

section \<open>Soundness\<close>

text \<open>C7. A run on the state-vector backend of any circuit a client can build does not panic, provided the
  circuit has fewer than 64 qubits, at most \<open>isize::MAX\<close> classical bits, and is \<open>runnable\<close>: every gate
  has a full matrix, every conditional gate acts on one or two qubits, and every classical bit it
  names exists. The builder checks none of these four conditions, and without them a run can panic.
  Under them the run does not panic whatever the random numbers, the noise model, the storage layout
  and the order in which parallel blocks are taken. It fails only for lack of memory or when a
  measurement or damping branch has no weight; otherwise the counts of the result add up to the
  number of shots and every key has one character per result bit. A circuit made only by calls with
  arguments in range (\<open>built_in_range\<close>) needs no check to be runnable.\<close>

theorem simulator_sound:
  assumes "built F c" "runnable c \<or> built_in_range F c" "num_qubits c < 64"
    and "num_classical_bits c \<le> isize_max" "schedule_ok sched" "shots \<noteq> 0"
    and "effective_backend S (num_qubits c) = StateVector"
  shows "run_ok (result_ok shots) (simulator_run F R sched alloc mps S c shots)"
proof -
  have "circuit_ok c" using assms(1,2) built_ok built_in_range_ok by blast
  then show ?thesis
    using run_sample_mode_ok [OF assms(5) _ assms(3), of shots F R alloc S]
      run_shot_mode_ok [OF assms(5) _ assms(3,4), of shots F R alloc
        "parallel_for S (num_qubits c)"] assms(6,7)
    by (simp add: simulator_run_def Let_def)
qed

definition sample_ops :: "real f64_ops" where
  "sample_ops = exact_ops (\<lambda>_ _. ''0.000'') (\<lambda>_. None)"

definition bell :: "real circuit" where
  "bell = snd (measure_all (snd (circ_cnot sample_ops 0 1 (snd (circ_h sample_ops 0
    \<lparr>num_qubits = 2, num_classical_bits = 0, instructions = []\<rparr>)))))"

lemma bell_eq:
  "bell = \<lparr>num_qubits = 2, num_classical_bits = 2,
    instructions = [GateOp (gate_h sample_ops) [0], GateOp (gate_cnot sample_ops) [0, 1],
      Measure 0 0, Measure 1 1]\<rparr>"
  by (simp add: bell_def circ_h_def circ_cnot_def add1_def add2_def bind_op_def check_op_def
      push_op_def modify_op_def push_instruction_def validate_qubit_def validate_pair_def
      measure_all_def circ_measure_def measure_push_def usize_wrap_def return_op_def upt_rec)

lemma bell_in_range: "built_in_range sample_ops bell"
proof -
  have "built_in_range sample_ops \<lparr>num_qubits = 2, num_classical_bits = 0, instructions = []\<rparr>"
    by (rule in_range_new [of 2]) (simp add: circuit_new_def MAX_QUBITS_def)
  then have "built_in_range sample_ops (snd (circ_cnot sample_ops 0 1 (snd (circ_h sample_ops 0
      \<lparr>num_qubits = 2, num_classical_bits = 0, instructions = []\<rparr>))))"
    by (intro in_range_cnot in_range_h)
  then show ?thesis
    unfolding bell_def
    by (rule in_range_measure_all)
      (simp add: circ_h_def circ_cnot_def add1_def add2_def bind_op_def check_op_def push_op_def
        modify_op_def push_instruction_def validate_qubit_def validate_pair_def)
qed

lemma bell_built: "built sample_ops bell" and bell_runnable: "runnable bell"
  using built_in_range_runnable [OF bell_in_range] by simp_all

definition in_order :: "nat \<Rightarrow> nat list" where
  "in_order n = [0..<n]"

lemma in_order_ok: "schedule_ok in_order" "schedule_ok (\<lambda>n. rev (in_order n))"
  by (simp_all add: schedule_ok_def in_order_def)

definition sample_simulator :: "real simulator" where
  "sample_simulator = \<lparr>parallel_gates = True, sim_backend = Auto, sim_layout = SoA,
    sim_noise = noise_uniform sample_ops 0 0 1\<rparr>"

definition sample_rng :: "(real, nat) rng_ops" where
  "sample_rng = \<lparr>gen_f64 = (\<lambda>r. (1 / real (r + 2), r + 1)), gen_range3 = (\<lambda>r. (r mod 3, r + 1))\<rparr>"

theorem simulator_sound_witness:
  "run_ok (result_ok 5) (simulator_run sample_ops sample_rng (\<lambda>n. rev (in_order n)) (\<lambda>_. True)
    (\<lambda>_ _ _ _. None) sample_simulator bell 5)"
proof -
  have "num_qubits bell < 64" "num_classical_bits bell \<le> isize_max"
    by (simp_all add: bell_eq isize_max_def)
  moreover have "effective_backend sample_simulator (num_qubits bell) = StateVector"
    by (simp add: bell_eq effective_backend_def sample_simulator_def)
  ultimately show ?thesis
    by (intro simulator_sound [OF bell_built disjI2 [OF bell_in_range] _ _ in_order_ok(2)]) simp_all
qed

section \<open>Layouts and schedules\<close>

definition initial_state :: "'f f64_ops \<Rightarrow> nat \<Rightarrow> 'f cpx list" where
  "initial_state F n = (replicate (2 ^ n) (c_zero F))[0 := c_one F]"

definition layout_sum :: "'f f64_ops \<Rightarrow> state_vector_layout \<Rightarrow> 'f sum4" where
  "layout_sum F l = (case l of AoS \<Rightarrow> sum_left F | SoA \<Rightarrow> sum_pairs F)"

lemma dim_fits: "n \<le> 58 \<Longrightarrow> 2 ^ n * (16 :: nat) \<le> isize_max"
proof -
  assume "n \<le> 58"
  then have "(2 :: nat) ^ n \<le> 2 ^ 58" by (intro power_increasing) simp_all
  then show ?thesis by (simp add: isize_max_def)
qed

lemma into_aos_zero:
  assumes "zero_state_soa F alloc n = Ok s" "n < 64"
  shows "into_aos s = initial_state F n"
proof -
  have "s = \<lparr>real_part = (replicate (2 ^ n) (f_lit F 0))[0 := f_lit F 1],
      imag_part = replicate (2 ^ n) (f_lit F 0)\<rparr>"
    using assms by (auto simp: zero_state_soa_def Let_def shl1_exp split: if_splits)
  then show ?thesis
    by (auto simp: into_aos_def initial_state_def c_zero_def c_one_def nth_list_update
        intro!: nth_equalityI)
qed

lemma final_state_eq:
  assumes "built F c" "runnable c" "num_qubits c \<le> 58" "schedule_ok sched" "\<forall>b. alloc b"
  shows "final_state F sched alloc S c = Some (Ok (fold (instr_action F (layout_sum F (sim_layout S)))
      (instructions c) (initial_state F (num_qubits c))))"
proof -
  have n: "num_qubits c < 64" and ok: "\<forall>i\<in>set (instructions c). instr_ok (num_qubits c) (num_classical_bits c) i"
    using assms(3) built_ok [OF assms(1,2)] by (auto simp: circuit_ok_def)
  have fits: "try_reserve_exact alloc (2 ^ num_qubits c) 16" "try_reserve_exact alloc (2 ^ num_qubits c) 8"
    using dim_fits [OF assms(3)] assms(5) by (simp_all add: try_reserve_exact_def)
  show "final_state F sched alloc S c = Some (Ok (fold (instr_action F (layout_sum F (sim_layout S)))
      (instructions c) (initial_state F (num_qubits c))))"
  proof (cases "sim_layout S")
    case AoS
    moreover have "zero_state F alloc (num_qubits c) = Ok (initial_state F (num_qubits c))"
      using fits(1) n by (simp add: zero_state_def Let_def shl1_exp initial_state_def)
    ultimately show ?thesis
      using apply_gate_sequence_eq [OF assms(4) ok _ n]
      by (simp add: final_state_def Let_def layout_sum_def initial_state_def)
  next
    case SoA
    obtain s where s: "zero_state_soa F alloc (num_qubits c) = Ok s"
      using fits(2) n by (simp add: zero_state_soa_def Let_def shl1_exp)
    obtain s' where "apply_gate_sequence_soa F sched (parallel_for S (num_qubits c)) (instructions c) s = Some s'"
        "into_aos s' = fold (instr_action F (sum_pairs F)) (instructions c) (into_aos s)"
      using apply_gate_sequence_soa_eq [OF assms(4) ok zero_state_soa_parts [OF n s] n] by blast
    then show ?thesis
      using SoA s into_aos_zero [OF s n] by (simp add: final_state_def Let_def layout_sum_def)
  qed
qed

text \<open>C6. The state vector that the simulator reports for a runnable circuit of the builder is the initial basis state under the textbook action of
  the gates, one after the other: the blocks, the in-place updates, the threads and the order in
  which they take the blocks do not show. The two storage layouts differ only in the order of the
  additions for a two-qubit gate, so they agree when addition is associative.\<close>

theorem final_state_textbook:
  assumes "built F c" "runnable c" "num_qubits c \<le> 58" "schedule_ok sched" "\<forall>b. alloc b"
  shows "final_state F sched alloc S c = Some (Ok (fold (instr_action F (layout_sum F (sim_layout S)))
      (instructions c) (initial_state F (num_qubits c)))) \<and>
    (add_assoc F \<longrightarrow> layout_sum F SoA = layout_sum F AoS)"
  using final_state_eq [OF assms] by (simp add: layout_sum_def sum_pairs_assoc)

theorem final_state_textbook_witness:
  "final_state sample_ops (\<lambda>n. rev (in_order n)) (\<lambda>_. True) sample_simulator bell
    = Some (Ok (fold (instr_action sample_ops (sum_pairs sample_ops)) (instructions bell)
        (initial_state sample_ops 2))) \<and>
   layout_sum sample_ops SoA = layout_sum sample_ops AoS"
proof -
  have "num_qubits bell = 2" "num_qubits bell \<le> 58" "sim_layout sample_simulator = SoA" "add_assoc sample_ops"
    by (simp_all add: bell_eq sample_simulator_def sample_ops_def add_assoc_def)
  then show ?thesis
    using final_state_textbook [OF bell_built bell_runnable _ in_order_ok(2), of "\<lambda>_. True" sample_simulator]
    by (simp add: layout_sum_def)
qed

section \<open>Wide circuits\<close>

lemma each_block_Nil: "schedule_ok sched \<Longrightarrow> each_block sched par f [] = Some []"
  using each_block_eq [of sched "[]" f "\<lambda>b. b" par] by simp

lemma on_chunks_short:
  "schedule_ok sched \<Longrightarrow> length xs < b \<Longrightarrow> on_chunks sched par b f xs = Some xs"
  by (auto simp: on_chunks_def chunks_exact_def chunks_rest_def each_block_Nil)

lemma on_chunks_soa_short:
  assumes "schedule_ok sched" "length (real_part s) < b" "length (imag_part s) < b"
  shows "on_chunks_soa sched par b f s = Some s"
  using assms by (auto simp: on_chunks_soa_def chunks_exact_def chunks_rest_def each_block_Nil)

text \<open>A gate on one qubit beyond the amplitudes that are there.\<close>

definition beyond :: "nat \<Rightarrow> 'f instruction \<Rightarrow> bool" where
  "beyond m i \<longleftrightarrow> (case i of GateOp g ts \<Rightarrow> \<exists>q. ts = [q] \<and> m \<le> q \<and> q < 63 | _ \<Rightarrow> True)"

lemma beyond_gate:
  "instr_accepted n (GateOp g ts) \<and> beyond m (GateOp g ts) \<Longrightarrow>
    \<exists>q. ts = [q] \<and> m \<le> q \<and> q < 63 \<and> gate_width g = 1"
  by (auto simp: beyond_def)

lemma block_beyond:
  assumes "m \<le> q" "q < 63"
  shows "2 ^ m < usize_wrap (shl1 q * 2)"
proof -
  have "shl1 q * 2 = 2 ^ Suc q" using assms(2) by (simp add: shl1_def)
  moreover have "(2 :: nat) ^ Suc q < 2 ^ 64" using assms(2) by (intro power_strict_increasing) simp_all
  ultimately have "usize_wrap (shl1 q * 2) = 2 ^ Suc q" by (simp add: usize_wrap_def)
  moreover have "(2 :: nat) ^ m < 2 ^ Suc q" using assms(1) by (intro power_strict_increasing) simp_all
  ultimately show ?thesis by simp
qed

lemma apply_beyond:
  assumes "schedule_ok sched" "\<forall>i\<in>set is. instr_accepted n i \<and> beyond m i" "length xs = 2 ^ m"
  shows "apply_gate_sequence F sched par is xs = Some xs"
  using assms(2)
proof (induction "is")
  case (Cons i "is")
  have "apply_gate F sched par ts g xs = Some xs" if i: "i = GateOp g ts" for g ts
  proof -
    obtain q where q: "ts = [q]" "m \<le> q" "q < 63" "gate_width g = 1"
      using beyond_gate [of n g ts m] Cons.prems unfolding i by auto
    show ?thesis
      using on_chunks_short [OF assms(1), of xs "usize_wrap (shl1 q * 2)"] block_beyond [OF q(2,3)] assms(3)
      by (simp add: q(1,4) apply_gate_def idx_def apply_1q_def Let_def)
  qed
  then show ?case using Cons by (auto simp: apply_gate_sequence_def split: instruction.splits)
qed (simp add: apply_gate_sequence_def)

lemma apply_beyond_soa:
  assumes "schedule_ok sched" "\<forall>i\<in>set is. instr_accepted n i \<and> beyond m i" "same_len (2 ^ m) (soa_parts s)"
  shows "apply_gate_sequence_soa F sched par is s = Some s"
  using assms(2)
proof (induction "is")
  case (Cons i "is")
  have len: "length (real_part s) = 2 ^ m" "length (imag_part s) = 2 ^ m"
    using assms(3) by (simp_all add: same_len_def soa_parts_def)
  have "apply_gate_soa F sched par ts g s = Some s" if i: "i = GateOp g ts" for g ts
  proof -
    obtain q where q: "ts = [q]" "m \<le> q" "q < 63" "gate_width g = 1"
      using beyond_gate [of n g ts m] Cons.prems unfolding i by auto
    show ?thesis
      using on_chunks_soa_short [OF assms(1), of s "usize_wrap (shl1 q * 2)"] block_beyond [OF q(2,3)] len
      by (simp add: q(1,4) apply_gate_soa_def idx_def apply_1q_soa_def Let_def)
  qed
  then show ?case using Cons by (auto simp: apply_gate_sequence_soa_def split: instruction.splits)
qed (simp add: apply_gate_sequence_soa_def)

lemma zero_state_mod:
  "zero_state F alloc n = (case zero_state F alloc (n mod 64) of
     Inl e \<Rightarrow> Err (InsufficientMemory n (usize_wrap (shl1 n * 16))) | Inr s \<Rightarrow> Ok s)"
  "zero_state_soa F alloc n = (case zero_state_soa F alloc (n mod 64) of
     Inl e \<Rightarrow> Err (InsufficientMemory n (usize_wrap (shl1 n * 16))) | Inr s \<Rightarrow> Ok s)"
  by (simp_all add: zero_state_def zero_state_soa_def shl1_def Let_def)

text \<open>C38. The bound of 64 qubits is needed: the dimension of the state vector is a shift of a machine word,
  so a circuit with \<open>n \<ge> 64\<close> qubits, which the builder accepts up to 128, is simulated on
  \<open>2^(n mod 64)\<close> amplitudes. Gates on one qubit beyond these amplitudes (and below qubit 63) have no
  effect: whatever the gates, the simulator reports success and the initial state, in both layouts.\<close>

theorem wide_state_vector:
  assumes "built F c" "64 \<le> num_qubits c" "num_qubits c mod 64 \<le> 58"
    and "schedule_ok sched" "\<forall>b. alloc b" "list_all (beyond (num_qubits c mod 64)) (instructions c)"
  shows "final_state F sched alloc S c = Some (Ok (initial_state F (num_qubits c mod 64)))"
proof -
  let ?m = "num_qubits c mod 64"
  have all: "\<forall>i\<in>set (instructions c). instr_accepted (num_qubits c) i \<and> beyond ?m i"
    using built_accepted [OF assms(1)] assms(6) by (auto simp: circuit_inv_def list_all_iff)
  have fits: "try_reserve_exact alloc (2 ^ ?m) 16" "try_reserve_exact alloc (2 ^ ?m) 8"
    using dim_fits [OF assms(3)] assms(5) by (simp_all add: try_reserve_exact_def)
  have m: "?m < 64" by simp
  have l: "length (initial_state F ?m) = 2 ^ ?m" by (simp add: initial_state_def)
  show ?thesis
  proof (cases "sim_layout S")
    case AoS
    have "zero_state F alloc ?m = Ok (initial_state F ?m)"
      using fits(1) m by (simp add: zero_state_def Let_def shl1_exp initial_state_def)
    then show ?thesis
      using AoS apply_beyond [OF assms(4) all l] zero_state_mod(1) [of F alloc "num_qubits c"]
      by (simp add: final_state_def Let_def)
  next
    case SoA
    obtain s where s: "zero_state_soa F alloc ?m = Ok s"
      using fits(2) m by (simp add: zero_state_soa_def Let_def shl1_exp)
    then show ?thesis
      using SoA apply_beyond_soa [OF assms(4) all zero_state_soa_parts [OF m s]] into_aos_zero [OF s m]
        zero_state_mod(2) [of F alloc "num_qubits c"]
      by (simp add: final_state_def Let_def)
  qed
qed

definition wide :: "real circuit" where
  "wide = snd (circ_x sample_ops 0 \<lparr>num_qubits = 64, num_classical_bits = 0, instructions = []\<rparr>)"

theorem wide_state_vector_witness:
  "instructions wide = [GateOp (gate_x sample_ops) [0]] \<and>
   final_state sample_ops in_order (\<lambda>_. True) sample_simulator wide = Some (Ok [c_one sample_ops])"
proof -
  have w: "wide = \<lparr>num_qubits = 64, num_classical_bits = 0, instructions = [GateOp (gate_x sample_ops) [0]]\<rparr>"
    by (simp add: wide_def circ_x_def add1_def bind_op_def check_op_def push_op_def modify_op_def
        push_instruction_def validate_qubit_def)
  have "built sample_ops wide"
    unfolding wide_def by (intro built_x built_new [of 64]) (simp add: circuit_new_def MAX_QUBITS_def)
  moreover have "list_all (beyond (num_qubits wide mod 64)) (instructions wide)"
    by (simp add: w beyond_def)
  ultimately have "final_state sample_ops in_order (\<lambda>_. True) sample_simulator wide
      = Some (Ok (initial_state sample_ops (num_qubits wide mod 64)))"
    by (intro wide_state_vector in_order_ok) (simp_all add: w)
  moreover have "initial_state sample_ops (num_qubits wide mod 64) = [c_one sample_ops]"
    by (simp add: w initial_state_def)
  moreover have "instructions wide = [GateOp (gate_x sample_ops) [0]]" by (simp add: w)
  ultimately show ?thesis by simp
qed

end
