(* ===== verification/Quantum_Norm.thy ===== *)
theory Quantum_Norm
  imports Quantum_Simulator_Props
begin

text \<open>
  Exact arithmetic: the gates of the library are unitary, and the simulator keeps the norm of
  the state, which its debug assertions check up to rounding.
\<close>

section \<open>Complex numbers\<close>

definition cval :: "real cpx \<Rightarrow> complex" where
  "cval z = Complex (cre z) (cim z)"

lemma cval_cnew: "cval (cnew a b) = Complex a b"
  by (simp add: cval_def)

lemma cval_arith:
  "cval (c_add (exact_ops fmt parse) a b) = cval a + cval b"
  "cval (c_mul (exact_ops fmt parse) a b) = cval a * cval b"
  "cval (c_neg (exact_ops fmt parse) a) = - cval a"
  "cval (c_conj (exact_ops fmt parse) a) = cnj (cval a)"
  "cval (c_zero (exact_ops fmt parse)) = 0"
  "cval (c_one (exact_ops fmt parse)) = 1"
  "cval (c_i (exact_ops fmt parse)) = \<i>"
  by (simp_all add: cval_def c_add_def c_mul_def c_neg_def c_conj_def c_zero_def c_one_def c_i_def
      complex_eq_iff)

lemma cval_polar: "cval (from_polar (exact_ops fmt parse) r theta) = of_real r * cis theta"
  by (simp add: from_polar_def cval_def complex_eq_iff)

lemma norm_sq_exact: "norm_sq (exact_ops fmt parse) a = (cmod (cval a))\<^sup>2"
  unfolding cmod_power2 by (simp add: norm_sq_def cval_def power2_eq_square)

section \<open>Unitary gates\<close>

definition centry :: "real gate \<Rightarrow> nat \<Rightarrow> nat \<Rightarrow> complex" where
  "centry g r c = cval (entry g r c)"

definition unitary :: "real gate \<Rightarrow> bool" where
  "unitary g \<longleftrightarrow> (\<forall>i<2 ^ gate_width g. \<forall>j<2 ^ gate_width g.
    (\<Sum>k<2 ^ gate_width g. centry g k i * cnj (centry g k j)) = (if i = j then 1 else 0))"

lemma unitary_isometry:
  assumes "unitary g" "gate_width g = w"
  shows "(\<Sum>r<2 ^ w. (cmod (\<Sum>c<2 ^ w. centry g r c * a c))\<^sup>2) = (\<Sum>c<2 ^ w. (cmod (a c))\<^sup>2)"
proof -
  let ?I = "{..<2 ^ w} :: nat set"
  have "of_real (\<Sum>r\<in>?I. (cmod (\<Sum>c\<in>?I. centry g r c * a c))\<^sup>2)
      = (\<Sum>r\<in>?I. (\<Sum>c\<in>?I. centry g r c * a c) * cnj (\<Sum>d\<in>?I. centry g r d * a d))"
    by (simp only: of_real_sum complex_norm_square)
  also have "\<dots> = (\<Sum>r\<in>?I. \<Sum>c\<in>?I. \<Sum>d\<in>?I. a c * cnj (a d) * (centry g r c * cnj (centry g r d)))"
    by (simp add: sum_product algebra_simps)
  also have "\<dots> = (\<Sum>c\<in>?I. \<Sum>d\<in>?I. \<Sum>r\<in>?I. a c * cnj (a d) * (centry g r c * cnj (centry g r d)))"
    by (subst sum.swap, rule sum.cong [OF refl], rule sum.swap)
  also have "\<dots> = (\<Sum>c\<in>?I. \<Sum>d\<in>?I. a c * cnj (a d) * (if c = d then 1 else 0))"
    using assms by (simp add: unitary_def sum_distrib_left [symmetric])
  also have "\<dots> = (\<Sum>c\<in>?I. a c * cnj (a c))"
    by (intro sum.cong refl) (simp add: if_distrib cong: if_cong)
  also have "\<dots> = of_real (\<Sum>c\<in>?I. (cmod (a c))\<^sup>2)"
    by (simp only: of_real_sum complex_norm_square)
  finally show ?thesis by (simp only: of_real_eq_iff)
qed

section \<open>The norm of a state\<close>

definition sqnorm :: "real cpx list \<Rightarrow> real" where
  "sqnorm xs = (\<Sum>i<length xs. (cmod (cval (xs ! i)))\<^sup>2)"

text \<open>A gate acts on each orbit of indices separately.\<close>

lemma sum_orbits:
  fixes h :: "nat \<Rightarrow> real"
  assumes rt: "\<And>p. p < N \<Longrightarrow> rt p < N" "\<And>p. rt (rt p) = rt p"
    and orb: "\<And>b. b < N \<Longrightarrow> rt b = b \<Longrightarrow> distinct (orb b) \<and> length (orb b) = D \<and>
      set (orb b) = {p. p < N \<and> rt p = b}"
  shows "(\<Sum>p<N. h p) = (\<Sum>b\<in>{b. b < N \<and> rt b = b}. \<Sum>r<D. h (orb b ! r))"
proof -
  let ?B = "{b. b < N \<and> rt b = b}"
  have "(\<Sum>p<N. h p) = (\<Sum>b\<in>?B. \<Sum>p\<in>{p \<in> {..<N}. rt p = b}. h p)"
    by (rule sum.group [symmetric]) (use rt in auto)
  also have "\<dots> = (\<Sum>b\<in>?B. \<Sum>r<D. h (orb b ! r))"
  proof (rule sum.cong [OF refl])
    fix b
    assume "b \<in> ?B"
    with orb [of b] have o: "distinct (orb b)" "length (orb b) = D" "{p \<in> {..<N}. rt p = b} = set (orb b)"
      by auto
    show "(\<Sum>p\<in>{p \<in> {..<N}. rt p = b}. h p) = (\<Sum>r<D. h (orb b ! r))"
      unfolding o(3)
      using sum.distinct_set_conv_list [OF o(1), of h] o(2)
      by (simp add: interv_sum_list_conv_sum_set_nat sum_list_sum_nth atLeast0LessThan)
  qed
  finally show ?thesis .
qed

lemma orbit_action_norm:
  fixes N :: nat and new a :: "nat \<Rightarrow> complex"
  assumes "unitary g" "gate_width g = w"
    and rt: "\<And>p. p < N \<Longrightarrow> rt p < N" "\<And>p. rt (rt p) = rt p"
    and orb: "\<And>b. b < N \<Longrightarrow> rt b = b \<Longrightarrow> distinct (orb b) \<and> length (orb b) = 2 ^ w \<and>
      set (orb b) = {p. p < N \<and> rt p = b}"
    and new: "\<And>b r. b < N \<Longrightarrow> rt b = b \<Longrightarrow> r < 2 ^ w \<Longrightarrow>
      new (orb b ! r) = (\<Sum>c<2 ^ w. centry g r c * a (orb b ! c))"
  shows "(\<Sum>p<N. (cmod (new p))\<^sup>2) = (\<Sum>p<N. (cmod (a p))\<^sup>2)"
proof -
  have "(\<Sum>p<N. (cmod (new p))\<^sup>2)
      = (\<Sum>b\<in>{b. b < N \<and> rt b = b}. \<Sum>r<2 ^ w. (cmod (new (orb b ! r)))\<^sup>2)"
    by (rule sum_orbits [of N rt orb "2 ^ w"]) (use rt orb in auto)
  also have "\<dots> = (\<Sum>b\<in>{b. b < N \<and> rt b = b}. \<Sum>c<2 ^ w. (cmod (a (orb b ! c)))\<^sup>2)"
    using unitary_isometry [OF assms(1,2)] new by simp
  also have "\<dots> = (\<Sum>p<N. (cmod (a p))\<^sup>2)"
    by (rule sum_orbits [of N rt orb "2 ^ w", symmetric]) (use rt orb in auto)
  finally show ?thesis .
qed

lemma sum_lt_2: "(\<Sum>c<2. f c) = f 0 + f (1 :: nat)"
  by (simp add: numeral_2_eq_2)

lemma sum_lt_4: "(\<Sum>c<4. f c) = f 0 + f 1 + f 2 + f (3 :: nat)"
  by (simp add: numeral_eq_Suc)

lemma new_1q_orbit:
  assumes "unset_bit t b = b" "r < 2"
  shows "cval (new_1q (exact_ops fmt parse) t g xs ([b, set_bit t b] ! r)) =
    (\<Sum>c<2. centry g r c * cval (xs ! ([b, set_bit t b] ! c)))"
proof -
  have "r = 0 \<or> r = 1" "\<not> bit b t" using assms by (auto simp: unset_bit_idle)
  then show ?thesis
    using assms(1)
    by (auto simp: new_1q_def Let_def pure_row2_def cval_arith centry_def sum_lt_2 unset_set_bit
        bit_nat_simps)
qed

lemma new_2q_orbit:
  assumes "root2 q0 q1 b = b" "r < 4" "q0 \<noteq> q1"
    and "\<And>a b c d. cval (sm a b c d) = cval a + cval b + cval c + cval d"
  shows "cval (new_2q (exact_ops fmt parse) sm q0 q1 g xs (orbit2 (2 ^ q0) (2 ^ q1) b ! r)) =
    (\<Sum>c<4. centry g r c * cval (xs ! (orbit2 (2 ^ q0) (2 ^ q1) b ! c)))"
proof -
  have nb: "\<not> bit b q0" "\<not> bit b q1" using assms(1) by (simp_all add: root2_idle)
  have r: "r = 0 \<or> r = 1 \<or> r = 2 \<or> r = 3" using assms(2) by auto
  then have "orbit2 (2 ^ q0) (2 ^ q1) b ! r \<in> set (orbit2 (2 ^ q0) (2 ^ q1) b)"
    by (intro nth_mem) (auto simp: orbit2_def)
  then have "root2 q0 q1 (orbit2 (2 ^ q0) (2 ^ q1) b ! r) = b" using orbit2_root [OF assms(1)] by blast
  moreover have "2 * of_bool (bit (orbit2 (2 ^ q0) (2 ^ q1) b ! r) q0) +
      of_bool (bit (orbit2 (2 ^ q0) (2 ^ q1) b ! r) q1) = r"
    using r nb assms(3) by (auto simp: orbit2_bits bit_nat_simps)
  ultimately show ?thesis
    by (simp add: new_2q_via_orbit pure_row4_def assms(4) cval_arith centry_def sum_lt_4 orbit2_def)
qed

lemma orbit1_set:
  fixes b :: nat
  assumes "b < 2 ^ n" "unset_bit t b = b" "t < n"
  shows "distinct [b, set_bit t b]" "set [b, set_bit t b] = {p. p < 2 ^ n \<and> unset_bit t p = b}"
  using orbit1_root [OF assms(2)] set_bit_block [OF assms(1,3)] assms set_bit_neq [of b t]
  by (auto simp: unset_bit_idle)

lemma orbit2_set:
  assumes "b < 2 ^ n" "root2 q0 q1 b = b" "q0 < n" "q1 < n" "q0 \<noteq> q1"
  shows "distinct (orbit2 (2 ^ q0) (2 ^ q1) b)" "length (orbit2 (2 ^ q0) (2 ^ q1) b) = 4"
    "set (orbit2 (2 ^ q0) (2 ^ q1) b) = {p. p < 2 ^ n \<and> root2 q0 q1 p = b}"
  using orbit2_root [OF assms(2)] orbit2_block [OF assms(1,3,4)] orbit2_distinct [OF assms(2)] assms(5)
  by (auto simp: orbit2_bits)

lemma gate_action_norm_1q:
  assumes "unitary g" "gate_ok 1 g" "t < n" "length xs = 2 ^ n"
  shows "(\<Sum>p<2 ^ n. (cmod (cval (new_1q (exact_ops fmt parse) t g xs p)))\<^sup>2) = sqnorm xs"
  unfolding sqnorm_def assms(4)
proof (rule orbit_action_norm [where rt = "unset_bit t" and orb = "\<lambda>b. [b, set_bit t b]" and w = 1,
      OF assms(1)])
  fix b r :: nat
  assume b: "b < 2 ^ n" "unset_bit t b = b"
  show "distinct [b, set_bit t b] \<and> length [b, set_bit t b] = 2 ^ 1 \<and>
      set [b, set_bit t b] = {p. p < 2 ^ n \<and> unset_bit t p = b}"
    using orbit1_set [OF b assms(3)] by simp
  assume "r < 2 ^ 1"
  then show "cval (new_1q (exact_ops fmt parse) t g xs ([b, set_bit t b] ! r)) =
      (\<Sum>c<2 ^ 1. centry g r c * cval (xs ! ([b, set_bit t b] ! c)))"
    using new_1q_orbit [OF b(2)] by simp
qed (use assms(2) in \<open>auto simp: gate_ok_def unset_bit_block unset_bit_idle bit_nat_simps\<close>)

lemma gate_action_norm_2q:
  assumes "unitary g" "gate_ok 2 g" "q0 < n" "q1 < n" "q0 \<noteq> q1" "length xs = 2 ^ n"
    and "\<And>a b c d. cval (sm a b c d) = cval a + cval b + cval c + cval d"
  shows "(\<Sum>p<2 ^ n. (cmod (cval (new_2q (exact_ops fmt parse) sm q0 q1 g xs p)))\<^sup>2) = sqnorm xs"
  unfolding sqnorm_def assms(6)
proof (rule orbit_action_norm [where rt = "root2 q0 q1" and orb = "orbit2 (2 ^ q0) (2 ^ q1)" and w = 2,
      OF assms(1)])
  fix b r :: nat
  assume b: "b < 2 ^ n" "root2 q0 q1 b = b"
  show "distinct (orbit2 (2 ^ q0) (2 ^ q1) b) \<and> length (orbit2 (2 ^ q0) (2 ^ q1) b) = 2 ^ 2 \<and>
      set (orbit2 (2 ^ q0) (2 ^ q1) b) = {p. p < 2 ^ n \<and> root2 q0 q1 p = b}"
    using orbit2_set [OF b assms(3-5)] by simp
  assume "r < 2 ^ 2"
  then show "cval (new_2q (exact_ops fmt parse) sm q0 q1 g xs (orbit2 (2 ^ q0) (2 ^ q1) b ! r)) =
      (\<Sum>c<2 ^ 2. centry g r c * cval (xs ! (orbit2 (2 ^ q0) (2 ^ q1) b ! c)))"
    using new_2q_orbit [OF b(2) _ assms(5) assms(7)] by simp
qed (use assms(2) in \<open>auto simp: gate_ok_def less_exp_bits bit_root2 root2_idle\<close>)

section \<open>The gate library\<close>

lemma entry_single:
  "entry (single nm [[a, b], [c, d]]) 0 0 = a" "entry (single nm [[a, b], [c, d]]) 0 (Suc 0) = b"
  "entry (single nm [[a, b], [c, d]]) (Suc 0) 0 = c"
  "entry (single nm [[a, b], [c, d]]) (Suc 0) (Suc 0) = d"
  by (simp_all add: entry_def single_def)

lemma unitary_single:
  assumes "cval a * cnj (cval a) + cval c * cnj (cval c) = 1"
    and "cval b * cnj (cval b) + cval d * cnj (cval d) = 1"
    and "cval a * cnj (cval b) + cval c * cnj (cval d) = 0"
  shows "unitary (single nm [[a, b], [c, d]])"
proof -
  have "cnj (cval a * cnj (cval b) + cval c * cnj (cval d)) = 0" using assms(3) by simp
  then have "cval b * cnj (cval a) + cval d * cnj (cval c) = 0" by (simp add: mult.commute)
  then have "(\<Sum>k<2. centry (single nm [[a, b], [c, d]]) k i * cnj (centry (single nm [[a, b], [c, d]]) k j))
      = (if i = j then 1 else 0)" if "i = 0 \<or> i = 1" "j = 0 \<or> j = 1" for i j
    using that assms by (auto simp: centry_def sum_lt_2 entry_single)
  then show ?thesis by (simp add: unitary_def single_def less_2_cases_iff)
qed

lemma cis_unit: "cis x * cnj (cis x) = 1"
  by (simp add: cis_cnj cis_mult)

lemma cos_sin_half: "(of_real (cos x) :: complex) * of_real (cos x) + of_real (sin x) * of_real (sin x) = 1"
  by (metis of_real_1 of_real_add of_real_mult power2_eq_square sin_cos_squared_add2)

lemma unitary_1q:
  "unitary (gate_x (exact_ops fmt parse))" "unitary (gate_y (exact_ops fmt parse))"
  "unitary (gate_z (exact_ops fmt parse))" "unitary (gate_s (exact_ops fmt parse))"
  "unitary (gate_sdg (exact_ops fmt parse))"
  by (auto simp: gate_defs Let_def cval_arith cval_cnew complex_eq_iff intro!: unitary_single)

lemma unitary_h: "unitary (gate_h (exact_ops fmt parse))"
  by (auto simp: gate_defs Let_def cval_arith cval_cnew complex_eq_iff intro!: unitary_single)

lemma unitary_t: "unitary (gate_t (exact_ops fmt parse))" "unitary (gate_tdg (exact_ops fmt parse))"
  by (auto simp: gate_defs Let_def cval_arith cval_polar cis_unit intro!: unitary_single)

lemma unitary_rotations:
  "unitary (gate_rx (exact_ops fmt parse) a)" "unitary (gate_ry (exact_ops fmt parse) a)"
  "unitary (gate_rz (exact_ops fmt parse) a)"
  by (auto simp: gate_defs Let_def cval_arith cval_polar cval_cnew complex_eq_iff
      simp flip: power2_eq_square intro!: unitary_single)

lemma unitary_sx: "unitary (gate_sx (exact_ops fmt parse))"
  by (auto simp: gate_defs Let_def cval_cnew complex_eq_iff of_rat_divide intro!: unitary_single)

lemma unitary_u3: "unitary (gate_u3 (exact_ops fmt parse) a b d)"
proof -
  let ?c = "complex_of_real (cos (half (exact_ops fmt parse) a))"
    and ?s = "complex_of_real (sin (half (exact_ops fmt parse) a))"
  have ct: "cval (cnew x 0) = of_real x" for x
    by (simp add: cval_cnew complex_eq_iff)
  have "?c * ?c + ?s * cis b * cnj (?s * cis b) = ?c * ?c + ?s * ?s * (cis b * cnj (cis b))"
    "- ?s * cis d * cnj (- ?s * cis d) + ?c * cis (b + d) * cnj (?c * cis (b + d))
      = ?s * ?s * (cis d * cnj (cis d)) + ?c * ?c * (cis (b + d) * cnj (cis (b + d)))"
    by (simp_all add: algebra_simps)
  moreover have "?c * cnj (- ?s * cis d) + ?s * cis b * cnj (?c * cis (b + d)) = 0"
    by (simp add: cis_cnj cis_mult algebra_simps)
  ultimately show ?thesis
    using cos_sin_half [of "half (exact_ops fmt parse) a"]
    by (auto simp: gate_defs Let_def cval_polar ct cis_unit add.commute intro!: unitary_single)
qed

lemma entry_two:
  assumes "r < 4" "c < 4"
  shows "entry (two_qubit nm [[a00, a01, a02, a03], [a10, a11, a12, a13], [a20, a21, a22, a23],
      [a30, a31, a32, a33]]) r c
    = [[a00, a01, a02, a03], [a10, a11, a12, a13], [a20, a21, a22, a23], [a30, a31, a32, a33]] ! r ! c"
proof -
  have "r = 0 \<or> r = 1 \<or> r = 2 \<or> r = 3" "c = 0 \<or> c = 1 \<or> c = 2 \<or> c = 3" using assms by auto
  then show ?thesis by (elim disjE) (simp_all add: entry_def two_qubit_def)
qed

lemma unitary_two:
  assumes "\<And>i j. i < 4 \<Longrightarrow> j < 4 \<Longrightarrow> (\<Sum>k<4. cval (rows ! k ! i) * cnj (cval (rows ! k ! j)))
      = (if i = j then 1 else 0)"
    and "rows = [[a00, a01, a02, a03], [a10, a11, a12, a13], [a20, a21, a22, a23], [a30, a31, a32, a33]]"
  shows "unitary (two_qubit nm rows)"
proof -
  have "gate_width (two_qubit nm rows) = 2" by (simp add: two_qubit_def)
  then show ?thesis
    using assms(1) unfolding assms(2) unitary_def centry_def by (simp add: entry_two)
qed

lemma less_4_cases: "i < 4 \<longleftrightarrow> i = 0 \<or> i = 1 \<or> i = 2 \<or> i = (3 :: nat)"
  by auto

lemma unitary_2q:
  "unitary (gate_cnot (exact_ops fmt parse))" "unitary (gate_cz (exact_ops fmt parse))"
  "unitary (gate_swap (exact_ops fmt parse))" "unitary (gate_cy (exact_ops fmt parse))"
  unfolding gate_defs Let_def prod.case
  by (rule unitary_two [OF _ refl],
      auto simp: less_4_cases sum_lt_4 cval_arith cval_cnew complex_eq_iff)+

lemma unitary_phase:
  "unitary (gate_rzz (exact_ops fmt parse) a)" "unitary (gate_crk (exact_ops fmt parse) k)"
  unfolding gate_defs Let_def prod.case
  by (rule unitary_two [OF _ refl], auto simp: less_4_cases sum_lt_4 cval_arith cval_polar cis_unit)+

lemma dagger_entry:
  assumes "gate_ok n g" "r < 2 ^ n" "c < 2 ^ n"
  shows "entry (dagger F g) r c = c_conj F (entry g c r)"
proof -
  have w: "gate_width g = n" using assms(1) by (simp add: gate_ok_def)
  have m: "matrix (dagger F g) = map (\<lambda>i. c_conj F (entry g (i mod 2 ^ n) (i div 2 ^ n))) [0..<2 ^ n * 2 ^ n]"
  proof -
    have "matrix (dagger F g) = concat (map (\<lambda>row. map (\<lambda>col.
        (\<lambda>i. c_conj F (entry g (i mod 2 ^ n) (i div 2 ^ n))) (row * 2 ^ n + col)) [0..<2 ^ n]) [0..<2 ^ n])"
      by (auto simp: dagger_def Let_def w intro!: arg_cong [of _ _ concat] map_cong)
    then show ?thesis
      using concat_blocks [of "\<lambda>i. c_conj F (entry g (i mod 2 ^ n) (i div 2 ^ n))" "2 ^ n" "2 ^ n"]
      by simp
  qed
  have "r * 2 ^ n + c < Suc r * 2 ^ n" using assms(3) by simp
  also have "\<dots> \<le> 2 ^ n * 2 ^ n" using assms(2) by (intro mult_le_mono1) simp
  finally have "r * 2 ^ n + c < 2 ^ n * 2 ^ n" .
  moreover have "gate_width (dagger F g) = n" by (simp add: dagger_def Let_def w)
  ultimately show ?thesis
    unfolding entry_def [of "dagger F g"] m using assms(3) by simp
qed

lemma unitary_crk_dagger: "unitary (dagger (exact_ops fmt parse) (gate_crk (exact_ops fmt parse) k))"
proof -
  let ?E = "exact_ops fmt parse"
  obtain x where g: "gate_crk ?E k = two_qubit (''CR'' @ show_nat k)
      [[c_one ?E, c_zero ?E, c_zero ?E, c_zero ?E], [c_zero ?E, c_one ?E, c_zero ?E, c_zero ?E],
       [c_zero ?E, c_zero ?E, c_one ?E, c_zero ?E], [c_zero ?E, c_zero ?E, c_zero ?E, from_polar ?E 1 x]]"
    by (simp add: gate_crk_def Let_def)
  have e: "centry (dagger ?E (gate_crk ?E k)) r c = (if r = c then if r = 3 then cnj (cis x) else 1 else 0)"
    if "r < 4" "c < 4" for r c
  proof -
    have "centry (dagger ?E (gate_crk ?E k)) r c = cnj (cval (entry (gate_crk ?E k) c r))"
      using dagger_entry [OF gate_ok_2q(6), of r c ?E ?E k] that by (simp add: centry_def cval_arith)
    then show ?thesis using that by (auto simp: g entry_two less_4_cases cval_arith cval_polar)
  qed
  have "(\<Sum>j<4. centry (dagger ?E (gate_crk ?E k)) j i * cnj (centry (dagger ?E (gate_crk ?E k)) j i'))
      = (if i = i' then 1 else 0)" if "i < 4" "i' < 4" for i i'
  proof -
    have "(\<Sum>j<4. centry (dagger ?E (gate_crk ?E k)) j i * cnj (centry (dagger ?E (gate_crk ?E k)) j i'))
        = (\<Sum>j<4. if j = i then if i = i' then 1 else 0 else 0)"
      by (rule sum.cong) (use that in \<open>auto simp: e cis_unit mult.commute [of "cnj _"]\<close>)
    then show ?thesis using that by simp
  qed
  moreover have "gate_width (dagger ?E (gate_crk ?E k)) = 2" by (simp add: dagger_def Let_def g two_qubit_def)
  ultimately show ?thesis by (simp add: unitary_def)
qed

inductive library_gate :: "'f f64_ops \<Rightarrow> 'f gate \<Rightarrow> bool" for F where
  "library_gate F (gate_x F)" | "library_gate F (gate_y F)" | "library_gate F (gate_z F)"
| "library_gate F (gate_h F)" | "library_gate F (gate_s F)" | "library_gate F (gate_sdg F)"
| "library_gate F (gate_t F)" | "library_gate F (gate_tdg F)" | "library_gate F (gate_rx F a)"
| "library_gate F (gate_ry F a)" | "library_gate F (gate_rz F a)" | "library_gate F (gate_sx F)"
| "library_gate F (gate_u3 F a b d)" | "library_gate F (gate_cnot F)" | "library_gate F (gate_cz F)"
| "library_gate F (gate_swap F)" | "library_gate F (gate_cy F)" | "library_gate F (gate_rzz F a)"
| "library_gate F (gate_crk F k)" | "library_gate F (dagger F (gate_crk F k))"

lemma library_gate_unitary: "library_gate (exact_ops fmt parse) g \<Longrightarrow> unitary g"
  by (induction rule: library_gate.induct)
    (auto intro: unitary_1q unitary_h unitary_t unitary_rotations unitary_sx unitary_u3 unitary_2q
      unitary_phase unitary_crk_dagger)

section \<open>Runs keep the norm\<close>

lemma sum4_exact:
  "cval (layout_sum (exact_ops fmt parse) l a b c d) = cval a + cval b + cval c + cval d"
  by (cases l) (simp_all add: layout_sum_def sum_left_def sum_pairs_def cval_arith)

lemma instr_action_norm:
  assumes "instr_ok n k i" "length xs = 2 ^ n" "\<forall>g ts. i = GateOp g ts \<longrightarrow> unitary g"
  shows "sqnorm (instr_action (exact_ops fmt parse) (layout_sum (exact_ops fmt parse) l) i xs) = sqnorm xs"
proof (cases i)
  case (GateOp g ts)
  then have t: "gate_ok (length ts) g" "length ts = 1 \<or> length ts = 2" "\<forall>t\<in>set ts. t < n" "distinct ts"
    and u: "unitary g"
    using assms(1,3) by (auto simp: targets_ok_def)
  show ?thesis
  proof (cases "length ts = 1")
    case True
    then show ?thesis
      using gate_action_norm_1q [OF u _ _ assms(2), of "ts ! 0"] t
      by (simp add: GateOp instr_action_def gate_action_def sqnorm_def assms(2))
  next
    case False
    then have l: "length ts = 2" using t(2) by simp
    then have "ts ! 0 \<noteq> ts ! 1" using t(4) by (simp add: nth_eq_iff_index_eq)
    then show ?thesis
      using gate_action_norm_2q [OF u _ _ _ _ assms(2), of "ts ! 0" "ts ! 1"
          "layout_sum (exact_ops fmt parse) l"] t l sum4_exact
      by (simp add: GateOp instr_action_def gate_action_def sqnorm_def assms(2))
  qed
qed (simp_all add: instr_action_def)

lemma sqnorm_initial: "sqnorm (initial_state (exact_ops fmt parse) n) = 1"
proof -
  have "sqnorm (initial_state (exact_ops fmt parse) n) = (\<Sum>i<2 ^ n. if i = (0 :: nat) then 1 else 0)"
    unfolding sqnorm_def by (rule sum.cong) (auto simp: initial_state_def nth_list_update cval_arith)
  then show ?thesis by simp
qed

lemma instr_actions_norm:
  assumes "\<forall>i\<in>set is. instr_ok n k i" "length xs = 2 ^ n"
    and "\<forall>g ts. GateOp g ts \<in> set is \<longrightarrow> unitary g"
  shows "sqnorm (fold (instr_action (exact_ops fmt parse) (layout_sum (exact_ops fmt parse) l)) is xs) = sqnorm xs"
  using assms
proof (induction "is" arbitrary: xs)
  case (Cons i "is")
  let ?a = "instr_action (exact_ops fmt parse) (layout_sum (exact_ops fmt parse) l)"
  have "sqnorm (fold ?a is (?a i xs)) = sqnorm (?a i xs)"
    by (rule Cons.IH) (use Cons.prems in auto)
  also have "\<dots> = sqnorm xs" by (rule instr_action_norm) (use Cons.prems in auto)
  finally show ?case by simp
qed simp

text \<open>C13. In exact arithmetic the simulator computes a unit vector: for a runnable circuit of the builder whose
  gates come from the gate library, the squared moduli of the amplitudes it reports add up to one, so
  they are the probabilities from which the shots are sampled.\<close>

theorem final_state_normalised:
  assumes "built (exact_ops fmt parse) c" "runnable c" "num_qubits c \<le> 58" "schedule_ok sched" "\<forall>b. alloc b"
    and "\<forall>g ts. GateOp g ts \<in> set (instructions c) \<longrightarrow> library_gate (exact_ops fmt parse) g"
  shows "\<exists>state. final_state (exact_ops fmt parse) sched alloc S c = Some (Ok state) \<and>
    length state = 2 ^ num_qubits c \<and> (\<Sum>i<length state. norm_sq (exact_ops fmt parse) (state ! i)) = 1"
proof -
  let ?E = "exact_ops fmt parse"
  let ?s = "fold (instr_action ?E (layout_sum ?E (sim_layout S))) (instructions c) (initial_state ?E (num_qubits c))"
  have len: "length (fold (instr_action ?E sm) is xs) = length xs" for sm "is" xs
    by (induction "is" arbitrary: xs) simp_all
  have "final_state ?E sched alloc S c = Some (Ok ?s)"
    using final_state_eq [OF assms(1-5), of S] .
  moreover have l: "length ?s = 2 ^ num_qubits c" by (simp add: len initial_state_def)
  moreover have "sqnorm ?s = 1"
    using instr_actions_norm [of "instructions c" "num_qubits c" "num_classical_bits c"
        "initial_state ?E (num_qubits c)" fmt parse "sim_layout S"] built_ok [OF assms(1,2)] assms(6)
      library_gate_unitary sqnorm_initial
    by (fastforce simp: circuit_ok_def initial_state_def)
  ultimately show ?thesis by (auto simp: sqnorm_def norm_sq_exact)
qed

theorem final_state_normalised_witness:
  "\<exists>state. final_state sample_ops (\<lambda>n. rev (in_order n)) (\<lambda>_. True) sample_simulator bell = Some (Ok state) \<and>
    length state = 4 \<and> (\<Sum>i<length state. norm_sq sample_ops (state ! i)) = 1"
proof -
  have "num_qubits bell = 2"
    and "\<forall>g ts. GateOp g ts \<in> set (instructions bell) \<longrightarrow> library_gate sample_ops g"
    by (auto simp: bell_eq intro: library_gate.intros)
  then show ?thesis
    using final_state_normalised [OF bell_built [unfolded sample_ops_def] bell_runnable _ in_order_ok(2),
        of "\<lambda>_. True" sample_simulator]
    by (simp add: sample_ops_def)
qed

section \<open>Products of gates\<close>

lemma cval_inject: "cval a = cval b \<longleftrightarrow> a = b"
  by (cases a, cases b) (simp add: cval_def)

definition matrix_product :: "real gate \<Rightarrow> real gate \<Rightarrow> nat \<Rightarrow> nat \<Rightarrow> complex" where
  "matrix_product g2 g1 r c = (\<Sum>k<2 ^ gate_width g1. centry g2 r k * centry g1 k c)"

lemma sum_compose:
  "(\<Sum>c<m. e2 c * (\<Sum>d<m. e1 c d * a d)) = (\<Sum>d<m. (\<Sum>c<m. e2 c * e1 c d) * (a d :: complex))"
  for e2 a :: "nat \<Rightarrow> complex"
  by (simp add: sum_distrib_left sum_distrib_right mult.assoc) (rule sum.swap)

text \<open>The positions of an orbit, as a list indexed by the rows of a gate on the targets \<open>ts\<close>.\<close>

definition orbit_of :: "nat list \<Rightarrow> nat \<Rightarrow> nat list" where
  "orbit_of ts p = (if length ts = 1 then [unset_bit (ts ! 0) p, set_bit (ts ! 0) (unset_bit (ts ! 0) p)]
    else orbit2 (2 ^ (ts ! 0)) (2 ^ (ts ! 1)) (root2 (ts ! 0) (ts ! 1) p))"

definition gate_targets_ok :: "nat \<Rightarrow> nat list \<Rightarrow> bool" where
  "gate_targets_ok n ts \<longleftrightarrow> targets_ok n ts \<and> (length ts = 1 \<or> length ts = 2)"

lemma orbit_of_row:
  assumes "gate_targets_ok n ts" "p < 2 ^ n"
  obtains r where "r < 2 ^ length ts" "p = orbit_of ts p ! r"
    "\<And>c. c < 2 ^ length ts \<Longrightarrow> orbit_of ts p ! c < 2 ^ n \<and> orbit_of ts (orbit_of ts p ! c) = orbit_of ts p"
proof -
  have ts: "\<forall>t\<in>set ts. t < n" "distinct ts" "length ts = 1 \<or> length ts = 2"
    using assms(1) by (auto simp: gate_targets_ok_def targets_ok_def)
  have "set (orbit_of ts p) = {q. q < 2 ^ n \<and> orbit_of ts q = orbit_of ts p} \<and>
      length (orbit_of ts p) = 2 ^ length ts"
  proof (cases "length ts = 1")
    case True
    let ?b = "unset_bit (ts ! 0) p"
    have b: "?b < 2 ^ n" "unset_bit (ts ! 0) ?b = ?b"
      using unset_bit_block [OF assms(2)] by (simp_all add: unset_bit_idle bit_nat_simps)
    moreover have "ts ! 0 < n" using ts(1) True by simp
    ultimately have s: "set (orbit_of ts p) = {q. q < 2 ^ n \<and> unset_bit (ts ! 0) q = ?b}"
      using orbit1_set(2) [OF b] True by (simp add: orbit_of_def)
    have "unset_bit (ts ! 0) q = ?b \<longleftrightarrow> orbit_of ts q = orbit_of ts p" for q
      unfolding orbit_of_def if_P [OF True] list.inject by metis
    with s have "set (orbit_of ts p) = {q. q < 2 ^ n \<and> orbit_of ts q = orbit_of ts p}" by simp
    moreover have "length (orbit_of ts p) = 2" using True by (simp add: orbit_of_def)
    ultimately show ?thesis using True by simp
  next
    case False
    let ?q0 = "ts ! 0" and ?q1 = "ts ! 1" and ?b = "root2 (ts ! 0) (ts ! 1) p"
    have l: "length ts = 2" using False ts(3) by simp
    then have q: "?q0 < n" "?q1 < n" "?q0 \<noteq> ?q1" using ts(1,2) by (auto simp: nth_eq_iff_index_eq)
    have b: "?b < 2 ^ n" "root2 ?q0 ?q1 ?b = ?b"
      using assms(2) by (auto simp: less_exp_bits bit_root2 root2_idle)
    have "root2 ?q0 ?q1 q = ?b \<longleftrightarrow> orbit_of ts q = orbit_of ts p" for q
      unfolding orbit_of_def if_not_P [OF False] orbit2_def list.inject by metis
    moreover have "set (orbit_of ts p) = {q. q < 2 ^ n \<and> root2 ?q0 ?q1 q = ?b}"
      "length (orbit_of ts p) = 4"
      using orbit2_set(2,3) [OF b q] l by (simp_all add: orbit_of_def)
    ultimately show ?thesis using l by simp
  qed
  then have s: "set (orbit_of ts p) = {q. q < 2 ^ n \<and> orbit_of ts q = orbit_of ts p}"
    and l: "length (orbit_of ts p) = 2 ^ length ts" by auto
  have "p \<in> set (orbit_of ts p)" using s assms(2) by blast
  then obtain r where "r < 2 ^ length ts" "orbit_of ts p ! r = p" by (metis in_set_conv_nth l)
  moreover have "orbit_of ts p ! c < 2 ^ n \<and> orbit_of ts (orbit_of ts p ! c) = orbit_of ts p"
    if "c < 2 ^ length ts" for c
    using nth_mem [of c "orbit_of ts p"] that l s by auto
  ultimately show ?thesis using that by metis
qed

lemma gate_action_orbit:
  assumes "gate_targets_ok n ts" "length xs = 2 ^ n" "p < 2 ^ n" "r < 2 ^ length ts" "p = orbit_of ts p ! r"
    and "\<And>a b c d. cval (sm a b c d) = cval a + cval b + cval c + cval d"
  shows "cval (gate_action (exact_ops fmt parse) sm g ts xs ! p)
    = (\<Sum>c<2 ^ length ts. centry g r c * cval (xs ! (orbit_of ts p ! c)))"
proof (cases "length ts = 1")
  case True
  have "unset_bit (ts ! 0) (unset_bit (ts ! 0) p) = unset_bit (ts ! 0) p"
    by (simp add: unset_bit_idle bit_nat_simps)
  from new_1q_orbit [OF this, of r fmt parse g xs] show ?thesis
    using assms(2-5) True by (simp add: gate_action_def orbit_of_def)
next
  case False
  then have l: "length ts = 2" "ts ! 0 \<noteq> ts ! 1"
    using assms(1) by (auto simp: gate_targets_ok_def targets_ok_def nth_eq_iff_index_eq)
  have "root2 (ts ! 0) (ts ! 1) (root2 (ts ! 0) (ts ! 1) p) = root2 (ts ! 0) (ts ! 1) p"
    by (simp add: root2_idle bit_root2)
  from new_2q_orbit [OF this _ l(2) assms(6), of r fmt parse g xs] show ?thesis
    using assms(2-5) l(1) by (simp add: gate_action_def orbit_of_def)
qed

lemma gate_action_compose:
  assumes "gate_targets_ok n ts" "length xs = 2 ^ n" "gate_width g1 = length ts"
    and "\<And>a b c d. cval (sm a b c d) = cval a + cval b + cval c + cval d"
    and "\<And>r c. r < 2 ^ length ts \<Longrightarrow> c < 2 ^ length ts \<Longrightarrow> matrix_product g2 g1 r c = centry g3 r c"
  shows "gate_action (exact_ops fmt parse) sm g2 ts (gate_action (exact_ops fmt parse) sm g1 ts xs)
    = gate_action (exact_ops fmt parse) sm g3 ts xs"
proof (rule nth_equalityI)
  let ?act = "gate_action (exact_ops fmt parse) sm"
  have len: "length (?act g ts ys) = length ys" for g ys by (simp add: gate_action_def)
  then show "length (?act g2 ts (?act g1 ts xs)) = length (?act g3 ts xs)" by simp
  fix p
  assume "p < length (?act g2 ts (?act g1 ts xs))"
  then have p: "p < 2 ^ n" by (simp add: len assms(2))
  obtain r where r: "r < 2 ^ length ts" "p = orbit_of ts p ! r"
    and o: "\<And>c. c < 2 ^ length ts \<Longrightarrow> orbit_of ts p ! c < 2 ^ n \<and>
      orbit_of ts (orbit_of ts p ! c) = orbit_of ts p"
    using orbit_of_row [OF assms(1) p] by metis
  let ?a = "\<lambda>d. cval (xs ! (orbit_of ts p ! d))"
  have g1: "cval (?act g1 ts xs ! (orbit_of ts p ! c)) = (\<Sum>d<2 ^ length ts. centry g1 c d * ?a d)"
    if "c < 2 ^ length ts" for c
    using gate_action_orbit [OF assms(1,2) _ that _ assms(4), of "orbit_of ts p ! c"] o [OF that] by simp
  have "cval (?act g2 ts (?act g1 ts xs) ! p)
      = (\<Sum>c<2 ^ length ts. centry g2 r c * (\<Sum>d<2 ^ length ts. centry g1 c d * ?a d))"
    using gate_action_orbit [OF assms(1) _ p r assms(4), of "?act g1 ts xs"] g1 by (simp add: len assms(2))
  also have "\<dots> = (\<Sum>d<2 ^ length ts. centry g3 r d * ?a d)"
    unfolding sum_compose using assms(3,5) r(1) by (simp add: matrix_product_def)
  also have "\<dots> = cval (?act g3 ts xs ! p)"
    using gate_action_orbit [OF assms(1,2) p r assms(4)] by simp
  finally show "?act g2 ts (?act g1 ts xs) ! p = ?act g3 ts xs ! p" by (simp add: cval_inject)
qed

end
