(* ===== verification/Quantum_Optimizer.thy ===== *)
theory Quantum_Optimizer
  imports Quantum_Norm
begin

text \<open>
  The peephole optimizer (\<open>crates/waros-quantum/src/optimizer/mod.rs\<close>): cancellation of adjacent
  inverse gates, merging of adjacent rotations, and the rebuilt circuit. Both rules go by the
  names of the gates, and the name of a rotation holds its angle with three decimals.
\<close>

section \<open>Definitions\<close>

definition ROTATION_EPSILON :: rat where
  "ROTATION_EPSILON = 1 / 10 ^ 9"

record 'f optimization_stats =
  original_gate_count :: nat
  optimized_gate_count :: nat
  gates_removed :: nat
  reduction_percent :: "'f"

definition count_to_f64 :: "'f f64_ops \<Rightarrow> nat \<Rightarrow> 'f" where
  "count_to_f64 F v = f_lit F (of_nat (min v (2 ^ 32 - 1)))"

definition stats_from_counts :: "'f f64_ops \<Rightarrow> nat \<Rightarrow> nat \<Rightarrow> 'f optimization_stats" where
  "stats_from_counts F original optimized =
    (let removed = original - optimized in
     \<lparr>original_gate_count = original, optimized_gate_count = optimized, gates_removed = removed,
      reduction_percent =
        (if original = 0 then f_lit F 0
         else f_mul F (f_div F (count_to_f64 F removed) (count_to_f64 F original)) (f_lit F 100))\<rparr>)"

definition is_self_inverse :: "'f gate \<Rightarrow> 'f gate \<Rightarrow> bool" where
  "is_self_inverse previous current \<longleftrightarrow> gate_name previous = gate_name current \<and>
    gate_name previous \<in> {''H'', ''X'', ''Y'', ''Z'', ''CNOT'', ''CZ'', ''SWAP''}"

definition is_inverse_pair :: "'f gate \<Rightarrow> 'f gate \<Rightarrow> bool" where
  "is_inverse_pair previous current \<longleftrightarrow> (gate_name previous, gate_name current) \<in>
    {(''S'', ''Sdg''), (''Sdg'', ''S''), (''T'', ''Tdg''), (''Tdg'', ''T'')}"

fun try_cancel_pair :: "'f instruction \<Rightarrow> 'f instruction \<Rightarrow> bool" where
  "try_cancel_pair (GateOp g ts) (GateOp g' ts') \<longleftrightarrow>
    ts = ts' \<and> (is_self_inverse g g' \<or> is_inverse_pair g g')"
| "try_cancel_pair _ _ \<longleftrightarrow> False"

definition strip_suffix_char :: "char \<Rightarrow> string \<Rightarrow> string option" where
  "strip_suffix_char c s = (if s \<noteq> [] \<and> last s = c then Some (butlast s) else None)"

definition angle_text :: "char \<Rightarrow> string \<Rightarrow> string option" where
  "angle_text axis name =
    (case strip_prefix (''R'' @ [axis] @ ''('') name of None \<Rightarrow> None
     | Some v \<Rightarrow> strip_suffix_char (CHR '')'') v)"

fun axis_and_angle :: "'f f64_ops \<Rightarrow> char list \<Rightarrow> string \<Rightarrow> (char \<times> 'f) option" where
  "axis_and_angle F [] name = None"
| "axis_and_angle F (axis # axes) name =
    (case angle_text axis name of
       Some t \<Rightarrow> map_option (\<lambda>a. (axis, a)) (f_parse F t)
     | None \<Rightarrow> axis_and_angle F axes name)"

definition rotation_axis_and_angle :: "'f f64_ops \<Rightarrow> 'f gate \<Rightarrow> (char \<times> 'f) option" where
  "rotation_axis_and_angle F g = axis_and_angle F ''xyz'' (gate_name g)"

text \<open>The axis is one of the three above; any other character would panic.\<close>

definition rotation_gate :: "'f f64_ops \<Rightarrow> char \<Rightarrow> 'f \<Rightarrow> 'f gate" where
  "rotation_gate F axis angle =
    (if axis = CHR ''x'' then gate_rx F angle
     else if axis = CHR ''y'' then gate_ry F angle
     else gate_rz F angle)"

text \<open>The new last instruction, if the two were merged.\<close>

fun try_merge_rotations :: "'f f64_ops \<Rightarrow> 'f instruction \<Rightarrow> 'f instruction \<Rightarrow> 'f instruction option" where
  "try_merge_rotations F (GateOp g ts) (GateOp g' ts') =
    (if ts \<noteq> ts' \<or> gate_width g \<noteq> 1 \<or> gate_width g' \<noteq> 1 then None
     else case rotation_axis_and_angle F g of None \<Rightarrow> None
     | Some (axis, a) \<Rightarrow>
       (case rotation_axis_and_angle F g' of None \<Rightarrow> None
        | Some (axis', a') \<Rightarrow>
          if axis \<noteq> axis' then None
          else
            let merged = f_add F a a' in
            if f_le F (f_abs F merged) (f_lit F ROTATION_EPSILON) then Some (Barrier [])
            else Some (GateOp (rotation_gate F axis merged) ts)))"
| "try_merge_rotations F _ _ = None"

definition optimize_step :: "'f f64_ops \<Rightarrow> 'f instruction list \<Rightarrow> 'f instruction \<Rightarrow> 'f instruction list" where
  "optimize_step F out i =
    (if out = [] then out @ [i]
     else if try_cancel_pair (last out) i then butlast out
     else case try_merge_rotations F (last out) i of
         Some l \<Rightarrow> butlast out @ [l]
       | None \<Rightarrow> out @ [i])"

definition optimize_instructions :: "'f f64_ops \<Rightarrow> 'f instruction list \<Rightarrow> 'f instruction list" where
  "optimize_instructions F is = foldl (optimize_step F) [] is"

fun rebuild_step :: "'f instruction \<Rightarrow> ('f, unit) circuit_op" where
  "rebuild_step (GateOp g ts) = custom_gate g ts"
| "rebuild_step (ConditionalGate bits v g ts) = conditional_gate bits v g ts"
| "rebuild_step (Measure q b) = measure_into q b"
| "rebuild_step (Barrier qs) = (if qs \<noteq> [] then barrier qs else return_op ())"

definition rebuild_circuit :: "'f circuit \<Rightarrow> 'f instruction list \<Rightarrow> waros_error + 'f circuit" where
  "rebuild_circuit template is =
    result_bind (with_classical_bits (num_qubits template) (num_classical_bits template)) (\<lambda>c.
      case for_op rebuild_step is c of (Inl e, c') \<Rightarrow> Err e | (Inr u, c') \<Rightarrow> Ok c')"

definition optimize :: "'f f64_ops \<Rightarrow> 'f circuit \<Rightarrow> waros_error + 'f circuit \<times> 'f optimization_stats" where
  "optimize F c =
    result_bind (rebuild_circuit c (optimize_instructions F (instructions c))) (\<lambda>c'.
      Ok (c', stats_from_counts F (gate_count c) (gate_count c')))"

section \<open>Rebuilding\<close>

lemma rebuild_step_ok:
  assumes "builder_ok n c" "instr_ok n (num_classical_bits c) i"
  shows "rebuild_step i c = (Ok (), if i = Barrier [] then c else push_instruction i c)"
proof (cases i)
  case (GateOp g ts)
  then have "validate_distinct_qubits ts c = Ok ()" "gate_width g = length ts"
    "1 \<le> length ts" "length ts \<le> 2"
    using assms by (simp_all add: gate_ok_def builder_ok_iff)
  then show ?thesis
    using GateOp by (simp add: custom_gate_def bind_op_def check_op_def push_op_def modify_op_def
        del: validate_distinct_qubits_Ok)
next
  case (ConditionalGate bits v g ts)
  then have "validate_distinct_qubits ts c = Ok ()" "gate_width g = length ts" "bits \<noteq> []"
    "validate_classical_bits bits c = Ok ()"
    using assms by (simp_all add: gate_ok_def builder_ok_iff)
  then show ?thesis
    using ConditionalGate
    by (simp add: conditional_gate_def bind_op_def check_op_def push_op_def modify_op_def
        del: validate_distinct_qubits_Ok validate_classical_bits_Ok)
next
  case (Measure q b)
  then have "validate_qubit q c = Ok ()" "b < num_classical_bits c" "b + 1 < 2 ^ 64"
    using assms by (auto simp: builder_ok_iff circuit_ok_def)
  moreover from this(3) have "usize_wrap (b + 1) = b + 1" by (simp add: usize_wrap_def)
  ultimately show ?thesis
    using Measure by (simp add: measure_into_def bind_op_def check_op_def modify_op_def
        ensure_classical_bits_def max_def del: validate_qubit_Ok)
next
  case (Barrier qs)
  then have "validate_distinct_qubits qs c = Ok ()" using assms by (simp add: builder_ok_iff)
  then show ?thesis
    using Barrier by (simp add: barrier_def bind_op_def check_op_def push_op_def modify_op_def
        return_op_def del: validate_distinct_qubits_Ok)
qed

lemma rebuild_steps_ok:
  assumes "builder_ok n c" "\<forall>i\<in>set is. instr_ok n (num_classical_bits c) i"
  shows "for_op rebuild_step is c
    = (Ok (), c\<lparr>instructions := instructions c @ filter (\<lambda>i. i \<noteq> Barrier []) is\<rparr>)"
  using assms
proof (induction "is" arbitrary: c)
  case (Cons i "is")
  let ?c = "if i = Barrier [] then c else push_instruction i c"
  have "rebuild_step i c = (Ok (), ?c)" by (rule rebuild_step_ok) (use Cons.prems in auto)
  moreover have "builder_ok n ?c" using Cons.prems by auto
  moreover have "num_classical_bits ?c = num_classical_bits c" by simp
  ultimately show ?case
    using Cons.IH [of ?c] Cons.prems by (auto simp: bind_op_def push_instruction_def)
qed (simp add: return_op_def)

lemma rebuild_circuit_ok:
  fixes c :: "'f circuit"
  assumes "circuit_ok c" "\<forall>i\<in>set is. instr_ok (num_qubits c) (num_classical_bits c) i"
  shows "rebuild_circuit c is = Ok (c\<lparr>instructions := filter (\<lambda>i. i \<noteq> Barrier []) is\<rparr>)"
proof -
  let ?c0 = "\<lparr>num_qubits = num_qubits c, num_classical_bits = num_classical_bits c, instructions = []\<rparr> :: 'f circuit"
  have "with_classical_bits (num_qubits c) (num_classical_bits c) = Ok ?c0"
    using assms(1) by (simp add: with_classical_bits_def circuit_new_def circuit_ok_def)
  moreover have "builder_ok (num_qubits c) ?c0"
    using assms(1) by (simp add: builder_ok_iff circuit_ok_def)
  ultimately show ?thesis
    unfolding rebuild_circuit_def
    using rebuild_steps_ok [of "num_qubits c" ?c0 "is"] assms(2) by (simp del: result_bind_eq_Ok)
qed

end
