(* ===== verification/Quantum_Optimizer_Props.thy ===== *)
theory Quantum_Optimizer_Props
  imports Quantum_Optimizer
begin

text \<open>
  Correctness of the optimizer in exact arithmetic: for circuits of library gates whose rotation
  angles have at most three decimals, so that the names of the gates hold the angles exactly, the
  optimized circuit behaves as the original one in every shot and has no more gates.
\<close>

section \<open>Equivalent instruction sequences\<close>

definition same_shots ::
  "'f f64_ops \<Rightarrow> ('f, 'r) rng_ops \<Rightarrow> (nat \<Rightarrow> nat list) \<Rightarrow> bool \<Rightarrow> nat \<Rightarrow> nat \<Rightarrow>
    'f instruction list \<Rightarrow> 'f instruction list \<Rightarrow> bool" where
  "same_shots F R sched par n k is is' \<longleftrightarrow> (\<forall>s r. shot_state n k s \<longrightarrow>
    run_fold (shot_step F R sched par None) is s r = run_fold (shot_step F R sched par None) is' s r)"

lemma run_bind_assoc: "run_bind (run_bind m f) g = run_bind m (\<lambda>x. run_bind (f x) g)"
  by (rule ext) (simp add: run_bind_def split: option.splits sum.splits prod.splits)

lemma run_bind_return: "run_bind (run_return x) f = f x"
  by (rule ext) (simp add: run_bind_def run_return_def)

lemma run_opt_Some: "run_opt (Some x) = run_return x"
  by (rule ext) (simp add: run_opt_def run_return_def)

lemma run_fold_append: "run_fold b (xs @ ys) s = run_bind (run_fold b xs s) (run_fold b ys)"
proof (induction xs arbitrary: s)
  case (Cons x xs)
  then have "run_fold b (xs @ ys) = (\<lambda>s. run_bind (run_fold b xs s) (run_fold b ys))" by (rule ext)
  then show ?case by (simp add: run_bind_assoc)
qed (simp add: run_bind_return)

lemma same_shots_refl: "same_shots F R sched par n k is is"
  by (simp add: same_shots_def)

lemma same_shots_trans:
  "same_shots F R sched par n k A B \<Longrightarrow> same_shots F R sched par n k B C \<Longrightarrow> same_shots F R sched par n k A C"
  by (simp add: same_shots_def)

lemma same_shots_append:
  "same_shots F R sched par n k A B \<Longrightarrow> same_shots F R sched par n k (A @ C) (B @ C)"
  by (simp add: same_shots_def run_fold_append run_bind_def)

lemma same_shots_prefix:
  assumes "schedule_ok sched" "n < 64" "\<forall>i\<in>set P. instr_ok n k i" "same_shots F R sched par n k A B"
  shows "same_shots F R sched par n k (P @ A) (P @ B)"
  unfolding same_shots_def
proof (intro allI impI)
  fix s :: "'a cpx list \<times> bool list" and r
  assume "shot_state n k s"
  then have "run_ok (shot_state n k) (run_fold (shot_step F R sched par None) P s)"
    using assms(1-3) by (intro run_ok_fold) (auto intro: shot_step_ok)
  then have "case run_fold (shot_step F R sched par None) P s r of None \<Rightarrow> False
      | Some (Inl e) \<Rightarrow> sim_error e | Some (Inr (x, r')) \<Rightarrow> shot_state n k x"
    by (simp add: run_ok_def)
  then show "run_fold (shot_step F R sched par None) (P @ A) s r
      = run_fold (shot_step F R sched par None) (P @ B) s r"
    using assms(4) unfolding run_fold_append run_bind_def same_shots_def
    by (auto split: option.splits sum.splits prod.splits)
qed

lemma shot_step_gate:
  assumes "schedule_ok sched" "n < 64" "instr_ok n k (GateOp g ts)" "length st = 2 ^ n"
  shows "shot_step F R sched par None (GateOp g ts) (st, bits)
    = run_return (gate_action F (sum_left F) g ts st, bits)"
  using apply_gate_eq [OF assms(1,3,4,2)]
  by (simp add: shot_step_def noisy_gate_def run_bind_return run_opt_Some)

lemma length_gate_action [simp]: "length (gate_action F sm g ts xs) = length xs"
  by (simp add: gate_action_def)

lemma same_shots_gates:
  assumes "schedule_ok sched" "n < 64" "instr_ok n k (GateOp g1 ts)" "instr_ok n k (GateOp g2 ts)"
    and "instr_ok n k (GateOp g3 ts)"
    and "\<And>xs. length xs = 2 ^ n \<Longrightarrow> gate_action F (sum_left F) g2 ts (gate_action F (sum_left F) g1 ts xs)
      = gate_action F (sum_left F) g3 ts xs"
  shows "same_shots F R sched par n k [GateOp g1 ts, GateOp g2 ts] [GateOp g3 ts]"
  using assms
  by (auto simp: same_shots_def shot_state_def shot_step_gate run_bind_return)

lemma same_shots_cancel:
  assumes "schedule_ok sched" "n < 64" "instr_ok n k (GateOp g1 ts)" "instr_ok n k (GateOp g2 ts)"
    and "\<And>xs. length xs = 2 ^ n \<Longrightarrow> gate_action F (sum_left F) g2 ts (gate_action F (sum_left F) g1 ts xs) = xs"
  shows "same_shots F R sched par n k [GateOp g1 ts, GateOp g2 ts] []"
  using assms
  by (auto simp: same_shots_def shot_state_def shot_step_gate run_bind_return)

lemma same_shots_barrier: "same_shots F R sched par n k [Barrier qs] []"
  by (auto simp: same_shots_def shot_step_def run_bind_return)

section \<open>Matrices\<close>

definition identity_product :: "real gate \<Rightarrow> real gate \<Rightarrow> bool" where
  "identity_product g2 g1 \<longleftrightarrow> gate_width g2 = gate_width g1 \<and>
    (\<forall>r<2 ^ gate_width g1. \<forall>c<2 ^ gate_width g1. matrix_product g2 g1 r c = (if r = c then 1 else 0))"

lemma gate_action_identity:
  assumes "gate_targets_ok n ts" "length xs = 2 ^ n" "gate_width g1 = length ts" "identity_product g2 g1"
  shows "gate_action (exact_ops fmt parse) (sum_left (exact_ops fmt parse)) g2 ts
    (gate_action (exact_ops fmt parse) (sum_left (exact_ops fmt parse)) g1 ts xs) = xs"
proof (rule nth_equalityI)
  let ?E = "exact_ops fmt parse"
  let ?act = "gate_action ?E (sum_left ?E)"
  have sm: "cval (sum_left ?E a b c d) = cval a + cval b + cval c + cval d" for a b c d
    by (simp add: sum_left_def cval_arith)
  define g3 where "g3 = g1\<lparr>matrix := map (\<lambda>i. cnew (if i div 2 ^ length ts = i mod 2 ^ length ts then 1 else 0) 0)
      [0..<2 ^ length ts * 2 ^ length ts]\<rparr>"
  have e: "centry g3 r c = (if r = c then 1 else 0)" if "r < 2 ^ length ts" "c < 2 ^ length ts" for r c
  proof -
    have "r * 2 ^ length ts + c < Suc r * 2 ^ length ts" using that(2) by simp
    also have "\<dots> \<le> 2 ^ length ts * 2 ^ length ts" using that(1) by (intro mult_le_mono1) simp
    finally show ?thesis
      using that assms(3) by (simp add: centry_def entry_def g3_def cval_cnew complex_eq_iff)
  qed
  then have g3: "?act g2 ts (?act g1 ts xs) = ?act g3 ts xs"
    using assms(4) by (intro gate_action_compose [OF assms(1-3) sm]) (simp add: identity_product_def assms(3))
  fix p
  assume "p < length (?act g2 ts (?act g1 ts xs))"
  then have p: "p < 2 ^ n" using assms(2) by simp
  obtain r where r: "r < 2 ^ length ts" "p = orbit_of ts p ! r"
    using orbit_of_row [OF assms(1) p] by metis
  have "cval (?act g3 ts xs ! p) = (\<Sum>c<2 ^ length ts. (if r = c then 1 else 0) * cval (xs ! (orbit_of ts p ! c)))"
    using gate_action_orbit [OF assms(1,2) p r sm] e [OF r(1)] by simp
  also have "\<dots> = cval (xs ! p)"
    using r by (simp add: if_distrib [of "\<lambda>x. x * _"] cong: if_cong)
  finally show "?act g2 ts (?act g1 ts xs) ! p = xs ! p" by (simp only: cval_inject g3)
qed simp

lemma centry_single:
  "centry (single nm [[a, b], [c, d]]) 0 0 = cval a" "centry (single nm [[a, b], [c, d]]) 0 (Suc 0) = cval b"
  "centry (single nm [[a, b], [c, d]]) (Suc 0) 0 = cval c"
  "centry (single nm [[a, b], [c, d]]) (Suc 0) (Suc 0) = cval d"
  by (simp_all add: centry_def entry_single)

lemma width_single [simp]: "gate_width (single nm m) = 1"
  by (simp add: single_def)

lemma width_two [simp]: "gate_width (two_qubit nm m) = 2"
  by (simp add: two_qubit_def)

lemma identity_product_single:
  assumes "cval a' * cval a + cval b' * cval c = 1" "cval a' * cval b + cval b' * cval d = 0"
    and "cval c' * cval a + cval d' * cval c = 0" "cval c' * cval b + cval d' * cval d = 1"
  shows "identity_product (single nm' [[a', b'], [c', d']]) (single nm [[a, b], [c, d]])"
  using assms
  by (auto simp: identity_product_def matrix_product_def less_2_cases_iff sum_lt_2 centry_single)

lemma identity_product_1q:
  "identity_product (gate_h (exact_ops fmt parse)) (gate_h (exact_ops fmt parse))"
  "identity_product (gate_x (exact_ops fmt parse)) (gate_x (exact_ops fmt parse))"
  "identity_product (gate_y (exact_ops fmt parse)) (gate_y (exact_ops fmt parse))"
  "identity_product (gate_z (exact_ops fmt parse)) (gate_z (exact_ops fmt parse))"
  "identity_product (gate_sdg (exact_ops fmt parse)) (gate_s (exact_ops fmt parse))"
  "identity_product (gate_s (exact_ops fmt parse)) (gate_sdg (exact_ops fmt parse))"
  by (auto simp: gate_defs Let_def cval_arith cval_cnew complex_eq_iff intro!: identity_product_single)

lemma identity_product_t:
  "identity_product (gate_tdg (exact_ops fmt parse)) (gate_t (exact_ops fmt parse))"
  "identity_product (gate_t (exact_ops fmt parse)) (gate_tdg (exact_ops fmt parse))"
  by (auto simp: gate_defs Let_def cval_arith cval_polar cis_mult intro!: identity_product_single)

lemma identity_product_two:
  assumes "\<And>i j. i < 4 \<Longrightarrow> j < 4 \<Longrightarrow> (\<Sum>k<4. cval (rows ! i ! k) * cval (rows ! k ! j)) = (if i = j then 1 else 0)"
    and "rows = [[a00, a01, a02, a03], [a10, a11, a12, a13], [a20, a21, a22, a23], [a30, a31, a32, a33]]"
  shows "identity_product (two_qubit nm rows) (two_qubit nm rows)"
  using assms(1) unfolding assms(2) identity_product_def matrix_product_def centry_def
  by (simp add: entry_two)

lemma identity_product_2q:
  "identity_product (gate_cnot (exact_ops fmt parse)) (gate_cnot (exact_ops fmt parse))"
  "identity_product (gate_cz (exact_ops fmt parse)) (gate_cz (exact_ops fmt parse))"
  "identity_product (gate_swap (exact_ops fmt parse)) (gate_swap (exact_ops fmt parse))"
  unfolding gate_defs Let_def prod.case
  by (rule identity_product_two [OF _ refl],
      auto simp: less_4_cases sum_lt_4 cval_arith complex_eq_iff)+

lemma rotation_product:
  assumes "r < 2" "c < 2"
  shows "matrix_product (rotation_gate (exact_ops fmt parse) axis b) (rotation_gate (exact_ops fmt parse) axis a) r c
    = centry (rotation_gate (exact_ops fmt parse) axis (a + b)) r c"
proof -
  have h: "half (exact_ops fmt parse) (a + b) = half (exact_ops fmt parse) a + half (exact_ops fmt parse) b"
    "half (exact_ops fmt parse) (- a) = - half (exact_ops fmt parse) a"
    "half (exact_ops fmt parse) (a - b) = half (exact_ops fmt parse) a - half (exact_ops fmt parse) b" for a b
    by (simp_all add: half_def add_divide_distrib diff_divide_distrib)
  have rc: "r = 0 \<or> r = 1" "c = 0 \<or> c = 1" using assms by auto
  consider "axis = CHR ''x''" | "axis = CHR ''y''" | "axis \<noteq> CHR ''x'' \<and> axis \<noteq> CHR ''y''" by blast
  then show ?thesis
  proof cases
    case 1
    with rc show ?thesis
      by (auto simp: rotation_gate_def gate_rx_def Let_def matrix_product_def sum_lt_2 centry_single
          cval_cnew h complex_eq_iff cos_add sin_add algebra_simps)
  next
    case 2
    with rc show ?thesis
      by (auto simp: rotation_gate_def gate_ry_def Let_def matrix_product_def sum_lt_2 centry_single
          cval_cnew cval_arith h complex_eq_iff cos_add sin_add algebra_simps)
  next
    case 3
    with rc show ?thesis
      by (auto simp: rotation_gate_def gate_rz_def Let_def matrix_product_def sum_lt_2 centry_single
          cval_arith cval_polar h cis_mult add.commute)
  qed
qed

section \<open>Names\<close>

text \<open>Angles with three decimals, and what formatting and parsing promise for them.\<close>

definition milli :: "real \<Rightarrow> bool" where
  "milli a \<longleftrightarrow> (\<exists>k :: int. a = of_int k / 1000)"

definition decimal_names :: "(nat \<Rightarrow> real \<Rightarrow> string) \<Rightarrow> (string \<Rightarrow> real option) \<Rightarrow> bool" where
  "decimal_names fmt parse \<longleftrightarrow> (\<forall>a. milli a \<longrightarrow> parse (fmt 3 a) = Some a)"

definition decimal_gate :: "real f64_ops \<Rightarrow> real gate \<Rightarrow> bool" where
  "decimal_gate E g \<longleftrightarrow> library_gate E g \<and>
    (\<forall>axis a. g = rotation_gate E axis a \<longrightarrow> (\<exists>b. milli b \<and> g = rotation_gate E axis b))"

lemma milli_add: "milli a \<Longrightarrow> milli b \<Longrightarrow> milli (a + b)"
  unfolding milli_def by (metis add_divide_distrib of_int_add)

lemma milli_small:
  assumes "milli a" "\<bar>a\<bar> \<le> of_rat ROTATION_EPSILON"
  shows "a = 0"
proof -
  obtain k :: int where k: "a = of_int k / 1000" using assms(1) by (auto simp: milli_def)
  have "\<bar>a\<bar> \<le> 1 / 10 ^ 9" using assms(2) by (simp add: ROTATION_EPSILON_def of_rat_divide)
  then have "\<bar>of_int k :: real\<bar> < 1" by (simp add: k)
  then have "\<bar>k\<bar> < 1" by linarith
  then show ?thesis by (simp add: k)
qed

lemma library_names:
  assumes "library_gate F g"
  shows "gate_name g = ''H'' \<Longrightarrow> g = gate_h F" "gate_name g = ''X'' \<Longrightarrow> g = gate_x F"
    "gate_name g = ''Y'' \<Longrightarrow> g = gate_y F" "gate_name g = ''Z'' \<Longrightarrow> g = gate_z F"
    "gate_name g = ''CNOT'' \<Longrightarrow> g = gate_cnot F" "gate_name g = ''CZ'' \<Longrightarrow> g = gate_cz F"
    "gate_name g = ''SWAP'' \<Longrightarrow> g = gate_swap F" "gate_name g = ''S'' \<Longrightarrow> g = gate_s F"
    "gate_name g = ''Sdg'' \<Longrightarrow> g = gate_sdg F" "gate_name g = ''T'' \<Longrightarrow> g = gate_t F"
    "gate_name g = ''Tdg'' \<Longrightarrow> g = gate_tdg F"
  using assms by (cases; simp add: gate_defs single_def two_qubit_def dagger_def Let_def)+

lemma cancel_identity:
  assumes "library_gate (exact_ops fmt parse) g" "library_gate (exact_ops fmt parse) g'"
    and "is_self_inverse g g' \<or> is_inverse_pair g g'"
  shows "identity_product g' g"
proof -
  note n = library_names [OF assms(1)] and n' = library_names [OF assms(2)]
  consider "gate_name g = ''H''" "gate_name g' = ''H''"
  | "gate_name g = ''X''" "gate_name g' = ''X''"
  | "gate_name g = ''Y''" "gate_name g' = ''Y''"
  | "gate_name g = ''Z''" "gate_name g' = ''Z''"
  | "gate_name g = ''CNOT''" "gate_name g' = ''CNOT''"
  | "gate_name g = ''CZ''" "gate_name g' = ''CZ''"
  | "gate_name g = ''SWAP''" "gate_name g' = ''SWAP''"
  | "gate_name g = ''S''" "gate_name g' = ''Sdg''"
  | "gate_name g = ''Sdg''" "gate_name g' = ''S''"
  | "gate_name g = ''T''" "gate_name g' = ''Tdg''"
  | "gate_name g = ''Tdg''" "gate_name g' = ''T''"
    using assms(3) by (auto simp: is_self_inverse_def is_inverse_pair_def)
  then show ?thesis
  proof cases
    case 1
    show ?thesis unfolding n(1) [OF 1(1)] n'(1) [OF 1(2)] by (rule identity_product_1q(1))
  next
    case 2
    show ?thesis unfolding n(2) [OF 2(1)] n'(2) [OF 2(2)] by (rule identity_product_1q(2))
  next
    case 3
    show ?thesis unfolding n(3) [OF 3(1)] n'(3) [OF 3(2)] by (rule identity_product_1q(3))
  next
    case 4
    show ?thesis unfolding n(4) [OF 4(1)] n'(4) [OF 4(2)] by (rule identity_product_1q(4))
  next
    case 5
    show ?thesis unfolding n(5) [OF 5(1)] n'(5) [OF 5(2)] by (rule identity_product_2q(1))
  next
    case 6
    show ?thesis unfolding n(6) [OF 6(1)] n'(6) [OF 6(2)] by (rule identity_product_2q(2))
  next
    case 7
    show ?thesis unfolding n(7) [OF 7(1)] n'(7) [OF 7(2)] by (rule identity_product_2q(3))
  next
    case 8
    show ?thesis unfolding n(8) [OF 8(1)] n'(9) [OF 8(2)] by (rule identity_product_1q(5))
  next
    case 9
    show ?thesis unfolding n(9) [OF 9(1)] n'(8) [OF 9(2)] by (rule identity_product_1q(6))
  next
    case 10
    show ?thesis unfolding n(10) [OF 10(1)] n'(11) [OF 10(2)] by (rule identity_product_t(1))
  next
    case 11
    show ?thesis unfolding n(11) [OF 11(1)] n'(10) [OF 11(2)] by (rule identity_product_t(2))
  qed
qed

lemma angle_text_rotation:
  "angle_text axis (''R'' @ [axis'] @ ''('' @ t @ '')'') = (if axis = axis' then Some t else None)"
  by (auto simp: angle_text_def strip_prefix_def strip_suffix_char_def)

lemma angle_text_other:
  "\<not> prefix ''Rx('' nm \<Longrightarrow> \<not> prefix ''Ry('' nm \<Longrightarrow> \<not> prefix ''Rz('' nm \<Longrightarrow> axis_and_angle F ''xyz'' nm = None"
  by (simp add: angle_text_def strip_prefix_def)

lemma rotation_gate_name:
  "gate_name (rotation_gate F axis a) = ''R'' @ [if axis = CHR ''x'' then CHR ''x'' else
    if axis = CHR ''y'' then CHR ''y'' else CHR ''z''] @ ''('' @ f_fmt F 3 a @ '')''"
  by (simp add: rotation_gate_def gate_rx_def gate_ry_def gate_rz_def single_def Let_def)

lemma rotation_axis_and_angle_rotation:
  assumes "decimal_names fmt parse" "milli a" "axis \<in> {CHR ''x'', CHR ''y'', CHR ''z''}"
  shows "rotation_axis_and_angle (exact_ops fmt parse) (rotation_gate (exact_ops fmt parse) axis a) = Some (axis, a)"
  using assms angle_text_rotation [of _ _ "fmt 3 a"]
  by (auto simp: rotation_axis_and_angle_def rotation_gate_name decimal_names_def)

lemma library_rotation:
  assumes "library_gate F g"
  obtains (rotation) axis a where "axis \<in> {CHR ''x'', CHR ''y'', CHR ''z''}" "g = rotation_gate F axis a"
  | (other) "rotation_axis_and_angle F g = None"
proof -
  have "(\<exists>axis a. axis \<in> {CHR ''x'', CHR ''y'', CHR ''z''} \<and> g = rotation_gate F axis a) \<or>
      rotation_axis_and_angle F g = None"
    using assms
  proof cases
    case (9 a)
    then have "g = rotation_gate F CHR ''x'' a" by (simp add: rotation_gate_def)
    then show ?thesis by blast
  next
    case (10 a)
    then have "g = rotation_gate F CHR ''y'' a" by (simp add: rotation_gate_def)
    then show ?thesis by blast
  next
    case (11 a)
    then have "g = rotation_gate F CHR ''z'' a" by (simp add: rotation_gate_def)
    then show ?thesis by blast
  qed (simp_all add: rotation_axis_and_angle_def angle_text_def strip_prefix_def gate_defs single_def
      two_qubit_def dagger_def Let_def)
  then show ?thesis using rotation other by blast
qed

lemma decimal_rotation:
  assumes "decimal_names fmt parse" "decimal_gate (exact_ops fmt parse) g"
    and "rotation_axis_and_angle (exact_ops fmt parse) g = Some (axis, a)"
  shows "axis \<in> {CHR ''x'', CHR ''y'', CHR ''z''}" "g = rotation_gate (exact_ops fmt parse) axis a" "milli a"
proof -
  have "library_gate (exact_ops fmt parse) g" using assms(2) by (simp add: decimal_gate_def)
  then obtain axis' a' where g: "axis' \<in> {CHR ''x'', CHR ''y'', CHR ''z''}"
      "g = rotation_gate (exact_ops fmt parse) axis' a'"
    using assms(3) by (cases rule: library_rotation) auto
  then obtain b where b: "milli b" "g = rotation_gate (exact_ops fmt parse) axis' b"
    using assms(2) unfolding decimal_gate_def by blast
  have "(axis, a) = (axis', b)"
    using rotation_axis_and_angle_rotation [OF assms(1) b(1) g(1)] assms(3) b(2) by simp
  then show "axis \<in> {CHR ''x'', CHR ''y'', CHR ''z''}" "g = rotation_gate (exact_ops fmt parse) axis a" "milli a"
    using g(1) b by simp_all
qed

section \<open>Correctness\<close>

definition good_instr :: "real f64_ops \<Rightarrow> nat \<Rightarrow> nat \<Rightarrow> real instruction \<Rightarrow> bool" where
  "good_instr E n k i \<longleftrightarrow> instr_ok n k i \<and> (\<forall>g ts. i = GateOp g ts \<longrightarrow> decimal_gate E g)"

lemma decimal_rotation_gate:
  assumes "milli a" "axis \<in> {CHR ''x'', CHR ''y'', CHR ''z''}"
  shows "decimal_gate E (rotation_gate E axis a)"
  unfolding decimal_gate_def
proof (intro conjI allI impI)
  show "library_gate E (rotation_gate E axis a)"
    by (auto simp: rotation_gate_def intro: library_gate.intros)
  fix axis' x
  assume eq: "rotation_gate E axis a = rotation_gate E axis' x"
  have "(if axis = CHR ''x'' then CHR ''x'' else if axis = CHR ''y'' then CHR ''y'' else CHR ''z'')
      = (if axis' = CHR ''x'' then CHR ''x'' else if axis' = CHR ''y'' then CHR ''y'' else CHR ''z'')"
    using arg_cong [OF eq, of gate_name] unfolding rotation_gate_name by simp
  then have "rotation_gate E axis a = rotation_gate E axis' a"
    by (auto simp: rotation_gate_def split: if_splits)
  then show "\<exists>b. milli b \<and> rotation_gate E axis a = rotation_gate E axis' b" using assms(1) by blast
qed

lemma gate_ok_rotation: "gate_ok 1 (rotation_gate F axis a)"
  by (simp add: rotation_gate_def del: One_nat_def)

lemma instr_ok_targets: "instr_ok n k (GateOp g ts) \<Longrightarrow> gate_targets_ok n ts \<and> gate_width g = length ts"
  by (auto simp: gate_targets_ok_def gate_ok_def)

lemma cancel_ok:
  assumes "schedule_ok sched" "n < 64" "good_instr (exact_ops fmt parse) n k i" "good_instr (exact_ops fmt parse) n k j"
    and "try_cancel_pair i j"
  shows "same_shots (exact_ops fmt parse) R sched par n k [i, j] []"
proof -
  obtain g g' ts where ij: "i = GateOp g ts" "j = GateOp g' ts"
      and inv: "is_self_inverse g g' \<or> is_inverse_pair g g'"
    using assms(5) by (cases "(i, j)" rule: try_cancel_pair.cases) auto
  have "library_gate (exact_ops fmt parse) g" "library_gate (exact_ops fmt parse) g'"
    using assms(3,4) by (auto simp: good_instr_def ij decimal_gate_def)
  from cancel_identity [OF this inv] have id: "identity_product g' g" .
  have ok: "instr_ok n k (GateOp g ts)" "instr_ok n k (GateOp g' ts)"
    using assms(3,4) by (simp_all add: good_instr_def ij)
  show ?thesis
    unfolding ij using gate_action_identity [OF _ _ _ id] instr_ok_targets [OF ok(1)]
    by (intro same_shots_cancel [OF assms(1,2) ok]) blast
qed

lemma rotation_zero:
  "r < 2 \<Longrightarrow> c < 2 \<Longrightarrow> centry (rotation_gate (exact_ops fmt parse) axis 0) r c = (if r = c then 1 else 0)"
  by (auto simp: rotation_gate_def gate_rx_def gate_ry_def gate_rz_def Let_def half_def centry_single
      less_2_cases_iff cval_cnew cval_arith cval_polar complex_eq_iff)

lemma merge_ok:
  assumes "schedule_ok sched" "n < 64" "decimal_names fmt parse"
    and "good_instr (exact_ops fmt parse) n k i" "good_instr (exact_ops fmt parse) n k j"
    and "try_merge_rotations (exact_ops fmt parse) i j = Some l"
  shows "good_instr (exact_ops fmt parse) n k l" "same_shots (exact_ops fmt parse) R sched par n k [i, j] [l]"
    "is_gate i" "is_gate j"
proof -
  let ?E = "exact_ops fmt parse"
  obtain g g' ts axis a a' where ij: "i = GateOp g ts" "j = GateOp g' ts"
    and w: "gate_width g = 1" "gate_width g' = 1"
    and rot: "rotation_axis_and_angle ?E g = Some (axis, a)" "rotation_axis_and_angle ?E g' = Some (axis, a')"
    and l: "l = (if \<bar>a + a'\<bar> \<le> of_rat ROTATION_EPSILON then Barrier [] else GateOp (rotation_gate ?E axis (a + a')) ts)"
    using assms(6)
    by (cases "(?E, i, j)" rule: try_merge_rotations.cases)
      (auto split: if_splits option.splits prod.splits simp: Let_def)
  have d: "decimal_gate ?E g" "decimal_gate ?E g'"
    using assms(4,5) by (auto simp: good_instr_def ij)
  note r1 = decimal_rotation [OF assms(3) d(1) rot(1)] and r2 = decimal_rotation [OF assms(3) d(2) rot(2)]
  have ok: "instr_ok n k (GateOp g ts)" "instr_ok n k (GateOp g' ts)"
    using assms(4,5) by (simp_all add: good_instr_def ij)
  have t: "gate_targets_ok n ts" "length ts = 1" "gate_width g = length ts"
    using instr_ok_targets [OF ok(1)] w by simp_all
  let ?g = "rotation_gate ?E axis (a + a')"
  have okl: "instr_ok n k (GateOp ?g ts)"
    using ok(1) t(2) gate_ok_rotation [of ?E axis "a + a'"] by simp
  show "is_gate i" "is_gate j" by (simp_all add: ij)
  show "good_instr ?E n k l"
    using okl decimal_rotation_gate [OF milli_add [OF r1(3) r2(3)] r1(1), of ?E]
    by (simp add: l good_instr_def targets_ok_def)
  have sm: "cval (sum_left ?E a b c d) = cval a + cval b + cval c + cval d" for a b c d
    by (simp add: sum_left_def cval_arith)
  show "same_shots ?E R sched par n k [i, j] [l]"
  proof (cases "\<bar>a + a'\<bar> \<le> of_rat ROTATION_EPSILON")
    case True
    then have "a + a' = 0" using milli_small [OF milli_add [OF r1(3) r2(3)]] by simp
    then have id: "identity_product g' g"
      unfolding identity_product_def w using rotation_product rotation_zero r1(2) r2(2) by simp
    have "same_shots ?E R sched par n k [i, j] []"
      unfolding ij using gate_action_identity [OF t(1) _ t(3) id]
      by (intro same_shots_cancel [OF assms(1,2) ok]) blast
    then show ?thesis
      using True same_shots_barrier [of ?E R sched par n k "[]"] by (simp add: l same_shots_def)
  next
    case False
    have "matrix_product g' g r c = centry ?g r c" if "r < 2 ^ length ts" "c < 2 ^ length ts" for r c
      using rotation_product [of r c fmt parse axis a' a] that t(2) r1(2) r2(2) by simp
    from gate_action_compose [OF t(1) _ t(3) sm this]
    have "same_shots ?E R sched par n k [GateOp g ts, GateOp g' ts] [GateOp ?g ts]"
      by (intro same_shots_gates [OF assms(1,2) ok okl])
    then show ?thesis using False by (simp add: l ij)
  qed
qed

lemma optimize_instructions_ok:
  assumes "schedule_ok sched" "n < 64" "decimal_names fmt parse"
    and "\<forall>i\<in>set is. good_instr (exact_ops fmt parse) n k i"
  shows "(\<forall>i\<in>set (optimize_instructions (exact_ops fmt parse) is). good_instr (exact_ops fmt parse) n k i) \<and>
    same_shots (exact_ops fmt parse) R sched par n k is (optimize_instructions (exact_ops fmt parse) is) \<and>
    length (filter is_gate (optimize_instructions (exact_ops fmt parse) is)) \<le> length (filter is_gate is)"
  using assms(4)
proof (induction "is" rule: rev_induct)
  case Nil
  then show ?case by (simp add: optimize_instructions_def same_shots_refl)
next
  case (snoc i "is")
  let ?E = "exact_ops fmt parse"
  let ?same = "same_shots ?E R sched par n k"
  define out where "out = optimize_instructions ?E is"
  have IH: "\<forall>i\<in>set out. good_instr ?E n k i" "?same is out"
      "length (filter is_gate out) \<le> length (filter is_gate is)"
    using snoc by (auto simp: out_def)
  have i: "good_instr ?E n k i" using snoc.prems by simp
  have step: "optimize_instructions ?E (is @ [i]) = optimize_step ?E out i"
    by (simp add: optimize_instructions_def out_def)
  have ext: "?same (is @ [i]) (out @ [i])" by (rule same_shots_append [OF IH(2)])
  show ?case
  proof (cases "out = []")
    case True
    then show ?thesis using step ext i by (simp add: optimize_step_def)
  next
    case False
    define B l where "B = butlast out" and "l = last out"
    have out: "out = B @ [l]" using False by (simp add: B_def l_def)
    have B: "\<forall>i\<in>set B. instr_ok n k i" "\<forall>i\<in>set B. good_instr ?E n k i" and l: "good_instr ?E n k l"
      using IH(1) by (auto simp: out good_instr_def)
    note pre = same_shots_prefix [OF assms(1,2) B(1)]
    show ?thesis
    proof (cases "try_cancel_pair l i")
      case True
      have "?same (B @ [l, i]) (B @ [])" by (rule pre [OF cancel_ok [OF assms(1,2) l i True]])
      then have "?same (is @ [i]) B" using same_shots_trans [OF ext] by (simp add: out)
      then show ?thesis using step True B(2) IH(3) False by (auto simp: optimize_step_def out)
    next
      case nc: False
      show ?thesis
      proof (cases "try_merge_rotations ?E l i")
        case None
        then show ?thesis using step nc False IH ext i by (auto simp: optimize_step_def out)
      next
        case (Some l')
        note m = merge_ok [OF assms(1-3) l i Some]
        have "?same (B @ [l, i]) (B @ [l'])" by (rule pre [OF m(2)])
        then have "?same (is @ [i]) (B @ [l'])" using same_shots_trans [OF ext] by (simp add: out)
        then show ?thesis
          using step nc False Some B(2) m(1,3,4) IH(3) by (auto simp: optimize_step_def out)
      qed
    qed
  qed
qed

lemma same_shots_filter:
  "same_shots F R sched par n k is (filter (\<lambda>i. i \<noteq> Barrier []) is)"
proof -
  have "run_fold (shot_step F R sched par None) is s
      = run_fold (shot_step F R sched par None) (filter (\<lambda>i. i \<noteq> Barrier []) is) s" for s
    by (induction "is" arbitrary: s)
      (auto simp: shot_step_def run_bind_return intro!: arg_cong2 [of _ _ _ _ run_bind] split: prod.splits)
  then show ?thesis by (simp add: same_shots_def)
qed

lemma stats_from_counts_sel:
  "original_gate_count (stats_from_counts F m n) = m" "optimized_gate_count (stats_from_counts F m n) = n"
  "gates_removed (stats_from_counts F m n) = m - n"
  by (simp_all add: stats_from_counts_def Let_def)

lemma reduction_percent_exact:
  assumes "0 < m" and "m < 2 ^ 32"
  shows "reduction_percent (stats_from_counts (exact_ops fmt parse) m n) = 100 * real (m - n) / real m"
proof -
  have "count_to_f64 (exact_ops fmt parse) v = real v" if "v < 2 ^ 32" for v
    using that by (simp add: count_to_f64_def exact_ops_def min_def)
  then show ?thesis using assms by (simp add: stats_from_counts_def exact_ops_def Let_def)
qed

text \<open>C12. The optimizer succeeds on every runnable circuit of the builder that uses gates of the library
  with rotation angles of at most three decimals. The optimized circuit has the same qubits and classical
  bits and no more gates, and the statistics give the gate counts of both circuits, their difference
  and (below \<open>2^32\<close> gates) the percentage removed. In exact arithmetic the two instruction lists take every state vector and every
  classical register to the same state vector and register for the same random numbers, so a shot
  of the optimized circuit gives the same bits as a shot of the original.\<close>

theorem optimize_correct:
  assumes "built (exact_ops fmt parse) c" "runnable c" "num_qubits c < 64" "schedule_ok sched"
    and "decimal_names fmt parse"
    and "\<forall>g ts. GateOp g ts \<in> set (instructions c) \<longrightarrow> decimal_gate (exact_ops fmt parse) g"
  shows "\<exists>c' stats. optimize (exact_ops fmt parse) c = Ok (c', stats) \<and>
    num_qubits c' = num_qubits c \<and> num_classical_bits c' = num_classical_bits c \<and>
    original_gate_count stats = gate_count c \<and> optimized_gate_count stats = gate_count c' \<and>
    gates_removed stats + gate_count c' = gate_count c \<and>
    (0 < gate_count c \<longrightarrow> gate_count c < 2 ^ 32 \<longrightarrow>
      reduction_percent stats = 100 * real (gates_removed stats) / real (gate_count c)) \<and>
    (\<forall>st bits. length st = 2 ^ num_qubits c \<longrightarrow> length bits = num_classical_bits c \<longrightarrow>
      run_fold (shot_step (exact_ops fmt parse) R sched par None) (instructions c') (st, bits)
        = run_fold (shot_step (exact_ops fmt parse) R sched par None) (instructions c) (st, bits)) \<and>
    run_single_shot (exact_ops fmt parse) R sched alloc par None c'
      = run_single_shot (exact_ops fmt parse) R sched alloc par None c"
proof -
  let ?E = "exact_ops fmt parse" and ?n = "num_qubits c" and ?k = "num_classical_bits c"
  let ?out = "optimize_instructions ?E (instructions c)"
  let ?is = "filter (\<lambda>i. i \<noteq> Barrier []) ?out"
  have ok: "circuit_ok c" by (rule built_ok [OF assms(1,2)])
  have "\<forall>i\<in>set (instructions c). good_instr ?E ?n ?k i"
    using ok assms(6) by (auto simp: circuit_ok_def good_instr_def)
  note opt = optimize_instructions_ok [OF assms(4,3,5) this, of R par]
  define c' where "c' = c\<lparr>instructions := ?is\<rparr>"
  have r: "rebuild_circuit c ?out = Ok c'"
    unfolding c'_def by (rule rebuild_circuit_ok [OF ok]) (use opt in \<open>auto simp: good_instr_def\<close>)
  have le: "gate_count c' \<le> gate_count c"
  proof -
    have "filter is_gate ?is = filter is_gate ?out" by (auto simp: intro!: filter_cong)
    then show ?thesis using opt by (simp add: gate_count_def c'_def)
  qed
  have eq: "same_shots ?E R sched par ?n ?k (instructions c) ?is"
    using opt same_shots_filter same_shots_trans by blast
  have folds: "run_fold (shot_step ?E R sched par None) (instructions c') (st, bits)
        = run_fold (shot_step ?E R sched par None) (instructions c) (st, bits)"
    if "length st = 2 ^ ?n" "length bits = ?k" for st bits
    using eq that by (intro ext) (auto simp: same_shots_def shot_state_def c'_def)
  have "length s = 2 ^ ?n" if "zero_state ?E alloc ?n = Ok s" for s
    using that assms(3) by (auto simp: zero_state_def Let_def shl1_exp split: if_splits)
  then have "run_single_shot ?E R sched alloc par None c' = run_single_shot ?E R sched alloc par None c"
    using folds by (intro ext) (auto simp: run_single_shot_def run_bind_def run_result_def run_opt_def
        classical_register_def c'_def split: sum.splits)
  moreover have "optimize ?E c = Ok (c', stats_from_counts ?E (gate_count c) (gate_count c'))"
    using r by (simp add: optimize_def)
  moreover have "num_qubits c' = ?n" "num_classical_bits c' = ?k" by (simp_all add: c'_def)
  ultimately show ?thesis using folds le by (intro exI conjI) (assumption | simp add: stats_from_counts_sel reduction_percent_exact)+
qed

text \<open>A format for angles with three decimals: the number of thousandths, as a row of strokes.\<close>

definition stroke_fmt :: "nat \<Rightarrow> real \<Rightarrow> string" where
  "stroke_fmt digits a = (let k = \<lfloor>a * 1000\<rfloor> in
    if k < 0 then CHR ''-'' # replicate (nat (- k)) (CHR ''1'') else replicate (nat k) (CHR ''1''))"

definition stroke_parse :: "string \<Rightarrow> real option" where
  "stroke_parse s = Some (case s of [] \<Rightarrow> 0
    | c # cs \<Rightarrow> if c = CHR ''-'' then - of_nat (length cs) / 1000 else of_nat (length s) / 1000)"

lemma stroke_names: "decimal_names stroke_fmt stroke_parse"
  unfolding decimal_names_def
proof (intro allI impI)
  fix a
  assume "milli a"
  then obtain k :: int where k: "a = of_int k / 1000" by (auto simp: milli_def)
  have "stroke_parse (replicate m (CHR ''1'')) = Some (of_nat m / 1000)" for m
    by (cases m) (simp_all add: stroke_parse_def)
  then show "stroke_parse (stroke_fmt 3 a) = Some a"
    by (auto simp: stroke_fmt_def k stroke_parse_def Let_def)
qed

definition turns :: "real circuit" where
  "turns = snd (circ_measure 0 (snd (circ_h (exact_ops stroke_fmt stroke_parse) 0
    (snd (circ_h (exact_ops stroke_fmt stroke_parse) 0
    (snd (circ_rz (exact_ops stroke_fmt stroke_parse) 0 (1 / 2)
    (snd (circ_rz (exact_ops stroke_fmt stroke_parse) 0 (1 / 4)
      \<lparr>num_qubits = 1, num_classical_bits = 0, instructions = []\<rparr>)))))))))"

lemma turns_eq:
  "turns = \<lparr>num_qubits = 1, num_classical_bits = 1,
    instructions = [GateOp (rotation_gate (exact_ops stroke_fmt stroke_parse) CHR ''z'' (1 / 4)) [0],
      GateOp (rotation_gate (exact_ops stroke_fmt stroke_parse) CHR ''z'' (1 / 2)) [0],
      GateOp (gate_h (exact_ops stroke_fmt stroke_parse)) [0],
      GateOp (gate_h (exact_ops stroke_fmt stroke_parse)) [0], Measure 0 0]\<rparr>"
  by (simp add: turns_def circ_h_def circ_rz_def add1_def bind_op_def check_op_def push_op_def
      modify_op_def push_instruction_def validate_qubit_def rotation_gate_def circ_measure_def
      measure_push_def usize_wrap_def)

lemma decimal_h: "decimal_gate E (gate_h E)"
proof -
  have "gate_name (gate_h E) \<noteq> gate_name (rotation_gate E axis a)" for axis a
    unfolding rotation_gate_name by (simp add: gate_h_def single_def Let_def)
  then have "gate_h E \<noteq> rotation_gate E axis a" for axis a by metis
  then show ?thesis by (simp add: decimal_gate_def library_gate.intros)
qed

theorem optimize_correct_witness:
  "\<exists>c' stats. optimize (exact_ops stroke_fmt stroke_parse) turns = Ok (c', stats) \<and>
    original_gate_count stats = 4 \<and> optimized_gate_count stats = gate_count c' \<and>
    run_single_shot (exact_ops stroke_fmt stroke_parse) sample_rng in_order (\<lambda>_. True) True None c'
      = run_single_shot (exact_ops stroke_fmt stroke_parse) sample_rng in_order (\<lambda>_. True) True None turns"
proof -
  let ?E = "exact_ops stroke_fmt stroke_parse"
  have b: "built ?E turns"
    unfolding turns_def
    by (intro built_measure built_h built_rz built_new [of 1]) (simp add: circuit_new_def MAX_QUBITS_def)
  have "gate_shape (rotation_gate ?E CHR ''z'' a)" "gate_shape (gate_h ?E)" for a
    using gate_ok_1q [of ?E] by (simp_all add: gate_ok_def rotation_gate_def)
  then have r: "runnable turns" by (simp add: turns_eq runnable_def)
  have "milli (1 / 4)" "milli (1 / 2)"
    unfolding milli_def by (rule exI [of _ 250], simp) (rule exI [of _ 500], simp)
  then have "\<forall>g ts. GateOp g ts \<in> set (instructions turns) \<longrightarrow> decimal_gate ?E g"
    by (auto simp: turns_eq intro: decimal_rotation_gate decimal_h)
  moreover have "num_qubits turns < 64" "gate_count turns = 4" by (simp_all add: turns_eq gate_count_def)
  ultimately show ?thesis
    using optimize_correct [OF b r _ in_order_ok(1) stroke_names, of sample_rng True "\<lambda>_. True"] by metis
qed

end
