(* ===== verification/Quantum_Depth.thy ===== *)
theory Quantum_Depth
  imports Quantum_Simulator_Props
begin

text \<open>
  The depth of a circuit against its definition: the greatest number of gates in a chain, in which each
  gate shares a qubit with the one before it and so cannot run in the same layer.
\<close>

section \<open>Chains of gates\<close>

definition gate_targets :: "'f circuit \<Rightarrow> nat list list" where
  "gate_targets c = List.map_filter instruction_targets (instructions c)"

definition chained :: "nat list list \<Rightarrow> bool" where
  "chained ch \<longleftrightarrow> successively (\<lambda>a b. set a \<inter> set b \<noteq> {}) ch"

definition gate_chains :: "nat list list \<Rightarrow> nat list list set" where
  "gate_chains gs = {ch. subseq ch gs \<and> chained ch}"

lemma subseq_snoc:
  "subseq ch (gs @ [g]) \<longleftrightarrow> subseq ch gs \<or> (\<exists>ch'. ch = ch' @ [g] \<and> subseq ch' gs)"
proof
  assume "subseq ch (gs @ [g])"
  then obtain a b where ab: "ch = a @ b" "subseq a gs" "subseq b [g]" by (auto simp: subseq_append_iff)
  then have "b = [] \<or> b = [g]" by (auto elim: list_emb.cases)
  with ab show "subseq ch gs \<or> (\<exists>ch'. ch = ch' @ [g] \<and> subseq ch' gs)" by auto
next
  assume "subseq ch gs \<or> (\<exists>ch'. ch = ch' @ [g] \<and> subseq ch' gs)"
  then show "subseq ch (gs @ [g])" by (auto intro: list_emb_append_mono subseq_order.trans [of _ gs])
qed

lemma chained_snoc:
  "chained (ch @ [g]) \<longleftrightarrow> chained ch \<and> (ch \<noteq> [] \<longrightarrow> set (last ch) \<inter> set g \<noteq> {})"
  by (cases "ch = []") (auto simp: chained_def successively_append_iff)

lemma gate_chains_snoc:
  "ch \<in> gate_chains (gs @ [g]) \<longleftrightarrow> ch \<in> gate_chains gs \<or>
    (\<exists>ch'. ch = ch' @ [g] \<and> ch' \<in> gate_chains gs \<and> (ch' \<noteq> [] \<longrightarrow> set (last ch') \<inter> set g \<noteq> {}))"
  by (auto simp: gate_chains_def subseq_snoc chained_snoc chained_snoc [of "[]", simplified])

lemma Nil_gate_chains [simp]: "[] \<in> gate_chains gs"
  by (simp add: gate_chains_def chained_def)

text \<open>A number is the greatest length of the chains that satisfy a condition; the empty chain
  always counts.\<close>

definition longest :: "nat list list \<Rightarrow> (nat list list \<Rightarrow> bool) \<Rightarrow> nat \<Rightarrow> bool" where
  "longest gs P m \<longleftrightarrow> (\<exists>ch\<in>gate_chains gs. (ch = [] \<or> P ch) \<and> length ch = m) \<and>
    (\<forall>ch\<in>gate_chains gs. P ch \<longrightarrow> length ch \<le> m)"

definition depth_inv :: "nat \<Rightarrow> nat list list \<Rightarrow> nat list \<times> nat \<Rightarrow> bool" where
  "depth_inv n gs s \<longleftrightarrow> length (fst s) = n \<and> longest gs (\<lambda>_. True) (snd s) \<and>
    (\<forall>q<n. longest gs (\<lambda>ch. ch \<noteq> [] \<and> q \<in> set (last ch)) (fst s ! q))"

section \<open>The loop\<close>

lemma nth_fold_update:
  "length (fold (\<lambda>t ls. ls[t := v]) ts ls) = length ls \<and>
   (q < length ls \<longrightarrow> fold (\<lambda>t ls. ls[t := v]) ts ls ! q = (if q \<in> set ts then v else ls ! q))"
  by (induction ts arbitrary: ls) (auto simp: nth_list_update)

definition layer_of :: "nat list \<Rightarrow> nat list \<Rightarrow> nat" where
  "layer_of layers ts = foldl max 0 (map (\<lambda>t. layers ! t) ts) + 1"

lemma longest_layer:
  assumes "\<forall>q<n. longest gs (\<lambda>ch. ch \<noteq> [] \<and> q \<in> set (last ch)) (layers ! q)" "\<forall>t\<in>set ts. t < n"
  shows "\<exists>ch'\<in>gate_chains gs. (ch' \<noteq> [] \<longrightarrow> set (last ch') \<inter> set ts \<noteq> {}) \<and> length (ch' @ [ts]) = layer_of layers ts"
    and "ch' \<in> gate_chains gs \<Longrightarrow> (ch' \<noteq> [] \<longrightarrow> set (last ch') \<inter> set ts \<noteq> {}) \<Longrightarrow>
      length (ch' @ [ts]) \<le> layer_of layers ts"
proof -
  let ?m = "foldl max 0 (map (\<lambda>t. layers ! t) ts)"
  show "\<exists>ch'\<in>gate_chains gs. (ch' \<noteq> [] \<longrightarrow> set (last ch') \<inter> set ts \<noteq> {}) \<and> length (ch' @ [ts]) = layer_of layers ts"
  proof (cases "?m = 0")
    case True
    then show ?thesis by (intro bexI [of _ "[]"]) (simp_all add: layer_of_def)
  next
    case False
    then obtain t where t: "t \<in> set ts" "?m = layers ! t"
      using foldl_max_in [of 0 "map (\<lambda>t. layers ! t) ts"] by auto
    then obtain ch where "ch \<in> gate_chains gs" "ch = [] \<or> t \<in> set (last ch)" "length ch = layers ! t"
      using assms unfolding longest_def by blast
    then show ?thesis using t by (intro bexI [of _ ch]) (auto simp: layer_of_def)
  qed
  assume ch': "ch' \<in> gate_chains gs" "ch' \<noteq> [] \<longrightarrow> set (last ch') \<inter> set ts \<noteq> {}"
  show "length (ch' @ [ts]) \<le> layer_of layers ts"
  proof (cases "ch' = []")
    case False
    then obtain t where t: "t \<in> set (last ch')" "t \<in> set ts" using ch'(2) by blast
    then have "length ch' \<le> layers ! t" using assms ch'(1) False unfolding longest_def by blast
    also have "\<dots> \<le> ?m" using foldl_max_ge [of 0 "map (\<lambda>t. layers ! t) ts"] t(2) by simp
    finally show ?thesis by (simp add: layer_of_def)
  qed (simp add: layer_of_def)
qed

lemma depth_step_inv:
  assumes "depth_inv n gs (layers, d)" "\<forall>t\<in>set ts. t < n"
  shows "depth_inv n (gs @ [ts]) (fold (\<lambda>t ls. ls[t := layer_of layers ts]) ts layers, max d (layer_of layers ts))"
proof -
  let ?l = "layer_of layers ts"
  have len: "length layers = n" and d: "longest gs (\<lambda>_. True) d"
    and L: "\<forall>q<n. longest gs (\<lambda>ch. ch \<noteq> [] \<and> q \<in> set (last ch)) (layers ! q)"
    using assms(1) by (auto simp: depth_inv_def)
  obtain ch0 where ch0: "ch0 \<in> gate_chains gs" "ch0 \<noteq> [] \<longrightarrow> set (last ch0) \<inter> set ts \<noteq> {}" "length (ch0 @ [ts]) = ?l"
    using longest_layer(1) [OF L assms(2)] by blast
  then have new: "ch0 @ [ts] \<in> gate_chains (gs @ [ts])" unfolding gate_chains_snoc by blast
  note bound = longest_layer(2) [OF L assms(2)]
  have "longest (gs @ [ts]) (\<lambda>_. True) (max d ?l)"
  proof -
    obtain ch where ch: "ch \<in> gate_chains gs" "length ch = d" using d by (auto simp: longest_def)
    then have "ch \<in> gate_chains (gs @ [ts])" by (simp add: gate_chains_snoc)
    then have "\<exists>ch\<in>gate_chains (gs @ [ts]). length ch = max d ?l"
      using ch(2) new ch0(3) by (metis max_def)
    moreover have "length ch \<le> max d ?l" if "ch \<in> gate_chains (gs @ [ts])" for ch
      using that bound d unfolding gate_chains_snoc longest_def by fastforce
    ultimately show ?thesis by (auto simp: longest_def)
  qed
  moreover have "longest (gs @ [ts]) (\<lambda>ch. ch \<noteq> [] \<and> q \<in> set (last ch)) (if q \<in> set ts then ?l else layers ! q)"
    if "q < n" for q
  proof -
    have Lq: "longest gs (\<lambda>ch. ch \<noteq> [] \<and> q \<in> set (last ch)) (layers ! q)" using L that by blast
    have ge: "layers ! q \<le> ?l" if "q \<in> set ts"
      using foldl_max_ge [of 0 "map (\<lambda>t. layers ! t) ts"] that by (simp add: layer_of_def le_SucI)
    have "\<exists>ch\<in>gate_chains (gs @ [ts]). (ch = [] \<or> ch \<noteq> [] \<and> q \<in> set (last ch)) \<and>
        length ch = (if q \<in> set ts then ?l else layers ! q)"
    proof (cases "q \<in> set ts")
      case True
      then show ?thesis using new ch0(3) by (intro bexI [of _ "ch0 @ [ts]"]) auto
    next
      case False
      obtain ch where "ch \<in> gate_chains gs" "ch = [] \<or> ch \<noteq> [] \<and> q \<in> set (last ch)" "length ch = layers ! q"
        using Lq unfolding longest_def by blast
      then show ?thesis using False by (intro bexI [of _ ch]) (auto simp: gate_chains_snoc)
    qed
    moreover have "length ch \<le> (if q \<in> set ts then ?l else layers ! q)"
      if ch: "ch \<in> gate_chains (gs @ [ts])" "ch \<noteq> []" "q \<in> set (last ch)" for ch
      using ch(1) unfolding gate_chains_snoc
    proof
      assume "ch \<in> gate_chains gs"
      then have "length ch \<le> layers ! q" using Lq ch unfolding longest_def by blast
      then show ?thesis using ge by (auto intro: le_trans)
    next
      assume "\<exists>ch'. ch = ch' @ [ts] \<and> ch' \<in> gate_chains gs \<and> (ch' \<noteq> [] \<longrightarrow> set (last ch') \<inter> set ts \<noteq> {})"
      then obtain ch' where "ch = ch' @ [ts]" "length (ch' @ [ts]) \<le> ?l" using bound by blast
      then show ?thesis using ch(3) by simp
    qed
    ultimately show ?thesis by (auto simp: longest_def)
  qed
  ultimately show ?thesis
    using nth_fold_update [of ?l ts layers] len by (simp add: depth_inv_def)
qed

lemma depth_step_eq:
  "depth_step i (layers, d) = (case instruction_targets i of None \<Rightarrow> (layers, d)
    | Some ts \<Rightarrow> (fold (\<lambda>t ls. ls[t := layer_of layers ts]) ts layers, max d (layer_of layers ts)))"
  by (simp add: depth_step_def layer_of_def Let_def split: option.splits)

lemma depth_loop_inv:
  assumes "\<forall>i\<in>set is. instr_accepted n i"
  shows "depth_inv n (List.map_filter instruction_targets is) (fold depth_step is (replicate n 0, 0))"
  using assms
proof (induction "is" rule: rev_induct)
  case Nil
  have "gate_chains [] = {[]}" by (auto simp: gate_chains_def chained_def)
  then show ?case by (simp add: depth_inv_def longest_def List.map_filter_def)
next
  case (snoc i "is")
  obtain layers d where s: "fold depth_step is (replicate n 0, 0) = (layers, d)" by (metis surj_pair)
  then have inv: "depth_inv n (List.map_filter instruction_targets is) (layers, d)" using snoc by simp
  show ?case
  proof (cases "instruction_targets i")
    case None
    then show ?thesis using inv by (simp add: s depth_step_eq List.map_filter_def)
  next
    case (Some ts)
    then have "\<forall>t\<in>set ts. t < n" using snoc.prems by (cases i) (auto simp: targets_ok_def)
    from depth_step_inv [OF inv this] show ?thesis
      using Some by (simp add: s depth_step_eq List.map_filter_def)
  qed
qed

text \<open>C37. The depth that the layer-by-layer loop computes for any circuit of the builder is the length of the
  longest chain of gates in which each gate shares a qubit with the previous one.\<close>

theorem depth_longest_chain:
  assumes "built F c"
  shows "depth c = Max {length ch | ch. subseq ch (gate_targets c) \<and> chained ch}"
proof -
  have "\<forall>i\<in>set (instructions c). instr_accepted (num_qubits c) i"
    using built_accepted [OF assms] by (simp add: circuit_inv_def)
  from depth_loop_inv [OF this] have l: "longest (gate_targets c) (\<lambda>_. True) (depth c)"
    by (simp add: depth_inv_def depth_def gate_targets_def)
  have "finite {length ch | ch. subseq ch (gate_targets c) \<and> chained ch}"
    by (rule finite_subset [of _ "{..length (gate_targets c)}"]) (auto dest: list_emb_length)
  moreover obtain ch where "subseq ch (gate_targets c)" "chained ch" "length ch = depth c"
    using l unfolding longest_def gate_chains_def by blast
  then have "depth c \<in> {length ch | ch. subseq ch (gate_targets c) \<and> chained ch}" by force
  moreover have "m \<le> depth c" if "m \<in> {length ch | ch. subseq ch (gate_targets c) \<and> chained ch}" for m
    using l that unfolding longest_def gate_chains_def by blast
  ultimately show ?thesis by (intro Max_eqI [symmetric])
qed

theorem depth_longest_chain_witness:
  "built sample_ops bell \<and> depth bell = 2 \<and>
   depth bell = Max {length ch | ch. subseq ch (gate_targets bell) \<and> chained ch}"
proof (intro conjI)
  show "built sample_ops bell" by (rule bell_built)
  show "depth bell = 2" by (simp add: depth_def bell_eq depth_step_def)
  show "depth bell = Max {length ch | ch. subseq ch (gate_targets bell) \<and> chained ch}"
    by (rule depth_longest_chain [OF bell_built])
qed

end
