(* ===== verification/Rust_Parse.thy ===== *)
theory Rust_Parse
  imports Rust_Str
begin

text \<open>
  Operations of Rust's standard library that the network code uses: parsing of unsigned integers, \<open>find\<close>,
  \<open>split_once\<close> and \<open>rsplit_once\<close> on characters and strings, the search for a window of bytes, and the
  big-endian bytes of an integer.
\<close>

section \<open>Unsigned integers\<close>

definition digit_of :: "nat \<Rightarrow> char \<Rightarrow> nat option" where
  "digit_of radix c =
    (let b = byte_val c;
         d = (if 48 \<le> b \<and> b \<le> 57 then b - 48
              else if 97 \<le> b \<and> b \<le> 122 then b - 87
              else if 65 \<le> b \<and> b \<le> 90 then b - 55 else radix)
     in if d < radix then Some d else None)"

text \<open>\<open>from_str_radix\<close> for an unsigned type with \<open>limit\<close> values. An intermediate overflow can not be undone
  by further digits, so the limit is checked at the end.\<close>

fun digits_value :: "nat \<Rightarrow> string \<Rightarrow> nat \<Rightarrow> nat option" where
  "digits_value radix [] acc = Some acc"
| "digits_value radix (c # cs) acc =
    (case digit_of radix c of None \<Rightarrow> None | Some d \<Rightarrow> digits_value radix cs (acc * radix + d))"

definition parse_radix :: "nat \<Rightarrow> nat \<Rightarrow> string \<Rightarrow> nat option" where
  "parse_radix radix limit s =
    (let digits = (case s of c # cs \<Rightarrow> if c = CHR ''+'' then cs else s | [] \<Rightarrow> []) in
     if digits = [] then None
     else (case digits_value radix digits 0 of
         None \<Rightarrow> None | Some v \<Rightarrow> if v < limit then Some v else None))"

definition parse_uint :: "string \<Rightarrow> 'a::len word option" where
  "parse_uint s = map_option word_of_nat (parse_radix 10 (2 ^ LENGTH('a)) s)"

lemma byte_val_digit_char: "d < 10 \<Longrightarrow> byte_val (digit_char d) = 48 + d"
  by (simp add: byte_val_def digit_char_def)

lemma digit_of_digit_char: "d < 10 \<Longrightarrow> digit_of 10 (digit_char d) = Some d"
  by (simp add: digit_of_def byte_val_digit_char)

lemma digits_value_append:
  "digits_value r (xs @ ys) a = (case digits_value r xs a of None \<Rightarrow> None | Some b \<Rightarrow> digits_value r ys b)"
  by (induction xs arbitrary: a) (auto split: option.splits)

lemma digits_value_show_nat: "digits_value 10 (show_nat n) 0 = Some n"
proof (induction n rule: less_induct)
  case (less n)
  show ?case
  proof (cases "n < 10")
    case False
    then have "digits_value 10 (show_nat (n div 10)) 0 = Some (n div 10)" by (intro less) simp
    then show ?thesis using False
      by (subst show_nat.simps) (simp add: digits_value_append digit_of_digit_char)
  qed (subst show_nat.simps, simp add: digit_of_digit_char)
qed

lemma show_nat_digits: "c \<in> set (show_nat n) \<Longrightarrow> is_ascii_digit c"
proof (induction n rule: less_induct)
  case (less n)
  show ?case
  proof (cases "n < 10")
    case True
    then show ?thesis using less.prems
      by (subst (asm) show_nat.simps) (simp add: is_ascii_digit_def byte_val_digit_char)
  next
    case False
    then have "c \<in> set (show_nat (n div 10)) \<or> c = digit_char (n mod 10)"
      using less.prems by (subst (asm) show_nat.simps) auto
    then show ?thesis
      using less.IH [of "n div 10"] False by (auto simp: is_ascii_digit_def byte_val_digit_char)
  qed
qed

lemma show_nat_not_Nil: "show_nat n \<noteq> []"
  by (subst show_nat.simps) (simp)

lemma show_nat_free: "\<not> is_ascii_digit c \<Longrightarrow> c \<notin> set (show_nat n)"
  using show_nat_digits by blast

lemma parse_radix_show_nat: "n < limit \<Longrightarrow> parse_radix 10 limit (show_nat n) = Some n"
proof -
  assume n: "n < limit"
  have "CHR ''+'' \<notin> set (show_nat n)" by (rule show_nat_free) (simp add: is_ascii_digit_def byte_val_def)
  then have "(case show_nat n of c # cs \<Rightarrow> if c = CHR ''+'' then cs else show_nat n | [] \<Rightarrow> []) = show_nat n"
    by (auto split: list.splits)
  then show ?thesis
    using n by (simp add: parse_radix_def digits_value_show_nat show_nat_not_Nil)
qed

lemma parse_uint_show: "parse_uint (show_nat (unat (w :: 'a::len word))) = Some w"
  using unsigned_less [of w] by (simp add: parse_uint_def parse_radix_show_nat)

section \<open>Searching and splitting\<close>

definition find_char :: "char \<Rightarrow> string \<Rightarrow> nat option" where
  "find_char c s = find_index (\<lambda>x. x = c) s"

fun find_sub :: "'a list \<Rightarrow> 'a list \<Rightarrow> nat option" where
  "find_sub p [] = (if p = [] then Some 0 else None)"
| "find_sub p (x # xs) = (if prefix p (x # xs) then Some 0 else map_option Suc (find_sub p xs))"

definition split_once :: "string \<Rightarrow> string \<Rightarrow> (string \<times> string) option" where
  "split_once p s = map_option (\<lambda>i. (take i s, drop (i + length p) s)) (find_sub p s)"

definition rsplit_once :: "char \<Rightarrow> string \<Rightarrow> (string \<times> string) option" where
  "rsplit_once c s = map_option (\<lambda>i. (take i s, drop (Suc i) s)) (rfind c s)"

text \<open>\<open>split\<close> on a string: the pieces between the occurrences, found from left to right.\<close>

function split_str :: "string \<Rightarrow> string \<Rightarrow> string list" where
  "split_str p s =
    (case find_sub p s of
       None \<Rightarrow> [s]
     | Some i \<Rightarrow> if p = [] then [s] else take i s # split_str p (drop (i + length p) s))"
  by pat_completeness auto

lemma find_sub_bound: "find_sub p s = Some i \<Longrightarrow> i + length p \<le> length s"
  by (induction s arbitrary: i) (auto split: if_splits dest: prefix_length_le)

termination split_str
proof (relation "measure (\<lambda>(p, s). length s)")
  fix p s :: string and i :: nat
  assume "find_sub p s = Some i" "p \<noteq> []"
  then have "i + length p \<le> length s" "0 < length p" using find_sub_bound by auto
  then have "length s - (i + length p) < length s" by linarith
  then show "((p, drop (i + length p) s), p, s) \<in> measure (\<lambda>(p, s). length s)" by simp
qed simp

declare split_str.simps [simp del]

lemma find_sub_first:
  assumes "\<forall>i<length a. \<not> prefix p (drop i (a @ p @ b))"
  shows "find_sub p (a @ p @ b) = Some (length a)"
  using assms
proof (induction a)
  case Nil
  then show ?case by (cases "p @ b") (auto intro: prefixI [of _ p b])
next
  case (Cons x a)
  have "\<not> prefix p (x # a @ p @ b)" using Cons.prems by (metis drop0 length_greater_0_conv list.discI append_Cons)
  moreover have "\<forall>i<length a. \<not> prefix p (drop i (a @ p @ b))"
    using Cons.prems by (metis Suc_less_eq append_Cons drop_Suc_Cons length_Cons)
  ultimately show ?case using Cons.IH by simp
qed

lemma find_sub_skip:
  assumes "p = c # q" "c \<notin> set a"
  shows "find_sub p (a @ p @ b) = Some (length a)"
proof (rule find_sub_first, intro allI impI)
  fix i assume "i < length a"
  then have "drop i (a @ p @ b) = a ! i # drop (Suc i) (a @ p @ b)"
    by (metis Cons_nth_drop_Suc length_append nth_append trans_less_add1)
  moreover have "a ! i \<noteq> c" using assms(2) \<open>i < length a\<close> nth_mem by blast
  ultimately show "\<not> prefix p (drop i (a @ p @ b))" using assms(1) by auto
qed

lemma find_sub_None: "c \<in> set p \<Longrightarrow> c \<notin> set s \<Longrightarrow> find_sub p s = None"
  by (induction s) (auto dest!: set_mono_prefix)

section \<open>Big-endian bytes\<close>

definition to_be_bytes :: "'a::len word \<Rightarrow> u8 list" where
  "to_be_bytes w = rev (to_le_bytes w)"

definition from_be_bytes :: "u8 list \<Rightarrow> 'a::len word" where
  "from_be_bytes bs = from_le_bytes (rev bs)"

lemma length_to_be_bytes [simp]: "length (to_be_bytes (w :: 'a::len word)) = LENGTH('a) div 8"
  by (simp add: to_be_bytes_def)

lemma from_to_be_bytes: "8 dvd LENGTH('a::len) \<Longrightarrow> from_be_bytes (to_be_bytes (w :: 'a word)) = w"
  by (simp add: from_be_bytes_def to_be_bytes_def from_to_le_bytes)

lemma unat_from_be16: "unat (from_be_bytes [a, b] :: u16) = unat a * 256 + unat b"
proof -
  have "unat a < 2 ^ LENGTH(8)" "unat b < 2 ^ LENGTH(8)" by (rule unsigned_less)+
  then have "unat a * 256 + unat b < 2 ^ 16" by simp
  moreover have "le_val_nat (rev [a, b]) = unat a * 256 + unat b" by simp
  ultimately show ?thesis
    unfolding from_be_bytes_def from_le_bytes_def by (simp only: unat_of_nat) simp
qed


lemma le_val_bound: "le_val_nat bs < 256 ^ length bs"
proof (induction bs)
  case (Cons b bs)
  have "unat b < 2 ^ LENGTH(8)" by (rule unsigned_less)
  then show ?case using Cons by simp
qed simp

lemma le_bytes_le_val: "le_bytes_nat (length bs) (le_val_nat bs) = bs"
proof (induction bs)
  case (Cons b bs)
  have "unat b < 2 ^ LENGTH(8)" by (rule unsigned_less)
  then have "(unat b + 256 * le_val_nat bs) div 256 = le_val_nat bs" by simp
  moreover have "(word_of_nat (unat b + 256 * le_val_nat bs) :: u8) = b"
  proof -
    have "(256 :: u8) = 0" by simp
    then have z: "(word_of_nat (256 * le_val_nat bs) :: u8) = 0"
      by (simp only: of_nat_mult of_nat_numeral mult_zero_left)
    show ?thesis by (simp only: of_nat_add z) simp
  qed
  ultimately show ?case using Cons by simp
qed simp

lemma to_from_le_bytes:
  assumes "8 * length bs = LENGTH('a::len)"
  shows "to_le_bytes (from_le_bytes bs :: 'a word) = bs"
proof -
  have l: "LENGTH('a) div 8 = length bs" using assms by simp
  have "(256 :: nat) ^ length bs = 2 ^ LENGTH('a)" by (simp add: assms [symmetric] power_mult)
  then have "unat (word_of_nat (le_val_nat bs) :: 'a word) = le_val_nat bs"
    using le_val_bound [of bs] by (simp add: unat_of_nat)
  then show ?thesis unfolding to_le_bytes_def from_le_bytes_def l by (simp add: le_bytes_le_val)
qed

lemma to_from_be_bytes: "8 * length bs = LENGTH('a::len) \<Longrightarrow> to_be_bytes (from_be_bytes bs :: 'a word) = bs"
  by (simp add: to_be_bytes_def from_be_bytes_def to_from_le_bytes)

end
