(* ===== verification/Net_Wire.thy ===== *)
theory Net_Wire
  imports Rust_Parse "HOL-Library.Monad_Syntax"
begin

text \<open>
  The formats of the network stack: Ethernet frames (\<open>net/ethernet.rs\<close>), ARP requests and the ARP cache
  (\<open>net/arp.rs\<close>), IPv4 addresses, masks and the header checksum (\<open>net/ipv4.rs\<close>), and the lease that DHCP
  leaves behind (\<open>net/dhcp.rs\<close>). A MAC address is a list of six bytes, an IPv4 address four bytes. The
  target is little-endian, so \<open>to_be\<close> and \<open>from_be\<close> exchange bytes. The loop of the checksum is a
  partial function, and that it returns is a theorem.
\<close>

datatype net_error =
    PayloadTooLarge
  | InvalidFrame
  | NotInitialized
  | FrameTooShort
  | UnsupportedDevice string
  | InitializationFailed string
  | NetOutOfMemory
  | QueueFull
  | NoHardware
  | ProtocolError string

fun net_error_display :: "net_error \<Rightarrow> string" where
  "net_error_display PayloadTooLarge = ''payload exceeds supported frame size''"
| "net_error_display InvalidFrame = ''invalid network frame''"
| "net_error_display NotInitialized = ''network subsystem not initialized''"
| "net_error_display FrameTooShort = ''frame is shorter than the protocol header''"
| "net_error_display (UnsupportedDevice reason) = ''unsupported network device: '' @ reason"
| "net_error_display (InitializationFailed reason) = ''network initialization failed: '' @ reason"
| "net_error_display NetOutOfMemory = ''network DMA allocation failed''"
| "net_error_display QueueFull = ''network transmit queue has no free descriptors''"
| "net_error_display NoHardware = ''no hardware network interface is available''"
| "net_error_display (ProtocolError message) = message"

section \<open>Ethernet\<close>

definition ETH_ALEN :: nat where
  "ETH_ALEN = 6"

definition ETH_HEADER_LEN :: nat where
  "ETH_HEADER_LEN = 14"

definition ETHERTYPE_ARP :: u16 where
  "ETHERTYPE_ARP = 0x0806"

definition swap_bytes :: "u16 \<Rightarrow> u16" where
  "swap_bytes w = from_le_bytes (to_be_bytes w)"

record ethernet_header =
  dst_mac :: "u8 list"
  src_mac :: "u8 list"
  eh_ethertype :: u16

record ethernet_frame =
  ef_header :: ethernet_header
  ef_payload :: "u8 list"

definition ethernet_new :: "u8 list \<Rightarrow> u8 list \<Rightarrow> u16 \<Rightarrow> u8 list \<Rightarrow> ethernet_frame" where
  "ethernet_new dst src ethertype payload =
    \<lparr>ef_header = \<lparr>dst_mac = dst, src_mac = src, eh_ethertype = swap_bytes ethertype\<rparr>, ef_payload = payload\<rparr>"

definition ethernet_parse :: "u8 list \<Rightarrow> net_error + ethernet_frame" where
  "ethernet_parse data =
    (if length data < ETH_HEADER_LEN then Err FrameTooShort
     else Ok \<lparr>ef_header = \<lparr>dst_mac = take ETH_ALEN data,
         src_mac = take ETH_ALEN (drop ETH_ALEN data),
         eh_ethertype = swap_bytes (from_be_bytes [data ! 12, data ! 13])\<rparr>,
       ef_payload = drop ETH_HEADER_LEN data\<rparr>)"

definition ethertype :: "ethernet_frame \<Rightarrow> u16" where
  "ethertype f = swap_bytes (eh_ethertype (ef_header f))"

definition ethernet_serialize :: "ethernet_frame \<Rightarrow> u8 list" where
  "ethernet_serialize f =
    dst_mac (ef_header f) @ src_mac (ef_header f) @ to_be_bytes (ethertype f) @ ef_payload f"

section \<open>IPv4\<close>

datatype ipv4_addr = Ipv4Addr u8 u8 u8 u8

fun octets :: "ipv4_addr \<Rightarrow> u8 list" where
  "octets (Ipv4Addr a b c d) = [a, b, c, d]"

definition addr_bits :: "ipv4_addr \<Rightarrow> u32" where
  "addr_bits a = from_be_bytes (octets a)"

fun parse_octets :: "nat \<Rightarrow> string list \<Rightarrow> (u8 list \<times> string list) option" where
  "parse_octets 0 parts = Some ([], parts)"
| "parse_octets (Suc n) [] = None"
| "parse_octets (Suc n) (part # parts) = do {
     octet \<leftarrow> parse_uint part;
     (octets, rest) \<leftarrow> parse_octets n parts;
     Some (octet # octets, rest) }"

definition ipv4_parse :: "string \<Rightarrow> ipv4_addr option" where
  "ipv4_parse value =
    (case parse_octets 4 (split_on (CHR ''.'') value) of
       Some ([a, b, c, d], []) \<Rightarrow> Some (Ipv4Addr a b c d)
     | _ \<Rightarrow> None)"

fun ipv4_display :: "ipv4_addr \<Rightarrow> string" where
  "ipv4_display (Ipv4Addr a b c d) = show_nat (unat a) @ ''.'' @ show_nat (unat b) @ ''.''
     @ show_nat (unat c) @ ''.'' @ show_nat (unat d)"

definition prefix_len_from_mask :: "ipv4_addr \<Rightarrow> u8" where
  "prefix_len_from_mask msk = sum_list (map (\<lambda>octet. word_of_nat (length (filter (bit octet) [0..<8]))) (octets msk))"

definition mask_octet :: "u8 \<Rightarrow> nat \<Rightarrow> u8" where
  "mask_octet prefix_len index =
    (let bits_remaining = unat (sat_sub prefix_len (word_of_nat index * 8)) in
     if bits_remaining = 0 then 0
     else if bits_remaining \<le> 7 then push_bit (8 - bits_remaining) (NOT 0)
     else 0xFF)"

definition mask_from_prefix_len :: "u8 \<Rightarrow> ipv4_addr" where
  "mask_from_prefix_len prefix_len = Ipv4Addr (mask_octet prefix_len 0) (mask_octet prefix_len 1)
    (mask_octet prefix_len 2) (mask_octet prefix_len 3)"

fun sum_words :: "u8 list \<Rightarrow> u32 \<Rightarrow> u32" where
  "sum_words [] s = s"
| "sum_words [a] s = s + ucast (from_be_bytes [a, 0] :: u16)"
| "sum_words (a # b # bs) s = sum_words bs (s + ucast (from_be_bytes [a, b] :: u16))"

partial_function (option) fold_carry :: "u32 \<Rightarrow> u32 option" where
  "fold_carry s = (if drop_bit 16 s \<noteq> 0 then fold_carry ((s AND 0xFFFF) + drop_bit 16 s) else Some s)"

definition ipv4_checksum :: "u8 list \<Rightarrow> u16 option" where
  "ipv4_checksum header = map_option (\<lambda>s. NOT (ucast s)) (fold_carry (sum_words header 0))"

definition format_cidr :: "ipv4_addr \<Rightarrow> u8 \<Rightarrow> string" where
  "format_cidr address prefix_len = ipv4_display address @ ''/'' @ show_nat (unat prefix_len)"

section \<open>The lease\<close>

record dhcp_config =
  dc_ip :: ipv4_addr
  dc_prefix_len :: u8
  dc_subnet_mask :: ipv4_addr
  dc_gateway :: "ipv4_addr option"
  dc_dns_server :: "ipv4_addr option"

definition is_on_link :: "dhcp_config \<Rightarrow> ipv4_addr \<Rightarrow> bool" where
  "is_on_link config address =
    (let msk = addr_bits (dc_subnet_mask config) in
     addr_bits (dc_ip config) AND msk = addr_bits address AND msk)"

definition can_reach :: "dhcp_config \<Rightarrow> ipv4_addr \<Rightarrow> bool" where
  "can_reach config address \<longleftrightarrow> is_on_link config address \<or> dc_gateway config \<noteq> None"

text \<open>The lease as the DHCP client reports it: address and prefix length, router, and name servers.\<close>

definition dhcp_config_from :: "ipv4_addr \<Rightarrow> u8 \<Rightarrow> ipv4_addr option \<Rightarrow> ipv4_addr list \<Rightarrow> dhcp_config" where
  "dhcp_config_from address prefix_len router dns_servers =
    \<lparr>dc_ip = address, dc_prefix_len = prefix_len, dc_subnet_mask = mask_from_prefix_len prefix_len,
     dc_gateway = router, dc_dns_server = (case dns_servers of [] \<Rightarrow> None | server # _ \<Rightarrow> Some server)\<rparr>"

section \<open>ARP\<close>

definition ARP_HEADER_LEN :: nat where
  "ARP_HEADER_LEN = 28"

definition ARP_ETHERNET :: u16 where
  "ARP_ETHERNET = 1"

definition ARP_IPV4 :: u16 where
  "ARP_IPV4 = 0x0800"

definition ARP_REQUEST :: u16 where
  "ARP_REQUEST = 1"

definition ARP_REPLY :: u16 where
  "ARP_REPLY = 2"

record arp_entry =
  ae_ip :: ipv4_addr
  ae_mac :: "u8 list"
  ae_timestamp_ms :: u64

type_synonym arp_cache = "arp_entry list"

definition arp_clear :: "arp_cache \<Rightarrow> arp_cache" where
  "arp_clear cache = []"

definition arp_lookup :: "ipv4_addr \<Rightarrow> arp_cache \<Rightarrow> u8 list option" where
  "arp_lookup ip cache = map_option ae_mac (find (\<lambda>entry. ae_ip entry = ip) cache)"

definition arp_insert :: "ipv4_addr \<Rightarrow> u8 list \<Rightarrow> u64 \<Rightarrow> arp_cache \<Rightarrow> arp_cache" where
  "arp_insert ip mac timestamp_ms cache =
    (if \<exists>entry\<in>set cache. ae_ip entry = ip
     then update_first (\<lambda>entry. ae_ip entry = ip) (\<lambda>entry. entry\<lparr>ae_mac := mac, ae_timestamp_ms := timestamp_ms\<rparr>) cache
     else cache @ [\<lparr>ae_ip = ip, ae_mac = mac, ae_timestamp_ms = timestamp_ms\<rparr>])"

definition addr_at :: "u8 list \<Rightarrow> nat \<Rightarrow> ipv4_addr" where
  "addr_at payload i = Ipv4Addr (payload ! i) (payload ! (i + 1)) (payload ! (i + 2)) (payload ! (i + 3))"

definition observe_frame :: "u8 list \<Rightarrow> u64 \<Rightarrow> arp_cache \<Rightarrow> arp_cache" where
  "observe_frame frame timestamp_ms cache =
    (case ethernet_parse frame of
       Inl _ \<Rightarrow> cache
     | Inr ethernet \<Rightarrow>
         let payload = ef_payload ethernet in
         if ethertype ethernet \<noteq> ETHERTYPE_ARP \<or> length payload < ARP_HEADER_LEN then cache
         else
           let hardware_type = from_be_bytes [payload ! 0, payload ! 1];
               protocol_type = from_be_bytes [payload ! 2, payload ! 3];
               operation = from_be_bytes [payload ! 6, payload ! 7] in
           if hardware_type \<noteq> ARP_ETHERNET \<or> protocol_type \<noteq> ARP_IPV4 then cache
           else if operation \<noteq> ARP_REQUEST \<and> operation \<noteq> ARP_REPLY then cache
           else arp_insert (addr_at payload 14) (take 6 (drop 8 payload)) timestamp_ms cache)"

definition build_request_frame :: "u8 list \<Rightarrow> ipv4_addr \<Rightarrow> ipv4_addr \<Rightarrow> u8 list" where
  "build_request_frame sender_mac sender_ip target_ip =
    ethernet_serialize (ethernet_new (replicate 6 0xFF) sender_mac ETHERTYPE_ARP
      (to_be_bytes ARP_ETHERNET @ to_be_bytes ARP_IPV4 @ [6, 4] @ to_be_bytes ARP_REQUEST @ sender_mac
        @ octets sender_ip @ replicate 6 0 @ octets target_ip))"


section \<open>Frames\<close>

lemma swap_bytes_swap [simp]: "swap_bytes (swap_bytes w) = w"
  by (simp add: swap_bytes_def to_be_bytes_def to_from_le_bytes from_to_le_bytes)

lemma ethertype_new [simp]: "ethertype (ethernet_new dst src t p) = t"
  by (simp add: ethertype_def ethernet_new_def)

lemma payload_new [simp]: "ef_payload (ethernet_new dst src t p) = p"
  by (simp add: ethernet_new_def)

lemma list_of_two: "length xs = 2 \<Longrightarrow> xs = [xs ! 0, xs ! Suc 0]"
  by (cases xs; cases "tl xs") auto

lemma two_bytes: "to_be_bytes (w :: u16) = [to_be_bytes w ! 0, to_be_bytes w ! Suc 0]"
  by (rule list_of_two) simp

lemma be_bytes_nth: "from_be_bytes [to_be_bytes w ! 0, to_be_bytes w ! Suc 0] = (w :: u16)"
  unfolding two_bytes [symmetric] by (rule from_to_be_bytes) simp

lemma serialize_new: "ethernet_serialize (ethernet_new dst src t p) = dst @ src @ to_be_bytes t @ p"
  by (simp add: ethernet_serialize_def ethernet_new_def ethertype_def)

lemma ethernet_parse_serialize:
  assumes "length dst = 6" "length src = 6"
  shows "ethernet_parse (ethernet_serialize (ethernet_new dst src t p)) = Ok (ethernet_new dst src t p)"
proof -
  let ?d = "dst @ src @ to_be_bytes t @ p"
  have n: "?d ! 12 = to_be_bytes t ! 0" "?d ! 13 = to_be_bytes t ! Suc 0"
    using assms by (simp_all add: nth_append)
  have "take 6 ?d = dst" "take 6 (drop 6 ?d) = src" "drop 14 ?d = p" "\<not> length ?d < 14"
    using assms by simp_all
  then show ?thesis
    unfolding serialize_new ethernet_parse_def ETH_HEADER_LEN_def ETH_ALEN_def n be_bytes_nth
    by (simp add: ethernet_new_def)
qed

lemma ethernet_serialize_parse:
  assumes "ethernet_parse data = Ok f"
  shows "ethernet_serialize f = data"
proof -
  have l: "14 \<le> length data" and f: "f = ethernet_new (take 6 data) (take 6 (drop 6 data))
      (from_be_bytes [data ! 12, data ! 13]) (drop 14 data)"
    using assms by (auto simp: ethernet_parse_def ETH_HEADER_LEN_def ETH_ALEN_def ethernet_new_def split: if_splits)
  have two: "take 2 (drop 12 data) = [data ! 12, data ! 13]"
    using l by (simp add: numeral_2_eq_2 take_Suc_conv_app_nth)
  have "take 2 (drop 12 data) @ drop 14 data = drop 12 data"
    using append_take_drop_id [of 2 "drop 12 data"] unfolding drop_drop by simp
  moreover have "take 6 (drop 6 data) @ drop 12 data = drop 6 data"
    using append_take_drop_id [of 6 "drop 6 data"] unfolding drop_drop by simp
  ultimately have parts: "take 6 data @ take 6 (drop 6 data) @ [data ! 12, data ! 13] @ drop 14 data = data"
    unfolding two [symmetric] by (metis append_take_drop_id)
  have bytes: "to_be_bytes (from_be_bytes [data ! 12, data ! 13] :: u16) = [data ! 12, data ! 13]"
    by (rule to_from_be_bytes) simp
  show ?thesis unfolding f serialize_new bytes by (rule parts)
qed


section \<open>The checksum\<close>

text \<open>The sum of the 16-bit words of a header, without a bound.\<close>

fun word_sum :: "u8 list \<Rightarrow> nat" where
  "word_sum [] = 0"
| "word_sum [a] = unat a * 256"
| "word_sum (a # b # bs) = unat a * 256 + unat b + word_sum bs"

lemma unat_byte: "unat (a :: u8) < 256"
  using unsigned_less [of a, where 'a = nat] by simp


lemma word_sum_le: "word_sum bs \<le> 65535 * ((length bs + 1) div 2)"
proof (induction bs rule: word_sum.induct)
  case (2 a)
  then show ?case using unat_byte [of a] by simp
next
  case (3 a b bs)
  have "unat a * 256 + unat b \<le> 65535" using unat_byte [of a] unat_byte [of b] by linarith
  moreover have "(length (a # b # bs) + 1) div 2 = Suc ((length bs + 1) div 2)" by simp
  ultimately show ?case using 3 by simp
qed simp

lemma unat_ucast_be16: "unat (ucast (from_be_bytes [a, b] :: u16) :: u32) = unat a * 256 + unat b"
proof -
  have "unat (ucast w :: u32) = unat w" for w :: u16 by (simp add: unsigned_ucast_eq take_bit_nat_eq_self_iff
      order_less_le_trans [OF unsigned_less])
  then show ?thesis by (simp add: unat_from_be16)
qed

lemma unat_sum_words:
  "unat s + word_sum bs < 2 ^ 32 \<Longrightarrow> unat (sum_words bs s) = unat s + word_sum bs"
proof (induction bs s rule: sum_words.induct)
  case (2 a s)
  then show ?case by (simp add: unat_add_no_wrap unat_ucast_be16)
next
  case (3 a b bs s)
  have "unat (s + ucast (from_be_bytes [a, b] :: u16)) = unat s + (unat a * 256 + unat b)"
    using 3(2) by (subst unat_add_no_wrap) (simp_all add: unat_ucast_be16)
  then show ?case using 3 by simp
qed simp

lemma unat_high: "unat (drop_bit 16 (s :: u32)) = unat s div 65536"
  unfolding unat_drop_bit_eq by (simp add: drop_bit_eq_div)

lemma carry_step:
  fixes s :: u32
  shows "unat ((s AND 0xFFFF) + drop_bit 16 s) = unat s mod 65536 + unat s div 65536"
proof -
  have "s AND 0xFFFF = take_bit 16 s" by (simp add: take_bit_eq_mask mask_eq_exp_minus_1)
  moreover have "unat (take_bit 16 s) = take_bit 16 (unat s)" by (rule unsigned_take_bit_eq)
  moreover have "take_bit 16 (unat s) = unat s mod 65536" by (simp add: take_bit_eq_mod)
  ultimately have a: "unat (s AND 0xFFFF) = unat s mod 65536" by simp
  note d = unat_high [of s]
  have "unat s < 2 ^ LENGTH(32)" by (rule unsigned_less)
  then have "unat s div 65536 < 65536" by (simp add: less_mult_imp_div_less)
  then have "unat s mod 65536 + unat s div 65536 < 2 ^ LENGTH(32)"
    using mod_less_divisor [of 65536 "unat s"] by simp
  then show ?thesis unfolding a [symmetric] d [symmetric] by (rule unat_add_no_wrap)
qed

lemma mod_65535_carry: "(n mod 65536 + n div 65536) mod 65535 = n mod (65535 :: nat)"
proof -
  have "n = (n mod 65536 + n div 65536) + 65535 * (n div 65536)"
    using div_mult_mod_eq [of n 65536] by linarith
  then show ?thesis by (metis mod_mult_self2)
qed

lemma fold_carry_returns:
  "\<exists>r. fold_carry s = Some r \<and> unat r < 65536 \<and> unat r mod 65535 = unat s mod 65535 \<and>
    (unat r = 0 \<longleftrightarrow> unat s = 0)"
proof (induction "unat s" arbitrary: s rule: less_induct)
  case less
  have "drop_bit 16 s = 0 \<longleftrightarrow> unat (drop_bit 16 s) = 0" by (rule unsigned_eq_0_iff [symmetric])
  moreover have "unat (drop_bit 16 s) = 0 \<longleftrightarrow> unat s < 65536" unfolding unat_high by (simp add: div_eq_0_iff)
  ultimately have d: "drop_bit 16 s = 0 \<longleftrightarrow> unat s < 65536" by (rule trans)
  show ?case
  proof (cases "unat s < 65536")
    case True
    then show ?thesis by (subst fold_carry.simps) (simp add: d)
  next
    case False
    let ?s = "(s AND 0xFFFF) + drop_bit 16 s"
    have "unat s mod 65536 + unat s div 65536 < unat s"
      using False div_mult_mod_eq [of "unat s" 65536] by linarith
    then have "unat ?s < unat s" unfolding carry_step .
    note IH = less [OF this]
    have "fold_carry s = fold_carry ?s" by (subst fold_carry.simps) (simp only: d False not_False_eq_True if_True)
    moreover have "unat ?s = 0 \<longleftrightarrow> unat s = 0" unfolding carry_step using False by (simp add: div_eq_0_iff)
    moreover have "unat ?s mod 65535 = unat s mod 65535" unfolding carry_step by (rule mod_65535_carry)
    ultimately show ?thesis using IH by (simp only:)
  qed
qed

lemma unat_not16: "unat (NOT w) = 65535 - unat (w :: u16)"
proof -
  have "uint (NOT w) = mask 16 - take_bit 16 (uint w)"
    by (simp add: unsigned_not_eq take_bit_not_eq_mask_diff)
  moreover have "uint w < 2 ^ LENGTH(16)" by (rule unsigned_less)
  ultimately have "uint (NOT w) = 65535 - uint w" by (simp add: mask_eq_exp_minus_1 take_bit_int_eq_self_iff)
  then show ?thesis by (metis nat_diff_distrib' nat_numeral unat_eq_nat_uint unsigned_greater_eq zero_le_numeral)
qed

lemma checksum_value:
  assumes "length bs \<le> 131074"
  shows "\<exists>c r. ipv4_checksum bs = Some c \<and> unat c + r = 65535 \<and> r mod 65535 = word_sum bs mod 65535 \<and>
    (r = 0 \<longleftrightarrow> word_sum bs = 0)"
proof -
  have "(length bs + 1) div 2 \<le> 65537" using assms by linarith
  then have "word_sum bs \<le> 65535 * 65537" using word_sum_le [of bs] by linarith
  then have s: "unat (sum_words bs 0) = word_sum bs" using unat_sum_words [of 0 bs] by simp
  from fold_carry_returns [of "sum_words bs 0", unfolded s]
  obtain r where r: "fold_carry (sum_words bs 0) = Some r" "unat r < 65536"
    "unat r mod 65535 = word_sum bs mod 65535" "unat r = 0 \<longleftrightarrow> word_sum bs = 0" by (elim exE conjE)
  have "unat (ucast r :: u16) = unat r" using r(2) by (simp add: unsigned_ucast_eq take_bit_nat_eq_self_iff)
  then have "unat (NOT (ucast r :: u16)) + unat r = 65535" using r(2) by (simp add: unat_not16)
  moreover have "ipv4_checksum bs = Some (NOT (ucast r))" by (simp add: ipv4_checksum_def r(1))
  ultimately show ?thesis using r(3,4) by (intro exI [of _ "NOT (ucast r)"] exI [of _ "unat r"] conjI)
qed


lemma word_sum_append: "even (length xs) \<Longrightarrow> word_sum (xs @ ys) = word_sum xs + word_sum ys"
  by (induction xs rule: word_sum.induct) auto

lemma word_sum_be: "word_sum (to_be_bytes (c :: u16) @ bs) = unat c + word_sum bs"
proof -
  obtain a b where ab: "to_be_bytes c = [a, b]" using two_bytes by metis
  have "unat (from_be_bytes [a, b] :: u16) = unat c" unfolding ab [symmetric] by (simp add: from_to_be_bytes)
  then show ?thesis by (simp add: ab unat_from_be16)
qed

text \<open>C39. The checksum loop returns for every header. A header with the checksum in the place of the two
  zero bytes it was computed over has checksum 0, so the receiver accepts it.\<close>

theorem ipv4_checksum_verifies:
  assumes "even (length before)" "length before + length after \<le> 131072"
  shows "\<exists>c. ipv4_checksum (before @ [0, 0] @ after) = Some c \<and>
    ipv4_checksum (before @ to_be_bytes c @ after) = Some 0"
proof -
  let ?s = "word_sum before + word_sum after"
  have "word_sum (before @ [0, 0] @ after) = ?s" using assms(1) by (simp add: word_sum_append)
  with checksum_value [of "before @ [0, 0] @ after"] assms(2) obtain c r
    where c: "ipv4_checksum (before @ [0, 0] @ after) = Some c" "unat c + r = 65535"
      "r mod 65535 = ?s mod 65535" "r = 0 \<longleftrightarrow> ?s = 0" by auto
  let ?h = "before @ to_be_bytes c @ after"
  have h: "word_sum ?h = ?s + unat c" using assms(1) by (simp add: word_sum_append word_sum_be)
  have "(?s + unat c) mod 65535 = (r + unat c) mod 65535" using c(3) by (metis mod_add_left_eq)
  then have z: "word_sum ?h mod 65535 = 0" unfolding h using c(2) by (simp add: add.commute)
  have nz: "word_sum ?h \<noteq> 0" unfolding h using c(2,4) by (metis add_is_0 zero_neq_numeral)
  obtain d q where d: "ipv4_checksum ?h = Some d" "unat d + q = 65535" "q mod 65535 = 0" "q \<noteq> 0"
    using checksum_value [of ?h] assms(2) z nz by auto
  then have "65535 dvd q" by presburger
  then have "65535 \<le> q" using d(4) by (simp add: dvd_imp_le)
  then have "unat d = 0" using d(2) by linarith
  then have "d = 0" by (simp add: unsigned_eq_0_iff)
  with c(1) d(1) show ?thesis by blast
qed

theorem ipv4_checksum_verifies_witness:
  "\<exists>c. ipv4_checksum ([0x45, 0, 0, 0x54] @ [0, 0] @ [0xC0, 0xA8, 0, 1]) = Some c \<and>
    ipv4_checksum ([0x45, 0, 0, 0x54] @ to_be_bytes c @ [0xC0, 0xA8, 0, 1]) = Some 0"
  by (rule ipv4_checksum_verifies) simp_all

section \<open>Addresses and masks\<close>

lemma dot_free: "CHR ''.'' \<notin> set (show_nat n)"
  by (rule show_nat_free) (simp add: is_ascii_digit_def byte_val_def)

lemma ipv4_parse_display: "ipv4_parse (ipv4_display a) = Some a"
proof (cases a)
  case (Ipv4Addr a1 a2 a3 a4)
  have "split_on (CHR ''.'') (ipv4_display a) =
      [show_nat (unat a1), show_nat (unat a2), show_nat (unat a3), show_nat (unat a4)]"
    by (simp add: Ipv4Addr split_on_append_sep split_on_no_sep dot_free)
  then show ?thesis by (simp add: ipv4_parse_def parse_uint_show numeral_eq_Suc Ipv4Addr)
qed

lemma addr_bits_eq:
  "addr_bits (Ipv4Addr a b c d) = ucast d + 256 * (ucast c + 256 * (ucast b + 256 * ucast a))"
  by (simp add: addr_bits_def from_be_bytes_def from_le_bytes_def)

lemma mask_bits_all:
  "\<forall>n\<in>set [0..<33]. addr_bits (mask_from_prefix_len (word_of_nat n)) = NOT (mask (32 - n)) \<and>
    prefix_len_from_mask (mask_from_prefix_len (word_of_nat n)) = word_of_nat n"
  by (simp add: upt_rec mask_from_prefix_len_def mask_octet_def sat_sub_def addr_bits_eq
      prefix_len_from_mask_def mask_eq_exp_minus_1 push_bit_eq_mult)
    (simp add: word_le_nat_alt)

lemma mask_bits:
  assumes "p \<le> 32"
  shows "addr_bits (mask_from_prefix_len p) = NOT (mask (32 - unat p))"
    and "prefix_len_from_mask (mask_from_prefix_len p) = p"
proof -
  have "unat p \<in> set [0..<33]" using assms by (simp add: word_le_nat_alt)
  from bspec [OF mask_bits_all this]
  show "addr_bits (mask_from_prefix_len p) = NOT (mask (32 - unat p))"
    "prefix_len_from_mask (mask_from_prefix_len p) = p" by simp_all
qed

lemma and_not_mask_eq_iff:
  fixes x y :: "'a::len word"
  shows "x AND NOT (mask k) = y AND NOT (mask k) \<longleftrightarrow> drop_bit k x = drop_bit k y"
proof
  assume eq: "x AND NOT (mask k) = y AND NOT (mask k)"
  show "drop_bit k x = drop_bit k y"
  proof (rule bit_word_eqI)
    fix n assume "n < LENGTH('a)"
    from arg_cong [OF eq, of "\<lambda>w. bit w (k + n)"] show "bit (drop_bit k x) n \<longleftrightarrow> bit (drop_bit k y) n"
      by (auto simp: bit_simps dest: bit_imp_le_length)
  qed
next
  assume eq: "drop_bit k x = drop_bit k y"
  show "x AND NOT (mask k) = y AND NOT (mask k)"
  proof (rule bit_word_eqI)
    fix n assume "n < LENGTH('a)"
    from arg_cong [OF eq, of "\<lambda>w. bit w (n - k)"]
    show "bit (x AND NOT (mask k)) n \<longleftrightarrow> bit (y AND NOT (mask k)) n"
      by (cases "n < k") (auto simp: bit_simps)
  qed
qed


text \<open>With a lease for a prefix of at most 32 bits, the mask computed from the length has that length, and
  an address counts as on-link exactly when it agrees with the own address in the bits of the prefix.\<close>

lemma on_link_iff_prefix:
  assumes "p \<le> 32"
  shows "prefix_len_from_mask (dc_subnet_mask (dhcp_config_from ip p router dns)) = p \<and>
    (is_on_link (dhcp_config_from ip p router dns) a \<longleftrightarrow>
      drop_bit (32 - unat p) (addr_bits ip) = drop_bit (32 - unat p) (addr_bits a))"
  using mask_bits [OF assms] by (simp add: is_on_link_def dhcp_config_from_def Let_def and_not_mask_eq_iff)

section \<open>The ARP cache\<close>

definition arp_ok :: "arp_cache \<Rightarrow> bool" where
  "arp_ok cache \<longleftrightarrow> distinct (map ae_ip cache) \<and> (\<forall>entry\<in>set cache. length (ae_mac entry) = 6)"

lemma arp_lookup_insert:
  "arp_lookup i (arp_insert ip mac now cache) = (if i = ip then Some mac else arp_lookup i cache)"
proof (cases "\<exists>entry\<in>set cache. ae_ip entry = ip")
  case True
  then obtain e where "find (\<lambda>entry. ae_ip entry = ip) cache = Some e" using find_exists [OF True] by blast
  moreover let ?f = "\<lambda>entry. entry\<lparr>ae_mac := mac, ae_timestamp_ms := now\<rparr>"
  have "find (\<lambda>entry. ae_ip entry = ip) (update_first (\<lambda>entry. ae_ip entry = ip) ?f cache)
      = map_option ?f (find (\<lambda>entry. ae_ip entry = ip) cache)"
    by (rule find_update_first_same) simp
  moreover have "find (\<lambda>entry. ae_ip entry = i) (update_first (\<lambda>entry. ae_ip entry = ip) ?f cache)
      = find (\<lambda>entry. ae_ip entry = i) cache" if "i \<noteq> ip"
    by (rule find_update_first_other [OF that]) simp
  ultimately show ?thesis using True by (simp add: arp_lookup_def arp_insert_def)
next
  case False
  then show ?thesis
    by (induction cache) (auto simp: arp_lookup_def arp_insert_def)
qed

lemma arp_insert_ok: "arp_ok cache \<Longrightarrow> length mac = 6 \<Longrightarrow> arp_ok (arp_insert ip mac now cache)"
  using set_update_first_subset [of "\<lambda>entry. ae_ip entry = ip"
      "\<lambda>entry. entry\<lparr>ae_mac := mac, ae_timestamp_ms := now\<rparr>" cache]
  by (auto simp: arp_ok_def arp_insert_def map_update_first_same)

lemma observe_frame_ok: "arp_ok cache \<Longrightarrow> arp_ok (observe_frame frame now cache)"
  by (auto simp: observe_frame_def Let_def ARP_HEADER_LEN_def intro!: arp_insert_ok split: sum.splits)

lemma arp_fields:
  "from_be_bytes [0, 1] = ARP_ETHERNET" "from_be_bytes [8, 0] = ARP_IPV4" "from_be_bytes [0, 1] = ARP_REQUEST"
  by (simp_all add: from_be_bytes_def from_le_bytes_def ARP_ETHERNET_def ARP_IPV4_def ARP_REQUEST_def)

lemma arp_bytes:
  "to_be_bytes ARP_ETHERNET = [0, 1]" "to_be_bytes ARP_IPV4 = [8, 0]" "to_be_bytes ARP_REQUEST = [0, 1]"
  unfolding arp_fields [symmetric] by (rule to_from_be_bytes, simp)+

lemma arp_request_ethernet: "ARP_REQUEST = ARP_ETHERNET"
  by (simp add: ARP_REQUEST_def ARP_ETHERNET_def)

lemma arp_packet_parts:
  assumes "p = [0, 1, 8, 0, 6, 4, 0, 1, m0, m1, m2, m3, m4, m5, a, b, c, d, 0, 0, 0, 0, 0, 0, a', b', c', d']"
  shows "take 6 (drop 8 p) = [m0, m1, m2, m3, m4, m5]" "addr_at p 14 = Ipv4Addr a b c d"
    "\<not> length p < ARP_HEADER_LEN" "[p ! 0, p ! 1] = [0, 1]" "[p ! 2, p ! 3] = [8, 0]" "[p ! 6, p ! 7] = [0, 1]"
  unfolding assms addr_at_def ARP_HEADER_LEN_def by simp_all

lemma observe_request:
  assumes "length mac = 6"
  shows "observe_frame (build_request_frame mac ip target) now cache = arp_insert ip mac now cache"
proof -
  obtain a b c d where ip: "ip = Ipv4Addr a b c d" by (cases ip)
  obtain a' b' c' d' where t: "target = Ipv4Addr a' b' c' d'" by (cases target)
  obtain m0 m1 m2 m3 m4 m5 where mac: "mac = [m0, m1, m2, m3, m4, m5]"
    using assms by (auto simp: numeral_eq_Suc length_Suc_conv)
  let ?p = "[0, 1, 8, 0, 6, 4, 0, 1, m0, m1, m2, m3, m4, m5, a, b, c, d, 0, 0, 0, 0, 0, 0, a', b', c', d']"
  have p: "to_be_bytes ARP_ETHERNET @ to_be_bytes ARP_IPV4 @ [6, 4] @ to_be_bytes ARP_REQUEST @ mac
      @ octets ip @ replicate 6 0 @ octets target = ?p"
    unfolding arp_bytes mac ip t by (simp add: numeral_eq_Suc)
  have "ethernet_parse (build_request_frame mac ip target)
      = Ok (ethernet_new (replicate 6 0xFF) mac ETHERTYPE_ARP ?p)"
    unfolding build_request_frame_def p by (rule ethernet_parse_serialize) (simp_all add: assms)
  then show ?thesis
    unfolding observe_frame_def mac ip
    by (simp only: sum.case Let_def ethertype_new payload_new arp_packet_parts [OF refl]
        arp_fields(1,2) arp_request_ethernet simp_thms if_False)
qed

text \<open>C40. An ARP request built by the stack teaches every receiver the sender's address and nothing else. Caches
  filled by observing frames hold at most one entry for an address.\<close>

theorem arp_request_teaches_sender:
  assumes "length mac = 6"
  shows "arp_lookup i (observe_frame (build_request_frame mac ip target) now (fold (\<lambda>(f, t). observe_frame f t) seen []))
      = (if i = ip then Some mac else arp_lookup i (fold (\<lambda>(f, t). observe_frame f t) seen [])) \<and>
    distinct (map ae_ip (fold (\<lambda>(f, t). observe_frame f t) seen []))"
proof
  have "arp_ok (fold (\<lambda>(f, t). observe_frame f t) seen cache)" if "arp_ok cache" for cache
    using that by (induction seen arbitrary: cache) (auto intro: observe_frame_ok)
  then show "distinct (map ae_ip (fold (\<lambda>(f, t). observe_frame f t) seen []))" by (simp add: arp_ok_def)
qed (simp add: observe_request [OF assms] arp_lookup_insert)

theorem arp_request_teaches_sender_witness:
  "arp_lookup (Ipv4Addr 10 0 2 15) (observe_frame (build_request_frame [2, 0, 0, 0, 0, 1] (Ipv4Addr 10 0 2 15) (Ipv4Addr 10 0 2 2)) 7
      (fold (\<lambda>(f, t). observe_frame f t) [([1, 2, 3], 5)] [])) =
     (if Ipv4Addr 10 0 2 15 = Ipv4Addr 10 0 2 15 then Some [2, 0, 0, 0, 0, 1]
      else arp_lookup (Ipv4Addr 10 0 2 15) (fold (\<lambda>(f, t). observe_frame f t) [([1, 2, 3], 5)] [])) \<and>
   distinct (map ae_ip (fold (\<lambda>(f, t). observe_frame f t) [([1, 2, 3], 5)] []))"
  by (rule arp_request_teaches_sender) simp

end
