(* ===== verification/Spec2Isabelle.thy ===== *)
theory Spec2Isabelle
  imports Audit_Log WarFS_Props User_Db Fs_Current Firewall Fd_Table Address_Space Process_Table
    Scheduler Capabilities Elf_Parser Frame_Alloc Disk_Reboot Pkg_Update_Props Quantum_Optimizer_Props Quantum_Depth
    Net_Wire
begin

text \<open>
  WarOS is a kernel in Rust with an in-memory file system, users and sessions, a firewall, an audit
  log, processes with capabilities, and a loader for ELF programs; crates for quantum circuits,
  cryptography and packages stand beside it. This development models the state-changing core of the
  kernel, the package crate and the circuits, simulator and optimizer of the quantum crate, and proves
  what makes them correct.

  \<^bold>\<open>Conventions.\<close> An unsigned integer of \<open>w\<close> bits is a \<open>w word\<close>; \<open>usize\<close> is a natural number with the
  limit written out where the code saturates. Additions the source leaves unchecked wrap, as they do
  in the release profile. Strings are lists of UTF-8 bytes. A \<open>Result\<close> is a sum, written \<open>Ok\<close> and
  \<open>Err\<close>. Each operation takes the state it locks and returns it updated. The tick counter is an
  argument \<open>now\<close>, read once per operation. SHA3-256, hardware entropy and the outcome of each
  \<open>try_lock\<close> are arguments.

  \<^bold>\<open>Theories and sources\<close> (below \<open>src/kernel/src\<close>).

  \<^item> \<open>Waros_Prelude\<close>, \<open>Rust_Str\<close>: types, saturating and checked arithmetic, results, byte encodings;
    the string functions of the Rust library the kernel uses.
  \<^item> \<open>Audit_Log\<close>: \<open>security/audit\<close>. The log is the last 10,000 events, consecutively numbered.
  \<^item> \<open>Auth_Types\<close>, \<open>User_Db\<close>, \<open>Session\<close>: \<open>auth/permissions.rs\<close>, \<open>users.rs\<close>, \<open>passwords.rs\<close>,
    \<open>session.rs\<close>, \<open>mod.rs\<close>. Invariant of the user database, login, save and load.
  \<^item> \<open>Fs_Path\<close>, \<open>WarFS\<close>, \<open>WarFS_Props\<close>, \<open>Fs_Current\<close>: \<open>fs/mod.rs\<close>. Normal form of paths and the
    agreement of the two normalisations; the file vector, its invariant over all reachable states,
    its refinement of a finite map, protection of files; the operations of the current user over
    file system, session, users and audit log. Disk effects are returned as requests. The locale
    \<open>file_store\<close> is the interface the user database relies on, interpreted by the file system.
  \<^item> \<open>Firewall\<close>: \<open>security/firewall\<close>. First-match rules and connection tracking over any history.
  \<^item> \<open>Handle_Table\<close>, \<open>Fd_Table\<close>, \<open>Process_Table\<close>: \<open>exec/fd_table.rs\<close>, \<open>exec/process.rs\<close> and the
    table of \<open>exec/mod.rs\<close>. Both tables interpret the locale \<open>handle_table\<close>.
  \<^item> \<open>Address_Space\<close>: \<open>exec/address_space.rs\<close>. Validity of user ranges and the place of the heap.
  \<^item> \<open>Scheduler\<close>: \<open>exec/scheduler.rs\<close>, \<open>exec/context.rs\<close>. Run queues and the timer tick.
  \<^item> \<open>Capabilities\<close>: \<open>security/capabilities.rs\<close>. The locale \<open>capability_transition\<close> collects the
    transitions that can only narrow a set.
  \<^item> \<open>Elf_Parser\<close>: \<open>exec/elf.rs\<close>. Accepted segments lie within the image.
  \<^item> \<open>Frame_Alloc\<close>: \<open>memory/physical.rs\<close>. The bitmap as the set of free frames.
  \<^item> \<open>Block_Cache\<close>: \<open>disk/cache.rs\<close>, \<open>disk/virtio_blk.rs\<close> and \<open>Disk\<close> of \<open>disk/mod.rs\<close>. The locale
    \<open>sector_store\<close> is the contract of a disk; the device and the cached disk both keep it.
  \<^item> \<open>Disk_Format\<close>, \<open>Disk_Persist\<close>: \<open>disk/format.rs\<close>, \<open>disk/persist.rs\<close> and the functions of
    \<open>disk/mod.rs\<close> that use them. Superblock and file table as bytes of sectors, block allocation,
    saving, deleting, loading. \<open>Disk_Persist_Props\<close> and \<open>Disk_Reboot\<close> show that a consistent disk is a
    map from paths to files, that saving and deleting are updates of it, that loading restores it,
    and that on a device without faults loading succeeds, and requests do when there is room.
  \<^item> \<open>War_Pkg\<close>: the crate \<open>crates/waros-pkg\<close>. Signed bundles; what verification guarantees about them.
  \<^item> \<open>Pkg_Resolver\<close>, \<open>Pkg_Manager\<close>: \<open>pkg/resolver.rs\<close>, \<open>mod.rs\<close>, \<open>installer.rs\<close>, \<open>registry.rs\<close>,
    \<open>signature.rs\<close>. Dependency resolution ends and returns an installation order; download,
    verification, installation and removal.
  \<^item> \<open>Pkg_Update\<close>, \<open>Pkg_Update_Props\<close>: \<open>pkg/update.rs\<close>. Offline updates with rollback record and boot
    health. Each operation implements a state machine, boots with and without a saved record included;
    every phase goes back to one kind of history; a rollback restores the files from before the update.
  \<^item> \<open>Rust_Parse\<close>, \<open>Net_Wire\<close>: \<open>net/ethernet.rs\<close>, \<open>net/arp.rs\<close>, \<open>net/ipv4.rs\<close>, \<open>net/dhcp.rs\<close> and the errors
    of \<open>net/mod.rs\<close>. Frames parse back to what was sent, the header checksum ends and verifies, printed
    addresses parse back, an address is on-link when it shares the prefix, and an ARP request teaches its
    sender's address.
  \<^item> \<open>Op_Loops\<close>, \<open>Quantum_Gate\<close>, \<open>Quantum_Circuit\<close>, \<open>Quantum_Circuit_Props\<close>: \<open>complex.rs\<close>, \<open>gate.rs\<close>,
    \<open>error.rs\<close>, \<open>circuit.rs\<close> and \<open>circuit/extensions.rs\<close> of \<open>crates/waros-quantum/src\<close>. The inductive
    predicate \<open>built\<close> collects the circuits a client can make, by any calls. Their targets are always
    valid; \<open>runnable\<close> is what the builder leaves unchecked (the matrix of a gate, the width of a
    conditional gate, the range of classical bits), and calls with arguments in range give it. The
    locale \<open>instruction_invariant\<close> holds the argument for both invariants.
    \<open>Quantum_Depth\<close>: the depth is the length of the longest chain of dependent gates.
  \<^item> \<open>State_Vector\<close>, \<open>State_Vector_Props\<close>, \<open>State_Vector_Layout\<close>: \<open>simulator/statevector.rs\<close>. The block
    kernels of both memory layouts act on every index as the matrix of the gate, whatever the order of
    the blocks. The locale \<open>block_kernel\<close> holds the argument once, for one and for two qubits.
  \<^item> \<open>Quantum_Simulator\<close>, \<open>Quantum_Simulator_Props\<close>, \<open>Quantum_Norm\<close>: \<open>simulator/mod.rs\<close>,
    \<open>simulator/trajectory.rs\<close>, \<open>noise.rs\<close>, \<open>result.rs\<close>. A run of a runnable circuit with fewer than 64
    qubits and at most \<open>isize::MAX\<close> classical bits does not panic and its counts add up; the final state
    is the product of the gates; with exact arithmetic its norm is 1.
  \<^item> \<open>Quantum_Optimizer\<close>, \<open>Quantum_Optimizer_Props\<close>: \<open>optimizer/mod.rs\<close>. Where the names of rotations
    carry their angles exactly, the optimised circuit acts alike on every state vector and register, and
    the statistics count the gates of both.
  \<^item> This theory: the file system and the disk together, over any sequence of operations whose disk
    requests succeed. A ghost set holds the paths whose mode on disk may lag behind memory.

  \<^bold>\<open>Floating point.\<close> The operations of \<open>f64\<close> are an argument, a record \<open>f64_ops\<close>. Theorems on panics, shapes
  and the order of operations hold for every such record; those on norms and on the optimizer are for
  \<open>exact_ops\<close>, arithmetic on the reals. The random generator, the allocator, the order in which
  parallel blocks run and the matrix-product backend are arguments as well. Bounds of 58 and 64 qubits
  are those of the vector in memory and of the shift \<open>1usize << n\<close>. A vector of more than \<open>isize::MAX\<close>
  bytes panics; running out of memory elsewhere than in the reservations of the state vector is not
  modelled.

  \<^bold>\<open>Where the code departs from its intent.\<close> Seven theorems describe behaviour the code cannot mean: a
  rejected mode change is applied, a dotted path evades the protection of home directories, a move
  onto itself deletes the file, user ids are shared when their counter is exhausted, added firewall
  rules never stop outbound packets, a tick drops a running process with slice left, and a circuit of 64
  or more qubits is simulated on too few amplitudes. Two lemmas of
  \<open>Disk_Persist_Props\<close> add that the longest paths are cut on disk and that a corrupt size panics at
  boot. A rollback does not look at the phase of the update, and a boot ignores that its record could
  not be saved.

  \<^bold>\<open>Loops and bounds.\<close> Functions are total, by structural recursion or by a termination proof (trimming
  and splitting of strings, the search for dependencies), except the carry loop of the header checksum:
  it is a partial function with result \<open>None\<close> for divergence, and a theorem shows that it returns. No
  fuel is used. The checksum theorem is for headers of at most 131074 bytes, whose sum fits 32 bits.
  The number of password rounds is the constant of the source.

  \<^bold>\<open>Not modelled.\<close> Device drivers, graphics, the login dialogue and the shell are input and output.
  Page tables are hardware state. The socket loops of the network stack drive the smoltcp crate and the
  hardware. System calls, the functions of \<open>exec/mod.rs\<close> that run and end processes, security
  policies and the vault, HTTP, OpenQASM, the matrix-product and density-matrix backends, the quantum
  algorithms and error correction are left out.
\<close>

section \<open>Memory and disk\<close>

text \<open>
  The file system returns the disk requests it issues, and \<open>disk/mod.rs\<close> serves them. A request is
  served when it reaches the disk and succeeds, and its path fits the name field.
\<close>

definition request_served :: "disk_request \<Rightarrow> disk \<Rightarrow> disk \<Rightarrow> bool" where
  "request_served q d d' \<longleftrightarrow> (case q of
     SyncEntry e \<Rightarrow> maybe_sync_file_entry e (Some d) = Some d'
       \<and> (is_persistable_path (fe_name e) \<longrightarrow> storable e \<and> fst (save_entry e d) = Ok ())
   | DeletePath p \<Rightarrow> maybe_delete_path p (Some d) = Some d'
       \<and> (is_persistable_path p \<longrightarrow> fst (delete_file_from_disk p d) = Ok ()))"

fun requests_served :: "disk_request list \<Rightarrow> disk \<Rightarrow> disk \<Rightarrow> bool" where
  "requests_served [] d d' \<longleftrightarrow> d' = d"
| "requests_served (q # qs) d d' \<longleftrightarrow> (\<exists>d1. request_served q d d1 \<and> requests_served qs d1 d')"

text \<open>
  A mode change that is rejected for its mode string has already changed the permissions in memory, and
  asks nothing of the disk. The state therefore carries, as a ghost, the set of paths whose mode on
  disk may lag behind: a rejected mode change puts its path there, and the next request that names
  the path takes it out. The disk mirrors the file system when, apart from the two generated files, it
  holds the same files, up to the permissions of the paths in that set.
\<close>

definition forget_mode :: "file_entry \<Rightarrow> file_entry" where
  "forget_mode e = e\<lparr>fe_permissions := perm_system\<rparr>"

definition same_file :: "bool \<Rightarrow> file_entry option \<Rightarrow> file_entry option \<Rightarrow> bool" where
  "same_file lags a b \<longleftrightarrow> (if lags then map_option forget_mode a = map_option forget_mode b else a = b)"

definition mirrors :: "string set \<Rightarrow> warfs \<Rightarrow> disk \<Rightarrow> bool" where
  "mirrors U fs d \<longleftrightarrow> fs_wf fs \<and> disk_wf d \<and> disk_table_ok (disk_content d)
    \<and> (\<forall>name. is_persistable_path name \<longrightarrow>
      same_file (name \<in> U) (disk_lookup (disk_content d) name) (fs_find name fs))"

fun request_path :: "disk_request \<Rightarrow> string" where
  "request_path (SyncEntry e) = fe_name e"
| "request_path (DeletePath p) = p"

definition mode_unsaved :: "string \<Rightarrow> fs_error + unit \<Rightarrow> string set" where
  "mode_unsaved name res = (case canonical_path name of
     Inl _ \<Rightarrow> {} | Inr c \<Rightarrow> if res = Err InvalidFilename then {c} else {})"

inductive stored_step :: "string set \<times> warfs \<times> disk \<Rightarrow> string set \<times> warfs \<times> disk \<Rightarrow> bool" where
  stored_write: "write_internal_owned now name data u r p ro fs = (res, fs', qs) \<Longrightarrow> requests_served qs d d' \<Longrightarrow>
    stored_step (U, fs, d) (U - request_path ` set qs, fs', d')"
| stored_seed: "seed_system now name data ro fs = (res, fs', qs) \<Longrightarrow> requests_served qs d d' \<Longrightarrow>
    stored_step (U, fs, d) (U - request_path ` set qs, fs', d')"
| stored_delete: "delete_as name u r fs = (res, fs', qs) \<Longrightarrow> requests_served qs d d' \<Longrightarrow>
    stored_step (U, fs, d) (U - request_path ` set qs, fs', d')"
| stored_chmod: "chmod_as name u r mode fs = (res, fs', qs) \<Longrightarrow> requests_served qs d d' \<Longrightarrow>
    stored_step (U, fs, d) (U - request_path ` set qs \<union> mode_unsaved name res, fs', d')"
| stored_create: "create_new_as now name data own p ro fs = (res, fs', qs) \<Longrightarrow> requests_served qs d d' \<Longrightarrow>
    stored_step (U, fs, d) (U - request_path ` set qs, fs', d')"

text \<open>The requests of an operation say what it changed, apart from the modes of the paths in \<open>M\<close>.\<close>

definition describes :: "string set \<Rightarrow> disk_request list \<Rightarrow> warfs \<Rightarrow> warfs \<Rightarrow> bool" where
  "describes M qs fs fs' \<longleftrightarrow> (qs = [] \<and> (\<forall>p. same_file (p \<in> M) (fs_find p fs') (fs_find p fs)))
    \<or> (\<exists>e. qs = [SyncEntry e] \<and> (\<forall>p. fs_find p fs' = (if p = fe_name e then Some e else fs_find p fs)))
    \<or> (\<exists>c. qs = [DeletePath c] \<and> (\<forall>p. fs_find p fs' = (if p = c then None else fs_find p fs)))"

lemma same_file_refl [simp]: "same_file b a a"
  by (simp add: same_file_def)

lemma same_file_mono: "same_file b x y \<Longrightarrow> (b \<Longrightarrow> b') \<Longrightarrow> same_file b' x y"
  by (auto simp: same_file_def split: if_splits)

lemma same_file_trans: "same_file b x y \<Longrightarrow> same_file b' y z \<Longrightarrow> same_file (b \<or> b') x z"
  by (auto simp: same_file_def split: if_splits)

lemma describes_update:
  assumes "fs_find c fs = Some e" and "\<And>e. fe_name (f e) = fe_name e"
  shows "describes M (sync_request c (fs_find_mut c f fs)) fs (fs_find_mut c f fs)"
proof -
  have "fe_name (f e) = c" using assms fs_find_name by auto
  then show ?thesis using assms by (simp add: describes_def sync_request_def fs_find_fs_find_mut)
qed

lemma describes_insert:
  assumes "fs_wf fs" and "insertable c data fs" and "fe_name e = c"
  shows "describes M (sync_request c (push_sorted e fs)) fs (push_sorted e fs)"
proof -
  have "fs_find p (push_sorted e fs) = (if p = fe_name e then Some e else fs_find p fs)" for p
    using fs_find_push_sorted [OF fs_wf_distinct [OF assms(1)]] assms(2,3) by (simp add: insertable_def)
  then show ?thesis using assms(3) by (simp add: describes_def sync_request_def)
qed

lemma describes_none: "describes M [] fs fs"
  by (simp add: describes_def)

lemma sync_keeps_mirror:
  assumes "mirrors U fs d" and "request_served (SyncEntry e) d d'" and "fs_wf fs'"
    and "\<And>p. fs_find p fs' = (if p = fe_name e then Some e else fs_find p fs)"
  shows "mirrors (U - {fe_name e}) fs' d'"
proof (cases "is_persistable_path (fe_name e)")
  case False
  then show ?thesis
    using assms by (auto simp: request_served_def maybe_sync_file_entry_def mirrors_def)
next
  case True
  then have "storable e" "save_entry e d = (Ok (), d')"
    using assms(2) by (auto simp: request_served_def maybe_sync_file_entry_def prod_eq_iff)
  from save_entry_Ok [OF _ _ this] assms show ?thesis by (simp add: mirrors_def)
qed

lemma delete_keeps_mirror:
  assumes "mirrors U fs d" and "request_served (DeletePath c) d d'" and "fs_wf fs'"
    and "\<And>p. fs_find p fs' = (if p = c then None else fs_find p fs)"
  shows "mirrors (U - {c}) fs' d'"
proof (cases "is_persistable_path c")
  case False
  then show ?thesis
    using assms by (auto simp: request_served_def maybe_delete_path_def mirrors_def)
next
  case True
  then have "delete_file_from_disk c d = (Ok (), d')"
    using assms(2) by (auto simp: request_served_def maybe_delete_path_def prod_eq_iff)
  from delete_file_Ok [OF _ _ this] assms show ?thesis by (simp add: mirrors_def)
qed

lemma mirrors_mono: "mirrors U fs d \<Longrightarrow> U \<subseteq> V \<Longrightarrow> mirrors V fs d"
  unfolding mirrors_def using same_file_mono by (meson subsetD)

lemma modes_keep_mirror:
  assumes "mirrors U fs d" and "\<And>p. same_file (p \<in> M) (fs_find p fs') (fs_find p fs)" and "fs_wf fs'"
  shows "mirrors (U \<union> M) fs' d"
proof -
  have "same_file (p \<in> U \<union> M) x (fs_find p fs')" if "same_file (p \<in> U) x (fs_find p fs)" for p x
    using same_file_trans [OF that, of "p \<in> M" "fs_find p fs'"] assms(2) [of p] by (auto simp: same_file_def split: if_splits)
  then show ?thesis using assms(1,3) by (simp add: mirrors_def)
qed

lemma request_keeps_mirror:
  assumes "mirrors U fs d" and "describes M qs fs fs'" and "requests_served qs d d'" and "fs_wf fs'"
  shows "mirrors (U - request_path ` set qs \<union> M) fs' d'"
proof -
  from assms(2) consider "qs = []" "\<And>p. same_file (p \<in> M) (fs_find p fs') (fs_find p fs)"
    | e where "qs = [SyncEntry e]" "\<And>p. fs_find p fs' = (if p = fe_name e then Some e else fs_find p fs)"
    | c where "qs = [DeletePath c]" "\<And>p. fs_find p fs' = (if p = c then None else fs_find p fs)"
    by (auto simp: describes_def)
  then show ?thesis
  proof cases
    case 1
    then show ?thesis using modes_keep_mirror [OF assms(1) 1(2) assms(4)] assms(3) by simp
  next
    case (2 e)
    then have "mirrors (U - {fe_name e}) fs' d'"
      using sync_keeps_mirror [OF assms(1) _ assms(4) 2(2)] assms(3) by simp
    then show ?thesis by (rule mirrors_mono) (simp add: 2(1))
  next
    case (3 c)
    then have "mirrors (U - {c}) fs' d'"
      using delete_keeps_mirror [OF assms(1) _ assms(4) 3(2)] assms(3) by simp
    then show ?thesis by (rule mirrors_mono) (simp add: 3(1))
  qed
qed

lemma write_describes:
  assumes "fs_wf fs" and "write_internal_owned now name data u r p ro fs = (res, fs', qs)"
  shows "describes {} qs fs fs'"
  using write_internal_owned_outcome [of now name data u r p ro fs] assms(2)
  by (auto simp: Let_def describes_none intro!: describes_update describes_insert [OF assms(1)])

lemma seed_describes:
  assumes "fs_wf fs" and "seed_system now name data ro fs = (res, fs', qs)"
  shows "describes {} qs fs fs'"
  using seed_system_outcome [of now name data ro fs] assms(2)
  by (auto simp: Let_def describes_none intro!: describes_update describes_insert [OF assms(1)])

lemma create_describes:
  assumes "fs_wf fs" and "create_new_as now name data own p ro fs = (res, fs', qs)"
  shows "describes {} qs fs fs'"
  using create_new_as_outcome [of now name data own p ro fs] assms(2)
  by (auto simp: Let_def describes_none intro!: describes_update describes_insert [OF assms(1)])

lemma delete_describes:
  assumes "fs_wf fs" and "delete_as name u r fs = (res, fs', qs)"
  shows "describes {} qs fs fs'"
  using delete_as_outcome [of name u r fs] assms(2) fs_find_remove [OF fs_wf_distinct [OF assms(1)]]
  by (auto simp: describes_def)

lemma chmod_describes:
  assumes "chmod_as name u r mode fs = (res, fs', qs)"
  shows "describes (mode_unsaved name res) qs fs fs'"
proof (cases res)
  case (Inl e)
  from chmod_as_error [OF assms [unfolded Inl]] consider "qs = []" "fs' = fs"
    | c f where "qs = []" "canonical_path name = Ok c" "e = InvalidFilename"
      "fs' = fs_find_mut c (\<lambda>entry. entry\<lparr>fe_permissions := f entry\<rparr>) fs" by blast
  then show ?thesis
  proof cases
    case (2 c f)
    have "map_option forget_mode (map_option (\<lambda>entry. entry\<lparr>fe_permissions := f entry\<rparr>) x) = map_option forget_mode x"
      for x by (cases x) (simp_all add: forget_mode_def)
    then have "same_file (p = c) (fs_find p fs') (fs_find p fs)" for p
      by (simp add: 2(4) fs_find_fs_find_mut same_file_def)
    then show ?thesis using 2 Inl by (simp add: describes_def mode_unsaved_def)
  qed (simp add: describes_none)
next
  case (Inr u)
  then show ?thesis
    using assms describes_update [where f = "\<lambda>e. e\<lparr>fe_permissions := fst (apply_mode_string mode (fe_permissions e))\<rparr>"]
    by (auto simp: chmod_as_def Let_def split: sum.splits option.splits if_splits)
qed

lemma stored_step_mirrors:
  assumes "stored_step (U, fs, d) (U', fs', d')" and m: "mirrors U fs d"
  shows "mirrors U' fs' d'"
proof -
  have wf: "fs_wf fs" using m by (simp add: mirrors_def)
  from assms(1) obtain M qs where "describes M qs fs fs'" "requests_served qs d d'" "fs_step fs fs'"
    and U': "U' = U - request_path ` set qs \<union> M"
  proof cases
    case (stored_write now name data u r p ro res qs)
    then show ?thesis using that write_describes [OF wf] step_write by (metis Un_empty_right fst_conv snd_conv)
  next
    case (stored_seed now name data ro res qs)
    then show ?thesis using that seed_describes [OF wf] step_seed by (metis Un_empty_right fst_conv snd_conv)
  next
    case (stored_delete name u r res qs)
    then show ?thesis using that delete_describes [OF wf] step_delete by (metis Un_empty_right fst_conv snd_conv)
  next
    case (stored_chmod name u r mode res qs)
    then show ?thesis using that chmod_describes step_chmod by (metis fst_conv snd_conv)
  next
    case (stored_create now name data own p ro res qs)
    then show ?thesis using that create_describes [OF wf] step_create by (metis Un_empty_right fst_conv snd_conv)
  qed
  then show ?thesis unfolding U' using request_keeps_mirror [OF m] fs_step_wf [OF _ wf] by blast
qed

text \<open>
  C3. Files survive a reboot. Start from a state in which the disk mirrors the file system, and run any
  sequence of writes, seedings, deletions, mode changes and creations, successful or not, under the
  condition that each request they make of the disk succeeds and that each file saved has a path
  that fits the name field on disk (below 96 bytes). Then the disk still mirrors the file system, and
  a fresh boot that loads the disk with success finds every file other than the two generated ones as it
  was, except for the permissions of a file with a mode change that was rejected for its mode string and
  that no saved change of the file followed: the rejected change is in memory but not on disk. On a
  device without faults with a valid superblock the load does succeed.
\<close>

theorem files_survive_reboot:
  assumes "stored_step\<^sup>*\<^sup>* (U, fs, d) (U', fs', d')" and "mirrors U fs d"
  shows "mirrors U' fs' d'
    \<and> (in_service d' \<longrightarrow> (\<exists>n d'' fs''. load_filesystem d' warfs_new = (Some (Ok n), d'', fs'')))
    \<and> (\<forall>n d'' fs''. load_filesystem d' warfs_new = (Some (Ok n), d'', fs'') \<longrightarrow>
      (\<forall>name. is_persistable_path name \<longrightarrow>
        (name \<notin> U' \<longrightarrow> fs_find name fs'' = fs_find name fs')
        \<and> map_option forget_mode (fs_find name fs'') = map_option forget_mode (fs_find name fs')))"
proof -
  have m: "mirrors U' fs' d'"
    using assms by (induction "(U', fs', d')" arbitrary: U' fs' d' rule: rtranclp_induct)
      (auto intro: stored_step_mirrors)
  have same: "same_file (name \<in> U') (disk_lookup (disk_content d') name) (fs_find name fs')"
    if "is_persistable_path name" for name using m that by (simp add: mirrors_def)
  have "file_size fs' name = Some (length (fe_data f))"
    if "is_persistable_path name" "disk_lookup (disk_content d') name = Some f" for name f
  proof -
    have "map_option forget_mode (fs_find name fs') = Some (forget_mode f)"
      using same [OF that(1)] that(2) by (cases "fs_find name fs'") (auto simp: same_file_def split: if_splits)
    then obtain g where "fs_find name fs' = Some g" "forget_mode g = forget_mode f" by auto
    moreover from this(2) have "fe_data g = fe_data f" by (cases f, cases g) (simp add: forget_mode_def)
    ultimately show ?thesis by (simp add: file_size_def)
  qed
  then have "in_service d' \<longrightarrow> (\<exists>n d'' fs''. load_filesystem d' warfs_new = (Some (Ok n), d'', fs''))"
    using load_succeeds [of d' fs'] m by (auto simp: mirrors_def)
  moreover have "(name \<notin> U' \<longrightarrow> fs_find name fs'' = fs_find name fs')
      \<and> map_option forget_mode (fs_find name fs'') = map_option forget_mode (fs_find name fs')"
    if "load_filesystem d' warfs_new = (Some (Ok n), d'', fs'')" "is_persistable_path name" for n d'' fs'' name
  proof -
    have "fs_find name warfs_new = None" by (simp add: warfs_new_def fs_find_def)
    then have "fs_find name fs'' = disk_lookup (disk_content d') name"
      using m load_restores [OF _ _ fs_wf_new that(1)] that(2) by (auto simp: mirrors_def)
    then show ?thesis using same [OF that(2)] by (auto simp: same_file_def split: if_splits)
  qed
  ultimately show ?thesis using m by blast
qed

theorem files_survive_reboot_witness:
  "\<exists>fs d n d' fs'. stored_step ({}, warfs_new, formatted_disk) ({}, fs, d)
    \<and> load_filesystem d warfs_new = (Some (Ok n), d', fs') \<and> fs_find ''/etc/motd'' fs' = Some sample_file"
proof -
  let ?fs = "push_sorted sample_file warfs_new"
  obtain d n d' fs' where 1: "save_entry sample_file formatted_disk = (Ok (), d)"
    and 2: "load_filesystem d warfs_new = (Some (Ok n), d', fs')" by (rule sample_loaded)
  have path: "canonical_path ''/etc/motd'' = Ok ''/etc/motd''" by code_simp
  have "write_internal_owned 3 ''/etc/motd'' [104, 105] 7 User (fe_permissions sample_file) False warfs_new
    = (Ok (), ?fs, [SyncEntry sample_file])"
    by (simp add: write_internal_owned_def path sample_file_def warfs_new_def MAX_FILE_SIZE_def TOTAL_CAPACITY_def MAX_FILES_def
        used_without_target_def fs_find_def usize_sat_add_def Let_def sync_request_def push_sorted_def)
  moreover have "fe_name sample_file = ''/etc/motd''" by (simp add: sample_file_def)
  then have "requests_served [SyncEntry sample_file] formatted_disk d"
    using 1 sample_file_storable by (simp add: request_served_def maybe_sync_file_entry_def is_persistable_path_def)
  ultimately have "stored_step ({}, warfs_new, formatted_disk) ({} - request_path ` set [SyncEntry sample_file], ?fs, d)"
    by (rule stored_write)
  then have step: "stored_step ({}, warfs_new, formatted_disk) ({}, ?fs, d)" by simp
  have "mirrors {} warfs_new formatted_disk"
    using fs_wf_new in_serviceD(3) [OF formatted_in_service] formatted_table_ok formatted_lookup
    by (simp add: mirrors_def warfs_new_def fs_find_def)
  from files_survive_reboot [OF r_into_rtranclp, OF step this] 2
  have "fs_find ''/etc/motd'' fs' = fs_find ''/etc/motd'' ?fs" by (simp add: is_persistable_path_def)
  also have "\<dots> = Some sample_file" by (simp add: push_sorted_def warfs_new_def fs_find_def sample_file_def)
  finally show ?thesis using step 2 by blast
qed

end
